(* ===== verification/Prelude.thy ===== *)
theory Prelude
  imports Main "HOL-Library.Char_ord" "HOL-Library.List_Lexorder" "HOL-Library.Product_Lexorder"
begin

text \<open>
  What every component shares: the errors a handler can raise, the transactions of the Prisma
  client, a database table as a list of rows with the operations \<open>findFirst\<close>, \<open>count\<close>,
  \<open>updateMany\<close> and \<open>deleteMany\<close>, the JavaScript string and array functions the services call,
  and the lemmas about them. A table keeps its rows in the order of their insertion.
\<close>

named_theorems table_simps \<open>rewriting of the table operations\<close>

section \<open>Errors and transactions\<close>

text \<open>
  \<open>HttpError\<close> is a NestJS exception with its status, its stable code (empty when the exception
  carries only a message), its message and the numeric details some bodies hold.
  \<open>AiProviderError\<close> is the class of \<open>src/ai/ai-provider.interface.ts\<close> with its code, its
  \<open>retryable\<close> flag, its message and the provider request id; the diagnostics are only logged and
  are left out. \<open>PrismaError\<close> is a \<open>PrismaClientKnownRequestError\<close> by its code, \<open>PlainError\<close> a
  bare \<open>Error\<close>.
\<close>

datatype exn =
    HttpError nat string string "(string \<times> int) list"
  | AiProviderError string bool string "string option"
  | PrismaError string
  | PlainError string

type_synonym 'a result = "exn + 'a"

text \<open>The helpers of \<open>src/common/errors/api-error.ts\<close>.\<close>

definition conflict :: "string \<Rightarrow> string \<Rightarrow> exn" where
  "conflict code message = HttpError 409 code message []"

definition notFound :: "string \<Rightarrow> string \<Rightarrow> exn" where
  "notFound code message = HttpError 404 code message []"

definition forbidden :: "string \<Rightarrow> string \<Rightarrow> exn" where
  "forbidden code message = HttpError 403 code message []"

definition unavailable :: "string \<Rightarrow> string \<Rightarrow> exn" where
  "unavailable code message = HttpError 503 code message []"

definition tooManyRequests :: "string \<Rightarrow> string \<Rightarrow> exn" where
  "tooManyRequests code message = HttpError 429 code message []"

lemmas api_error_defs = conflict_def notFound_def forbidden_def unavailable_def tooManyRequests_def

text \<open>
  The body of an interactive transaction maps a state to an error or to a value and the new
  state; \<open>run_tx\<close> is \<open>$transaction\<close>: an error leaves the state as it was.
\<close>

type_synonym ('s, 'a) tx = "'s \<Rightarrow> exn + ('a \<times> 's)"

definition run_tx :: "('s, 'a) tx \<Rightarrow> 's \<Rightarrow> (exn + 'a) \<times> 's" where
  "run_tx body s = (case body s of Inl e \<Rightarrow> (Inl e, s) | Inr (x, s') \<Rightarrow> (Inr x, s'))"

lemma run_tx_Inl [simp]: "body s = Inl e \<Longrightarrow> run_tx body s = (Inl e, s)"
  by (simp add: run_tx_def)

lemma run_tx_Inr [simp]: "body s = Inr (x, s') \<Longrightarrow> run_tx body s = (Inr x, s')"
  by (simp add: run_tx_def)

lemma run_tx_error_rolls_back: "run_tx body s = (Inl e, s') \<Longrightarrow> s' = s"
  by (auto simp: run_tx_def split: sum.splits prod.splits)

text \<open>
  Sequencing of fallible steps: the rest runs on the value, and an exception skips it. \<open>guardE\<close> is
  an \<open>if (!c) throw e\<close>.
\<close>

definition bindE :: "'a result \<Rightarrow> ('a \<Rightarrow> 'b result) \<Rightarrow> 'b result" where
  "bindE r f = (case r of Inl e \<Rightarrow> Inl e | Inr x \<Rightarrow> f x)"

definition guardE :: "bool \<Rightarrow> exn \<Rightarrow> unit result" where
  "guardE c e = (if c then Inr () else Inl e)"

definition fromOption :: "exn \<Rightarrow> 'a option \<Rightarrow> 'a result" where
  "fromOption e x = (case x of None \<Rightarrow> Inl e | Some y \<Rightarrow> Inr y)"

lemma bindE_simps [simp]: "bindE (Inl e) f = Inl e" "bindE (Inr x) f = f x"
  by (simp_all add: bindE_def)

lemma bindE_Inr_iff: "bindE r f = Inr y \<longleftrightarrow> (\<exists>x. r = Inr x \<and> f x = Inr y)"
  by (cases r) simp_all

lemma bindE_InrE:
  assumes "bindE r f = Inr y"
  obtains x where "r = Inr x" "f x = Inr y"
  using assms by (auto simp: bindE_Inr_iff)

lemma bindE_Inl_iff: "bindE r f = Inl e \<longleftrightarrow> r = Inl e \<or> (\<exists>x. r = Inr x \<and> f x = Inl e)"
  by (cases r) simp_all

lemma guardE_simps [simp]: "guardE True e = Inr ()" "guardE False e = Inl e"
  by (simp_all add: guardE_def)

lemma guardE_Inr_iff: "guardE c e = Inr u \<longleftrightarrow> c"
  by (simp add: guardE_def)

lemma guardE_Inl_iff: "guardE c e = Inl x \<longleftrightarrow> \<not> c \<and> x = e"
  by (auto simp: guardE_def)

lemma fromOption_simps [simp]: "fromOption e None = Inl e" "fromOption e (Some x) = Inr x"
  by (simp_all add: fromOption_def)

lemma fromOption_Inr_iff: "fromOption e x = Inr y \<longleftrightarrow> x = Some y"
  by (cases x) simp_all

lemmas result_iffs = bindE_Inr_iff bindE_Inl_iff guardE_Inr_iff guardE_Inl_iff fromOption_Inr_iff

section \<open>Tables\<close>

definition count_where :: "('r \<Rightarrow> bool) \<Rightarrow> 'r list \<Rightarrow> nat" where
  "count_where p rows = length (filter p rows)"

definition update_where :: "('r \<Rightarrow> bool) \<Rightarrow> ('r \<Rightarrow> 'r) \<Rightarrow> 'r list \<Rightarrow> 'r list" where
  "update_where p f rows = map (\<lambda>r. if p r then f r else r) rows"

definition delete_where :: "('r \<Rightarrow> bool) \<Rightarrow> 'r list \<Rightarrow> 'r list" where
  "delete_where p rows = filter (\<lambda>r. \<not> p r) rows"

definition find_first :: "('r \<Rightarrow> bool) \<Rightarrow> 'r list \<Rightarrow> 'r option" where
  "find_first p rows = List.find p rows"

definition exists_where :: "('r \<Rightarrow> bool) \<Rightarrow> 'r list \<Rightarrow> bool" where
  "exists_where p rows = list_ex p rows"

lemma exists_where_iff [simp]: "exists_where p rows \<longleftrightarrow> (\<exists>r \<in> set rows. p r)"
  by (simp add: exists_where_def list_ex_iff)

lemma count_where_Nil [simp, table_simps]: "count_where p [] = 0"
  by (simp add: count_where_def)

lemma count_where_Cons [table_simps]:
  "count_where p (r # rows) = (if p r then Suc (count_where p rows) else count_where p rows)"
  by (simp add: count_where_def)

lemma count_where_append [simp, table_simps]:
  "count_where p (xs @ ys) = count_where p xs + count_where p ys"
  by (simp add: count_where_def)

lemma count_where_0_iff: "count_where p rows = 0 \<longleftrightarrow> (\<forall>r \<in> set rows. \<not> p r)"
  by (simp add: count_where_def filter_empty_conv)

lemma count_where_cong:
  "(\<And>r. r \<in> set rows \<Longrightarrow> p r = q r) \<Longrightarrow> count_where p rows = count_where q rows"
  unfolding count_where_def by (metis filter_cong)

lemma count_where_mono:
  "(\<And>r. r \<in> set rows \<Longrightarrow> p r \<Longrightarrow> q r) \<Longrightarrow> count_where p rows \<le> count_where q rows"
  by (induction rows) (auto simp: count_where_Cons le_SucI)

lemma update_where_Nil [simp]: "update_where p f [] = []"
  by (simp add: update_where_def)

lemma update_where_Cons [table_simps]:
  "update_where p f (r # rows) = (if p r then f r else r) # update_where p f rows"
  by (simp add: update_where_def)

lemma length_update_where [simp]: "length (update_where p f rows) = length rows"
  by (simp add: update_where_def)

lemma in_update_where:
  "x \<in> set (update_where p f rows) \<longleftrightarrow>
     (\<exists>r \<in> set rows. x = (if p r then f r else r))"
  by (auto simp: update_where_def)

lemma ball_update_where:
  "(\<forall>x \<in> set (update_where p f rows). q x) \<longleftrightarrow> (\<forall>r \<in> set rows. q (if p r then f r else r))"
  unfolding update_where_def set_map by blast

lemma update_where_no_match:
  "(\<And>r. r \<in> set rows \<Longrightarrow> \<not> p r) \<Longrightarrow> update_where p f rows = rows"
  by (simp add: update_where_def map_idI)

lemma map_update_where [simp]:
  "(\<And>r. k (f r) = k r) \<Longrightarrow> map k (update_where p f rows) = map k rows"
  by (simp add: update_where_def)

lemma image_update_where:
  "(\<And>r. k (f r) = k r) \<Longrightarrow> k ` set (update_where p f rows) = k ` set rows"
  by (simp flip: set_map)

lemma ex_update_where:
  assumes "\<And>r. k (f r) = k r"
  shows "(\<exists>x \<in> set (update_where p f rows). k x = i) \<longleftrightarrow> (\<exists>x \<in> set rows. k x = i)"
  using image_update_where [of k f p rows] assms by (metis image_iff)

lemma count_update_where_inv:
  "(\<And>r. r \<in> set rows \<Longrightarrow> p r \<Longrightarrow> q (f r) = q r) \<Longrightarrow>
     count_where q (update_where p f rows) = count_where q rows"
  by (induction rows) (auto simp: count_where_Cons update_where_Cons)

lemma in_delete_where [simp]: "x \<in> set (delete_where p rows) \<longleftrightarrow> x \<in> set rows \<and> \<not> p x"
  by (auto simp: delete_where_def)

lemma distinct_map_delete_where:
  "distinct (map k rows) \<Longrightarrow> distinct (map k (delete_where p rows))"
  by (simp add: delete_where_def distinct_map_filter)

lemma find_first_Some:
  "find_first p rows = Some r \<Longrightarrow> r \<in> set rows \<and> p r"
  unfolding find_first_def by (auto simp: find_Some_iff)

lemma find_first_None_iff:
  "find_first p rows = None \<longleftrightarrow> (\<forall>r \<in> set rows. \<not> p r)"
  unfolding find_first_def by (auto simp: find_None_iff)

lemma find_first_not_None: "r \<in> set rows \<Longrightarrow> p r \<Longrightarrow> \<exists>r'. find_first p rows = Some r'"
  by (cases "find_first p rows") (auto simp: find_first_None_iff)

lemma find_first_cong:
  "(\<And>r. r \<in> set rows \<Longrightarrow> p r = q r) \<Longrightarrow> find_first p rows = find_first q rows"
  unfolding find_first_def by (induction rows) auto

lemma find_first_Nil [simp, table_simps]: "find_first p [] = None"
  by (simp add: find_first_def)

lemma find_first_Cons [table_simps]:
  "find_first p (r # rows) = (if p r then Some r else find_first p rows)"
  by (simp add: find_first_def)

lemma find_first_update_same:
  assumes "\<And>r. k (f r) = k r" "\<exists>r \<in> set rows. k r = i"
  shows "\<exists>r. find_first (\<lambda>r. k r = i) rows = Some r \<and>
    find_first (\<lambda>r. k r = i) (update_where (\<lambda>r. k r = i) f rows) = Some (f r)"
  using assms(2)
  by (induction rows) (auto simp: find_first_Cons update_where_Cons assms(1))

lemma find_first_append:
  "find_first p (xs @ ys) = (case find_first p xs of None \<Rightarrow> find_first p ys | Some r \<Rightarrow> Some r)"
  by (induction xs) (auto simp: find_first_Cons)

subsection \<open>Tables with a key column\<close>

text \<open>\<open>keyed k rows\<close>: the column \<open>k\<close> is unique, as for a primary key or a unique index.\<close>

definition keyed :: "('r \<Rightarrow> 'k) \<Rightarrow> 'r list \<Rightarrow> bool" where
  "keyed k rows \<longleftrightarrow> distinct (map k rows)"

lemma keyed_Nil [simp]: "keyed k []"
  by (simp add: keyed_def)

lemma keyed_eq:
  "keyed k rows \<Longrightarrow> r \<in> set rows \<Longrightarrow> r' \<in> set rows \<Longrightarrow> k r = k r' \<Longrightarrow> r = r'"
  unfolding keyed_def by (simp add: distinct_map inj_on_def)

lemma keyed_append1:
  "keyed k (rows @ [r]) \<longleftrightarrow> keyed k rows \<and> (\<forall>x \<in> set rows. k x \<noteq> k r)"
  by (simp add: keyed_def image_iff) metis

lemma keyed_update_where [simp]:
  "(\<And>r. k (f r) = k r) \<Longrightarrow> keyed k (update_where p f rows) = keyed k rows"
  by (simp add: keyed_def)

lemma keyed_delete_where: "keyed k rows \<Longrightarrow> keyed k (delete_where p rows)"
  unfolding keyed_def by (rule distinct_map_delete_where)

lemma find_first_keyed:
  assumes "keyed k rows" "r \<in> set rows" "p r" "\<And>x. p x \<Longrightarrow> k x = k r"
  shows "find_first p rows = Some r"
proof -
  obtain r' where r': "find_first p rows = Some r'"
    using assms(2,3) find_first_not_None by metis
  from find_first_Some [OF this] have "r' \<in> set rows" "p r'" by auto
  with assms have "r' = r" by (metis keyed_eq)
  with r' show ?thesis by simp
qed

lemma count_where_le_1:
  assumes "keyed k rows" "\<And>x y. p x \<Longrightarrow> p y \<Longrightarrow> k x = k y"
  shows "count_where p rows \<le> 1"
  using assms(1)
proof (induction rows)
  case (Cons r rows)
  show ?case
  proof (cases "p r")
    case True
    have "\<not> p x" if "x \<in> set rows" for x
      using Cons.prems True assms(2) [of x r] that unfolding keyed_def by (auto simp: image_iff)
    then have "count_where p rows = 0" by (simp add: count_where_0_iff)
    with True show ?thesis by (simp add: count_where_Cons)
  next
    case False
    with Cons show ?thesis by (simp add: count_where_Cons keyed_def)
  qed
qed simp

lemma count_where_eq_1:
  assumes "keyed k rows" "\<And>x y. p x \<Longrightarrow> p y \<Longrightarrow> k x = k y" "r \<in> set rows" "p r"
  shows "count_where p rows = 1"
proof -
  have "count_where p rows \<noteq> 0" using assms(3,4) by (auto simp: count_where_0_iff)
  moreover have "count_where p rows \<le> 1" by (rule count_where_le_1 [OF assms(1,2)])
  ultimately show ?thesis by linarith
qed

lemma count_where_pos: "count_where p rows = Suc n \<Longrightarrow> \<exists>r \<in> set rows. p r"
  using count_where_0_iff [of p rows] by auto

text \<open>Updating the one row a key names changes a sum over the table by that row's difference.\<close>

lemma sum_list_update_key:
  fixes f :: "'r \<Rightarrow> int"
  assumes "keyed k rows" "r \<in> set rows"
  shows "sum_list (map f (update_where (\<lambda>x. k x = k r) u rows)) =
           sum_list (map f rows) - f r + f (u r)"
  using assms
proof (induction rows)
  case (Cons x rows)
  show ?case
  proof (cases "k x = k r")
    case True
    then have "x = r" using Cons.prems by (metis keyed_eq list.set_intros(1))
    moreover have "update_where (\<lambda>x. k x = k r) u rows = rows"
      by (rule update_where_no_match) (use Cons.prems \<open>x = r\<close> in \<open>auto simp: keyed_def rev_image_eqI\<close>)
    ultimately show ?thesis by (simp add: update_where_Cons)
  next
    case False
    with Cons show ?thesis by (auto simp: update_where_Cons keyed_def)
  qed
qed simp

section \<open>JavaScript strings and arrays\<close>

text \<open>
  Identifiers, codes and header values are \<open>string\<close>s (Latin-1 characters). Free text a user
  types (titles, notes, file names) is a \<open>utext\<close>, the list of its Unicode code points.
\<close>

type_synonym utext = "nat list"

text \<open>The length of a string, which JavaScript counts in UTF-16 units.\<close>

definition utf16_length :: "utext \<Rightarrow> nat" where
  "utf16_length s = sum_list (map (\<lambda>c. if c < 65536 then 1 else 2) s)"

text \<open>The characters \<open>String.prototype.trim\<close> removes.\<close>

definition js_white :: "nat \<Rightarrow> bool" where
  "js_white c \<longleftrightarrow> (9 \<le> c \<and> c \<le> 13) \<or> c = 32 \<or> c = 160 \<or> c = 5760 \<or> (8192 \<le> c \<and> c \<le> 8202) \<or>
     c = 8232 \<or> c = 8233 \<or> c = 8239 \<or> c = 8287 \<or> c = 12288 \<or> c = 65279"

definition trim_by :: "('c \<Rightarrow> bool) \<Rightarrow> 'c list \<Rightarrow> 'c list" where
  "trim_by w s = rev (dropWhile w (rev (dropWhile w s)))"

definition utrim :: "utext \<Rightarrow> utext" where
  "utrim s = trim_by js_white s"

definition strim :: "string \<Rightarrow> string" where
  "strim s = trim_by (\<lambda>c. js_white (of_char c)) s"

lemma trim_by_all: "(\<And>c. c \<in> set s \<Longrightarrow> \<not> w c) \<Longrightarrow> trim_by w s = s"
proof -
  assume a: "\<And>c. c \<in> set s \<Longrightarrow> \<not> w c"
  have id: "dropWhile w xs = xs" if "\<And>c. c \<in> set xs \<Longrightarrow> \<not> w c" for xs
    using that by (cases xs) auto
  have "dropWhile w s = s" "dropWhile w (rev s) = rev s" using a by (auto intro!: id)
  then show ?thesis by (simp add: trim_by_def)
qed

lemma length_trim_by: "length (trim_by w s) \<le> length s"
  unfolding trim_by_def using length_dropWhile_le le_trans by (metis length_rev)

lemma trim_by_idem [simp]: "trim_by w (trim_by w s) = trim_by w s"
proof -
  define a where "a = dropWhile w s"
  define b where "b = dropWhile w (rev a)"
  have "dropWhile w (rev b) = rev b"
  proof (cases "rev b")
    case (Cons x xs)
    from Cons have "b = rev xs @ [x]" by (metis rev_rev_ident rev.simps(2))
    moreover obtain ys where "rev a = ys @ b" unfolding b_def by (metis takeWhile_dropWhile_id)
    ultimately have "last (rev a) = x" "rev a \<noteq> []" by auto
    then have "hd a = x" "a \<noteq> []" by (auto simp: last_rev)
    then have "\<not> w x" unfolding a_def by (metis hd_dropWhile)
    with Cons show ?thesis by simp
  qed simp
  moreover have "dropWhile w b = b" unfolding b_def by (rule dropWhile_idem)
  ultimately show ?thesis by (simp add: trim_by_def a_def [symmetric] b_def [symmetric])
qed

text \<open>
  \<open>Array.prototype.sort\<close> with a comparator: the stable sort. For a comparator that orders by a key
  it is the library's \<open>sort_key\<close>. \<open>String.prototype.localeCompare\<close> is used on identifiers only
  (lower-case UUIDs), on which the root collation and the order of the character codes agree.
\<close>

fun js_insert :: "('a \<Rightarrow> 'a \<Rightarrow> int) \<Rightarrow> 'a \<Rightarrow> 'a list \<Rightarrow> 'a list" where
  "js_insert cmp x [] = [x]"
| "js_insert cmp x (y # ys) = (if cmp x y \<le> 0 then x # y # ys else y # js_insert cmp x ys)"

definition js_sort :: "('a \<Rightarrow> 'a \<Rightarrow> int) \<Rightarrow> 'a list \<Rightarrow> 'a list" where
  "js_sort cmp xs = foldr (js_insert cmp) xs []"

definition localeCompare :: "string \<Rightarrow> string \<Rightarrow> int" where
  "localeCompare a b = (if a < b then -1 else if a = b then 0 else 1)"

lemma js_insert_key:
  assumes "\<And>a b. cmp a b \<le> 0 \<longleftrightarrow> k a \<le> k b"
  shows "js_insert cmp x ys = insort_key k x ys"
  by (induction ys) (simp_all add: assms)

lemma js_sort_key:
  assumes "\<And>a b. cmp a b \<le> 0 \<longleftrightarrow> k a \<le> k b"
  shows "js_sort cmp xs = sort_key k xs"
proof -
  have "js_insert cmp = insort_key k" by (intro ext js_insert_key assms)
  then show ?thesis by (simp add: js_sort_def sort_key_def)
qed

end
