(* ===== verification/Schema.thy ===== *)
theory Schema
  imports Prelude Complex_Main
begin

text \<open>
  The rows of the PostgreSQL tables of \<open>prisma/schema.prisma\<close> and the database \<open>db\<close> the services
  share. Dates are milliseconds (\<open>int\<close>), nullable columns are options, and each enum keeps its
  constructors with a prefix. \<open>updatedAt\<close> columns, which no service reads, are left out, as are
  columns that only hold provider bookkeeping no code of the repository reads back.
\<close>

section \<open>Enumerations\<close>

datatype report_status = RS_DRAFT | RS_QUEUED | RS_PROCESSING | RS_READY | RS_FAILED

datatype asset_type = IMAGE | AUDIO | DOCUMENT

datatype asset_status = AS_PENDING_UPLOAD | AS_READY | AS_REJECTED

datatype cleanup_reason =
    ASSET_DELETE | REPORT_DELETE | DUPLICATE_ROLLBACK | REJECTED_UPLOAD | EXPIRED_UPLOAD
  | OUTPUT_REPLACED | ORPHAN_OUTPUT

datatype generation_status = GS_QUEUED | GS_PROCESSING | GS_COMPLETED | GS_FAILED | GS_CANCELLED

datatype generation_stage =
    PREPARING | TRANSCRIBING | ANALYZING | GENERATING_CONTENT | GENERATING_PDF
  | UPLOADING_OUTPUT | STAGE_COMPLETED

datatype transcription_status = TS_PENDING | TS_PROCESSING | TS_COMPLETED | TS_FAILED

datatype subscription_status = SUB_ACTIVE | SUB_GRACE_PERIOD | SUB_PAST_DUE | SUB_CANCELLED | SUB_EXPIRED

datatype credit_source = SUBSCRIPTION_MONTHLY | PURCHASED_PACK | PROMOTIONAL | ADMIN | SRC_REFUND

datatype credit_tx_type = TX_GRANT | TX_RESERVE | TX_CONSUME | TX_RELEASE | TX_REFUND | TX_EXPIRE

datatype provider_operation = MODERATION | TRANSCRIPTION | REPORT_GENERATION

datatype attempt_status = ATT_STARTED | ATT_COMPLETED | ATT_FAILED

section \<open>Rows\<close>

record user_row =
  usr_id :: string
  usr_fullName :: utext
  usr_email :: string
  usr_passwordHash :: string
  usr_language :: string
  usr_timezone :: "string option"
  usr_photoUrl :: "string option"
  usr_isPremium :: bool
  usr_emailVerifiedAt :: "int option"
  usr_createdAt :: int

record refresh_row =
  rt_id :: string
  rt_userId :: string
  rt_tokenHash :: string
  rt_expiresAt :: int

record pending_row =
  pr_id :: string
  pr_email :: string
  pr_passwordHash :: string
  pr_fullName :: utext
  pr_language :: string
  pr_codeHash :: string
  pr_expiresAt :: int
  pr_attemptCount :: int
  pr_lastSentAt :: int
  pr_pendingExpiresAt :: int

record reset_row =
  pw_id :: string
  pw_userId :: string
  pw_codeHash :: string
  pw_expiresAt :: int
  pw_attemptCount :: int
  pw_usedAt :: "int option"
  pw_createdAt :: int

record report_row =
  rep_id :: string
  rep_userId :: string
  rep_title :: utext
  rep_notes :: "utext option"
  rep_status :: report_status
  rep_lockedUntil :: "int option"
  rep_windowStartedAt :: "int option"
  rep_failureCount :: int
  rep_createdAt :: int

record asset_row =
  as_id :: string
  as_reportId :: string
  as_type :: asset_type
  as_status :: asset_status
  as_storageKey :: string
  as_originalFileName :: utext
  as_declaredMimeType :: string
  as_verifiedMimeType :: "string option"
  as_declaredSize :: int
  as_verifiedSize :: "int option"
  as_position :: int
  as_width :: "int option"
  as_height :: "int option"
  as_durationSeconds :: "rat option"
  as_rejectionReason :: "string option"
  as_createdAt :: int

text \<open>
  The input snapshot and the structured result of a generation (JSON columns), as in
  \<open>src/report-generation/generation.types.ts\<close> and \<open>src/ai/report-result.schema.ts\<close>.
\<close>

record snapshot_asset =
  sa_id :: string
  sa_type :: asset_type
  sa_verifiedMimeType :: string
  sa_verifiedSize :: int
  sa_position :: int
  sa_storageKey :: string
  sa_originalFileName :: utext

record input_snapshot =
  sn_version :: nat
  sn_reportId :: string
  sn_title :: utext
  sn_notes :: "utext option"
  sn_language :: string
  sn_timezone :: "string option"
  sn_assets :: "snapshot_asset list"
  sn_createdAt :: int

datatype report_block = Paragraph utext | BulletList "utext list"

record report_section =
  sec_title :: utext
  sec_blocks :: "report_block list"
  sec_imageAssetIds :: "string list"

record report_result =
  rr_title :: utext
  rr_subtitle :: "utext option"
  rr_summary :: utext
  rr_sections :: "report_section list"
  rr_conclusion :: "utext option"
  rr_recommendations :: "utext list"

record generation_row =
  gen_id :: string
  gen_reportId :: string
  gen_userId :: string
  gen_idempotencyKey :: string
  gen_status :: generation_status
  gen_stage :: generation_stage
  gen_progress :: int
  gen_attemptCount :: int
  gen_errorCode :: "string option"
  gen_errorMessage :: "string option"
  gen_provider :: "string option"
  gen_model :: "string option"
  gen_providerRequestId :: "string option"
  gen_promptVersion :: string
  gen_inputSnapshot :: "input_snapshot option"
  gen_structuredResult :: "report_result option"
  gen_inputTokens :: "int option"
  gen_outputTokens :: "int option"
  gen_startedAt :: "int option"
  gen_completedAt :: "int option"
  gen_cancelledAt :: "int option"
  gen_processingToken :: "string option"
  gen_leaseExpiresAt :: "int option"
  gen_enqueuedAt :: "int option"
  gen_priorReportStatus :: report_status
  gen_createdAt :: int

record output_row =
  out_reportId :: string
  out_generationId :: string
  out_storageKey :: string
  out_mimeType :: string
  out_size :: int
  out_createdAt :: int

record transcription_row =
  tr_assetId :: string
  tr_status :: transcription_status
  tr_text :: "utext option"
  tr_language :: "string option"
  tr_provider :: "string option"
  tr_model :: "string option"
  tr_providerRequestId :: "string option"
  tr_errorCode :: "string option"
  tr_errorMessage :: "string option"

record subscription_row =
  sub_id :: string
  sub_userId :: string
  sub_planCode :: string
  sub_status :: subscription_status
  sub_currentPeriodEnd :: int

record grant_row =
  gr_id :: string
  gr_userId :: string
  gr_source :: credit_source
  gr_totalCredits :: int
  gr_remainingCredits :: int
  gr_validFrom :: int
  gr_expiresAt :: "int option"
  gr_subscriptionPeriodKey :: "string option"
  gr_createdAt :: int

record credit_tx_row =
  tx_userId :: string
  tx_generationId :: "string option"
  tx_grantId :: "string option"
  tx_type :: credit_tx_type
  tx_amount :: int
  tx_idempotencyKey :: string
  tx_reason :: string

record attempt_row =
  att_id :: string
  att_generationId :: string
  att_assetId :: "string option"
  att_operation :: provider_operation
  att_attemptNumber :: nat
  att_status :: attempt_status
  att_provider :: string
  att_model :: string
  att_providerRequestId :: "string option"
  att_inputTokens :: "int option"
  att_outputTokens :: "int option"
  att_audioDurationSeconds :: "rat option"
  att_errorCode :: "string option"
  att_processingToken :: string
  att_leaseExpiresAt :: int
  att_completedAt :: "int option"

record cleanup_row =
  cl_storageKey :: string
  cl_reason :: cleanup_reason
  cl_attemptCount :: nat
  cl_lastAttemptAt :: "int option"
  cl_createdAt :: int

section \<open>The database\<close>

record db =
  users :: "user_row list"
  refreshTokens :: "refresh_row list"
  pendingRegistrations :: "pending_row list"
  resetRequests :: "reset_row list"
  reports :: "report_row list"
  assets :: "asset_row list"
  generations :: "generation_row list"
  outputs :: "output_row list"
  transcriptions :: "transcription_row list"
  subscriptions :: "subscription_row list"
  grants :: "grant_row list"
  creditTxs :: "credit_tx_row list"
  attempts :: "attempt_row list"
  cleanupTasks :: "cleanup_row list"

definition empty_db :: db where
  "empty_db = \<lparr>users = [], refreshTokens = [], pendingRegistrations = [], resetRequests = [],
     reports = [], assets = [], generations = [], outputs = [], transcriptions = [],
     subscriptions = [], grants = [], creditTxs = [], attempts = [], cleanupTasks = []\<rparr>"

section \<open>The schema's unique columns\<close>

text \<open>
  The unique indexes of the schema and of the migrations on which the generation lifecycle relies:
  primary keys, one output per report and per generation, one generation per user, report and
  idempotency key, one queued or processing generation per report, unique ledger keys, one
  \<open>RESERVE\<close> and one terminal entry per generation.
\<close>

definition active_status :: "generation_status \<Rightarrow> bool" where
  "active_status s \<longleftrightarrow> s = GS_QUEUED \<or> s = GS_PROCESSING"

lemma active_status_simps [simp]:
  "active_status GS_QUEUED" "active_status GS_PROCESSING" "\<not> active_status GS_COMPLETED"
  "\<not> active_status GS_FAILED" "\<not> active_status GS_CANCELLED"
  by (simp_all add: active_status_def)

definition terminal_type :: "credit_tx_type \<Rightarrow> bool" where
  "terminal_type t \<longleftrightarrow> t = TX_CONSUME \<or> t = TX_RELEASE \<or> t = TX_REFUND"

lemma terminal_type_simps [simp]:
  "terminal_type TX_CONSUME" "terminal_type TX_RELEASE" "terminal_type TX_REFUND"
  "\<not> terminal_type TX_GRANT" "\<not> terminal_type TX_RESERVE" "\<not> terminal_type TX_EXPIRE"
  by (simp_all add: terminal_type_def)

definition generation_conflict :: "db \<Rightarrow> generation_row \<Rightarrow> bool" where
  "generation_conflict d g \<longleftrightarrow>
     exists_where (\<lambda>h. gen_id h = gen_id g \<or>
        (gen_userId h = gen_userId g \<and> gen_reportId h = gen_reportId g \<and>
         gen_idempotencyKey h = gen_idempotencyKey g) \<or>
        (gen_reportId h = gen_reportId g \<and> active_status (gen_status h) \<and>
         active_status (gen_status g))) (generations d)"

text \<open>\<open>reportGeneration.create\<close>: \<open>P2002\<close> when a unique index would be violated.\<close>

definition create_generation :: "generation_row \<Rightarrow> db \<Rightarrow> exn + db" where
  "create_generation g d =
     (if generation_conflict d g then Inl (PrismaError ''P2002'')
      else Inr (d\<lparr>generations := generations d @ [g]\<rparr>))"

definition credit_tx_conflict :: "db \<Rightarrow> credit_tx_row \<Rightarrow> bool" where
  "credit_tx_conflict d t \<longleftrightarrow>
     exists_where (\<lambda>u. tx_idempotencyKey u = tx_idempotencyKey t \<or>
        (tx_generationId t \<noteq> None \<and> tx_generationId u = tx_generationId t \<and>
         ((tx_type t = TX_RESERVE \<and> tx_type u = TX_RESERVE) \<or>
          (terminal_type (tx_type t) \<and> terminal_type (tx_type u))))) (creditTxs d)"

definition create_credit_tx :: "credit_tx_row \<Rightarrow> db \<Rightarrow> exn + db" where
  "create_credit_tx t d =
     (if credit_tx_conflict d t then Inl (PrismaError ''P2002'')
      else Inr (d\<lparr>creditTxs := creditTxs d @ [t]\<rparr>))"

text \<open>The grant's primary key; the other unique column is looked up before an insertion.\<close>

definition create_grant :: "grant_row \<Rightarrow> db \<Rightarrow> exn + db" where
  "create_grant g d =
     (if exists_where (\<lambda>h. gr_id h = gr_id g) (grants d) then Inl (PrismaError ''P2002'')
      else Inr (d\<lparr>grants := grants d @ [g]\<rparr>))"

text \<open>One output per report, per generation and per storage key.\<close>

definition create_output :: "output_row \<Rightarrow> db \<Rightarrow> exn + db" where
  "create_output r d =
     (if exists_where (\<lambda>q. out_reportId q = out_reportId r \<or>
           out_generationId q = out_generationId r \<or> out_storageKey q = out_storageKey r) (outputs d)
      then Inl (PrismaError ''P2002'')
      else Inr (d\<lparr>outputs := outputs d @ [r]\<rparr>))"

lemmas create_defs = create_generation_def create_credit_tx_def create_grant_def create_output_def

text \<open>
  \<open>update\<close> by primary key raises \<open>P2025\<close> when there is no row; the deletion of a generation follows
  the foreign keys: its output and attempts go, its ledger entries keep a null generation.
\<close>

definition update_report :: "string \<Rightarrow> (report_row \<Rightarrow> report_row) \<Rightarrow> db \<Rightarrow> exn + db" where
  "update_report rid f d =
     (if exists_where (\<lambda>r. rep_id r = rid) (reports d)
      then Inr (d\<lparr>reports := update_where (\<lambda>r. rep_id r = rid) f (reports d)\<rparr>)
      else Inl (PrismaError ''P2025''))"

definition find_generation :: "string \<Rightarrow> db \<Rightarrow> generation_row option" where
  "find_generation gid d = find_first (\<lambda>g. gen_id g = gid) (generations d)"

definition find_report :: "string \<Rightarrow> db \<Rightarrow> report_row option" where
  "find_report rid d = find_first (\<lambda>r. rep_id r = rid) (reports d)"

definition delete_generation :: "string \<Rightarrow> db \<Rightarrow> exn + db" where
  "delete_generation gid d =
     (if exists_where (\<lambda>g. gen_id g = gid) (generations d)
      then Inr (d\<lparr>generations := delete_where (\<lambda>g. gen_id g = gid) (generations d),
                  outputs := delete_where (\<lambda>q. out_generationId q = gid) (outputs d),
                  attempts := delete_where (\<lambda>a. att_generationId a = gid) (attempts d),
                  creditTxs := update_where (\<lambda>t. tx_generationId t = Some gid)
                                 (\<lambda>t. t\<lparr>tx_generationId := None\<rparr>) (creditTxs d)\<rparr>)
      else Inl (PrismaError ''P2025''))"

end
