(* ===== verification/Credits.thy ===== *)
theory Credits
  imports Schema "HOL-Library.Multiset"
begin

text \<open>
  \<open>src/entitlements/credits.service.ts\<close>: reservation, consumption and release of generation credits
  over the grants and the append-only ledger, and the monthly allocation. \<open>now\<close> is the service's
  \<open>new Date()\<close>; generated primary keys are arguments.
\<close>

section \<open>The operations\<close>

definition RESERVATION_REASON :: string where
  "RESERVATION_REASON = ''Report generation credit reservation''"

definition credit_key :: "string \<Rightarrow> string \<Rightarrow> string" where
  "credit_key generationId action = ''generation:'' @ generationId @ '':'' @ action"

definition find_tx :: "string \<Rightarrow> db \<Rightarrow> credit_tx_row option" where
  "find_tx key d = find_first (\<lambda>t. tx_idempotencyKey t = key) (creditTxs d)"

definition findReservation :: "string \<Rightarrow> db \<Rightarrow> credit_tx_row option" where
  "findReservation generationId d = find_tx (credit_key generationId ''reserve'') d"

definition findTerminal :: "string \<Rightarrow> db \<Rightarrow> credit_tx_row option" where
  "findTerminal generationId d =
     find_first (\<lambda>t. tx_generationId t = Some generationId \<and> terminal_type (tx_type t)) (creditTxs d)"

fun sourcePriority :: "credit_source \<Rightarrow> int" where
  "sourcePriority SUBSCRIPTION_MONTHLY = 0"
| "sourcePriority PROMOTIONAL = 1"
| "sourcePriority ADMIN = 2"
| "sourcePriority SRC_REFUND = 3"
| "sourcePriority PURCHASED_PACK = 4"

definition MAX_SAFE_INTEGER :: int where
  "MAX_SAFE_INTEGER = 9007199254740991"

definition expiration :: "grant_row \<Rightarrow> int" where
  "expiration g = (case gr_expiresAt g of None \<Rightarrow> MAX_SAFE_INTEGER | Some t \<Rightarrow> t)"

definition compareGrants :: "grant_row \<Rightarrow> grant_row \<Rightarrow> int" where
  "compareGrants left right =
     (let leftExpiration = expiration left; rightExpiration = expiration right in
      if leftExpiration \<noteq> rightExpiration then leftExpiration - rightExpiration
      else let sourceDifference = sourcePriority (gr_source left) - sourcePriority (gr_source right) in
        if sourceDifference \<noteq> 0 then sourceDifference
        else let createdDifference = gr_createdAt left - gr_createdAt right in
          if createdDifference \<noteq> 0 then createdDifference
          else localeCompare (gr_id left) (gr_id right))"

definition usable_grant :: "int \<Rightarrow> string \<Rightarrow> grant_row \<Rightarrow> bool" where
  "usable_grant now userId g \<longleftrightarrow>
     gr_userId g = userId \<and> gr_remainingCredits g > 0 \<and> gr_validFrom g \<le> now \<and>
     (case gr_expiresAt g of None \<Rightarrow> True | Some e \<Rightarrow> e > now)"

definition grant_candidates :: "int \<Rightarrow> string \<Rightarrow> db \<Rightarrow> grant_row list" where
  "grant_candidates now userId d =
     js_sort compareGrants
       (sort_key (\<lambda>g. (gr_createdAt g, gr_id g)) (filter (usable_grant now userId) (grants d)))"

definition live_subscription :: "int \<Rightarrow> string \<Rightarrow> subscription_row \<Rightarrow> bool" where
  "live_subscription now userId s \<longleftrightarrow>
     sub_userId s = userId \<and> (sub_status s = SUB_ACTIVE \<or> sub_status s = SUB_GRACE_PERIOD) \<and>
     sub_currentPeriodEnd s > now"

definition reserve_tx :: "string \<Rightarrow> string \<Rightarrow> string \<Rightarrow> credit_tx_row" where
  "reserve_tx userId generationId grantId =
     \<lparr>tx_userId = userId, tx_generationId = Some generationId, tx_grantId = Some grantId,
      tx_type = TX_RESERVE, tx_amount = 1,
      tx_idempotencyKey = credit_key generationId ''reserve'', tx_reason = RESERVATION_REASON\<rparr>"

definition add_credits :: "int \<Rightarrow> grant_row \<Rightarrow> grant_row" where
  "add_credits n g = g\<lparr>gr_remainingCredits := gr_remainingCredits g + n\<rparr>"

text \<open>The loop over the candidates; \<open>None\<close> when it runs off their end.\<close>

fun reserve_loop :: "string \<Rightarrow> string \<Rightarrow> grant_row list \<Rightarrow> db \<Rightarrow> exn + db option" where
  "reserve_loop userId generationId [] d = Inr None"
| "reserve_loop userId generationId (g # gs) d =
     (let p = (\<lambda>r. gr_id r = gr_id g \<and> gr_remainingCredits r > 0);
          d1 = d\<lparr>grants := update_where p (add_credits (-1)) (grants d)\<rparr>
      in if count_where p (grants d) \<noteq> 1 then reserve_loop userId generationId gs d1
         else (case create_credit_tx (reserve_tx userId generationId (gr_id g)) d1 of
                 Inl e \<Rightarrow> Inl e
               | Inr d2 \<Rightarrow> Inr (Some d2)))"

definition reserve :: "int \<Rightarrow> string \<Rightarrow> string \<Rightarrow> db \<Rightarrow> exn + db" where
  "reserve now userId generationId d =
     (case find_tx (credit_key generationId ''reserve'') d of
        Some _ \<Rightarrow> Inr d
      | None \<Rightarrow>
         (case reserve_loop userId generationId (grant_candidates now userId d) d of
            Inl e \<Rightarrow> Inl e
          | Inr (Some d') \<Rightarrow> Inr d'
          | Inr None \<Rightarrow>
              (if count_where (\<lambda>g. gr_userId g = userId) (grants d) = 0 \<and>
                  find_first (live_subscription now userId) (subscriptions d) = None
               then Inl (conflict ''SUBSCRIPTION_REQUIRED''
                      ''A subscription or purchased generation credits are required'')
               else Inl (conflict ''GENERATION_CREDITS_EXHAUSTED''
                      ''No generation credits are available''))))"

definition period_key :: "string \<Rightarrow> string \<Rightarrow> string" where
  "period_key userId periodKey = ''subscription-period:'' @ userId @ '':'' @ periodKey"

definition allocateMonthly ::
  "string \<Rightarrow> int \<Rightarrow> string \<Rightarrow> string \<Rightarrow> int \<Rightarrow> int \<Rightarrow> int \<Rightarrow> db \<Rightarrow> exn + db" where
  "allocateMonthly newGrantId now userId periodKey totalCredits validFrom expiresAt d =
     (if periodKey = [] \<or> totalCredits \<le> 0 then Inl (PlainError ''Invalid monthly credit allocation'')
      else
        (case find_tx (period_key userId periodKey) d of
           Some _ \<Rightarrow> Inr d
         | None \<Rightarrow>
            (case (case find_first (\<lambda>g. gr_userId g = userId \<and>
                        gr_subscriptionPeriodKey g = Some periodKey) (grants d) of
                     Some g \<Rightarrow> Inr (gr_id g, d)
                   | None \<Rightarrow>
                      (case create_grant
                         \<lparr>gr_id = newGrantId, gr_userId = userId, gr_source = SUBSCRIPTION_MONTHLY,
                          gr_totalCredits = totalCredits, gr_remainingCredits = totalCredits,
                          gr_validFrom = validFrom, gr_expiresAt = Some expiresAt,
                          gr_subscriptionPeriodKey = Some periodKey, gr_createdAt = now\<rparr> d of
                         Inl e \<Rightarrow> Inl e
                       | Inr d1 \<Rightarrow> Inr (newGrantId, d1))) of
               Inl e \<Rightarrow> Inl e
             | Inr (grantId, d1) \<Rightarrow>
                 create_credit_tx
                  \<lparr>tx_userId = userId, tx_generationId = None, tx_grantId = Some grantId,
                   tx_type = TX_GRANT, tx_amount = totalCredits,
                   tx_idempotencyKey = period_key userId periodKey,
                   tx_reason = ''Monthly subscription credit allocation''\<rparr> d1)))"

definition consumeInTransaction :: "string \<Rightarrow> db \<Rightarrow> exn + db" where
  "consumeInTransaction generationId d =
     (case findReservation generationId d of
        None \<Rightarrow> Inl (conflict ''GENERATION_CREDIT_RESERVATION_FAILED''
                  ''The generation credit reservation is missing'')
      | Some reservation \<Rightarrow>
         (case findTerminal generationId d of
            Some t \<Rightarrow>
              (if tx_type t = TX_CONSUME then Inr d
               else Inl (conflict ''GENERATION_CREDIT_ALREADY_RELEASED''
                      ''The generation credit has already been restored''))
          | None \<Rightarrow>
              create_credit_tx
                \<lparr>tx_userId = tx_userId reservation, tx_generationId = Some generationId,
                 tx_grantId = tx_grantId reservation, tx_type = TX_CONSUME, tx_amount = 1,
                 tx_idempotencyKey = credit_key generationId ''consume'',
                 tx_reason = ''Successful report generation''\<rparr> d))"

definition releaseInTransaction :: "string \<Rightarrow> string \<Rightarrow> db \<Rightarrow> exn + db" where
  "releaseInTransaction generationId reason d =
     (case findReservation generationId d of
        None \<Rightarrow> Inr d
      | Some reservation \<Rightarrow>
         (case tx_grantId reservation of
            None \<Rightarrow> Inr d
          | Some grantId \<Rightarrow>
             (case findTerminal generationId d of
                Some t \<Rightarrow> Inr d
              | None \<Rightarrow>
                  (if find_first (\<lambda>g. gr_id g = grantId) (grants d) = None
                   then Inl (PrismaError ''P2025'')
                   else create_credit_tx
                     \<lparr>tx_userId = tx_userId reservation, tx_generationId = Some generationId,
                      tx_grantId = Some grantId, tx_type = TX_RELEASE, tx_amount = 1,
                      tx_idempotencyKey = credit_key generationId ''release'',
                      tx_reason = take 200 reason\<rparr>
                     (d\<lparr>grants := update_where (\<lambda>g. gr_id g = grantId) (add_credits 1)
                           (grants d)\<rparr>)))))"

text \<open>\<open>consume\<close> and \<open>release\<close> run the same bodies in a transaction of their own.\<close>

definition unit_tx :: "('s \<Rightarrow> exn + 's) \<Rightarrow> 's \<Rightarrow> exn + (unit \<times> 's)" where
  "unit_tx f s = (case f s of Inl e \<Rightarrow> Inl e | Inr s' \<Rightarrow> Inr ((), s'))"

definition consume :: "string \<Rightarrow> db \<Rightarrow> (exn + unit) \<times> db" where
  "consume generationId = run_tx (unit_tx (consumeInTransaction generationId))"

definition release :: "string \<Rightarrow> string \<Rightarrow> db \<Rightarrow> (exn + unit) \<times> db" where
  "release generationId reason = run_tx (unit_tx (releaseInTransaction generationId reason))"

lemmas credit_op_defs = reserve_def consumeInTransaction_def releaseInTransaction_def
  findReservation_def findTerminal_def find_tx_def

section \<open>Keys of the ledger\<close>

lemma credit_key_inject [simp]: "credit_key g a = credit_key h a \<longleftrightarrow> g = h"
  by (simp add: credit_key_def)

lemma credit_key_action_neq:
  assumes "take 2 (rev a) \<noteq> take 2 (rev b)" "2 \<le> length a" "2 \<le> length b"
  shows "credit_key g a \<noteq> credit_key h b"
proof
  assume "credit_key g a = credit_key h b"
  then have "take 2 (rev (credit_key g a)) = take 2 (rev (credit_key h b))" by simp
  with assms show False by (simp add: credit_key_def)
qed

lemma credit_key_neq [simp]:
  "credit_key g ''reserve'' \<noteq> credit_key h ''consume''"
  "credit_key g ''reserve'' \<noteq> credit_key h ''release''"
  "credit_key g ''consume'' \<noteq> credit_key h ''release''"
  "credit_key g ''consume'' \<noteq> credit_key h ''reserve''"
  "credit_key g ''release'' \<noteq> credit_key h ''reserve''"
  "credit_key g ''release'' \<noteq> credit_key h ''consume''"
  by (rule credit_key_action_neq; simp)+

section \<open>The order of the grants\<close>

text \<open>\<open>compareGrants\<close> is the lexicographic order of this key, a total order on the rows of a table.\<close>

definition grant_key :: "grant_row \<Rightarrow> int \<times> int \<times> int \<times> string" where
  "grant_key g = (expiration g, sourcePriority (gr_source g), gr_createdAt g, gr_id g)"

lemma localeCompare_le: "localeCompare a b \<le> 0 \<longleftrightarrow> a \<le> b"
  by (auto simp: localeCompare_def)

lemma compareGrants_le: "compareGrants a b \<le> 0 \<longleftrightarrow> grant_key a \<le> grant_key b"
  by (auto simp: compareGrants_def grant_key_def Let_def localeCompare_le less_eq_prod_def)

lemma grant_candidates_sorted:
  "grant_candidates now u d =
     sort_key grant_key (sort_key (\<lambda>g. (gr_createdAt g, gr_id g)) (filter (usable_grant now u) (grants d)))"
  unfolding grant_candidates_def by (rule js_sort_key) (rule compareGrants_le)

lemma set_grant_candidates [simp]:
  "set (grant_candidates now u d) = {g \<in> set (grants d). usable_grant now u g}"
  by (auto simp: grant_candidates_sorted)

lemma grant_candidates_Nil_iff:
  "grant_candidates now u d = [] \<longleftrightarrow> (\<forall>g \<in> set (grants d). \<not> usable_grant now u g)"
  using set_grant_candidates [of now u d] by (metis (mono_tags, lifting) empty_Collect_eq empty_set set_empty)

lemma grant_candidates_head_least:
  assumes "grant_candidates now u d = g # gs" "h \<in> set (grants d)" "usable_grant now u h"
  shows "grant_key g \<le> grant_key h"
proof -
  have "h \<in> set (g # gs)" using assms set_grant_candidates [of now u d] by auto
  moreover have "sorted (map grant_key (g # gs))"
    using assms(1) unfolding grant_candidates_sorted by (metis sorted_sort_key)
  ultimately show ?thesis by auto
qed

section \<open>What each operation does\<close>

lemma add_credits_simps [simp]:
  "gr_id (add_credits n g) = gr_id g" "gr_userId (add_credits n g) = gr_userId g"
  "gr_totalCredits (add_credits n g) = gr_totalCredits g"
  "gr_remainingCredits (add_credits n g) = gr_remainingCredits g + n"
  "gr_source (add_credits n g) = gr_source g" "gr_expiresAt (add_credits n g) = gr_expiresAt g"
  "gr_validFrom (add_credits n g) = gr_validFrom g" "gr_createdAt (add_credits n g) = gr_createdAt g"
  by (simp_all add: add_credits_def)

lemma update_grants_positive:
  assumes "keyed gr_id rows" "g \<in> set rows" "gr_remainingCredits g > 0"
  shows "update_where (\<lambda>r. gr_id r = gr_id g \<and> gr_remainingCredits r > 0) f rows =
           update_where (\<lambda>r. gr_id r = gr_id g) f rows"
  unfolding update_where_def
  by (rule map_cong) (use assms in \<open>auto dest: keyed_eq\<close>)

definition take_credit :: "string \<Rightarrow> string \<Rightarrow> string \<Rightarrow> db \<Rightarrow> db" where
  "take_credit userId generationId grantId d =
     d\<lparr>grants := update_where (\<lambda>r. gr_id r = grantId) (add_credits (-1)) (grants d),
       creditTxs := creditTxs d @ [reserve_tx userId generationId grantId]\<rparr>"

lemma credit_tx_conflict_grants [simp]:
  "credit_tx_conflict (d\<lparr>grants := gs\<rparr>) t = credit_tx_conflict d t"
  by (simp add: credit_tx_conflict_def)

lemma reserve_loop_first:
  assumes "keyed gr_id (grants d)" "g \<in> set (grants d)" "gr_remainingCredits g > 0"
  shows "reserve_loop u gid (g # gs) d =
     (if credit_tx_conflict d (reserve_tx u gid (gr_id g)) then Inl (PrismaError ''P2002'')
      else Inr (Some (take_credit u gid (gr_id g) d)))"
proof -
  have "count_where (\<lambda>r. gr_id r = gr_id g \<and> gr_remainingCredits r > 0) (grants d) = 1"
    by (rule count_where_eq_1 [OF assms(1) _ assms(2)]) (use assms(3) in auto)
  then show ?thesis
    by (simp add: Let_def create_credit_tx_def take_credit_def update_grants_positive [OF assms])
qed

lemma usable_grant_pos: "usable_grant now u g \<Longrightarrow> gr_remainingCredits g > 0"
  by (simp add: usable_grant_def)

text \<open>A successful reservation: it was there already, or the least usable grant pays for it.\<close>

lemma reserve_cases:
  assumes "reserve now u gid d = Inr d'" "keyed gr_id (grants d)"
  obtains (existing) t where "find_tx (credit_key gid ''reserve'') d = Some t" "d' = d"
  | (paid) g where "find_tx (credit_key gid ''reserve'') d = None"
      "g \<in> set (grants d)" "usable_grant now u g"
      "\<And>h. h \<in> set (grants d) \<Longrightarrow> usable_grant now u h \<Longrightarrow> grant_key g \<le> grant_key h"
      "\<not> credit_tx_conflict d (reserve_tx u gid (gr_id g))"
      "d' = take_credit u gid (gr_id g) d"
proof (cases "find_tx (credit_key gid ''reserve'') d")
  case (Some t)
  with assms(1) show thesis by (intro existing) (auto simp: reserve_def)
next
  case None
  show thesis
  proof (cases "grant_candidates now u d")
    case Nil
    with None assms(1) show thesis by (auto simp: reserve_def split: if_splits)
  next
    case (Cons g gs)
    then have g: "g \<in> set (grants d)" "usable_grant now u g"
      using set_grant_candidates [of now u d] by auto
    note loop = reserve_loop_first [OF assms(2) g(1) usable_grant_pos [OF g(2)], of u gid gs]
    have "\<not> credit_tx_conflict d (reserve_tx u gid (gr_id g))" "d' = take_credit u gid (gr_id g) d"
      using assms(1) None Cons loop by (auto simp: reserve_def split: if_splits)
    with None g show thesis
      by (intro paid [of g]) (auto intro: grant_candidates_head_least [OF Cons])
  qed
qed

lemma reserve_succeeds:
  assumes "keyed gr_id (grants d)" "g \<in> set (grants d)" "usable_grant now u g"
    and "\<And>t. t \<in> set (creditTxs d) \<Longrightarrow> tx_generationId t \<noteq> Some gid \<and>
           tx_idempotencyKey t \<noteq> credit_key gid ''reserve''"
  shows "\<exists>d'. reserve now u gid d = Inr d'"
proof -
  have none: "find_tx (credit_key gid ''reserve'') d = None" using assms(4) by (simp add: find_tx_def find_first_None_iff)
  obtain h hs where Cons: "grant_candidates now u d = h # hs"
    using assms(2,3) grant_candidates_Nil_iff [of now u d] by (cases "grant_candidates now u d") auto
  then have h: "h \<in> set (grants d)" "usable_grant now u h"
    using set_grant_candidates [of now u d] by auto
  have "\<not> credit_tx_conflict d (reserve_tx u gid (gr_id h))"
    using assms(4) by (auto simp: credit_tx_conflict_def reserve_tx_def)
  then show ?thesis
    using none Cons reserve_loop_first [OF assms(1) h(1) usable_grant_pos [OF h(2)], of u gid hs]
    by (simp add: reserve_def)
qed

lemma reserve_fails_without_usable:
  assumes "find_tx (credit_key gid ''reserve'') d = None"
    and "\<And>g. g \<in> set (grants d) \<Longrightarrow> \<not> usable_grant now u g"
  shows "\<exists>e. reserve now u gid d = Inl e"
proof -
  have "grant_candidates now u d = []" using assms(2) by (simp add: grant_candidates_Nil_iff)
  with assms(1) show ?thesis by (simp add: reserve_def)
qed

section \<open>The ledger's invariant\<close>

text \<open>
  Every entry of the ledger is of a kind some operation writes: its key names the generation and
  the action, and the generation column is that generation or, after the generation was deleted,
  null. A consumption or a release has its reservation, and a release is of the same grant.
\<close>

definition tx_shape :: "credit_tx_row \<Rightarrow> bool" where
  "tx_shape t \<longleftrightarrow>
     (case tx_type t of
        TX_RESERVE \<Rightarrow> tx_grantId t \<noteq> None \<and>
          (\<exists>g. tx_idempotencyKey t = credit_key g ''reserve'' \<and> tx_generationId t \<in> {None, Some g})
      | TX_CONSUME \<Rightarrow> \<exists>g. tx_idempotencyKey t = credit_key g ''consume'' \<and> tx_generationId t \<in> {None, Some g}
      | TX_RELEASE \<Rightarrow> \<exists>g. tx_idempotencyKey t = credit_key g ''release'' \<and> tx_generationId t \<in> {None, Some g}
      | TX_GRANT \<Rightarrow> take 11 (tx_idempotencyKey t) \<noteq> ''generation:'' \<and> tx_generationId t = None
      | _ \<Rightarrow> False)"

definition tx_paired :: "credit_tx_row list \<Rightarrow> credit_tx_row \<Rightarrow> bool" where
  "tx_paired txs t \<longleftrightarrow>
     (\<forall>g. tx_idempotencyKey t = credit_key g ''consume'' \<or> tx_idempotencyKey t = credit_key g ''release'' \<longrightarrow>
        (\<exists>r \<in> set txs. tx_idempotencyKey r = credit_key g ''reserve'' \<and> tx_grantId r = tx_grantId t))"

definition reserved_of :: "string \<Rightarrow> credit_tx_row \<Rightarrow> bool" where
  "reserved_of i t \<longleftrightarrow> tx_type t = TX_RESERVE \<and> tx_grantId t = Some i"

definition released_of :: "string \<Rightarrow> credit_tx_row \<Rightarrow> bool" where
  "released_of i t \<longleftrightarrow> tx_type t = TX_RELEASE \<and> tx_grantId t = Some i"

definition grant_balanced :: "credit_tx_row list \<Rightarrow> grant_row \<Rightarrow> bool" where
  "grant_balanced txs g \<longleftrightarrow>
     gr_remainingCredits g = gr_totalCredits g
        - int (count_where (reserved_of (gr_id g)) txs) + int (count_where (released_of (gr_id g)) txs) \<and>
     0 \<le> gr_remainingCredits g"

definition ledger_ok :: "db \<Rightarrow> bool" where
  "ledger_ok d \<longleftrightarrow>
     keyed gr_id (grants d) \<and> keyed tx_idempotencyKey (creditTxs d) \<and>
     (\<forall>t \<in> set (creditTxs d). tx_shape t \<and> tx_paired (creditTxs d) t \<and>
        (\<forall>i. tx_grantId t = Some i \<longrightarrow> i \<in> gr_id ` set (grants d))) \<and>
     (\<forall>g \<in> set (grants d). grant_balanced (creditTxs d) g)"

lemma ledger_ok_empty: "ledger_ok empty_db"
  by (simp add: ledger_ok_def empty_db_def)

lemma ledger_okD:
  assumes "ledger_ok d"
  shows "keyed gr_id (grants d)" "keyed tx_idempotencyKey (creditTxs d)"
    and "t \<in> set (creditTxs d) \<Longrightarrow> tx_shape t" "t \<in> set (creditTxs d) \<Longrightarrow> tx_paired (creditTxs d) t"
    and "t \<in> set (creditTxs d) \<Longrightarrow> tx_grantId t = Some i \<Longrightarrow> i \<in> gr_id ` set (grants d)"
    and "g \<in> set (grants d) \<Longrightarrow> grant_balanced (creditTxs d) g"
  using assms unfolding ledger_ok_def by auto

lemma ledger_ok_cong:
  "grants d = grants d' \<Longrightarrow> creditTxs d = creditTxs d' \<Longrightarrow> ledger_ok d = ledger_ok d'"
  by (simp add: ledger_ok_def)

text \<open>The key of an entry of a well-shaped ledger determines its type, and the other way round.\<close>

lemma take_credit_key [simp]: "take 11 (credit_key g a) = ''generation:''"
  by (simp add: credit_key_def)

lemma tx_shape_key:
  assumes "tx_shape t"
  shows "tx_idempotencyKey t = credit_key g ''reserve'' \<Longrightarrow> tx_type t = TX_RESERVE"
    and "tx_idempotencyKey t = credit_key g ''consume'' \<Longrightarrow> tx_type t = TX_CONSUME"
    and "tx_idempotencyKey t = credit_key g ''release'' \<Longrightarrow> tx_type t = TX_RELEASE"
  using assms by (auto simp: tx_shape_def split: credit_tx_type.splits)

lemma tx_shape_generation:
  assumes "tx_shape t" "tx_generationId t = Some g"
  shows "tx_type t = TX_RESERVE \<Longrightarrow> tx_idempotencyKey t = credit_key g ''reserve''"
    and "tx_type t = TX_CONSUME \<Longrightarrow> tx_idempotencyKey t = credit_key g ''consume''"
    and "tx_type t = TX_RELEASE \<Longrightarrow> tx_idempotencyKey t = credit_key g ''release''"
    and "terminal_type (tx_type t) \<Longrightarrow> tx_type t = TX_CONSUME \<or> tx_type t = TX_RELEASE"
  using assms by (auto simp: tx_shape_def terminal_type_def split: credit_tx_type.splits)

text \<open>At most as many releases as reservations: a release has its own reservation of the same grant.\<close>

lemma releases_le_reserves:
  assumes "ledger_ok d"
  shows "count_where (released_of i) (creditTxs d) \<le> count_where (reserved_of i) (creditTxs d)"
proof -
  let ?rel = "filter (released_of i) (creditTxs d)" and ?res = "filter (reserved_of i) (creditTxs d)"
  have d: "distinct (creditTxs d)"
    using ledger_okD(2) [OF assms] by (simp add: keyed_def distinct_map)
  have ex: "\<exists>r g. r \<in> set ?res \<and> tx_idempotencyKey r = credit_key g ''reserve'' \<and>
          tx_idempotencyKey t = credit_key g ''release''" if t: "t \<in> set ?rel" for t
  proof -
    from t have t': "t \<in> set (creditTxs d)" "tx_type t = TX_RELEASE" "tx_grantId t = Some i"
      by (auto simp: released_of_def)
    then obtain g where g: "tx_idempotencyKey t = credit_key g ''release''"
      using ledger_okD(3) [OF assms t'(1)] by (auto simp: tx_shape_def)
    then obtain r where r: "r \<in> set (creditTxs d)" "tx_idempotencyKey r = credit_key g ''reserve''"
        "tx_grantId r = tx_grantId t"
      using ledger_okD(4) [OF assms t'(1)] by (auto simp: tx_paired_def)
    with t'(3) g tx_shape_key(1) [OF ledger_okD(3) [OF assms r(1)] r(2)] show ?thesis
      by (auto simp: reserved_of_def)
  qed
  then obtain f where f: "\<And>t. t \<in> set ?rel \<Longrightarrow> f t \<in> set ?res \<and>
      (\<exists>g. tx_idempotencyKey (f t) = credit_key g ''reserve'' \<and>
          tx_idempotencyKey t = credit_key g ''release'')" by metis
  have "inj_on f (set ?rel)"
  proof (rule inj_onI)
    fix t u assume "t \<in> set ?rel" "u \<in> set ?rel" "f t = f u"
    then have "tx_idempotencyKey t = tx_idempotencyKey u" using f by (metis credit_key_inject)
    with \<open>t \<in> set ?rel\<close> \<open>u \<in> set ?rel\<close> show "t = u"
      using keyed_eq [OF ledger_okD(2) [OF assms]] by auto
  qed
  then have "card (set ?rel) \<le> card (set ?res)"
    by (rule card_inj_on_le) (use f in auto)
  then show ?thesis by (metis count_where_def distinct_card distinct_filter d)
qed

lemma ledger_ok_bounds:
  assumes "ledger_ok d" "g \<in> set (grants d)"
  shows "0 \<le> gr_remainingCredits g \<and> gr_remainingCredits g \<le> gr_totalCredits g"
  using ledger_okD(6) [OF assms] releases_le_reserves [OF assms(1), of "gr_id g"]
  by (simp add: grant_balanced_def)

section \<open>Every operation keeps the invariant\<close>

text \<open>
  Appending an entry and changing one grant by \<open>n\<close> keeps the invariant when the entry is well
  shaped, paired and fresh, and \<open>n\<close> is the entry's effect on the grant.
\<close>

definition tx_effect :: "credit_tx_row \<Rightarrow> int" where
  "tx_effect t = (if tx_type t = TX_RESERVE then -1 else if tx_type t = TX_RELEASE then 1 else 0)"

lemma ledger_ok_append:
  assumes ok: "ledger_ok d"
    and fresh: "\<And>u. u \<in> set (creditTxs d) \<Longrightarrow> tx_idempotencyKey u \<noteq> tx_idempotencyKey t"
    and shape: "tx_shape t" and paired: "tx_paired (creditTxs d) t"
    and grant: "tx_grantId t = Some (gr_id g)" "g \<in> set (grants d)"
    and enough: "0 \<le> gr_remainingCredits g + tx_effect t"
    and d': "grants d' = update_where (\<lambda>r. gr_id r = gr_id g) (add_credits (tx_effect t)) (grants d)"
      "creditTxs d' = creditTxs d @ [t]"
  shows "ledger_ok d'"
proof -
  have paired': "tx_paired (creditTxs d @ [t]) u" if "tx_paired (creditTxs d) u" for u
    using that unfolding tx_paired_def by auto
  have ids: "gr_id ` set (grants d') = gr_id ` set (grants d)"
    unfolding d' by (simp flip: set_map)
  have "grant_balanced (creditTxs d') h'" if h': "h' \<in> set (grants d')" for h'
  proof -
    obtain h where h: "h \<in> set (grants d)"
        "h' = (if gr_id h = gr_id g then add_credits (tx_effect t) h else h)"
      using h' unfolding d' in_update_where by auto
    have "h = g" if "gr_id h = gr_id g"
      using keyed_eq [OF ledger_okD(1) [OF ok] h(1) grant(2) that] .
    with ledger_okD(6) [OF ok h(1)] h(2) enough grant(1) show ?thesis
      by (auto simp: grant_balanced_def d' count_where_Cons reserved_of_def released_of_def tx_effect_def)
  qed
  moreover have "tx_shape u \<and> tx_paired (creditTxs d') u \<and>
      (\<forall>i. tx_grantId u = Some i \<longrightarrow> i \<in> gr_id ` set (grants d'))" if "u \<in> set (creditTxs d')" for u
    using that shape paired grant ledger_okD(3,4,5) [OF ok] paired' unfolding ids d'(2) by auto
  moreover have "keyed gr_id (grants d')" "keyed tx_idempotencyKey (creditTxs d')"
    using ledger_okD(1,2) [OF ok] fresh by (simp_all add: d' keyed_append1)
  ultimately show ?thesis unfolding ledger_ok_def by blast
qed

lemma ledger_ok_append_neutral:
  assumes ok: "ledger_ok d"
    and fresh: "\<And>u. u \<in> set (creditTxs d) \<Longrightarrow> tx_idempotencyKey u \<noteq> tx_idempotencyKey t"
    and shape: "tx_shape t" and paired: "tx_paired (creditTxs d) t"
    and grant: "\<And>i. tx_grantId t = Some i \<Longrightarrow> i \<in> gr_id ` set (grants d)"
    and neutral: "tx_type t \<noteq> TX_RESERVE" "tx_type t \<noteq> TX_RELEASE"
    and d': "grants d' = grants d" "creditTxs d' = creditTxs d @ [t]"
  shows "ledger_ok d'"
proof -
  have paired': "tx_paired (creditTxs d @ [t]) u" if "tx_paired (creditTxs d) u" for u
    using that unfolding tx_paired_def by auto
  have "tx_shape u \<and> tx_paired (creditTxs d') u \<and>
      (\<forall>i. tx_grantId u = Some i \<longrightarrow> i \<in> gr_id ` set (grants d'))" if "u \<in> set (creditTxs d')" for u
    using that shape paired grant ledger_okD(3,4,5) [OF ok] paired' unfolding d' by auto
  moreover have "grant_balanced (creditTxs d') g" if "g \<in> set (grants d')" for g
    using ledger_okD(6) [OF ok, of g] that neutral
    by (simp add: grant_balanced_def d' count_where_Cons reserved_of_def released_of_def)
  moreover have "keyed gr_id (grants d')" "keyed tx_idempotencyKey (creditTxs d')"
    using ledger_okD(1,2) [OF ok] fresh by (simp_all add: d' keyed_append1)
  ultimately show ?thesis unfolding ledger_ok_def by blast
qed

lemma reserve_tx_simps [simp]:
  "tx_type (reserve_tx u gid i) = TX_RESERVE" "tx_grantId (reserve_tx u gid i) = Some i"
  "tx_generationId (reserve_tx u gid i) = Some gid"
  "tx_idempotencyKey (reserve_tx u gid i) = credit_key gid ''reserve''"
  by (simp_all add: reserve_tx_def)

lemma ledger_ok_reserve:
  assumes ok: "ledger_ok d" and step: "reserve now u gid d = Inr d'"
  shows "ledger_ok d'"
  using step ledger_okD(1) [OF ok]
proof (cases rule: reserve_cases)
  case existing
  with ok show ?thesis by simp
next
  case (paid g)
  let ?t = "reserve_tx u gid (gr_id g)"
  show ?thesis
  proof (rule ledger_ok_append [OF ok])
    show "tx_idempotencyKey r \<noteq> tx_idempotencyKey ?t" if "r \<in> set (creditTxs d)" for r
      using paid(1) that by (auto simp: find_tx_def find_first_None_iff)
    show "tx_shape ?t" by (simp add: tx_shape_def)
    show "tx_paired (creditTxs d) ?t" by (simp add: tx_paired_def)
    show "0 \<le> gr_remainingCredits g + tx_effect ?t"
      using usable_grant_pos [OF paid(3)] by (simp add: tx_effect_def)
  qed (use paid in \<open>simp_all add: take_credit_def tx_effect_def\<close>)
qed

lemma findReservation_SomeD:
  "findReservation gid d = Some r \<Longrightarrow>
     r \<in> set (creditTxs d) \<and> tx_idempotencyKey r = credit_key gid ''reserve''"
  unfolding findReservation_def find_tx_def by (drule find_first_Some) auto

text \<open>A release that settles: no terminal entry yet, and the reservation names a grant.\<close>

lemma release_cases:
  assumes "releaseInTransaction gid reason d = Inr d'"
  obtains (noop) "d' = d" "findReservation gid d = None \<or> findTerminal gid d \<noteq> None \<or>
              (\<exists>r. findReservation gid d = Some r \<and> tx_grantId r = None)"
  | (restored) r t i where "findReservation gid d = Some r" "tx_grantId r = Some i"
      "findTerminal gid d = None" "\<exists>g \<in> set (grants d). gr_id g = i"
      "tx_type t = TX_RELEASE" "tx_grantId t = Some i" "tx_generationId t = Some gid"
      "tx_idempotencyKey t = credit_key gid ''release''" "tx_reason t = take 200 reason"
      "\<not> credit_tx_conflict d t"
      "d' = d\<lparr>grants := update_where (\<lambda>g. gr_id g = i) (add_credits 1) (grants d),
              creditTxs := creditTxs d @ [t]\<rparr>"
proof (cases "findReservation gid d")
  case None
  with assms show thesis by (intro noop) (auto simp: releaseInTransaction_def)
next
  case (Some r)
  show thesis
  proof (cases "tx_grantId r = None \<or> findTerminal gid d \<noteq> None")
    case True
    with Some assms show thesis by (intro noop) (auto simp: releaseInTransaction_def split: option.splits)
  next
    case False
    then obtain i where i: "tx_grantId r = Some i" by auto
    let ?t = "\<lparr>tx_userId = tx_userId r, tx_generationId = Some gid, tx_grantId = Some i,
                tx_type = TX_RELEASE, tx_amount = 1, tx_idempotencyKey = credit_key gid ''release'',
                tx_reason = take 200 reason\<rparr>"
    from Some i False assms show thesis
      by (intro restored [of r i ?t])
        (auto simp: releaseInTransaction_def create_credit_tx_def dest: find_first_Some split: if_splits)
  qed
qed

lemma ledger_ok_release:
  assumes ok: "ledger_ok d" and step: "releaseInTransaction gid reason d = Inr d'"
  shows "ledger_ok d'"
  using step
proof (cases rule: release_cases)
  case noop
  with ok show ?thesis by simp
next
  case (restored r t i)
  then obtain g where g: "g \<in> set (grants d)" "gr_id g = i" by auto
  note r = findReservation_SomeD [OF restored(1)]
  show ?thesis
  proof (rule ledger_ok_append [OF ok])
    show "tx_idempotencyKey u \<noteq> tx_idempotencyKey t" if "u \<in> set (creditTxs d)" for u
      using restored(10) that by (auto simp: credit_tx_conflict_def)
    show "tx_shape t" using restored by (simp add: tx_shape_def)
    show "tx_paired (creditTxs d) t" using restored r by (auto simp: tx_paired_def)
    show "0 \<le> gr_remainingCredits g + tx_effect t"
      using ledger_okD(6) [OF ok g(1)] restored(5) by (simp add: tx_effect_def grant_balanced_def)
  qed (use restored g in \<open>simp_all add: tx_effect_def\<close>)
qed

lemma consume_cases:
  assumes "consumeInTransaction gid d = Inr d'"
  obtains (noop) u where "d' = d" "findTerminal gid d = Some u" "tx_type u = TX_CONSUME"
      "findReservation gid d \<noteq> None"
  | (consumed) r t where "findReservation gid d = Some r" "findTerminal gid d = None"
      "tx_type t = TX_CONSUME" "tx_grantId t = tx_grantId r" "tx_generationId t = Some gid"
      "tx_idempotencyKey t = credit_key gid ''consume''" "\<not> credit_tx_conflict d t"
      "d' = d\<lparr>creditTxs := creditTxs d @ [t]\<rparr>"
proof (cases "findReservation gid d")
  case None
  with assms show thesis by (simp add: consumeInTransaction_def)
next
  case (Some r)
  show thesis
  proof (cases "findTerminal gid d")
    case (Some u)
    with \<open>findReservation gid d = Some r\<close> assms show thesis
      by (intro noop) (auto simp: consumeInTransaction_def split: if_splits)
  next
    case None
    let ?t = "\<lparr>tx_userId = tx_userId r, tx_generationId = Some gid, tx_grantId = tx_grantId r,
                tx_type = TX_CONSUME, tx_amount = 1, tx_idempotencyKey = credit_key gid ''consume'',
                tx_reason = ''Successful report generation''\<rparr>"
    from None Some assms show thesis
      by (intro consumed [of r ?t])
        (auto simp: consumeInTransaction_def create_credit_tx_def split: if_splits)
  qed
qed

lemma ledger_ok_consume:
  assumes ok: "ledger_ok d" and step: "consumeInTransaction gid d = Inr d'"
  shows "ledger_ok d'"
  using step
proof (cases rule: consume_cases)
  case noop
  with ok show ?thesis by simp
next
  case (consumed r t)
  note r = findReservation_SomeD [OF consumed(1)]
  have shape: "tx_shape t" using consumed by (simp add: tx_shape_def)
  have paired: "tx_paired (creditTxs d) t" using consumed r by (auto simp: tx_paired_def)
  have fresh: "tx_idempotencyKey u \<noteq> tx_idempotencyKey t" if "u \<in> set (creditTxs d)" for u
    using consumed(7) that by (auto simp: credit_tx_conflict_def)
  have id: "i \<in> gr_id ` set (grants d)" if "tx_grantId t = Some i" for i
    using ledger_okD(5) [OF ok, of r i] that r consumed(4) by simp
  show ?thesis
    by (rule ledger_ok_append_neutral [OF ok fresh shape paired id])
      (use consumed(3,8) in simp_all)
qed

lemma ledger_ok_allocateMonthly:
  assumes ok: "ledger_ok d"
    and step: "allocateMonthly newId now u k n from till d = Inr d'"
  shows "ledger_ok d'"
proof -
  let ?key = "period_key u k"
  let ?t = "\<lambda>i. \<lparr>tx_userId = u, tx_generationId = None, tx_grantId = Some i, tx_type = TX_GRANT,
              tx_amount = n, tx_idempotencyKey = ?key,
              tx_reason = ''Monthly subscription credit allocation''\<rparr>"
  have shape: "tx_shape (?t i)" for i by (simp add: tx_shape_def period_key_def)
  have paired: "tx_paired txs (?t i)" for txs i by (simp add: tx_paired_def credit_key_def period_key_def)
  have n: "0 < n" using step by (auto simp: allocateMonthly_def split: if_splits)
  show ?thesis
  proof (cases "find_tx ?key d")
    case (Some t)
    with step ok show ?thesis by (auto simp: allocateMonthly_def split: if_splits)
  next
    case None
    then have key: "tx_idempotencyKey t \<noteq> tx_idempotencyKey (?t i)" if "t \<in> set (creditTxs d)" for t i
      using that by (auto simp: find_tx_def find_first_None_iff)
    show ?thesis
    proof (cases "find_first (\<lambda>g. gr_userId g = u \<and> gr_subscriptionPeriodKey g = Some k) (grants d)")
      case (Some g)
      from find_first_Some [OF this] have g: "g \<in> set (grants d)" by simp
      from Some None step have d': "d' = d\<lparr>creditTxs := creditTxs d @ [?t (gr_id g)]\<rparr>"
        by (auto simp: allocateMonthly_def create_credit_tx_def split: if_splits)
      show ?thesis
        by (rule ledger_ok_append_neutral [OF ok key [of _ "gr_id g"] shape paired])
          (use g in \<open>simp_all add: d'\<close>)
    next
      case None
      define h where "h = \<lparr>gr_id = newId, gr_userId = u, gr_source = SUBSCRIPTION_MONTHLY,
           gr_totalCredits = n, gr_remainingCredits = n, gr_validFrom = from, gr_expiresAt = Some till,
           gr_subscriptionPeriodKey = Some k, gr_createdAt = now\<rparr>"
      let ?d1 = "d\<lparr>grants := grants d @ [h]\<rparr>"
      have fresh: "gr_id g \<noteq> newId" if "g \<in> set (grants d)" for g
        using None step \<open>find_tx ?key d = None\<close> that
        by (auto simp: allocateMonthly_def create_grant_def split: if_splits)
      have d': "d' = ?d1\<lparr>creditTxs := creditTxs d @ [?t newId]\<rparr>"
        using None step \<open>find_tx ?key d = None\<close>
        by (auto simp: allocateMonthly_def create_credit_tx_def create_grant_def h_def split: if_splits)
      have "count_where (reserved_of newId) (creditTxs d) = 0" "count_where (released_of newId) (creditTxs d) = 0"
        using ledger_okD(5) [OF ok] fresh
        by (auto simp: count_where_0_iff reserved_of_def released_of_def)
      then have bal: "grant_balanced (creditTxs d) h" using n by (simp add: grant_balanced_def h_def)
      have "keyed gr_id (grants ?d1)" using ledger_okD(1) [OF ok] fresh by (simp add: keyed_append1 h_def)
      then have "ledger_ok ?d1"
        using ledger_okD [OF ok] bal unfolding ledger_ok_def by (simp add: image_iff)
      then show ?thesis
        by (rule ledger_ok_append_neutral [OF _ _ shape [of newId] paired])
          (use key d' in \<open>auto simp: h_def\<close>)
    qed
  qed
qed

section \<open>The state of one generation's credit\<close>

text \<open>
  What the ledger says of a generation. \<open>live_ledger\<close> holds as long as the generation's row was
  not deleted (its entries still carry its id).
\<close>

datatype credit_state = Unreserved | Reserved | Consumed | Restored

definition credit_state :: "string \<Rightarrow> db \<Rightarrow> credit_state" where
  "credit_state gid d =
     (case findReservation gid d of
        None \<Rightarrow> Unreserved
      | Some _ \<Rightarrow> (case findTerminal gid d of
                   None \<Rightarrow> Reserved
                 | Some t \<Rightarrow> if tx_type t = TX_CONSUME then Consumed else Restored))"

definition live_ledger :: "string \<Rightarrow> db \<Rightarrow> bool" where
  "live_ledger gid d \<longleftrightarrow>
     (\<forall>t \<in> set (creditTxs d).
        tx_idempotencyKey t = credit_key gid ''consume'' \<or> tx_idempotencyKey t = credit_key gid ''release'' \<longrightarrow>
        tx_generationId t = Some gid)"

lemma credit_view_cong:
  assumes "creditTxs d = creditTxs d'"
  shows "credit_state gid d = credit_state gid d'" "live_ledger gid d = live_ledger gid d'"
  using assms by (simp_all add: credit_state_def live_ledger_def findReservation_def find_tx_def findTerminal_def
      cong: option.case_cong)

lemma find_credit_append:
  assumes "creditTxs d' = creditTxs d @ [t]"
  shows "findReservation gid d' = (case findReservation gid d of
      None \<Rightarrow> if tx_idempotencyKey t = credit_key gid ''reserve'' then Some t else None | Some r \<Rightarrow> Some r)"
    and "findTerminal gid d' = (case findTerminal gid d of
      None \<Rightarrow> if tx_generationId t = Some gid \<and> terminal_type (tx_type t) then Some t else None | Some r \<Rightarrow> Some r)"
  by (simp_all add: findReservation_def find_tx_def findTerminal_def assms find_first_append find_first_Cons
      split: option.splits)

lemma live_ledger_append:
  assumes "creditTxs d' = creditTxs d @ [t]"
    and "tx_idempotencyKey t = credit_key gid a" "tx_generationId t = Some gid"
    and "a \<in> {''reserve'', ''consume'', ''release''}"
  shows "live_ledger h d' = live_ledger h d"
  using assms(2-4) by (auto simp: live_ledger_def assms(1))

lemma findTerminal_SomeD:
  "findTerminal gid d = Some t \<Longrightarrow>
     t \<in> set (creditTxs d) \<and> tx_generationId t = Some gid \<and> terminal_type (tx_type t)"
  unfolding findTerminal_def by (drule find_first_Some) auto

lemma unreserved_no_terminal:
  assumes "ledger_ok d" "findReservation gid d = None"
  shows "findTerminal gid d = None"
proof (rule ccontr)
  assume "findTerminal gid d \<noteq> None"
  then obtain t where t: "t \<in> set (creditTxs d)" "tx_generationId t = Some gid" "terminal_type (tx_type t)"
    using findTerminal_SomeD by blast
  note shape = ledger_okD(3) [OF assms(1) t(1)]
  from tx_shape_generation [OF shape t(2)] t(3)
  have "tx_idempotencyKey t = credit_key gid ''consume'' \<or> tx_idempotencyKey t = credit_key gid ''release''"
    by blast
  then obtain r where "r \<in> set (creditTxs d)" "tx_idempotencyKey r = credit_key gid ''reserve''"
    using ledger_okD(4) [OF assms(1) t(1)] by (auto simp: tx_paired_def)
  with assms(2) show False by (auto simp: findReservation_def find_tx_def find_first_None_iff)
qed

lemma credit_state_frame:
  assumes "creditTxs d' = creditTxs d @ [t]" "tx_idempotencyKey t = credit_key gid a"
    "tx_generationId t = Some gid" "a \<in> {''reserve'', ''consume'', ''release''}" "h \<noteq> gid"
  shows "credit_state h d' = credit_state h d"
  using assms(2-5)
  by (auto simp: credit_state_def find_credit_append [OF assms(1)] split: option.splits)

text \<open>A reserved, live generation can be settled either way.\<close>

lemma settle_no_conflict:
  assumes "ledger_ok d" "live_ledger gid d" "findTerminal gid d = None"
    and "tx_generationId t = Some gid" "terminal_type (tx_type t)"
    and "tx_idempotencyKey t = credit_key gid ''consume'' \<or> tx_idempotencyKey t = credit_key gid ''release''"
  shows "\<not> credit_tx_conflict d t"
proof
  assume "credit_tx_conflict d t"
  then obtain u where u: "u \<in> set (creditTxs d)"
    "tx_idempotencyKey u = tx_idempotencyKey t \<or> (tx_generationId u = Some gid \<and> terminal_type (tx_type u))"
    using assms(4,5) by (auto simp: credit_tx_conflict_def)
  have "tx_generationId u = Some gid \<and> terminal_type (tx_type u)"
  proof (cases "tx_generationId u = Some gid \<and> terminal_type (tx_type u)")
    case False
    with u(2) assms(6) have k: "tx_idempotencyKey u = credit_key gid ''consume'' \<or>
        tx_idempotencyKey u = credit_key gid ''release''" by auto
    with assms(2) u(1) have "tx_generationId u = Some gid" by (auto simp: live_ledger_def)
    moreover have "terminal_type (tx_type u)"
      using k tx_shape_key(2,3) [OF ledger_okD(3) [OF assms(1) u(1)], of gid] by auto
    ultimately show ?thesis by simp
  qed
  with u(1) assms(3) show False by (auto simp: findTerminal_def find_first_None_iff)
qed

section \<open>The contract of a generation's credit\<close>

text \<open>
  What the generation services rely on: three operations on a state, each of which moves the
  credit of one generation along Unreserved, Reserved, then Consumed or Restored, and leaves the
  credits of the others alone. \<open>res\<close> takes the clock and the payer, \<open>rel\<close> the reason.
\<close>

locale credit_contract =
  fixes inv :: "'s \<Rightarrow> bool"
    and live :: "string \<Rightarrow> 's \<Rightarrow> bool"
    and view :: "string \<Rightarrow> 's \<Rightarrow> credit_state"
    and res :: "int \<Rightarrow> string \<Rightarrow> string \<Rightarrow> 's \<Rightarrow> exn + 's"
    and con :: "string \<Rightarrow> 's \<Rightarrow> exn + 's"
    and rel :: "string \<Rightarrow> string \<Rightarrow> 's \<Rightarrow> exn + 's"
  assumes res_step: "inv s \<Longrightarrow> live g s \<Longrightarrow> res now u g s = Inr s' \<Longrightarrow>
      inv s' \<and> view g s' = (if view g s = Unreserved then Reserved else view g s) \<and>
      (\<forall>h. live h s' = live h s) \<and> (\<forall>h. h \<noteq> g \<longrightarrow> view h s' = view h s)"
    and con_step: "inv s \<Longrightarrow> live g s \<Longrightarrow> con g s = Inr s' \<Longrightarrow>
      inv s' \<and> view g s \<in> {Reserved, Consumed} \<and> view g s' = Consumed \<and>
      (\<forall>h. live h s' = live h s) \<and> (\<forall>h. h \<noteq> g \<longrightarrow> view h s' = view h s)"
    and con_succeeds: "inv s \<Longrightarrow> live g s \<Longrightarrow> view g s = Reserved \<Longrightarrow> \<exists>s'. con g s = Inr s'"
    and con_again: "inv s \<Longrightarrow> live g s \<Longrightarrow> view g s = Consumed \<Longrightarrow> con g s = Inr s"
    and rel_step: "inv s \<Longrightarrow> live g s \<Longrightarrow> rel g r s = Inr s' \<Longrightarrow>
      inv s' \<and> view g s' = (if view g s = Reserved then Restored else view g s) \<and>
      (\<forall>h. live h s' = live h s) \<and> (\<forall>h. h \<noteq> g \<longrightarrow> view h s' = view h s)"
    and rel_succeeds: "inv s \<Longrightarrow> live g s \<Longrightarrow> \<exists>s'. rel g r s = Inr s'"
    and rel_again: "inv s \<Longrightarrow> live g s \<Longrightarrow> view g s \<noteq> Reserved \<Longrightarrow> rel g r s = Inr s"
begin

text \<open>A call of an operation, in a transaction of its own, and a history of calls.\<close>

fun call :: "(int \<times> string \<times> string) + string + string \<times> string \<Rightarrow> 's \<Rightarrow> 's" where
  "call (Inl (now, u, g)) s = (case res now u g s of Inl _ \<Rightarrow> s | Inr s' \<Rightarrow> s')"
| "call (Inr (Inl g)) s = (case con g s of Inl _ \<Rightarrow> s | Inr s' \<Rightarrow> s')"
| "call (Inr (Inr (g, r))) s = (case rel g r s of Inl _ \<Rightarrow> s | Inr s' \<Rightarrow> s')"

fun target :: "(int \<times> string \<times> string) + string + string \<times> string \<Rightarrow> string" where
  "target (Inl (now, u, g)) = g"
| "target (Inr (Inl g)) = g"
| "target (Inr (Inr (g, r))) = g"

lemma call_step:
  assumes "inv s" "live (target c) s"
  shows "inv (call c s)" "live h (call c s) = live h s"
    "h \<noteq> target c \<Longrightarrow> view h (call c s) = view h s"
    "view (target c) s \<in> {Consumed, Restored} \<Longrightarrow> view (target c) (call c s) = view (target c) s"
proof -
  have "inv (call c s) \<and> live h (call c s) = live h s \<and>
      (h \<noteq> target c \<longrightarrow> view h (call c s) = view h s) \<and>
      (view (target c) s \<in> {Consumed, Restored} \<longrightarrow> view (target c) (call c s) = view (target c) s)"
  proof (cases c rule: target.cases)
    case (1 now u g)
    with assms res_step [of s g now u] show ?thesis by (auto split: sum.splits)
  next
    case (2 g)
    with assms con_step [of s g] show ?thesis by (auto split: sum.splits)
  next
    case (3 g r)
    with assms rel_step [of s g r] show ?thesis by (auto split: sum.splits)
  qed
  then show "inv (call c s)" "live h (call c s) = live h s"
    "h \<noteq> target c \<Longrightarrow> view h (call c s) = view h s"
    "view (target c) s \<in> {Consumed, Restored} \<Longrightarrow> view (target c) (call c s) = view (target c) s"
    by auto
qed

lemma settled_forever:
  assumes "inv s" "\<And>c. c \<in> set cs \<Longrightarrow> live (target c) s" "view g s \<in> {Consumed, Restored}"
  shows "inv (fold call cs s) \<and> view g (fold call cs s) = view g s"
  using assms
proof (induction cs arbitrary: s)
  case (Cons c cs)
  have c: "live (target c) s" using Cons.prems(2) by simp
  note step = call_step [OF Cons.prems(1) c]
  have same: "view g (call c s) = view g s"
    using step(3) [of g] step(4) Cons.prems(3) by (cases "g = target c") auto
  have "inv (fold call cs (call c s)) \<and> view g (fold call cs (call c s)) = view g (call c s)"
    by (rule Cons.IH) (use step Cons.prems same in auto)
  with same show ?case by simp
qed simp

end

text \<open>The ledger keeps the contract, whatever the clock reads at a reservation.\<close>

lemma credit_state_reserve:
  assumes ok: "ledger_ok d" and live: "live_ledger gid d" and step: "reserve now u gid d = Inr d'"
  shows "ledger_ok d' \<and>
    credit_state gid d' = (if credit_state gid d = Unreserved then Reserved else credit_state gid d) \<and>
    (\<forall>h. live_ledger h d' = live_ledger h d) \<and> (\<forall>h. h \<noteq> gid \<longrightarrow> credit_state h d' = credit_state h d)"
  using step ledger_okD(1) [OF ok]
proof (cases rule: reserve_cases)
  case (existing t)
  then have "credit_state gid d \<noteq> Unreserved"
    by (auto simp: credit_state_def findReservation_def split: option.splits)
  with existing ok show ?thesis by simp
next
  case (paid g)
  have d': "creditTxs d' = creditTxs d @ [reserve_tx u gid (gr_id g)]"
    by (simp add: paid take_credit_def)
  have none: "findReservation gid d = None" using paid by (simp add: findReservation_def)
  note noterm = unreserved_no_terminal [OF ok none]
  have "credit_state gid d' = Reserved" "credit_state gid d = Unreserved"
    using none noterm by (simp_all add: credit_state_def find_credit_append [OF d'])
  moreover have "live_ledger h d' = live_ledger h d" for h by (rule live_ledger_append [OF d']) auto
  moreover have "credit_state h d' = credit_state h d" if "h \<noteq> gid" for h
    by (rule credit_state_frame [OF d']) (use that in auto)
  ultimately show ?thesis using ledger_ok_reserve [OF ok step] by simp
qed

lemma credit_state_cases:
  "credit_state gid d = Unreserved \<longleftrightarrow> findReservation gid d = None"
  "credit_state gid d = Reserved \<longleftrightarrow> findReservation gid d \<noteq> None \<and> findTerminal gid d = None"
  "credit_state gid d = Consumed \<longleftrightarrow> findReservation gid d \<noteq> None \<and>
     (\<exists>t. findTerminal gid d = Some t \<and> tx_type t = TX_CONSUME)"
  by (auto simp: credit_state_def split: option.splits)

lemma credit_state_consume:
  assumes ok: "ledger_ok d" and live: "live_ledger gid d" and step: "consumeInTransaction gid d = Inr d'"
  shows "ledger_ok d' \<and> credit_state gid d \<in> {Reserved, Consumed} \<and> credit_state gid d' = Consumed \<and>
    (\<forall>h. live_ledger h d' = live_ledger h d) \<and> (\<forall>h. h \<noteq> gid \<longrightarrow> credit_state h d' = credit_state h d)"
  using step
proof (cases rule: consume_cases)
  case (noop u)
  then have "credit_state gid d = Consumed" by (auto simp: credit_state_cases)
  with noop ok show ?thesis by simp
next
  case (consumed r t)
  have d': "creditTxs d' = creditTxs d @ [t]" by (simp add: consumed)
  have "credit_state gid d = Reserved" "credit_state gid d' = Consumed"
    using consumed(1,2,3,5) find_credit_append [OF d', of gid] by (simp_all add: credit_state_def)
  moreover have "live_ledger h d' = live_ledger h d" for h
    by (rule live_ledger_append [OF d' consumed(6,5)]) simp
  moreover have "credit_state h d' = credit_state h d" if "h \<noteq> gid" for h
    by (rule credit_state_frame [OF d' consumed(6,5) _ that]) simp
  ultimately show ?thesis using ledger_ok_consume [OF ok step] by simp
qed

lemma credit_state_release:
  assumes ok: "ledger_ok d" and live: "live_ledger gid d" and step: "releaseInTransaction gid r d = Inr d'"
  shows "ledger_ok d' \<and>
    credit_state gid d' = (if credit_state gid d = Reserved then Restored else credit_state gid d) \<and>
    (\<forall>h. live_ledger h d' = live_ledger h d) \<and> (\<forall>h. h \<noteq> gid \<longrightarrow> credit_state h d' = credit_state h d)"
  using step
proof (cases rule: release_cases)
  case noop
  have "credit_state gid d \<noteq> Reserved"
  proof
    assume "credit_state gid d = Reserved"
    then obtain t where t: "findReservation gid d = Some t" "findTerminal gid d = None"
      by (auto simp: credit_state_cases)
    note s = findReservation_SomeD [OF t(1)]
    have "tx_grantId t \<noteq> None"
      using tx_shape_key(1) [of t gid] ledger_okD(3) [OF ok, of t] s by (auto simp: tx_shape_def)
    with t noop(2) show False by auto
  qed
  with noop ok show ?thesis by simp
next
  case (restored q t i)
  have d': "creditTxs d' = creditTxs d @ [t]" by (simp add: restored)
  have "credit_state gid d = Reserved" "credit_state gid d' = Restored"
    using restored(1,3,5,7) find_credit_append [OF d', of gid] by (simp_all add: credit_state_def)
  moreover have "live_ledger h d' = live_ledger h d" for h
    by (rule live_ledger_append [OF d' restored(8,7)]) simp
  moreover have "credit_state h d' = credit_state h d" if "h \<noteq> gid" for h
    by (rule credit_state_frame [OF d' restored(8,7) _ that]) simp
  ultimately show ?thesis using ledger_ok_release [OF ok step] by simp
qed

lemma consume_reserved_succeeds:
  assumes ok: "ledger_ok d" and live: "live_ledger gid d" and reserved: "credit_state gid d = Reserved"
  shows "\<exists>d'. consumeInTransaction gid d = Inr d'"
proof -
  obtain t where t: "findReservation gid d = Some t" "findTerminal gid d = None"
    using reserved by (auto simp: credit_state_cases)
  then show ?thesis
    using settle_no_conflict [OF ok live t(2)]
    by (simp add: consumeInTransaction_def create_credit_tx_def)
qed

lemma release_total:
  assumes ok: "ledger_ok d" and live: "live_ledger gid d"
  shows "\<exists>d'. releaseInTransaction gid r d = Inr d'"
proof (cases "\<exists>t i. findReservation gid d = Some t \<and> tx_grantId t = Some i \<and> findTerminal gid d = None")
  case True
  then obtain t i where t: "findReservation gid d = Some t" "tx_grantId t = Some i" "findTerminal gid d = None"
    by auto
  then have "i \<in> gr_id ` set (grants d)"
    using ledger_okD(5) [OF ok, of t i] findReservation_SomeD [OF t(1)] by simp
  then have "find_first (\<lambda>g. gr_id g = i) (grants d) \<noteq> None" by (auto simp: find_first_None_iff)
  with t show ?thesis
    using settle_no_conflict [OF ok live t(3)]
    by (auto simp: releaseInTransaction_def create_credit_tx_def)
qed (auto simp: releaseInTransaction_def split: option.splits)

interpretation ledger: credit_contract ledger_ok live_ledger credit_state reserve
  consumeInTransaction releaseInTransaction
proof
  fix d gid d' now u r
  assume ok: "ledger_ok d" and live: "live_ledger gid d"
  show "ledger_ok d' \<and>
      credit_state gid d' = (if credit_state gid d = Unreserved then Reserved else credit_state gid d) \<and>
      (\<forall>h. live_ledger h d' = live_ledger h d) \<and> (\<forall>h. h \<noteq> gid \<longrightarrow> credit_state h d' = credit_state h d)"
    if "reserve now u gid d = Inr d'" by (rule credit_state_reserve [OF ok live that])
  show "ledger_ok d' \<and> credit_state gid d \<in> {Reserved, Consumed} \<and> credit_state gid d' = Consumed \<and>
      (\<forall>h. live_ledger h d' = live_ledger h d) \<and> (\<forall>h. h \<noteq> gid \<longrightarrow> credit_state h d' = credit_state h d)"
    if "consumeInTransaction gid d = Inr d'" by (rule credit_state_consume [OF ok live that])
  show "ledger_ok d' \<and>
      credit_state gid d' = (if credit_state gid d = Reserved then Restored else credit_state gid d) \<and>
      (\<forall>h. live_ledger h d' = live_ledger h d) \<and> (\<forall>h. h \<noteq> gid \<longrightarrow> credit_state h d' = credit_state h d)"
    if "releaseInTransaction gid r d = Inr d'" by (rule credit_state_release [OF ok live that])
  show "\<exists>d'. consumeInTransaction gid d = Inr d'" if "credit_state gid d = Reserved"
    by (rule consume_reserved_succeeds [OF ok live that])
  show "consumeInTransaction gid d = Inr d" if "credit_state gid d = Consumed"
    using that by (auto simp: credit_state_cases consumeInTransaction_def)
  show "releaseInTransaction gid r d = Inr d" if "credit_state gid d \<noteq> Reserved"
    using that by (auto simp: credit_state_cases releaseInTransaction_def split: option.splits)
  show "\<exists>d'. releaseInTransaction gid r d = Inr d'" by (rule release_total [OF ok live])
qed

section \<open>What the operations leave alone\<close>

definition credit_frame :: "db \<Rightarrow> db \<Rightarrow> bool" where
  "credit_frame d d' \<longleftrightarrow> d' = d\<lparr>grants := grants d', creditTxs := creditTxs d'\<rparr>"

lemma credit_frameD:
  assumes "credit_frame d d'"
  shows "users d' = users d" "reports d' = reports d" "assets d' = assets d"
    "generations d' = generations d" "outputs d' = outputs d" "transcriptions d' = transcriptions d"
    "attempts d' = attempts d" "cleanupTasks d' = cleanupTasks d" "subscriptions d' = subscriptions d"
proof -
  from assms have *: "d' = d\<lparr>grants := grants d', creditTxs := creditTxs d'\<rparr>" by (simp add: credit_frame_def)
  show "users d' = users d" "reports d' = reports d" "assets d' = assets d"
    "generations d' = generations d" "outputs d' = outputs d" "transcriptions d' = transcriptions d"
    "attempts d' = attempts d" "cleanupTasks d' = cleanupTasks d" "subscriptions d' = subscriptions d"
    by (subst *, simp)+
qed

lemma credit_frame_refl [simp]: "credit_frame d d"
  by (simp add: credit_frame_def)

lemma reserve_loop_frame: "reserve_loop u gid gs d = Inr (Some d') \<Longrightarrow> credit_frame d d'"
proof (induction gs arbitrary: d)
  case (Cons g gs)
  let ?p = "\<lambda>r. gr_id r = gr_id g \<and> gr_remainingCredits r > 0"
  let ?d1 = "d\<lparr>grants := update_where ?p (add_credits (-1)) (grants d)\<rparr>"
  show ?case
  proof (cases "count_where ?p (grants d) = 1")
    case True
    with Cons.prems show ?thesis
      by (auto simp: credit_frame_def Let_def create_credit_tx_def split: if_splits)
  next
    case False
    with Cons.prems have "reserve_loop u gid gs ?d1 = Inr (Some d')" by (auto simp: Let_def)
    from Cons.IH [OF this] have "d' = ?d1\<lparr>grants := grants d', creditTxs := creditTxs d'\<rparr>"
      by (simp add: credit_frame_def)
    then show ?thesis by (simp add: credit_frame_def)
  qed
qed simp

lemma credit_frames:
  "reserve now u gid d = Inr d' \<Longrightarrow> credit_frame d d'"
  "consumeInTransaction gid d = Inr d' \<Longrightarrow> credit_frame d d'"
  "releaseInTransaction gid r d = Inr d' \<Longrightarrow> credit_frame d d'"
proof -
  show "reserve now u gid d = Inr d' \<Longrightarrow> credit_frame d d'"
    by (auto simp: reserve_def intro: reserve_loop_frame
        split: option.splits sum.splits if_splits)
  show "consumeInTransaction gid d = Inr d' \<Longrightarrow> credit_frame d d'"
    by (erule consume_cases) (simp_all add: credit_frame_def)
  show "releaseInTransaction gid r d = Inr d' \<Longrightarrow> credit_frame d d'"
    by (erule release_cases) (simp_all add: credit_frame_def)
qed

section \<open>Properties\<close>

text \<open>
  Histories of the service's calls from an empty database: each runs in a transaction of its own
  and an error leaves the state as it was.
\<close>

datatype credit_op =
    OpAllocate string int string string int int int
  | OpReserve int string string
  | OpConsume string
  | OpRelease string string

fun run_credit_op :: "credit_op \<Rightarrow> db \<Rightarrow> db" where
  "run_credit_op (OpAllocate i now u k n from till) d =
     snd (run_tx (unit_tx (allocateMonthly i now u k n from till)) d)"
| "run_credit_op (OpReserve now u g) d = snd (run_tx (unit_tx (reserve now u g)) d)"
| "run_credit_op (OpConsume g) d = snd (consume g d)"
| "run_credit_op (OpRelease g r) d = snd (release g r d)"

lemma snd_run_unit_tx: "snd (run_tx (unit_tx f) d) = (case f d of Inl _ \<Rightarrow> d | Inr d' \<Rightarrow> d')"
  by (simp add: run_tx_def unit_tx_def split: sum.splits)

lemma ledger_ok_run_credit_op: "ledger_ok d \<Longrightarrow> ledger_ok (run_credit_op c d)"
  by (cases c) (auto simp: snd_run_unit_tx consume_def release_def split: sum.splits
      intro: ledger_ok_allocateMonthly ledger_ok_reserve ledger_ok_consume ledger_ok_release)

lemma ledger_ok_history: "ledger_ok d \<Longrightarrow> ledger_ok (fold run_credit_op cs d)"
  by (induction cs arbitrary: d) (simp_all add: ledger_ok_run_credit_op)

text \<open>A monthly allocation leaves every generation's credit alone.\<close>

lemma allocateMonthly_txs:
  assumes "allocateMonthly i now u k n from till d = Inr d'"
  shows "creditTxs d' = creditTxs d \<or>
    (\<exists>t. creditTxs d' = creditTxs d @ [t] \<and> tx_type t = TX_GRANT \<and> tx_idempotencyKey t = period_key u k)"
  using assms
  by (auto simp: allocateMonthly_def create_credit_tx_def create_grant_def split: if_splits option.splits)

lemma period_key_neq [simp]: "period_key u k \<noteq> credit_key g a" "credit_key g a \<noteq> period_key u k"
  by (simp_all add: period_key_def credit_key_def)

lemma credit_state_allocate:
  assumes "allocateMonthly i now u k n from till d = Inr d'"
  shows "credit_state g d' = credit_state g d \<and> live_ledger g d' = live_ledger g d"
proof -
  from allocateMonthly_txs [OF assms] show ?thesis
  proof (elim disjE exE conjE)
    assume "creditTxs d' = creditTxs d" then show ?thesis by (metis credit_view_cong)
  next
    fix t assume t: "creditTxs d' = creditTxs d @ [t]" "tx_type t = TX_GRANT" "tx_idempotencyKey t = period_key u k"
    show ?thesis
      using t(2,3) by (auto simp: credit_state_def find_credit_append [OF t(1)] live_ledger_def t(1)
          split: option.splits)
  qed
qed

text \<open>The calls of a history that the contract covers.\<close>

lemma run_credit_op_call:
  "run_credit_op (OpReserve now u g) = ledger.call (Inl (now, u, g))"
  "run_credit_op (OpConsume g) = ledger.call (Inr (Inl g))"
  "run_credit_op (OpRelease g r) = ledger.call (Inr (Inr (g, r)))"
  by (rule ext, simp add: snd_run_unit_tx consume_def release_def split: sum.splits)+

definition all_live :: "db \<Rightarrow> bool" where
  "all_live d \<longleftrightarrow> ledger_ok d \<and> (\<forall>g. live_ledger g d)"

lemma all_live_step:
  assumes "all_live d"
  shows "all_live (run_credit_op c d) \<and>
    (credit_state g d \<in> {Consumed, Restored} \<longrightarrow> credit_state g (run_credit_op c d) = credit_state g d)"
proof (cases "\<exists>i now u k n from till. c = OpAllocate i now u k n from till")
  case True
  with assms credit_state_allocate ledger_ok_run_credit_op [of d c] show ?thesis
    by (auto simp: all_live_def snd_run_unit_tx split: sum.splits)
next
  case False
  then obtain c' where c': "run_credit_op c = ledger.call c'"
    using run_credit_op_call by (cases c) metis+
  show ?thesis
    using assms ledger.call_step(1,4) [of d c'] ledger.call_step(2) [of d c'] ledger.call_step(3) [of d c' g]
    by (cases "g = ledger.target c'") (auto simp: all_live_def c')
qed

lemma all_live_history:
  "all_live d \<Longrightarrow> all_live (fold run_credit_op cs d) \<and>
    (credit_state g d \<in> {Consumed, Restored} \<longrightarrow> credit_state g (fold run_credit_op cs d) = credit_state g d)"
proof (induction cs arbitrary: d)
  case (Cons c cs)
  note step = all_live_step [OF Cons.prems, of c g]
  show ?case using Cons.IH [of "run_credit_op c d"] step by auto
qed simp

lemma all_live_empty: "all_live empty_db"
  using ledger_ok_empty by (auto simp: all_live_def live_ledger_def empty_db_def)

text \<open>A small ledger for the witnesses: one monthly grant of two credits, reserved once.\<close>

definition demo_ops :: "credit_op list" where
  "demo_ops = [OpAllocate ''a'' 0 ''u'' ''p'' 2 0 100, OpReserve 5 ''u'' ''g'']"

definition demo_ledger :: db where
  "demo_ledger = fold run_credit_op demo_ops empty_db"

definition demo_grant :: "int \<Rightarrow> grant_row" where
  "demo_grant n = \<lparr>gr_id = ''a'', gr_userId = ''u'', gr_source = SUBSCRIPTION_MONTHLY,
     gr_totalCredits = 2, gr_remainingCredits = n, gr_validFrom = 0, gr_expiresAt = Some 100,
     gr_subscriptionPeriodKey = Some ''p'', gr_createdAt = 0\<rparr>"

lemma demo_grants: "grants demo_ledger = [demo_grant 1]"
  by code_simp

text \<open>
  C9. Credits are conserved: after any history of allocations, reservations, consumptions and
  releases, each grant's remaining credits are its total less the reservations it paid plus the
  reservations given back, and never leave the range from zero to the total.
\<close>

theorem credits_conserved:
  assumes "g \<in> set (grants (fold run_credit_op cs empty_db))"
  shows "let txs = creditTxs (fold run_credit_op cs empty_db) in
    gr_remainingCredits g = gr_totalCredits g
      - int (count_where (\<lambda>t. tx_type t = TX_RESERVE \<and> tx_grantId t = Some (gr_id g)) txs)
      + int (count_where (\<lambda>t. tx_type t = TX_RELEASE \<and> tx_grantId t = Some (gr_id g)) txs) \<and>
    0 \<le> gr_remainingCredits g \<and> gr_remainingCredits g \<le> gr_totalCredits g"
proof -
  have ok: "ledger_ok (fold run_credit_op cs empty_db)" by (rule ledger_ok_history [OF ledger_ok_empty])
  show ?thesis
    using ledger_okD(6) [OF ok assms] ledger_ok_bounds [OF ok assms]
    by (simp add: grant_balanced_def Let_def reserved_of_def [abs_def] released_of_def [abs_def])
qed

theorem credits_conserved_witness:
  "gr_remainingCredits (demo_grant 1) = gr_totalCredits (demo_grant 1)
      - int (count_where (\<lambda>t. tx_type t = TX_RESERVE \<and> tx_grantId t = Some ''a'') (creditTxs demo_ledger))
      + int (count_where (\<lambda>t. tx_type t = TX_RELEASE \<and> tx_grantId t = Some ''a'') (creditTxs demo_ledger))"
  using credits_conserved [of "demo_grant 1" demo_ops] demo_grants
  by (simp add: demo_ledger_def Let_def demo_grant_def)

text \<open>
  C25. A reservation that is not a repetition is paid by exactly one usable grant of the user, the
  first in the order of expiry, source, creation and id, which loses one credit, and adds exactly one
  \<open>RESERVE\<close> entry.
\<close>

theorem reserve_charges_first_to_expire:
  assumes "keyed gr_id (grants d)" "find_tx (credit_key gid ''reserve'') d = None"
    and "reserve now u gid d = Inr d'"
  shows "\<exists>g \<in> set (grants d). usable_grant now u g \<and>
    (\<forall>h \<in> set (grants d). usable_grant now u h \<longrightarrow> compareGrants g h \<le> 0) \<and>
    d' = d\<lparr>grants := update_where (\<lambda>r. gr_id r = gr_id g) (add_credits (-1)) (grants d),
           creditTxs := creditTxs d @ [reserve_tx u gid (gr_id g)]\<rparr>"
  using assms(3,1)
proof (cases rule: reserve_cases)
  case (existing t)
  with assms(2) show ?thesis by simp
next
  case (paid g)
  then show ?thesis by (auto simp: compareGrants_le take_credit_def intro!: bexI [of _ g])
qed

theorem reserve_charges_first_to_expire_witness:
  "\<exists>g \<in> set (grants demo_ledger). usable_grant 6 ''u'' g \<and>
    snd (run_tx (unit_tx (reserve 6 ''u'' ''h'')) demo_ledger) =
      demo_ledger\<lparr>grants := update_where (\<lambda>r. gr_id r = gr_id g) (add_credits (-1)) (grants demo_ledger),
           creditTxs := creditTxs demo_ledger @ [reserve_tx ''u'' ''h'' (gr_id g)]\<rparr>"
proof -
  have "\<exists>d'. reserve 6 ''u'' ''h'' demo_ledger = Inr d'"
  proof (rule reserve_succeeds [of demo_ledger "demo_grant 1"])
    show "keyed gr_id (grants demo_ledger)" by (simp add: demo_grants keyed_def)
    show "demo_grant 1 \<in> set (grants demo_ledger)" by (simp add: demo_grants)
    show "usable_grant 6 ''u'' (demo_grant 1)" by code_simp
    fix t assume "t \<in> set (creditTxs demo_ledger)"
    moreover have "\<forall>t \<in> set (creditTxs demo_ledger). tx_generationId t \<noteq> Some ''h'' \<and>
        tx_idempotencyKey t \<noteq> credit_key ''h'' ''reserve''" by code_simp
    ultimately show "tx_generationId t \<noteq> Some ''h'' \<and> tx_idempotencyKey t \<noteq> credit_key ''h'' ''reserve''"
      by blast
  qed
  then obtain d' where d': "reserve 6 ''u'' ''h'' demo_ledger = Inr d'" by blast
  have "find_tx (credit_key ''h'' ''reserve'') demo_ledger = None" by code_simp
  from reserve_charges_first_to_expire [OF _ this d'] d' show ?thesis
    by (auto simp: demo_grants keyed_def snd_run_unit_tx)
qed

text \<open>
  What the calls do in each state of a generation's credit: a consumption without a reservation
  and one after a release are errors, a repeated consumption or release changes nothing, and a
  reserved credit can always be consumed and always be released, exactly then giving one credit
  back to the grant that paid.
\<close>

lemma credit_calls_by_state:
  assumes "ledger_ok d" "live_ledger g d"
  shows "case credit_state g d of
      Unreserved \<Rightarrow>
        consumeInTransaction g d = Inl (conflict ''GENERATION_CREDIT_RESERVATION_FAILED''
          ''The generation credit reservation is missing'') \<and> releaseInTransaction g r d = Inr d
    | Reserved \<Rightarrow>
        (\<exists>t. consumeInTransaction g d = Inr (d\<lparr>creditTxs := creditTxs d @ [t]\<rparr>) \<and> tx_type t = TX_CONSUME) \<and>
        (\<exists>i t. findReservation g d = Some t \<and> tx_grantId t = Some i \<and>
           (\<exists>d'. releaseInTransaction g r d = Inr d' \<and> credit_state g d' = Restored \<and>
              grants d' = update_where (\<lambda>x. gr_id x = i) (add_credits 1) (grants d)))
    | Consumed \<Rightarrow> consumeInTransaction g d = Inr d \<and> releaseInTransaction g r d = Inr d
    | Restored \<Rightarrow>
        consumeInTransaction g d = Inl (conflict ''GENERATION_CREDIT_ALREADY_RELEASED''
          ''The generation credit has already been restored'') \<and> releaseInTransaction g r d = Inr d"
proof (cases "credit_state g d")
  case Unreserved
  then have "findReservation g d = None" by (simp add: credit_state_cases)
  with Unreserved ledger.rel_again [OF assms] show ?thesis by (simp add: consumeInTransaction_def)
next
  case Consumed
  with ledger.rel_again [OF assms] ledger.con_again [OF assms] show ?thesis by simp
next
  case Restored
  then have "findReservation g d \<noteq> None" "\<exists>t. findTerminal g d = Some t \<and> tx_type t \<noteq> TX_CONSUME"
    by (auto simp: credit_state_def split: option.splits if_splits)
  with Restored ledger.rel_again [OF assms] show ?thesis by (auto simp: consumeInTransaction_def)
next
  case Reserved
  obtain d1 where d1: "consumeInTransaction g d = Inr d1" using ledger.con_succeeds [OF assms Reserved] by blast
  obtain d2 where d2: "releaseInTransaction g r d = Inr d2" using ledger.rel_succeeds [OF assms] by blast
  have "\<exists>t. d1 = d\<lparr>creditTxs := creditTxs d @ [t]\<rparr> \<and> tx_type t = TX_CONSUME"
    using d1 by (cases rule: consume_cases) (use Reserved in \<open>auto simp: credit_state_cases\<close>)
  moreover have view: "credit_state g d2 = Restored" using ledger.rel_step [OF assms d2] Reserved by simp
  moreover have "\<exists>i t. findReservation g d = Some t \<and> tx_grantId t = Some i \<and>
       grants d2 = update_where (\<lambda>x. gr_id x = i) (add_credits 1) (grants d)"
    using d2 by (cases rule: release_cases) (use Reserved view in auto)
  ultimately show ?thesis using Reserved d1 d2 by auto
qed

lemma credit_calls_by_state_witness:
  "\<exists>d'. releaseInTransaction ''g'' ''why'' demo_ledger = Inr d' \<and>
     grants d' = update_where (\<lambda>x. gr_id x = ''a'') (add_credits 1) (grants demo_ledger)"
proof -
  have "ledger_ok demo_ledger" unfolding demo_ledger_def by (rule ledger_ok_history [OF ledger_ok_empty])
  moreover have "live_ledger ''g'' demo_ledger"
    using all_live_history [OF all_live_empty, of demo_ops] by (simp add: all_live_def demo_ledger_def)
  moreover have "credit_state ''g'' demo_ledger = Reserved" by code_simp
  moreover have "map_option tx_grantId (findReservation ''g'' demo_ledger) = Some (Some ''a'')" by code_simp
  ultimately show ?thesis using credit_calls_by_state [of demo_ledger "''g''" "''why''"] by auto
qed

text \<open>
  A credit is settled once: once a generation's credit is consumed or restored, no later history
  of the service's calls, in any order, changes that.
\<close>

lemma settled_credit_is_final:
  assumes "credit_state g (fold run_credit_op cs empty_db) \<in> {Consumed, Restored}"
  shows "credit_state g (fold run_credit_op (cs @ later) empty_db) = credit_state g (fold run_credit_op cs empty_db)"
proof -
  have "all_live (fold run_credit_op cs empty_db)" using all_live_history [OF all_live_empty] by blast
  from all_live_history [OF this, of later g] assms show ?thesis by auto
qed

lemma settled_credit_is_final_witness:
  "credit_state ''g'' (fold run_credit_op
     (demo_ops @ [OpConsume ''g''] @ [OpRelease ''g'' ''late'', OpConsume ''g'']) empty_db) = Consumed"
proof -
  have c: "credit_state ''g'' (fold run_credit_op (demo_ops @ [OpConsume ''g'']) empty_db) = Consumed"
    by code_simp
  show ?thesis
    using settled_credit_is_final [of "''g''" "demo_ops @ [OpConsume ''g'']" "[OpRelease ''g'' ''late'', OpConsume ''g'']"] c
    by (metis append.assoc insertI1)
qed

end
