(* ===== verification/Generations.thy ===== *)
theory Generations
  imports Credits
begin

text \<open>
  \<open>src/report-generation/report-generations.service.ts\<close> and \<open>report-generation-queue.service.ts\<close>:
  starting, reading, retrying and cancelling a generation. The state is the database and the jobs of
  the queue (BullMQ, whose \<open>add\<close> with the id of an existing job changes nothing). Flags say whether
  a call to the queue fails. \<open>clk\<close> gives the successive readings of the clock in a call.
\<close>

section \<open>State and settings\<close>

record app =
  sdb :: db
  jobs :: "string list"

record start_config =
  generationEnabled :: bool
  startRateWindowSeconds :: int
  startRateLimit :: int
  dailySafetyLimit :: int
  globalDailyLimit :: int

record public_generation =
  pg_id :: string
  pg_status :: generation_status
  pg_stage :: generation_stage
  pg_progress :: int
  pg_errorCode :: "string option"
  pg_errorMessage :: "string option"
  pg_createdAt :: int
  pg_startedAt :: "int option"
  pg_completedAt :: "int option"
  pg_cancelledAt :: "int option"

definition toPublicGeneration :: "generation_row \<Rightarrow> public_generation" where
  "toPublicGeneration g =
     \<lparr>pg_id = gen_id g, pg_status = gen_status g, pg_stage = gen_stage g, pg_progress = gen_progress g,
      pg_errorCode = gen_errorCode g, pg_errorMessage = gen_errorMessage g,
      pg_createdAt = gen_createdAt g, pg_startedAt = gen_startedAt g,
      pg_completedAt = gen_completedAt g, pg_cancelledAt = gen_cancelledAt g\<rparr>"

definition REPORT_PROMPT_VERSION :: string where
  "REPORT_PROMPT_VERSION = ''report-v1''"

definition SERIALIZABLE_RETRY_LIMIT :: nat where
  "SERIALIZABLE_RETRY_LIMIT = 3"

section \<open>Reading generations\<close>

definition assertOwnedReport :: "string \<Rightarrow> string \<Rightarrow> db \<Rightarrow> unit result" where
  "assertOwnedReport userId reportId d =
     guardE (exists_where (\<lambda>r. rep_id r = reportId \<and> rep_userId r = userId) (reports d))
       (HttpError 404 [] ''Report not found'' [])"

definition latest :: "string \<Rightarrow> string \<Rightarrow> db \<Rightarrow> public_generation result" where
  "latest userId reportId d =
     bindE (assertOwnedReport userId reportId d) (\<lambda>_.
       map_sum id toPublicGeneration
         (fromOption (notFound ''GENERATION_NOT_FOUND'' ''Generation not found'')
           (find_first (\<lambda>g. gen_reportId g = reportId \<and> gen_userId g = userId)
             (sort_key (\<lambda>g. - gen_createdAt g) (generations d)))))"

definition findOne :: "string \<Rightarrow> string \<Rightarrow> string \<Rightarrow> db \<Rightarrow> public_generation result" where
  "findOne userId reportId generationId d =
     map_sum id toPublicGeneration
       (fromOption (notFound ''GENERATION_NOT_FOUND'' ''Generation not found'')
         (find_first (\<lambda>g. gen_id g = generationId \<and> gen_reportId g = reportId \<and> gen_userId g = userId)
           (generations d)))"

section \<open>The checks of a start\<close>

definition valid_idempotency_key :: "string \<Rightarrow> bool" where
  "valid_idempotency_key key \<longleftrightarrow>
     1 \<le> length key \<and> length key \<le> 128 \<and> key = strim key \<and>
     list_all (\<lambda>c. 33 \<le> (of_char c :: nat) \<and> (of_char c :: nat) \<le> 126) key"

definition assertReportUnlocked :: "int \<Rightarrow> report_row \<Rightarrow> unit result" where
  "assertReportUnlocked now report =
     (case rep_lockedUntil report of
        None \<Rightarrow> Inr ()
      | Some lockedUntil \<Rightarrow>
          (if lockedUntil \<le> now then Inr ()
           else Inl (HttpError 409 ''REPORT_TEMPORARILY_LOCKED''
             ''This report has been temporarily locked because it failed multiple consecutive generation attempts. Please try again later.''
             [(''lockedUntil'', lockedUntil),
              (''retryAfterSeconds'', - ((- (lockedUntil - now)) div 1000)),
              (''consecutiveFailures'', rep_failureCount report)])))"

definition validateSources :: "utext option \<Rightarrow> asset_row list \<Rightarrow> unit result" where
  "validateSources notes as =
     bindE (guardE (\<not> list_ex (\<lambda>a. as_status a = AS_PENDING_UPLOAD) as)
        (conflict ''REPORT_HAS_PENDING_UPLOADS'' ''Complete or remove pending uploads before generation'')) (\<lambda>_.
     bindE (guardE (\<not> list_ex (\<lambda>a. as_status a = AS_REJECTED) as)
        (conflict ''REPORT_HAS_REJECTED_ASSETS'' ''Remove rejected assets before generation'')) (\<lambda>_.
     guardE (\<not> ((case notes of None \<Rightarrow> True | Some t \<Rightarrow> utrim t = []) \<and> length as = 0))
        (conflict ''REPORT_HAS_NO_CONTENT'' ''Add notes or at least one ready asset'')))"

definition enforceStartLimits :: "start_config \<Rightarrow> int \<Rightarrow> string \<Rightarrow> db \<Rightarrow> unit result" where
  "enforceStartLimits cfg now userId d =
     (let dayAgo = now - 86400000;
          hourly = count_where (\<lambda>g. gen_userId g = userId \<and>
                     gen_createdAt g \<ge> now - startRateWindowSeconds cfg * 1000) (generations d);
          daily = count_where (\<lambda>g. gen_userId g = userId \<and> gen_createdAt g \<ge> dayAgo) (generations d);
          globalDaily = count_where (\<lambda>g. gen_createdAt g \<ge> dayAgo) (generations d)
      in bindE (guardE (int hourly < startRateLimit cfg)
           (tooManyRequests ''GENERATION_RATE_LIMITED'' ''Generation start rate limit reached'')) (\<lambda>_.
         bindE (guardE (int daily < dailySafetyLimit cfg)
           (tooManyRequests ''GENERATION_DAILY_LIMIT_REACHED'' ''Daily generation limit reached'')) (\<lambda>_.
         guardE (int globalDaily < globalDailyLimit cfg)
           (unavailable ''GENERATION_DISABLED'' ''Report generation is temporarily unavailable''))))"

definition check_report_status :: "report_status \<Rightarrow> unit result" where
  "check_report_status status =
     (if status = RS_PROCESSING
      then Inl (conflict ''GENERATION_ALREADY_ACTIVE'' ''A generation is already active'')
      else if status = RS_QUEUED
      then Inl (conflict ''GENERATION_ALREADY_ACTIVE'' ''A generation is already active'')
      else if status \<noteq> RS_DRAFT \<and> status \<noteq> RS_FAILED
      then Inl (conflict ''REPORT_NOT_EDITABLE'' ''The report is not eligible for generation'')
      else Inr ())"

section \<open>The transaction of a start\<close>

definition by_idempotency_key :: "string \<Rightarrow> string \<Rightarrow> string \<Rightarrow> db \<Rightarrow> generation_row option" where
  "by_idempotency_key userId reportId key d =
     find_first (\<lambda>g. gen_userId g = userId \<and> gen_reportId g = reportId \<and> gen_idempotencyKey g = key)
       (generations d)"

definition report_assets :: "string \<Rightarrow> db \<Rightarrow> asset_row list" where
  "report_assets reportId d = sort_key as_position (filter (\<lambda>a. as_reportId a = reportId) (assets d))"

text \<open>A \<open>READY\<close> asset has its verified columns; the fallbacks are never read then.\<close>

definition snapshot_of_asset :: "asset_row \<Rightarrow> snapshot_asset" where
  "snapshot_of_asset a =
     \<lparr>sa_id = as_id a, sa_type = as_type a,
      sa_verifiedMimeType = (case as_verifiedMimeType a of Some m \<Rightarrow> m | None \<Rightarrow> []),
      sa_verifiedSize = (case as_verifiedSize a of Some n \<Rightarrow> n | None \<Rightarrow> 0),
      sa_position = as_position a, sa_storageKey = as_storageKey a,
      sa_originalFileName = as_originalFileName a\<rparr>"

definition build_snapshot :: "int \<Rightarrow> report_row \<Rightarrow> user_row \<Rightarrow> asset_row list \<Rightarrow> input_snapshot" where
  "build_snapshot now report user as =
     \<lparr>sn_version = 1, sn_reportId = rep_id report, sn_title = rep_title report,
      sn_notes = rep_notes report, sn_language = usr_language user, sn_timezone = usr_timezone user,
      sn_assets = map snapshot_of_asset (filter (\<lambda>a. as_status a = AS_READY) as),
      sn_createdAt = now\<rparr>"

text \<open>The row with the defaults of the schema.\<close>

definition new_generation ::
  "string \<Rightarrow> string \<Rightarrow> string \<Rightarrow> string \<Rightarrow> input_snapshot \<Rightarrow> report_status \<Rightarrow> int \<Rightarrow> generation_row" where
  "new_generation gid reportId userId key snapshot prior now =
     \<lparr>gen_id = gid, gen_reportId = reportId, gen_userId = userId, gen_idempotencyKey = key,
      gen_status = GS_QUEUED, gen_stage = PREPARING, gen_progress = 0, gen_attemptCount = 0,
      gen_errorCode = None, gen_errorMessage = None, gen_provider = None, gen_model = None,
      gen_providerRequestId = None, gen_promptVersion = REPORT_PROMPT_VERSION,
      gen_inputSnapshot = Some snapshot, gen_structuredResult = None, gen_inputTokens = None,
      gen_outputTokens = None, gen_startedAt = None, gen_completedAt = None, gen_cancelledAt = None,
      gen_processingToken = None, gen_leaseExpiresAt = None, gen_enqueuedAt = None,
      gen_priorReportStatus = prior, gen_createdAt = now\<rparr>"

definition start_checks ::
  "start_config \<Rightarrow> (nat \<Rightarrow> int) \<Rightarrow> report_row \<Rightarrow> user_row \<Rightarrow> asset_row list \<Rightarrow> db \<Rightarrow> unit result" where
  "start_checks cfg clk report user as d =
     bindE (guardE (usr_emailVerifiedAt user \<noteq> None)
       (forbidden ''EMAIL_VERIFICATION_REQUIRED'' ''Verify the account email before generating reports'')) (\<lambda>_.
     bindE (check_report_status (rep_status report)) (\<lambda>_.
     bindE (assertReportUnlocked (clk 0) report) (\<lambda>_.
     bindE (validateSources (rep_notes report) as) (\<lambda>_.
     enforceStartLimits cfg (clk 1) (usr_id user) d))))"

definition start_body ::
  "start_config \<Rightarrow> (nat \<Rightarrow> int) \<Rightarrow> string \<Rightarrow> string \<Rightarrow> string \<Rightarrow> string \<Rightarrow> (db, generation_row) tx" where
  "start_body cfg clk generationId userId reportId key d =
     (case by_idempotency_key userId reportId key d of
        Some duplicate \<Rightarrow> Inr (duplicate, d)
      | None \<Rightarrow>
         (case find_first (\<lambda>r. rep_id r = reportId \<and> rep_userId r = userId) (reports d) of
            None \<Rightarrow> Inl (HttpError 404 [] ''Report not found'' [])
          | Some report \<Rightarrow>
             (case find_first (\<lambda>x. usr_id x = rep_userId report) (users d) of
                None \<Rightarrow> Inl (HttpError 404 [] ''Report not found'' [])
              | Some user \<Rightarrow>
                 (let as = report_assets reportId d in
                  bindE (start_checks cfg clk report user as d) (\<lambda>_.
                  bindE (create_generation
                           (new_generation generationId reportId userId key
                              (build_snapshot (clk 2) report user as) (rep_status report) (clk 3)) d) (\<lambda>d1.
                  bindE (reserve (clk 4) userId generationId d1) (\<lambda>d2.
                  bindE (update_report reportId (\<lambda>r. r\<lparr>rep_status := RS_QUEUED\<rparr>) d2) (\<lambda>d3.
                  bindE (fromOption (PrismaError ''P2025'') (find_generation generationId d3)) (\<lambda>g.
                  Inr (g, d3))))))))))"

section \<open>The queue\<close>

definition enqueue :: "bool \<Rightarrow> string \<Rightarrow> string list \<Rightarrow> string list result" where
  "enqueue fails generationId js =
     (if fails then Inl (PlainError ''queue'')
      else Inr (if generationId \<in> set js then js else js @ [generationId]))"

definition queue_remove :: "bool \<Rightarrow> string \<Rightarrow> string list \<Rightarrow> string list result" where
  "queue_remove fails generationId js =
     (if fails then Inl (PlainError ''queue'') else Inr (filter (\<lambda>j. j \<noteq> generationId) js))"

definition compensate_body :: "string \<Rightarrow> (db, unit) tx" where
  "compensate_body generationId d =
     (case find_generation generationId d of
        None \<Rightarrow> Inr ((), d)
      | Some g \<Rightarrow>
         (if gen_status g \<noteq> GS_QUEUED then Inr ((), d)
          else bindE (releaseInTransaction (gen_id g) ''Queue enqueue failed'' d) (\<lambda>d1.
               bindE (delete_generation (gen_id g)
                 (d1\<lparr>reports := update_where (\<lambda>r. rep_id r = gen_reportId g \<and> rep_status r = RS_QUEUED)
                        (\<lambda>r. r\<lparr>rep_status := gen_priorReportStatus g\<rparr>) (reports d1)\<rparr>)) (\<lambda>d2.
               Inr ((), d2)))))"

definition compensateQueueFailure :: "string \<Rightarrow> db \<Rightarrow> unit result \<times> db" where
  "compensateQueueFailure generationId = run_tx (compensate_body generationId)"

text \<open>
  \<open>queueFails\<close>: the job cannot be added; \<open>compensationFails\<close> and \<open>markerFails\<close>: the database refuses
  the compensation or the marker.
\<close>

definition ensureEnqueued ::
  "bool \<Rightarrow> bool \<Rightarrow> bool \<Rightarrow> int \<Rightarrow> generation_row \<Rightarrow> app \<Rightarrow> public_generation result \<times> app" where
  "ensureEnqueued queueFails compensationFails markerFails now g s =
     (if gen_status g \<noteq> GS_QUEUED \<or> gen_enqueuedAt g \<noteq> None then (Inr (toPublicGeneration g), s)
      else (case enqueue queueFails (gen_id g) (jobs s) of
         Inl _ \<Rightarrow>
           (Inl (unavailable ''GENERATION_QUEUE_UNAVAILABLE'' ''Report generation is temporarily unavailable''),
            if compensationFails then s
            else s\<lparr>sdb := snd (compensateQueueFailure (gen_id g) (sdb s))\<rparr>)
       | Inr js \<Rightarrow>
           (Inr (toPublicGeneration g),
            if markerFails then s\<lparr>jobs := js\<rparr>
            else s\<lparr>jobs := js, sdb := (sdb s)\<lparr>generations := update_where
                     (\<lambda>h. gen_id h = gen_id g \<and> gen_status h = GS_QUEUED \<and> gen_enqueuedAt h = None)
                     (\<lambda>h. h\<lparr>gen_enqueuedAt := Some now\<rparr>) (generations (sdb s))\<rparr>\<rparr>)))"

section \<open>Start\<close>

text \<open>
  The loop over the serializable transaction. \<open>fault i\<close> is the error the database itself raises in
  attempt \<open>i\<close> (a serialization failure, a unique violation with a concurrent commit), and \<open>env i\<close> what
  other processes commit before it; \<open>clk i\<close> are the clock readings of attempt \<open>i\<close>.
\<close>

fun start_loop ::
  "(nat \<Rightarrow> exn option) \<Rightarrow> (nat \<Rightarrow> db \<Rightarrow> db) \<Rightarrow> (nat \<Rightarrow> (db, generation_row) tx) \<Rightarrow>
   (db \<Rightarrow> generation_row option) \<Rightarrow> nat \<Rightarrow> nat \<Rightarrow> db \<Rightarrow> generation_row option result \<times> db" where
  "start_loop fault env body lookup 0 attempt d = (Inr None, d)"
| "start_loop fault env body lookup (Suc n) attempt d =
     (let d1 = env attempt d in
      case (case fault attempt of Some e \<Rightarrow> Inl e | None \<Rightarrow> body attempt d1) of
        Inr (g, d2) \<Rightarrow> (Inr (Some g), d2)
      | Inl e \<Rightarrow>
         (if e = PrismaError ''P2034'' then
            (if attempt < SERIALIZABLE_RETRY_LIMIT
             then start_loop fault env body lookup n (attempt + 1) d1
             else (Inl (conflict ''GENERATION_CREDIT_RESERVATION_FAILED''
                     ''Generation could not be reserved; retry the request''), d1))
          else if e = PrismaError ''P2002'' then
            (case lookup d1 of
               Some duplicate \<Rightarrow> (Inr (Some duplicate), d1)
             | None \<Rightarrow> (Inl (conflict ''GENERATION_ALREADY_ACTIVE'' ''A generation is already active''), d1))
          else (Inl e, d1)))"

record outcomes =
  o_fault :: "nat \<Rightarrow> exn option"
  o_env :: "nat \<Rightarrow> db \<Rightarrow> db"
  o_clock :: "nat \<Rightarrow> nat \<Rightarrow> int"
  o_queueFails :: bool
  o_compensationFails :: bool
  o_markerFails :: bool

definition start ::
  "start_config \<Rightarrow> outcomes \<Rightarrow> string \<Rightarrow> string \<Rightarrow> string \<Rightarrow> string \<Rightarrow> app \<Rightarrow> public_generation result \<times> app" where
  "start cfg w generationId userId reportId key s =
     (let enqueued = ensureEnqueued (o_queueFails w) (o_compensationFails w) (o_markerFails w) (o_clock w 4 0) in
      if \<not> generationEnabled cfg
      then (Inl (unavailable ''GENERATION_DISABLED'' ''Report generation is disabled''), s)
      else if \<not> valid_idempotency_key key
      then (Inl (conflict ''INVALID_IDEMPOTENCY_KEY'' ''A valid Idempotency-Key header is required''), s)
      else (case by_idempotency_key userId reportId key (sdb s) of
         Some existing \<Rightarrow> enqueued existing s
       | None \<Rightarrow>
          (case start_loop (o_fault w) (o_env w)
                  (\<lambda>i. start_body cfg (o_clock w i) generationId userId reportId key)
                  (by_idempotency_key userId reportId key) SERIALIZABLE_RETRY_LIMIT 1 (sdb s) of
             (Inl e, d) \<Rightarrow> (Inl e, s\<lparr>sdb := d\<rparr>)
           | (Inr None, d) \<Rightarrow>
               (Inl (conflict ''GENERATION_CREDIT_RESERVATION_FAILED''
                  ''Generation could not be reserved; retry the request''), s\<lparr>sdb := d\<rparr>)
           | (Inr (Some g), d) \<Rightarrow> enqueued g (s\<lparr>sdb := d\<rparr>))))"

definition retry ::
  "start_config \<Rightarrow> outcomes \<Rightarrow> string \<Rightarrow> string \<Rightarrow> string \<Rightarrow> string \<Rightarrow> string \<Rightarrow> app \<Rightarrow>
     public_generation result \<times> app" where
  "retry cfg w newId userId reportId generationId key s =
     (case findOne userId reportId generationId (sdb s) of
        Inl e \<Rightarrow> (Inl e, s)
      | Inr _ \<Rightarrow> start cfg w newId userId reportId key s)"

section \<open>Cancel\<close>

definition cancel_body :: "int \<Rightarrow> string \<Rightarrow> string \<Rightarrow> string \<Rightarrow> (db, public_generation) tx" where
  "cancel_body now userId reportId generationId d =
     (let p = (\<lambda>g. gen_id g = generationId \<and> gen_reportId g = reportId \<and> gen_userId g = userId \<and>
                 gen_status g = GS_QUEUED) in
      case find_first p (generations d) of
        None \<Rightarrow> Inl (conflict ''GENERATION_NOT_CANCELLABLE'' ''Generation processing has already started'')
      | Some current \<Rightarrow>
          bindE (guardE (count_where p (generations d) = 1)
            (conflict ''GENERATION_NOT_CANCELLABLE'' ''Generation processing has already started'')) (\<lambda>_.
          bindE (update_report reportId (\<lambda>r. r\<lparr>rep_status := gen_priorReportStatus current\<rparr>)
                   (d\<lparr>generations := update_where p
                        (\<lambda>g. g\<lparr>gen_status := GS_CANCELLED, gen_cancelledAt := Some now\<rparr>)
                        (generations d)\<rparr>)) (\<lambda>d1.
          bindE (releaseInTransaction generationId ''Queued generation cancelled'' d1) (\<lambda>d2.
          bindE (fromOption (PrismaError ''P2025'') (find_generation generationId d2)) (\<lambda>g.
          Inr (toPublicGeneration g, d2))))))"

text \<open>\<open>env\<close> is what other processes do between the removal of the job and the transaction.\<close>

definition cancel ::
  "bool \<Rightarrow> (db \<Rightarrow> db) \<Rightarrow> int \<Rightarrow> string \<Rightarrow> string \<Rightarrow> string \<Rightarrow> app \<Rightarrow> public_generation result \<times> app" where
  "cancel queueFails env now userId reportId generationId s =
     (case findOne userId reportId generationId (sdb s) of
        Inl e \<Rightarrow> (Inl e, s)
      | Inr g \<Rightarrow>
         (if pg_status g \<noteq> GS_QUEUED
          then (Inl (conflict ''GENERATION_NOT_CANCELLABLE'' ''Only a queued generation can be cancelled''), s)
          else (case queue_remove queueFails generationId (jobs s) of
             Inl _ \<Rightarrow> (Inl (unavailable ''GENERATION_QUEUE_UNAVAILABLE''
                         ''Generation cancellation is temporarily unavailable''), s)
           | Inr js \<Rightarrow>
              (case run_tx (cancel_body now userId reportId generationId) (env (sdb s)) of
                 (r, d) \<Rightarrow> (r, s\<lparr>sdb := d, jobs := js\<rparr>)))))"

section \<open>What the transactions do\<close>

lemma find_generation_SomeD:
  "find_generation gid d = Some g \<Longrightarrow> g \<in> set (generations d) \<and> gen_id g = gid"
  unfolding find_generation_def by (drule find_first_Some) simp

lemma update_report_Inr_iff:
  "update_report rid f d = Inr d' \<longleftrightarrow>
     (\<exists>r \<in> set (reports d). rep_id r = rid) \<and>
     d' = d\<lparr>reports := update_where (\<lambda>r. rep_id r = rid) f (reports d)\<rparr>"
  by (auto simp: update_report_def)

lemma check_report_status_Inr_iff:
  "check_report_status st = Inr u \<longleftrightarrow> st = RS_DRAFT \<or> st = RS_FAILED"
  by (cases st) (simp_all add: check_report_status_def)

lemma assertReportUnlocked_Inr_iff:
  "assertReportUnlocked now r = Inr u \<longleftrightarrow> (\<forall>t. rep_lockedUntil r = Some t \<longrightarrow> t \<le> now)"
  by (simp add: assertReportUnlocked_def split: option.splits)

lemma validateSources_Inr_iff:
  "validateSources notes as = Inr u \<longleftrightarrow>
     (\<forall>a \<in> set as. as_status a = AS_READY) \<and> ((\<exists>t. notes = Some t \<and> utrim t \<noteq> []) \<or> as \<noteq> [])"
proof -
  have "as_status a = AS_READY \<longleftrightarrow> as_status a \<noteq> AS_PENDING_UPLOAD \<and> as_status a \<noteq> AS_REJECTED" for a
    by (cases "as_status a") simp_all
  then show ?thesis by (auto simp: validateSources_def result_iffs list_ex_iff split: option.splits)
qed

lemma start_checks_Inr_iff:
  "start_checks cfg clk report user as d = Inr u \<longleftrightarrow>
     usr_emailVerifiedAt user \<noteq> None \<and> rep_status report \<in> {RS_DRAFT, RS_FAILED} \<and>
     (\<forall>t. rep_lockedUntil report = Some t \<longrightarrow> t \<le> clk 0) \<and>
     (\<forall>a \<in> set as. as_status a = AS_READY) \<and>
     ((\<exists>t. rep_notes report = Some t \<and> utrim t \<noteq> []) \<or> as \<noteq> []) \<and>
     enforceStartLimits cfg (clk 1) (usr_id user) d = Inr ()"
  by (auto simp: start_checks_def result_iffs check_report_status_Inr_iff assertReportUnlocked_Inr_iff
      validateSources_Inr_iff)

lemma new_generation_simps [simp]:
  "gen_id (new_generation gid rid u k sn p t) = gid"
  "gen_reportId (new_generation gid rid u k sn p t) = rid"
  "gen_userId (new_generation gid rid u k sn p t) = u"
  "gen_idempotencyKey (new_generation gid rid u k sn p t) = k"
  "gen_status (new_generation gid rid u k sn p t) = GS_QUEUED"
  "gen_enqueuedAt (new_generation gid rid u k sn p t) = None"
  "gen_priorReportStatus (new_generation gid rid u k sn p t) = p"
  "gen_inputSnapshot (new_generation gid rid u k sn p t) = Some sn"
  "gen_processingToken (new_generation gid rid u k sn p t) = None"
  "gen_leaseExpiresAt (new_generation gid rid u k sn p t) = None"
  "gen_structuredResult (new_generation gid rid u k sn p t) = None"
  by (simp_all add: new_generation_def)

text \<open>A start that commits: the idempotency key was known, or everything was checked and created.\<close>

lemma start_body_cases:
  assumes "start_body cfg clk gid u rid key d = Inr (g, d')"
  obtains (duplicate) "by_idempotency_key u rid key d = Some g" "d' = d"
  | (created) report user d2 where "by_idempotency_key u rid key d = None"
      "report \<in> set (reports d)" "rep_id report = rid" "rep_userId report = u"
      "user \<in> set (users d)" "usr_id user = u"
      "start_checks cfg clk report user (report_assets rid d) d = Inr ()"
      "g = new_generation gid rid u key (build_snapshot (clk 2) report user (report_assets rid d))
             (rep_status report) (clk 3)"
      "\<not> generation_conflict d g"
      "reserve (clk 4) u gid (d\<lparr>generations := generations d @ [g]\<rparr>) = Inr d2"
      "d' = d2\<lparr>reports := update_where (\<lambda>r. rep_id r = rid) (\<lambda>r. r\<lparr>rep_status := RS_QUEUED\<rparr>) (reports d)\<rparr>"
proof (cases "by_idempotency_key u rid key d")
  case (Some g')
  with assms show thesis by (intro duplicate) (simp_all add: start_body_def)
next
  case None
  obtain report where r: "find_first (\<lambda>r. rep_id r = rid \<and> rep_userId r = u) (reports d) = Some report"
    using assms None by (auto simp: start_body_def split: option.splits)
  from find_first_Some [OF r] have rep: "report \<in> set (reports d)" "rep_id report = rid" "rep_userId report = u"
    by auto
  obtain user where x: "find_first (\<lambda>x. usr_id x = rep_userId report) (users d) = Some user"
    using assms None r by (auto simp: start_body_def split: option.splits)
  from find_first_Some [OF x] rep have user: "user \<in> set (users d)" "usr_id user = u" by auto
  let ?g = "new_generation gid rid u key (build_snapshot (clk 2) report user (report_assets rid d))
             (rep_status report) (clk 3)"
  let ?d1 = "d\<lparr>generations := generations d @ [?g]\<rparr>"
  have body: "bindE (start_checks cfg clk report user (report_assets rid d) d) (\<lambda>_.
      bindE (create_generation ?g d) (\<lambda>d1. bindE (reserve (clk 4) u gid d1) (\<lambda>d2.
      bindE (update_report rid (\<lambda>r. r\<lparr>rep_status := RS_QUEUED\<rparr>) d2) (\<lambda>d3.
      bindE (fromOption (PrismaError ''P2025'') (find_generation gid d3)) (\<lambda>g. Inr (g, d3)))))) = Inr (g, d')"
    using assms by (simp add: start_body_def None r x Let_def)
  then obtain d1 d2 where steps0: "start_checks cfg clk report user (report_assets rid d) d = Inr ()"
    "create_generation ?g d = Inr d1" "reserve (clk 4) u gid d1 = Inr d2"
    "update_report rid (\<lambda>r. r\<lparr>rep_status := RS_QUEUED\<rparr>) d2 = Inr d'"
    "find_generation gid d' = Some g"
    by (elim bindE_InrE) (auto simp: fromOption_Inr_iff)
  then have steps: "start_checks cfg clk report user (report_assets rid d) d = Inr ()"
    "\<not> generation_conflict d ?g" "reserve (clk 4) u gid ?d1 = Inr d2"
    "update_report rid (\<lambda>r. r\<lparr>rep_status := RS_QUEUED\<rparr>) d2 = Inr d'"
    "find_generation gid d' = Some g"
    by (simp_all add: create_generation_def split: if_splits)
  note frame = credit_frameD [OF credit_frames(1) [OF steps(3)]]
  have d': "d' = d2\<lparr>reports := update_where (\<lambda>r. rep_id r = rid) (\<lambda>r. r\<lparr>rep_status := RS_QUEUED\<rparr>) (reports d)\<rparr>"
    using steps(4) frame(2) by (simp add: update_report_Inr_iff)
  have "find_first (\<lambda>h. gen_id h = gid) (generations d) = None"
    using steps(2) by (auto simp: find_first_None_iff generation_conflict_def)
  then have g: "g = ?g" using steps(5) frame(4) by (simp add: d' find_generation_def find_first_append find_first_Cons)
  show thesis by (rule created [OF None rep user]) (use steps d' g in auto)
qed

lemma cancel_body_cases:
  assumes "cancel_body now u rid gid d = Inr (p, d')" "keyed gen_id (generations d)"
  obtains g d1 where "g \<in> set (generations d)" "gen_id g = gid" "gen_reportId g = rid" "gen_userId g = u"
    "gen_status g = GS_QUEUED"
    "d1 = d\<lparr>generations := update_where (\<lambda>h. gen_id h = gid)
               (\<lambda>g. g\<lparr>gen_status := GS_CANCELLED, gen_cancelledAt := Some now\<rparr>) (generations d),
            reports := update_where (\<lambda>r. rep_id r = rid)
               (\<lambda>r. r\<lparr>rep_status := gen_priorReportStatus g\<rparr>) (reports d)\<rparr>"
    "releaseInTransaction gid ''Queued generation cancelled'' d1 = Inr d'"
    "pg_id p = gid" "pg_status p = GS_CANCELLED"
proof -
  let ?p = "\<lambda>g. gen_id g = gid \<and> gen_reportId g = rid \<and> gen_userId g = u \<and> gen_status g = GS_QUEUED"
  obtain g where g: "find_first ?p (generations d) = Some g"
    using assms(1) by (auto simp: cancel_body_def Let_def split: option.splits)
  from find_first_Some [OF g] have g': "g \<in> set (generations d)" "?p g" by auto
  have upd: "update_where ?p f (generations d) = update_where (\<lambda>h. gen_id h = gid) f (generations d)" for f
    unfolding update_where_def by (rule map_cong) (use g' assms(2) in \<open>auto dest: keyed_eq\<close>)
  let ?d1 = "d\<lparr>generations := update_where (\<lambda>h. gen_id h = gid)
               (\<lambda>g. g\<lparr>gen_status := GS_CANCELLED, gen_cancelledAt := Some now\<rparr>) (generations d),
            reports := update_where (\<lambda>r. rep_id r = rid)
               (\<lambda>r. r\<lparr>rep_status := gen_priorReportStatus g\<rparr>) (reports d)\<rparr>"
  obtain h where steps: "releaseInTransaction gid ''Queued generation cancelled'' ?d1 = Inr d'"
    "find_generation gid d' = Some h" "p = toPublicGeneration h"
  proof -
    let ?conflict = "conflict ''GENERATION_NOT_CANCELLABLE'' ''Generation processing has already started''"
    have "bindE (guardE (count_where ?p (generations d) = 1) ?conflict) (\<lambda>_.
        bindE (update_report rid (\<lambda>r. r\<lparr>rep_status := gen_priorReportStatus g\<rparr>)
                 (d\<lparr>generations := update_where (\<lambda>h. gen_id h = gid)
                   (\<lambda>g. g\<lparr>gen_status := GS_CANCELLED, gen_cancelledAt := Some now\<rparr>) (generations d)\<rparr>)) (\<lambda>d1.
        bindE (releaseInTransaction gid ''Queued generation cancelled'' d1) (\<lambda>d2.
        bindE (fromOption (PrismaError ''P2025'') (find_generation gid d2)) (\<lambda>g.
        Inr (toPublicGeneration g, d2))))) = Inr (p, d')"
      using assms(1) g by (simp add: cancel_body_def Let_def upd)
    then show thesis
      by (elim bindE_InrE) (rule that, auto simp: fromOption_Inr_iff update_report_Inr_iff)
  qed
  have h: "h \<in> set (generations d')" "gen_id h = gid" using find_generation_SomeD [OF steps(2)] by auto
  have "h \<in> set (update_where (\<lambda>h. gen_id h = gid)
      (\<lambda>g. g\<lparr>gen_status := GS_CANCELLED, gen_cancelledAt := Some now\<rparr>) (generations d))"
    using h(1) credit_frameD(4) [OF credit_frames(3) [OF steps(1)]] by simp
  then obtain k where "h = (if gen_id k = gid then k\<lparr>gen_status := GS_CANCELLED, gen_cancelledAt := Some now\<rparr> else k)"
    unfolding in_update_where by blast
  with h(2) have "gen_status h = GS_CANCELLED" by (cases "gen_id k = gid") simp_all
  then have p: "pg_id p = gid" "pg_status p = GS_CANCELLED"
    using h(2) by (simp_all add: steps(3) toPublicGeneration_def)
  show thesis
    by (rule that [OF g'(1) _ _ _ _ refl steps(1) p]) (use g'(2) in simp_all)
qed

lemma compensate_body_cases:
  assumes "compensate_body gid d = Inr (v, d')"
  obtains (noop) "d' = d" "find_generation gid d = None \<or>
      (\<exists>g. find_generation gid d = Some g \<and> gen_status g \<noteq> GS_QUEUED)"
  | (undone) g d1 where "find_generation gid d = Some g" "gen_status g = GS_QUEUED"
      "releaseInTransaction gid ''Queue enqueue failed'' d = Inr d1"
      "delete_generation gid (d1\<lparr>reports := update_where
           (\<lambda>r. rep_id r = gen_reportId g \<and> rep_status r = RS_QUEUED)
           (\<lambda>r. r\<lparr>rep_status := gen_priorReportStatus g\<rparr>) (reports d)\<rparr>) = Inr d'"
proof (cases "find_generation gid d")
  case None
  with assms show thesis by (intro noop) (simp_all add: compensate_body_def)
next
  case (Some g)
  note g = find_generation_SomeD [OF Some]
  show thesis
  proof (cases "gen_status g = GS_QUEUED")
    case False
    with assms Some show thesis by (intro noop) (simp_all add: compensate_body_def)
  next
    case True
    with assms Some g obtain d1 where "releaseInTransaction gid ''Queue enqueue failed'' d = Inr d1"
      "delete_generation gid (d1\<lparr>reports := update_where
           (\<lambda>r. rep_id r = gen_reportId g \<and> rep_status r = RS_QUEUED)
           (\<lambda>r. r\<lparr>rep_status := gen_priorReportStatus g\<rparr>) (reports d1)\<rparr>) = Inr d'"
      by (auto simp: compensate_body_def result_iffs)
    with Some True credit_frameD(2) [OF credit_frames(3)] show thesis by (intro undone [of g d1]) simp_all
  qed
qed

end
