(* ===== verification/Attempts.thy ===== *)
theory Attempts
  imports Schema
begin

text \<open>
  \<open>src/report-generation/provider-attempts.service.ts\<close>: the ledger of calls to the language-model
  provider, with its budget per generation (per audio asset for transcriptions) and its leases. An
  attempt belongs to the processing token of the worker that made it. \<open>now\<close> is the clock of a
  transaction, and the new row's id is an argument.
\<close>

section \<open>Ownership of a generation\<close>

text \<open>
  The condition that fences every write of a worker: the generation is still processed, under this
  token, and the lease has not expired.
\<close>

definition owns_lease :: "int \<Rightarrow> string \<Rightarrow> string \<Rightarrow> generation_row \<Rightarrow> bool" where
  "owns_lease now gid token g \<longleftrightarrow>
     gen_id g = gid \<and> gen_status g = GS_PROCESSING \<and> gen_processingToken g = Some token \<and>
     (case gen_leaseExpiresAt g of None \<Rightarrow> False | Some t \<Rightarrow> t > now)"

definition claimLost :: exn where
  "claimLost = AiProviderError ''GENERATION_CLAIM_LOST'' False ''Generation processing ownership was lost'' None"

definition require_lease :: "int \<Rightarrow> string \<Rightarrow> string \<Rightarrow> db \<Rightarrow> unit result" where
  "require_lease now gid token d = guardE (exists_where (owns_lease now gid token) (generations d)) claimLost"

section \<open>The operations\<close>

record attempt_config =
  transcriptionMaxAttemptsPerAsset :: int
  maxProviderCallsPerGeneration :: int

definition attempt_scope ::
  "string \<Rightarrow> provider_operation \<Rightarrow> string option \<Rightarrow> attempt_row \<Rightarrow> bool" where
  "attempt_scope gid operation assetId a \<longleftrightarrow>
     (if operation = TRANSCRIPTION \<and> assetId \<noteq> None \<and> assetId \<noteq> Some []
      then att_operation a = operation \<and> att_assetId a = assetId
      else att_generationId a = gid \<and> att_operation a = operation \<and> att_assetId a = assetId)"

definition attempt_budget :: "attempt_config \<Rightarrow> provider_operation \<Rightarrow> int" where
  "attempt_budget cfg operation =
     (if operation = TRANSCRIPTION then transcriptionMaxAttemptsPerAsset cfg
      else if operation = REPORT_GENERATION then maxProviderCallsPerGeneration cfg
      else maxProviderCallsPerGeneration cfg)"

definition stale_attempt :: "int \<Rightarrow> attempt_row \<Rightarrow> bool" where
  "stale_attempt now a \<longleftrightarrow> att_status a = ATT_STARTED \<and> att_leaseExpiresAt a \<le> now"

definition mark_stale :: "int \<Rightarrow> attempt_row \<Rightarrow> attempt_row" where
  "mark_stale now a =
     a\<lparr>att_status := ATT_FAILED, att_errorCode := Some ''AI_PROVIDER_ATTEMPT_STALE'', att_completedAt := Some now\<rparr>"

fun mark_stale_loop :: "int \<Rightarrow> attempt_row list \<Rightarrow> attempt_row list \<Rightarrow> attempt_row list" where
  "mark_stale_loop now [] rows = rows"
| "mark_stale_loop now (a # as) rows =
     mark_stale_loop now as
       (update_where (\<lambda>r. att_id r = att_id a \<and> stale_attempt now r) (mark_stale now) rows)"

text \<open>\<open>create\<close>, with the primary key and the unique attempt numbers of the schema.\<close>

definition create_attempt :: "attempt_row \<Rightarrow> db \<Rightarrow> exn + db" where
  "create_attempt a d =
     (if exists_where (\<lambda>b. att_id b = att_id a \<or>
           (att_generationId b = att_generationId a \<and> att_operation b = att_operation a \<and>
            att_assetId b = att_assetId a \<and> att_attemptNumber b = att_attemptNumber a)) (attempts d)
      then Inl (PrismaError ''P2002'')
      else Inr (d\<lparr>attempts := attempts d @ [a]\<rparr>))"

definition start_attempt ::
  "attempt_config \<Rightarrow> string \<Rightarrow> int \<Rightarrow> string \<Rightarrow> provider_operation \<Rightarrow> string \<Rightarrow> string \<Rightarrow> string \<Rightarrow> int \<Rightarrow>
     string option \<Rightarrow> (db, string \<times> nat) tx" where
  "start_attempt cfg newId now gid operation provider model token leaseExpiresAt assetId d =
     (let as = sort_key att_attemptNumber (filter (attempt_scope gid operation assetId) (attempts d)) in
      if list_ex (\<lambda>a. att_status a = ATT_STARTED \<and> att_leaseExpiresAt a > now) as
      then Inl (AiProviderError ''AI_PROVIDER_ATTEMPT_IN_PROGRESS'' True
                  ''An AI provider attempt is already in progress'' None)
      else let d1 = d\<lparr>attempts := mark_stale_loop now (filter (stale_attempt now) as) (attempts d)\<rparr> in
        if int (length as) \<ge> attempt_budget cfg operation
        then Inl (AiProviderError ''AI_PROVIDER_CALL_BUDGET_EXHAUSTED'' False
                    ''AI provider call budget exhausted'' None)
        else bindE (create_attempt
                \<lparr>att_id = newId, att_generationId = gid, att_assetId = assetId,
                 att_operation = operation, att_attemptNumber = length as + 1,
                 att_status = ATT_STARTED, att_provider = provider, att_model = model,
                 att_providerRequestId = None, att_inputTokens = None, att_outputTokens = None,
                 att_audioDurationSeconds = None, att_errorCode = None, att_processingToken = token,
                 att_leaseExpiresAt = leaseExpiresAt, att_completedAt = None\<rparr> d1) (\<lambda>d2.
              Inr ((newId, length as + 1), d2)))"

definition hasCompleted :: "string \<Rightarrow> provider_operation \<Rightarrow> string option \<Rightarrow> db \<Rightarrow> bool" where
  "hasCompleted gid operation assetId d =
     exists_where (\<lambda>a. att_generationId a = gid \<and> att_operation a = operation \<and>
        att_assetId a = assetId \<and> att_status a = ATT_COMPLETED) (attempts d)"

record attempt_usage =
  us_providerRequestId :: "string option"
  us_inputTokens :: "int option"
  us_outputTokens :: "int option"
  us_audioDurationSeconds :: "rat option"

text \<open>\<open>undefined\<close> in an update leaves the column as it is.\<close>

definition set_defined :: "'a option \<Rightarrow> 'a option \<Rightarrow> 'a option" where
  "set_defined new old = (case new of None \<Rightarrow> old | Some x \<Rightarrow> Some x)"

definition completeInTransaction ::
  "int \<Rightarrow> int \<Rightarrow> string \<Rightarrow> string \<Rightarrow> attempt_usage \<Rightarrow> db \<Rightarrow> exn + db" where
  "completeInTransaction now now2 attemptId token usage d =
     (let p = (\<lambda>a. att_id a = attemptId \<and> att_processingToken a = token \<and>
                 att_status a = ATT_STARTED \<and> att_leaseExpiresAt a > now)
      in bindE (guardE (count_where p (attempts d) = 1) claimLost) (\<lambda>_.
         Inr (d\<lparr>attempts := update_where p (\<lambda>a. a\<lparr>att_status := ATT_COMPLETED,
                att_providerRequestId := set_defined (us_providerRequestId usage) (att_providerRequestId a),
                att_inputTokens := set_defined (us_inputTokens usage) (att_inputTokens a),
                att_outputTokens := set_defined (us_outputTokens usage) (att_outputTokens a),
                att_audioDurationSeconds := set_defined (us_audioDurationSeconds usage) (att_audioDurationSeconds a),
                att_completedAt := Some now2\<rparr>) (attempts d)\<rparr>)))"

definition completeOwned ::
  "int \<Rightarrow> int \<Rightarrow> int \<Rightarrow> string \<Rightarrow> string \<Rightarrow> string \<Rightarrow> attempt_usage \<Rightarrow> (db, unit) tx" where
  "completeOwned now now2 now3 gid attemptId token usage d =
     bindE (require_lease now gid token d) (\<lambda>_.
     bindE (completeInTransaction now2 now3 attemptId token usage d) (\<lambda>d1. Inr ((), d1)))"

text \<open>Without a token the attempt's own is looked up; an unknown attempt is left alone.\<close>

definition fail_attempt ::
  "int \<Rightarrow> string \<Rightarrow> string \<Rightarrow> string option \<Rightarrow> string option \<Rightarrow> db \<Rightarrow> db" where
  "fail_attempt now attemptId errorCode token providerRequestId d =
     (case (if token = None \<or> token = Some []
            then map_option att_processingToken (find_first (\<lambda>a. att_id a = attemptId) (attempts d))
            else token) of
        None \<Rightarrow> d
      | Some t \<Rightarrow>
          d\<lparr>attempts := update_where
              (\<lambda>a. att_id a = attemptId \<and> att_processingToken a = t \<and> att_status a = ATT_STARTED)
              (\<lambda>a. a\<lparr>att_status := ATT_FAILED, att_errorCode := Some errorCode,
                     att_providerRequestId := set_defined providerRequestId (att_providerRequestId a),
                     att_completedAt := Some now\<rparr>) (attempts d)\<rparr>)"

section \<open>Lemmas\<close>

lemma mark_stale_simps [simp]:
  "att_id (mark_stale now a) = att_id a" "att_status (mark_stale now a) = ATT_FAILED"
  "att_generationId (mark_stale now a) = att_generationId a" "att_assetId (mark_stale now a) = att_assetId a"
  "att_operation (mark_stale now a) = att_operation a"
  "att_attemptNumber (mark_stale now a) = att_attemptNumber a"
  by (simp_all add: mark_stale_def)

lemma mark_stale_loop_eq:
  "mark_stale_loop now as rows =
     map (\<lambda>r. if stale_attempt now r \<and> att_id r \<in> att_id ` set as then mark_stale now r else r) rows"
proof (induction as arbitrary: rows)
  case (Cons a as)
  have "\<not> stale_attempt now (mark_stale now r)" for r by (simp add: stale_attempt_def)
  with Cons show ?case by (auto simp: update_where_def)
qed simp

text \<open>The scope an attempt is counted in, and the attempts of a scope.\<close>

definition scope_key :: "attempt_row \<Rightarrow> provider_operation \<times> string option \<times> string" where
  "scope_key a = (att_operation a, att_assetId a,
     if att_operation a = TRANSCRIPTION \<and> att_assetId a \<noteq> None \<and> att_assetId a \<noteq> Some [] then []
     else att_generationId a)"

lemma attempt_scope_key:
  assumes "att_operation b = operation" "att_assetId b = assetId" "att_generationId b = gid"
  shows "attempt_scope gid operation assetId a \<longleftrightarrow> scope_key a = scope_key b"
  unfolding attempt_scope_def scope_key_def assms
  by (cases "operation = TRANSCRIPTION \<and> assetId \<noteq> None \<and> assetId \<noteq> Some []";
      cases "att_operation a = operation"; cases "att_assetId a = assetId") auto

lemma scope_key_mark_stale [simp]: "scope_key (mark_stale now a) = scope_key a"
  by (auto simp: scope_key_def)

definition attempts_ok :: "attempt_config \<Rightarrow> db \<Rightarrow> bool" where
  "attempts_ok cfg d \<longleftrightarrow> keyed att_id (attempts d) \<and>
     (\<forall>a \<in> set (attempts d). int (count_where (\<lambda>b. scope_key b = scope_key a) (attempts d))
         \<le> attempt_budget cfg (att_operation a)) \<and>
     (\<forall>a \<in> set (attempts d). \<forall>b \<in> set (attempts d). scope_key a = scope_key b \<longrightarrow>
         att_status a = ATT_STARTED \<longrightarrow> att_status b = ATT_STARTED \<longrightarrow> a = b)"

text \<open>What a started attempt finds and leaves.\<close>

lemma start_attempt_cases:
  assumes "start_attempt cfg newId now gid operation provider model token till assetId d = Inr (r, d')"
  obtains new rows where "r = (newId, att_attemptNumber new)" "attempts d' = rows @ [new]"
    "rows = map (\<lambda>r. if stale_attempt now r \<and> scope_key r = scope_key new then mark_stale now r else r) (attempts d) \<or>
       \<not> keyed att_id (attempts d)"
    "att_id new = newId" "att_operation new = operation" "att_assetId new = assetId" "att_generationId new = gid"
    "att_status new = ATT_STARTED" "att_processingToken new = token" "att_leaseExpiresAt new = till"
    "int (count_where (\<lambda>b. scope_key b = scope_key new) (attempts d)) < attempt_budget cfg operation"
    "att_attemptNumber new = count_where (\<lambda>b. scope_key b = scope_key new) (attempts d) + 1"
    "\<And>a. a \<in> set (attempts d) \<Longrightarrow> scope_key a = scope_key new \<Longrightarrow> att_status a = ATT_STARTED \<Longrightarrow>
       att_leaseExpiresAt a \<le> now"
    "\<And>a. a \<in> set rows \<Longrightarrow> att_id a \<noteq> newId"
    "d' = d\<lparr>attempts := rows @ [new]\<rparr>"
proof -
  let ?as = "sort_key att_attemptNumber (filter (attempt_scope gid operation assetId) (attempts d))"
  let ?rows = "mark_stale_loop now (filter (stale_attempt now) ?as) (attempts d)"
  define new where "new = \<lparr>att_id = newId, att_generationId = gid, att_assetId = assetId,
       att_operation = operation, att_attemptNumber = length ?as + 1,
       att_status = ATT_STARTED, att_provider = provider, att_model = model,
       att_providerRequestId = None, att_inputTokens = None, att_outputTokens = None,
       att_audioDurationSeconds = None, att_errorCode = None, att_processingToken = token,
       att_leaseExpiresAt = till, att_completedAt = None\<rparr>"
  have scope: "attempt_scope gid operation assetId a \<longleftrightarrow> scope_key a = scope_key new" for a
    by (rule attempt_scope_key) (simp_all add: new_def)
  have len: "length ?as = count_where (\<lambda>b. scope_key b = scope_key new) (attempts d)"
    by (simp add: count_where_def scope [abs_def])
  have none: "\<not> list_ex (\<lambda>a. att_status a = ATT_STARTED \<and> att_leaseExpiresAt a > now) ?as"
    and budget: "int (length ?as) < attempt_budget cfg operation"
    using assms by (auto simp: start_attempt_def Let_def split: if_splits)
  from assms none budget have
    "bindE (create_attempt new (d\<lparr>attempts := ?rows\<rparr>)) (\<lambda>d2. Inr ((newId, length ?as + 1), d2)) = Inr (r, d')"
    by (simp add: start_attempt_def Let_def new_def)
  then have r: "r = (newId, att_attemptNumber new)" "d' = d\<lparr>attempts := ?rows @ [new]\<rparr>"
    "\<And>a. a \<in> set ?rows \<Longrightarrow> att_id a \<noteq> newId"
    by (auto simp: create_attempt_def new_def split: if_splits)
  have ids: "att_id ` set (filter (stale_attempt now) ?as) =
      {att_id a |a. a \<in> set (attempts d) \<and> stale_attempt now a \<and> scope_key a = scope_key new}"
    by (auto simp: scope)
  have rows: "?rows = map (\<lambda>r. if stale_attempt now r \<and> scope_key r = scope_key new then mark_stale now r else r) (attempts d)"
    if "keyed att_id (attempts d)"
    unfolding mark_stale_loop_eq ids by (rule map_cong) (auto dest: keyed_eq [OF that])
  have old: "att_leaseExpiresAt a \<le> now"
    if "a \<in> set (attempts d)" "scope_key a = scope_key new" "att_status a = ATT_STARTED" for a
    using none that by (fastforce simp: list_ex_iff scope)
  show thesis
    by (rule that [of new ?rows]) (use r rows old len budget in \<open>auto simp: new_def\<close>)
qed

lemma count_map_scope:
  "(\<And>r. scope_key (f r) = scope_key r) \<Longrightarrow>
     count_where (\<lambda>b. scope_key b = k) (map f rows) = count_where (\<lambda>b. scope_key b = k) rows"
  by (induction rows) (simp_all add: count_where_Cons)

lemma attempts_ok_start:
  assumes ok: "attempts_ok cfg d"
    and step: "start_attempt cfg newId now gid operation provider model token till assetId d = Inr (r, d')"
  shows "attempts_ok cfg d'"
  using step
proof (cases rule: start_attempt_cases)
  case (1 new rows)
  let ?f = "\<lambda>r. if stale_attempt now r \<and> scope_key r = scope_key new then mark_stale now r else r"
  have keyed: "keyed att_id (attempts d)" using ok by (simp add: attempts_ok_def)
  with 1(3) have rows: "rows = map ?f (attempts d)" by blast
  have count: "count_where (\<lambda>b. scope_key b = k) rows = count_where (\<lambda>b. scope_key b = k) (attempts d)" for k
    unfolding rows by (rule count_map_scope) simp
  have nostart: "att_status a \<noteq> ATT_STARTED" if a: "a \<in> set rows" "scope_key a = scope_key new" for a
  proof
    assume s: "att_status a = ATT_STARTED"
    from a(1) obtain b where b: "b \<in> set (attempts d)" "a = ?f b" unfolding rows by auto
    with s have "a = b" "\<not> (stale_attempt now b \<and> scope_key b = scope_key new)"
      by (auto split: if_splits)
    with a(2) s 1(13) [OF b(1)] show False by (auto simp: stale_attempt_def)
  qed
  have "map att_id rows = map att_id (attempts d)" unfolding rows by simp
  then have "keyed att_id (attempts d')"
    using keyed 1(14) unfolding 1(2) keyed_append1 by (simp add: keyed_def 1(4))
  moreover have "int (count_where (\<lambda>b. scope_key b = scope_key a) (attempts d')) \<le> attempt_budget cfg (att_operation a)"
    if "a \<in> set (attempts d')" for a
  proof (cases "scope_key a = scope_key new")
    case True
    then have "att_operation a = operation" using 1(5) by (simp add: scope_key_def)
    with True 1(11) show ?thesis by (simp add: 1(2) count count_where_Cons)
  next
    case False
    with that obtain b where b: "b \<in> set (attempts d)" "scope_key a = scope_key b" "att_operation a = att_operation b"
      unfolding 1(2) rows by (auto split: if_splits)
    from False b ok show ?thesis by (auto simp: 1(2) count count_where_Cons attempts_ok_def)
  qed
  moreover have "a = b" if ab: "a \<in> set (attempts d')" "b \<in> set (attempts d')" "scope_key a = scope_key b"
      "att_status a = ATT_STARTED" "att_status b = ATT_STARTED" for a b
  proof (cases "scope_key a = scope_key new")
    case True
    with ab nostart have "a = new" "b = new" by (auto simp: 1(2))
    then show ?thesis by simp
  next
    case False
    with ab have "a \<in> set (attempts d)" "b \<in> set (attempts d)" by (auto simp: 1(2) rows split: if_splits)
    with ab ok show ?thesis by (auto simp: attempts_ok_def)
  qed
  ultimately show ?thesis unfolding attempts_ok_def by blast
qed

text \<open>Updates that keep the scope and never set \<open>STARTED\<close> keep the invariant.\<close>

lemma attempts_ok_update:
  assumes ok: "attempts_ok cfg d"
    and f: "\<And>a. att_id (f a) = att_id a" "\<And>a. scope_key (f a) = scope_key a" "\<And>a. att_operation (f a) = att_operation a"
      "\<And>a. att_status (f a) \<noteq> ATT_STARTED"
  shows "attempts_ok cfg (d\<lparr>attempts := update_where p f (attempts d)\<rparr>)"
proof -
  let ?g = "\<lambda>a. if p a then f a else a"
  have count: "count_where (\<lambda>b. scope_key b = k) (update_where p f (attempts d)) =
      count_where (\<lambda>b. scope_key b = k) (attempts d)" for k
    unfolding update_where_def by (rule count_map_scope) (simp add: f)
  have started: "a \<in> set (attempts d)" if "a \<in> set (update_where p f (attempts d))" "att_status a = ATT_STARTED" for a
    using that f(4) by (auto simp: in_update_where split: if_splits)
  have orig: "\<exists>b \<in> set (attempts d). scope_key b = scope_key a \<and> att_operation b = att_operation a"
    if "a \<in> set (update_where p f (attempts d))" for a
    using that f by (auto simp: in_update_where split: if_splits)
  show ?thesis
    using ok started f(1) orig unfolding attempts_ok_def by (simp add: count) metis
qed

lemma attempts_ok_complete:
  "attempts_ok cfg d \<Longrightarrow> completeInTransaction now now2 i t u d = Inr d' \<Longrightarrow> attempts_ok cfg d'"
  unfolding completeInTransaction_def Let_def
  by (elim bindE_InrE) (auto simp: scope_key_def intro!: attempts_ok_update)

lemma attempts_ok_fail: "attempts_ok cfg d \<Longrightarrow> attempts_ok cfg (fail_attempt now i e t q d)"
  by (auto simp: fail_attempt_def scope_key_def intro!: attempts_ok_update split: option.splits)

text \<open>The attempts' table after a history of calls; an error leaves it as it was.\<close>

datatype attempt_op =
    OpStart string int string provider_operation string string string int "string option"
  | OpComplete int int int string string string attempt_usage
  | OpFail int string string "string option" "string option"

fun run_attempt_op :: "attempt_config \<Rightarrow> attempt_op \<Rightarrow> db \<Rightarrow> db" where
  "run_attempt_op cfg (OpStart i now g op p m t till a) d = snd (run_tx (start_attempt cfg i now g op p m t till a) d)"
| "run_attempt_op cfg (OpComplete now now2 now3 g i t u) d = snd (run_tx (completeOwned now now2 now3 g i t u) d)"
| "run_attempt_op cfg (OpFail now i e t q) d = fail_attempt now i e t q d"

lemma attempts_ok_run: "attempts_ok cfg d \<Longrightarrow> attempts_ok cfg (run_attempt_op cfg c d)"
proof (cases c)
  case (OpStart i now g op p m t till a)
  assume "attempts_ok cfg d"
  with OpStart show ?thesis by (auto simp: run_tx_def split: sum.splits intro: attempts_ok_start)
next
  case (OpComplete now now2 now3 g i t u)
  assume "attempts_ok cfg d"
  with OpComplete show ?thesis
    by (auto simp: run_tx_def completeOwned_def bindE_Inr_iff split: sum.splits intro: attempts_ok_complete)
next
  case (OpFail now i e t q)
  assume "attempts_ok cfg d"
  with OpFail show ?thesis by (simp add: attempts_ok_fail)
qed

lemma attempts_ok_history: "attempts_ok cfg d \<Longrightarrow> attempts_ok cfg (fold (run_attempt_op cfg) cs d)"
  by (induction cs arbitrary: d) (simp_all add: attempts_ok_run)

section \<open>Properties\<close>

text \<open>
  C15. The provider budget holds after any history of starts, completions and failures: in each scope
  (an audio asset for transcriptions, else a generation and an operation) there are at most as many
  attempts as the configuration allows, and at most one of them is running.
\<close>

theorem attempt_budget_and_single_flight:
  assumes "attempts_ok cfg d" "a \<in> set (attempts (fold (run_attempt_op cfg) cs d))"
    and "b \<in> set (attempts (fold (run_attempt_op cfg) cs d))" "scope_key a = scope_key b"
  shows "int (count_where (\<lambda>x. scope_key x = scope_key a) (attempts (fold (run_attempt_op cfg) cs d)))
      \<le> attempt_budget cfg (att_operation a) \<and>
    (att_status a = ATT_STARTED \<and> att_status b = ATT_STARTED \<longrightarrow> a = b)"
  using attempts_ok_history [OF assms(1), of cs] assms(2-4) unfolding attempts_ok_def by blast

definition demo_attempt_cfg :: attempt_config where
  "demo_attempt_cfg = \<lparr>transcriptionMaxAttemptsPerAsset = 2, maxProviderCallsPerGeneration = 2\<rparr>"

definition demo_attempt_ops :: "attempt_op list" where
  "demo_attempt_ops =
     [OpStart ''a1'' 0 ''g'' MODERATION ''openai'' ''m'' ''t1'' 10 None,
      OpStart ''a2'' 5 ''g'' MODERATION ''openai'' ''m'' ''t2'' 15 None,
      OpStart ''a3'' 20 ''g'' MODERATION ''openai'' ''m'' ''t2'' 30 None,
      OpFail 25 ''a3'' ''AI_UNAVAILABLE'' (Some ''t2'') None,
      OpStart ''a4'' 40 ''g'' MODERATION ''openai'' ''m'' ''t3'' 50 None]"

theorem attempt_budget_and_single_flight_witness:
  "let d = fold (run_attempt_op demo_attempt_cfg) demo_attempt_ops empty_db in
    map att_id (attempts d) = [''a1'', ''a3''] \<and>
    int (count_where (\<lambda>x. scope_key x = scope_key (hd (attempts d))) (attempts d)) \<le> 2"
proof -
  let ?d = "fold (run_attempt_op demo_attempt_cfg) demo_attempt_ops empty_db"
  have ids: "map att_id (attempts ?d) = [''a1'', ''a3'']" by code_simp
  then have hd: "hd (attempts ?d) \<in> set (attempts ?d)" by (cases "attempts ?d") auto
  have ok: "attempts_ok demo_attempt_cfg empty_db" by (simp add: attempts_ok_def empty_db_def)
  have "attempt_budget demo_attempt_cfg x = 2" for x by (simp add: attempt_budget_def demo_attempt_cfg_def)
  with attempt_budget_and_single_flight [OF ok hd hd refl] ids show ?thesis by (simp add: Let_def)
qed

text \<open>
  Only the owner completes an attempt: a completion that commits found the generation processed
  under the caller's token with an unexpired lease, and the attempt started under the same token and
  not expired; it settles that attempt and nothing else in the database.
\<close>

lemma completion_is_fenced:
  assumes "completeOwned now now2 now3 gid i token usage d = Inr (u, d')"
  shows "(\<exists>g \<in> set (generations d). owns_lease now gid token g) \<and>
    (\<exists>a \<in> set (attempts d). att_id a = i \<and> att_processingToken a = token \<and>
       att_status a = ATT_STARTED \<and> att_leaseExpiresAt a > now2) \<and>
    (\<exists>rows. d' = d\<lparr>attempts := rows\<rparr> \<and> length rows = length (attempts d) \<and>
       (\<forall>n < length rows. rows ! n = attempts d ! n \<or>
          att_id (attempts d ! n) = i \<and> att_status (rows ! n) = ATT_COMPLETED))"
proof -
  let ?p = "\<lambda>a. att_id a = i \<and> att_processingToken a = token \<and> att_status a = ATT_STARTED \<and> att_leaseExpiresAt a > now2"
  have "require_lease now gid token d = Inr ()" and c: "completeInTransaction now2 now3 i token usage d = Inr d'"
    using assms unfolding completeOwned_def by (elim bindE_InrE; simp)+
  then have "\<exists>g \<in> set (generations d). owns_lease now gid token g"
    by (simp add: require_lease_def guardE_Inr_iff)
  moreover have "count_where ?p (attempts d) = Suc 0"
    using c by (simp add: completeInTransaction_def Let_def result_iffs)
  moreover obtain f where "d' = d\<lparr>attempts := update_where ?p f (attempts d)\<rparr>" "\<And>a. att_status (f a) = ATT_COMPLETED"
    using c unfolding completeInTransaction_def Let_def by (elim bindE_InrE) auto
  ultimately show ?thesis
    using count_where_pos [of ?p "attempts d" 0]
    by (auto intro!: exI [of _ "update_where ?p f (attempts d)"] simp: update_where_def split: if_splits)
qed

definition demo_processing :: generation_row where
  "demo_processing = \<lparr>gen_id = ''g'', gen_reportId = ''r'', gen_userId = ''u'', gen_idempotencyKey = ''k'',
     gen_status = GS_PROCESSING, gen_stage = PREPARING, gen_progress = 0, gen_attemptCount = 1,
     gen_errorCode = None, gen_errorMessage = None, gen_provider = None, gen_model = None,
     gen_providerRequestId = None, gen_promptVersion = ''report-v1'', gen_inputSnapshot = None,
     gen_structuredResult = None, gen_inputTokens = None, gen_outputTokens = None, gen_startedAt = Some 0,
     gen_completedAt = None, gen_cancelledAt = None, gen_processingToken = Some ''t1'',
     gen_leaseExpiresAt = Some 100, gen_enqueuedAt = None, gen_priorReportStatus = RS_DRAFT, gen_createdAt = 0\<rparr>"

definition demo_usage :: attempt_usage where
  "demo_usage = \<lparr>us_providerRequestId = Some ''q'', us_inputTokens = None, us_outputTokens = None,
     us_audioDurationSeconds = None\<rparr>"

lemma completion_is_fenced_witness:
  "\<exists>d'. completeOwned 1 2 3 ''g'' ''a1'' ''t1'' demo_usage
      (run_attempt_op demo_attempt_cfg (hd demo_attempt_ops) (empty_db\<lparr>generations := [demo_processing]\<rparr>)) = Inr ((), d') \<and>
    generations d' = [demo_processing]"
proof -
  let ?d = "run_attempt_op demo_attempt_cfg (hd demo_attempt_ops) (empty_db\<lparr>generations := [demo_processing]\<rparr>)"
  have "case completeOwned 1 2 3 ''g'' ''a1'' ''t1'' demo_usage ?d of Inl _ \<Rightarrow> False | Inr _ \<Rightarrow> True" by code_simp
  then obtain u d' where d': "completeOwned 1 2 3 ''g'' ''a1'' ''t1'' demo_usage ?d = Inr (u, d')"
    by (auto split: sum.splits)
  have "generations ?d = [demo_processing]" by code_simp
  with completion_is_fenced [OF d'] d' show ?thesis by auto
qed

end
