(* ===== verification/Storage.thy ===== *)
theory Storage
  imports Schema
begin

text \<open>
  \<open>src/storage/object-storage.service.ts\<close> and \<open>src/storage/storage-cleanup.service.ts\<close>. The S3 service
  is not code of the repository: each request of the client takes the service's reply as an argument
  (a fault, or none). The bucket is a map from keys to the bytes stored there, and the cleanup tasks
  are the rows of \<open>StorageCleanupTask\<close>. Failures of the database connection are not modelled.
\<close>

section \<open>Objects\<close>

type_synonym bytes = "nat list"

type_synonym bucket = "string \<Rightarrow> bytes option"

record world =
  wdb :: db
  objects :: bucket

record s3_error =
  s3_name :: string
  s3_status :: "int option"

definition isNotFound :: "s3_error \<Rightarrow> bool" where
  "isNotFound e \<longleftrightarrow> s3_name e = ''NotFound'' \<or> s3_name e = ''NoSuchKey'' \<or> s3_status e = Some 404"

definition ensureConfigured :: "string \<Rightarrow> unit result" where
  "ensureConfigured bucketName =
     (if bucketName = [] then Inl (PlainError ''Object storage is not configured'') else Inr ())"

definition s3_exn :: "s3_error \<Rightarrow> exn" where
  "s3_exn e = PlainError (s3_name e)"

definition headObject :: "string \<Rightarrow> s3_error option \<Rightarrow> string \<Rightarrow> bucket \<Rightarrow> int option result" where
  "headObject bucketName fault key bkt =
     (case ensureConfigured bucketName of Inl e \<Rightarrow> Inl e
      | Inr _ \<Rightarrow>
         (case fault of
            Some e \<Rightarrow> if isNotFound e then Inr None else Inl (s3_exn e)
          | None \<Rightarrow> Inr (map_option (\<lambda>b. int (length b)) (bkt key))))"

definition INSPECTION_RANGE_BYTES :: nat where
  "INSPECTION_RANGE_BYTES = 262144"

text \<open>A ranged get of a missing key raises the service's own \<open>NoSuchKey\<close>.\<close>

definition readInspectionBytes :: "string \<Rightarrow> s3_error option \<Rightarrow> string \<Rightarrow> bucket \<Rightarrow> bytes result" where
  "readInspectionBytes bucketName fault key bkt =
     (case ensureConfigured bucketName of Inl e \<Rightarrow> Inl e
      | Inr _ \<Rightarrow>
         (case fault of
            Some e \<Rightarrow> Inl (s3_exn e)
          | None \<Rightarrow>
             (case bkt key of
                None \<Rightarrow> Inl (PlainError ''NoSuchKey'')
              | Some b \<Rightarrow> Inr (take INSPECTION_RANGE_BYTES b))))"

definition readObjectBytes ::
  "string \<Rightarrow> s3_error option \<Rightarrow> s3_error option \<Rightarrow> string \<Rightarrow> int \<Rightarrow> bucket \<Rightarrow> bytes result" where
  "readObjectBytes bucketName headFault getFault key maximumBytes bkt =
     (case headObject bucketName headFault key bkt of
        Inl e \<Rightarrow> Inl e
      | Inr None \<Rightarrow> Inl (PlainError ''Stored object exceeds the allowed read size'')
      | Inr (Some size') \<Rightarrow>
          (if size' > maximumBytes then Inl (PlainError ''Stored object exceeds the allowed read size'')
           else (case getFault of
              Some e \<Rightarrow> Inl (s3_exn e)
            | None \<Rightarrow>
               (case bkt key of
                  None \<Rightarrow> Inl (PlainError ''NoSuchKey'')
                | Some b \<Rightarrow>
                    (if int (length b) > maximumBytes
                     then Inl (PlainError ''Stored object exceeds the allowed read size'')
                     else Inr b)))))"

definition uploadObject ::
  "string \<Rightarrow> s3_error option \<Rightarrow> s3_error option \<Rightarrow> string \<Rightarrow> bytes \<Rightarrow> bucket \<Rightarrow> int result \<times> bucket" where
  "uploadObject bucketName putFault headFault key b bkt =
     (case ensureConfigured bucketName of Inl e \<Rightarrow> (Inl e, bkt)
      | Inr _ \<Rightarrow>
         (case putFault of
            Some e \<Rightarrow> (Inl (s3_exn e), bkt)
          | None \<Rightarrow>
             (let bkt' = bkt(key \<mapsto> b) in
              case headObject bucketName headFault key bkt' of
                Inl e \<Rightarrow> (Inl e, bkt')
              | Inr None \<Rightarrow> (Inl (PlainError ''Uploaded object verification failed''), bkt')
              | Inr (Some size') \<Rightarrow>
                  if size' \<noteq> int (length b)
                  then (Inl (PlainError ''Uploaded object verification failed''), bkt')
                  else (Inr size', bkt'))))"

definition copyObject ::
  "string \<Rightarrow> s3_error option \<Rightarrow> s3_error option \<Rightarrow> string \<Rightarrow> string \<Rightarrow> bucket \<Rightarrow> int result \<times> bucket" where
  "copyObject bucketName copyFault headFault source destination bkt =
     (case ensureConfigured bucketName of Inl e \<Rightarrow> (Inl e, bkt)
      | Inr _ \<Rightarrow>
         (case (copyFault, bkt source) of
            (Some e, _) \<Rightarrow> (Inl (s3_exn e), bkt)
          | (None, None) \<Rightarrow> (Inl (PlainError ''NoSuchKey''), bkt)
          | (None, Some b) \<Rightarrow>
             (let bkt' = bkt(destination \<mapsto> b) in
              case headObject bucketName headFault destination bkt' of
                Inl e \<Rightarrow> (Inl e, bkt')
              | Inr None \<Rightarrow> (Inl (PlainError ''Copied object verification failed''), bkt')
              | Inr (Some size') \<Rightarrow> (Inr size', bkt'))))"

definition deleteObject :: "string \<Rightarrow> s3_error option \<Rightarrow> string \<Rightarrow> bucket \<Rightarrow> unit result \<times> bucket" where
  "deleteObject bucketName fault key bkt =
     (case ensureConfigured bucketName of Inl e \<Rightarrow> (Inl e, bkt)
      | Inr _ \<Rightarrow>
         (case fault of
            None \<Rightarrow> (Inr (), bkt(key := None))
          | Some e \<Rightarrow> if isNotFound e then (Inr (), bkt) else (Inl (s3_exn e), bkt)))"

section \<open>The download header\<close>

text \<open>
  File names are lists of code points. \<open>String.prototype.normalize\<close> (NFKC and NFKD) is a parameter.
  A lone surrogate makes \<open>encodeURIComponent\<close> throw a \<open>URIError\<close>; UTF-8 is written out.
\<close>

definition sanitizeContentDispositionFileName :: "(utext \<Rightarrow> utext) \<Rightarrow> utext \<Rightarrow> utext" where
  "sanitizeContentDispositionFileName nfkc fileName =
     map (\<lambda>c. if c \<le> 31 \<or> c = 127 \<or> c \<in> {34, 92, 47, 59} then 95 else c) (nfkc fileName)"

definition ascii_alnum :: "nat \<Rightarrow> bool" where
  "ascii_alnum c \<longleftrightarrow> (48 \<le> c \<and> c \<le> 57) \<or> (65 \<le> c \<and> c \<le> 90) \<or> (97 \<le> c \<and> c \<le> 122)"

definition asciiFallback :: "(utext \<Rightarrow> utext) \<Rightarrow> utext \<Rightarrow> utext" where
  "asciiFallback nfkd safeFileName =
     concat (map (\<lambda>c. if ascii_alnum c \<or> c \<in> {46, 95, 45} then [c]
                      else if c \<ge> 65536 then [95, 95] else [95])
       (filter (\<lambda>c. \<not> (768 \<le> c \<and> c \<le> 879)) (nfkd safeFileName)))"

definition utf8_encode :: "nat \<Rightarrow> bytes option" where
  "utf8_encode c =
     (if c < 128 then Some [c]
      else if c < 2048 then Some [192 + c div 64, 128 + c mod 64]
      else if 55296 \<le> c \<and> c < 57344 then None
      else if c < 65536 then Some [224 + c div 4096, 128 + c div 64 mod 64, 128 + c mod 64]
      else if c < 1114112 then
        Some [240 + c div 262144, 128 + c div 4096 mod 64, 128 + c div 64 mod 64, 128 + c mod 64]
      else None)"

definition hex_digit :: "nat \<Rightarrow> nat" where
  "hex_digit n = (if n < 10 then 48 + n else 55 + n)"

definition percent :: "nat \<Rightarrow> utext" where
  "percent b = [37, hex_digit (b div 16), hex_digit (b mod 16)]"

definition uri_unreserved :: "nat \<Rightarrow> bool" where
  "uri_unreserved c \<longleftrightarrow> ascii_alnum c \<or> c \<in> {45, 95, 46, 33, 126, 42, 39, 40, 41}"

fun encodeURIComponent :: "utext \<Rightarrow> utext option" where
  "encodeURIComponent [] = Some []"
| "encodeURIComponent (c # cs) =
     (case encodeURIComponent cs of None \<Rightarrow> None
      | Some rest \<Rightarrow>
         (if uri_unreserved c then Some (c # rest)
          else map_option (\<lambda>bs. concat (map percent bs) @ rest) (utf8_encode c)))"

definition encodedFileName :: "utext \<Rightarrow> utext option" where
  "encodedFileName safeFileName =
     map_option (\<lambda>s. concat (map (\<lambda>c. if c \<in> {39, 40, 41} then percent c else [c]) s))
       (encodeURIComponent safeFileName)"

definition codes :: "string \<Rightarrow> utext" where
  "codes s = map of_char s"

definition contentDisposition :: "(utext \<Rightarrow> utext) \<Rightarrow> (utext \<Rightarrow> utext) \<Rightarrow> utext \<Rightarrow> utext result" where
  "contentDisposition nfkc nfkd fileName =
     (let safeFileName = sanitizeContentDispositionFileName nfkc fileName in
      case encodedFileName safeFileName of
        None \<Rightarrow> Inl (PlainError ''URIError'')
      | Some enc \<Rightarrow> Inr (codes ''attachment; filename='' @ [34] @ asciiFallback nfkd safeFileName @ [34] @
                     codes ''; filename*=UTF-8'' @ [39, 39] @ enc))"

section \<open>Cleanup tasks\<close>

definition upsert_task :: "int \<Rightarrow> string \<Rightarrow> cleanup_reason \<Rightarrow> db \<Rightarrow> db" where
  "upsert_task now key reason d =
     (if exists_where (\<lambda>t. cl_storageKey t = key) (cleanupTasks d)
      then d\<lparr>cleanupTasks := update_where (\<lambda>t. cl_storageKey t = key)
               (\<lambda>t. t\<lparr>cl_reason := reason\<rparr>) (cleanupTasks d)\<rparr>
      else d\<lparr>cleanupTasks := cleanupTasks d @
               [\<lparr>cl_storageKey = key, cl_reason = reason, cl_attemptCount = 0,
                 cl_lastAttemptAt = None, cl_createdAt = now\<rparr>]\<rparr>)"

definition attempt ::
  "string \<Rightarrow> (string \<Rightarrow> s3_error option) \<Rightarrow> int \<Rightarrow> string \<Rightarrow> world \<Rightarrow> bool result \<times> world" where
  "attempt bucketName faults now key w =
     (case deleteObject bucketName (faults key) key (objects w) of
        (Inr _, bkt) \<Rightarrow>
          (Inr True, w\<lparr>objects := bkt,
             wdb := (wdb w)\<lparr>cleanupTasks := delete_where (\<lambda>t. cl_storageKey t = key)
                              (cleanupTasks (wdb w))\<rparr>\<rparr>)
      | (Inl _, _) \<Rightarrow>
          (if exists_where (\<lambda>t. cl_storageKey t = key) (cleanupTasks (wdb w))
           then (Inr False, w\<lparr>wdb := (wdb w)\<lparr>cleanupTasks := update_where (\<lambda>t. cl_storageKey t = key)
                  (\<lambda>t. t\<lparr>cl_attemptCount := cl_attemptCount t + 1, cl_lastAttemptAt := Some now\<rparr>)
                  (cleanupTasks (wdb w))\<rparr>\<rparr>)
           else (Inl (PrismaError ''P2025''), w)))"

definition enqueueAndAttempt ::
  "string \<Rightarrow> (string \<Rightarrow> s3_error option) \<Rightarrow> int \<Rightarrow> string \<Rightarrow> cleanup_reason \<Rightarrow> world \<Rightarrow> bool result \<times> world" where
  "enqueueAndAttempt bucketName faults now key reason w =
     attempt bucketName faults now key (w\<lparr>wdb := upsert_task now key reason (wdb w)\<rparr>)"

text \<open>
  \<open>Promise.all\<close> over the keys: every attempt runs to its end, and the call fails with the first
  error. The attempts work on different keys, so their interleaving does not matter.
\<close>

fun attempts_in_order ::
  "string \<Rightarrow> (string \<Rightarrow> s3_error option) \<Rightarrow> int \<Rightarrow> string list \<Rightarrow> world \<Rightarrow> bool list result \<times> world" where
  "attempts_in_order bucketName faults now [] w = (Inr [], w)"
| "attempts_in_order bucketName faults now (k # ks) w =
     (case attempt bucketName faults now k w of (r, w1) \<Rightarrow>
       (case attempts_in_order bucketName faults now ks w1 of (rs, w2) \<Rightarrow>
         ((case r of Inl e \<Rightarrow> Inl e
           | Inr b \<Rightarrow> (case rs of Inl e \<Rightarrow> Inl e | Inr bs \<Rightarrow> Inr (b # bs))), w2)))"

definition attemptMany ::
  "string \<Rightarrow> (string \<Rightarrow> s3_error option) \<Rightarrow> int \<Rightarrow> string list \<Rightarrow> world \<Rightarrow> unit result \<times> world" where
  "attemptMany bucketName faults now keys w =
     (case attempts_in_order bucketName faults now keys w of
        (Inl e, w') \<Rightarrow> (Inl e, w') | (Inr _, w') \<Rightarrow> (Inr (), w'))"

definition retryPending ::
  "string \<Rightarrow> (string \<Rightarrow> s3_error option) \<Rightarrow> int \<Rightarrow> nat \<Rightarrow> world \<Rightarrow> nat result \<times> world" where
  "retryPending bucketName faults now limit w =
     (let keys = map cl_storageKey (take limit (sort_key cl_createdAt (cleanupTasks (wdb w)))) in
      case attempts_in_order bucketName faults now keys w of
        (Inl e, w') \<Rightarrow> (Inl e, w')
      | (Inr outcomes, w') \<Rightarrow> (Inr (length (filter id outcomes)), w'))"

section \<open>The contract of an outbox\<close>

text \<open>
  The services that delete rows rely on this: an attempt removes an object and its task together or
  leaves both. \<open>inv\<close> says what the storage service promises of its replies.
\<close>

locale outbox =
  fixes inv :: "'s \<Rightarrow> bool"
    and pending :: "'s \<Rightarrow> string set"
    and stored :: "'s \<Rightarrow> string set"
    and atm :: "string \<Rightarrow> 's \<Rightarrow> 's"
    and faulty :: "string \<Rightarrow> bool"
  assumes try_inv: "inv s \<Longrightarrow> inv (atm k s)"
    and try_ok: "inv s \<Longrightarrow> \<not> faulty k \<Longrightarrow> pending (atm k s) = pending s - {k} \<and> stored (atm k s) = stored s - {k}"
    and try_fail: "inv s \<Longrightarrow> faulty k \<Longrightarrow> pending (atm k s) = pending s \<and> stored (atm k s) = stored s"
begin

lemma tries:
  "inv s \<Longrightarrow> inv (fold atm ks s) \<and>
     pending (fold atm ks s) = pending s - {k \<in> set ks. \<not> faulty k} \<and>
     stored (fold atm ks s) = stored s - {k \<in> set ks. \<not> faulty k}"
proof (induction ks arbitrary: s)
  case (Cons k ks)
  from Cons.IH [OF try_inv [OF Cons.prems, of k]] try_ok [OF Cons.prems, of k] try_fail [OF Cons.prems, of k]
  show ?case by (cases "faulty k") auto
qed simp

text \<open>No object is lost sight of: what is stored, and not in use, stays pending.\<close>

lemma tries_keep_garbage_pending:
  assumes "inv s" "stored s - used \<subseteq> pending s"
  shows "stored (fold atm ks s) - used \<subseteq> pending (fold atm ks s)"
  using tries [OF assms(1), of ks] assms(2) by blast

lemma drained:
  assumes "inv s" "pending s \<subseteq> set ks" "\<And>k. k \<in> set ks \<Longrightarrow> \<not> faulty k"
  shows "pending (fold atm ks s) = {} \<and> stored (fold atm ks s) \<inter> pending s = {}"
  using tries [OF assms(1), of ks] assms(2,3) by blast

end

definition pending_keys :: "world \<Rightarrow> string set" where
  "pending_keys w = cl_storageKey ` set (cleanupTasks (wdb w))"

definition honest_replies :: "(string \<Rightarrow> s3_error option) \<Rightarrow> world \<Rightarrow> bool" where
  "honest_replies faults w \<longleftrightarrow> (\<forall>k e. faults k = Some e \<and> isNotFound e \<longrightarrow> objects w k = None)"

definition delete_fails :: "string \<Rightarrow> (string \<Rightarrow> s3_error option) \<Rightarrow> string \<Rightarrow> bool" where
  "delete_fails bucketName faults key \<longleftrightarrow>
     bucketName = [] \<or> (case faults key of None \<Rightarrow> False | Some e \<Rightarrow> \<not> isNotFound e)"

lemma attempt_ok:
  assumes "\<not> delete_fails bn faults k" "honest_replies faults w"
  shows "attempt bn faults now k w = (Inr True, w\<lparr>objects := (objects w)(k := None),
     wdb := (wdb w)\<lparr>cleanupTasks := delete_where (\<lambda>t. cl_storageKey t = k) (cleanupTasks (wdb w))\<rparr>\<rparr>)"
proof (cases "faults k")
  case None
  with assms(1) show ?thesis by (simp add: attempt_def deleteObject_def ensureConfigured_def delete_fails_def)
next
  case (Some e)
  with assms have e: "isNotFound e" "bn \<noteq> []" by (auto simp: delete_fails_def)
  with Some assms(2) have "objects w k = None" by (auto simp: honest_replies_def)
  then have "(objects w)(k := None) = objects w" by auto
  with Some e show ?thesis by (simp add: attempt_def deleteObject_def ensureConfigured_def)
qed

lemma attempt_fail:
  assumes "delete_fails bn faults k"
  shows "attempt bn faults now k w =
    (if k \<in> pending_keys w
     then (Inr False, w\<lparr>wdb := (wdb w)\<lparr>cleanupTasks := update_where (\<lambda>t. cl_storageKey t = k)
             (\<lambda>t. t\<lparr>cl_attemptCount := cl_attemptCount t + 1, cl_lastAttemptAt := Some now\<rparr>)
             (cleanupTasks (wdb w))\<rparr>\<rparr>)
     else (Inl (PrismaError ''P2025''), w))"
  using assms
  by (auto simp: attempt_def deleteObject_def ensureConfigured_def delete_fails_def pending_keys_def
      split: option.splits)

interpretation cleanup: outbox "honest_replies faults" pending_keys "\<lambda>w. dom (objects w)"
  "\<lambda>k w. snd (attempt bn faults now k w)" "delete_fails bn faults" for bn faults now
proof
  fix w k assume h: "honest_replies faults w"
  show "honest_replies faults (snd (attempt bn faults now k w))"
    using h by (cases "delete_fails bn faults k") (auto simp: attempt_ok attempt_fail honest_replies_def)
  show "pending_keys (snd (attempt bn faults now k w)) = pending_keys w - {k} \<and>
      dom (objects (snd (attempt bn faults now k w))) = dom (objects w) - {k}"
    if "\<not> delete_fails bn faults k"
    using attempt_ok [OF that h] by (auto simp: pending_keys_def delete_where_def)
  show "pending_keys (snd (attempt bn faults now k w)) = pending_keys w \<and>
      dom (objects (snd (attempt bn faults now k w))) = dom (objects w)"
    if "delete_fails bn faults k"
    using attempt_fail [OF that, of now w] by (simp add: pending_keys_def flip: set_map)
qed

lemma attemptMany_one: "snd (attemptMany bn faults now [k] w) = snd (attempt bn faults now k w)"
  by (auto simp: attemptMany_def split: prod.splits sum.splits)

lemma attempts_in_order_world:
  "snd (attempts_in_order bn faults now ks w) = fold (\<lambda>k w. snd (attempt bn faults now k w)) ks w"
  by (induction ks arbitrary: w) (simp_all add: case_prod_beta)

lemma attempts_in_order_outcomes:
  assumes "distinct ks" "honest_replies faults w" "set ks \<subseteq> pending_keys w"
  shows "fst (attempts_in_order bn faults now ks w) = Inr (map (\<lambda>k. \<not> delete_fails bn faults k) ks)"
  using assms
proof (induction ks arbitrary: w)
  case (Cons k ks)
  let ?w = "snd (attempt bn faults now k w)"
  have fst1: "fst (attempt bn faults now k w) = Inr (\<not> delete_fails bn faults k)"
    using Cons.prems attempt_ok attempt_fail by (cases "delete_fails bn faults k") auto
  have "set ks \<subseteq> pending_keys ?w"
    using Cons.prems cleanup.try_ok [OF Cons.prems(2)] cleanup.try_fail [OF Cons.prems(2)]
    by (cases "delete_fails bn faults k") auto
  moreover have "honest_replies faults ?w" by (rule cleanup.try_inv [OF Cons.prems(2)])
  ultimately have "fst (attempts_in_order bn faults now ks ?w) = Inr (map (\<lambda>k. \<not> delete_fails bn faults k) ks)"
    using Cons by simp
  with fst1 show ?case by (simp add: case_prod_beta)
qed simp

section \<open>Properties\<close>

text \<open>
  C27. A retry round attempts exactly the oldest \<open>limit\<close> tasks: it deletes the objects and the tasks
  of those whose deletion S3 accepts, keeps every other object and every other task, and returns how
  many it removed. In particular no stored object loses its task.
\<close>

theorem retryPending_outcome:
  assumes "keyed cl_storageKey (cleanupTasks (wdb w))" "honest_replies faults w"
  shows "let keys = map cl_storageKey (take limit (sort_key cl_createdAt (cleanupTasks (wdb w))));
             deleted = filter (\<lambda>k. \<not> delete_fails bn faults k) keys;
             w' = snd (retryPending bn faults now limit w)
    in fst (retryPending bn faults now limit w) = Inr (length deleted) \<and>
       pending_keys w' = pending_keys w - set deleted \<and>
       dom (objects w') = dom (objects w) - set deleted"
proof -
  let ?keys = "map cl_storageKey (take limit (sort_key cl_createdAt (cleanupTasks (wdb w))))"
  have sub: "set ?keys \<subseteq> pending_keys w"
    by (auto simp: pending_keys_def dest: in_set_takeD)
  have "distinct (map cl_storageKey (sort_key cl_createdAt (cleanupTasks (wdb w))))"
    using assms(1) by (simp add: keyed_def distinct_map)
  then have d: "distinct ?keys" by (simp add: take_map [symmetric])
  note out = attempts_in_order_outcomes [OF d assms(2) sub, of bn now]
  have "fst (retryPending bn faults now limit w) =
      Inr (length (filter id (map (\<lambda>k. \<not> delete_fails bn faults k) ?keys)))"
    using out by (auto simp: retryPending_def Let_def split: prod.splits sum.splits)
  moreover have "length (filter id (map P ks)) = length (filter P ks)" for P and ks :: "string list"
    by (induction ks) auto
  moreover have "snd (retryPending bn faults now limit w) = fold (\<lambda>k w. snd (attempt bn faults now k w)) ?keys w"
    unfolding attempts_in_order_world [symmetric]
    by (simp add: retryPending_def Let_def split: prod.splits sum.splits)
  ultimately show ?thesis
    using cleanup.tries [OF assms(2), of bn now ?keys] by (auto simp: Let_def)
qed

definition demo_task :: "string \<Rightarrow> int \<Rightarrow> cleanup_row" where
  "demo_task k t = \<lparr>cl_storageKey = k, cl_reason = ASSET_DELETE, cl_attemptCount = 0,
     cl_lastAttemptAt = None, cl_createdAt = t\<rparr>"

definition demo_world :: world where
  "demo_world = \<lparr>wdb = empty_db\<lparr>cleanupTasks := [demo_task ''new'' 9, demo_task ''bad'' 1, demo_task ''old'' 2]\<rparr>,
     objects = [''new'' \<mapsto> [1], ''bad'' \<mapsto> [2], ''old'' \<mapsto> [3]]\<rparr>"

definition demo_faults :: "string \<Rightarrow> s3_error option" where
  "demo_faults k = (if k = ''bad'' then Some \<lparr>s3_name = ''SlowDown'', s3_status = Some 503\<rparr> else None)"

theorem retryPending_outcome_witness:
  "fst (retryPending ''b'' demo_faults 10 2 demo_world) = Inr 1 \<and>
   dom (objects (snd (retryPending ''b'' demo_faults 10 2 demo_world))) = {''new'', ''bad''}"
proof -
  have "keyed cl_storageKey (cleanupTasks (wdb demo_world))"
    by (simp add: keyed_def demo_world_def demo_task_def)
  moreover have "honest_replies demo_faults demo_world"
    by (simp add: honest_replies_def demo_faults_def isNotFound_def)
  moreover have keys: "map cl_storageKey (take 2 (sort_key cl_createdAt (cleanupTasks (wdb demo_world)))) =
      [''bad'', ''old'']"
    by (simp add: demo_world_def demo_task_def)
  moreover have "filter (\<lambda>k. \<not> delete_fails ''b'' demo_faults k) [''bad'', ''old''] = [''old'']"
    by (simp add: delete_fails_def demo_faults_def isNotFound_def)
  moreover have "dom (objects demo_world) - {''old''} = {''new'', ''bad''}"
    by (auto simp: demo_world_def)
  ultimately show ?thesis
    using retryPending_outcome [of demo_world demo_faults 2 "''b''" 10] by (simp only: Let_def) simp
qed

text \<open>The characters of the download header that come from the user's file name.\<close>

definition header_safe :: "nat \<Rightarrow> bool" where
  "header_safe c \<longleftrightarrow> ascii_alnum c \<or> c \<in> {45, 46, 95, 33, 126, 42, 37}"

lemma percent_safe: "b < 256 \<Longrightarrow> \<forall>c \<in> set (percent b). header_safe c \<and> c \<notin> {39, 40, 41}"
  by (auto simp: percent_def hex_digit_def header_safe_def ascii_alnum_def)

lemma utf8_encode_byte: "utf8_encode c = Some bs \<Longrightarrow> b \<in> set bs \<Longrightarrow> b < 256"
proof -
  have "192 + c div 64 < 256" if "c < 2048" using that less_mult_imp_div_less [of c 32 64] by simp
  moreover have "224 + c div 4096 < 256" if "c < 65536" using that less_mult_imp_div_less [of c 16 4096] by simp
  moreover have "240 + c div 262144 < 256" if "c < 1114112" using that less_mult_imp_div_less [of c 5 262144] by simp
  moreover have "128 + x mod 64 < 256" for x :: nat using mod_less_divisor [of 64 x] by simp
  ultimately show "utf8_encode c = Some bs \<Longrightarrow> b \<in> set bs \<Longrightarrow> b < 256"
    by (auto simp: utf8_encode_def split: if_splits)
qed

lemma encodeURIComponent_chars:
  "encodeURIComponent s = Some t \<Longrightarrow> \<forall>c \<in> set t. header_safe c \<or> c \<in> {39, 40, 41}"
proof (induction s arbitrary: t)
  case (Cons x s)
  then obtain rest where rest: "encodeURIComponent s = Some rest" by (auto split: option.splits)
  note IH = Cons.IH [OF rest]
  show ?case
  proof (cases "uri_unreserved x")
    case True
    with Cons.prems rest have "t = x # rest" by simp
    with IH True show ?thesis by (auto simp: uri_unreserved_def header_safe_def)
  next
    case False
    with Cons.prems rest obtain bs where bs: "utf8_encode x = Some bs" "t = concat (map percent bs) @ rest"
      by auto
    with IH percent_safe utf8_encode_byte [OF bs(1)] show ?thesis by fastforce
  qed
qed simp

lemma encodedFileName_safe:
  assumes "encodedFileName s = Some enc" "c \<in> set enc"
  shows "header_safe c"
proof -
  obtain t where t: "encodeURIComponent s = Some t"
    "enc = concat (map (\<lambda>c. if c \<in> {39, 40, 41} then percent c else [c]) t)"
    using assms(1) by (auto simp: encodedFileName_def)
  then obtain x where "x \<in> set t" "c \<in> set (if x \<in> {39, 40, 41} then percent x else [x])"
    using assms(2) by auto
  with encodeURIComponent_chars [OF t(1)] percent_safe [of x] show ?thesis
    by (cases "x \<in> {39, 40, 41}") auto
qed

lemma asciiFallback_safe: "c \<in> set (asciiFallback nfkd s) \<Longrightarrow> header_safe c"
  by (auto simp: asciiFallback_def header_safe_def split: if_splits)

text \<open>
  No file name escapes its place in the \<open>Content-Disposition\<close> header, whatever Unicode
  normalisation does: the two strings made from it hold only letters, digits and -._!~*%, so
  neither a quote, a semicolon, a space nor a control character reaches the header. Only a file name
  with an unpaired surrogate has no header.
\<close>

lemma contentDisposition_safe:
  assumes "contentDisposition nfkc nfkd fileName = Inr header"
  shows "\<exists>fallback enc. header = codes ''attachment; filename='' @ [34] @ fallback @ [34] @
      codes ''; filename*=UTF-8'' @ [39, 39] @ enc \<and>
    (\<forall>c \<in> set fallback \<union> set enc. ascii_alnum c \<or> c \<in> {45, 46, 95, 33, 126, 42, 37})"
proof -
  let ?safe = "sanitizeContentDispositionFileName nfkc fileName"
  obtain enc where enc: "encodedFileName ?safe = Some enc"
    using assms by (auto simp: contentDisposition_def Let_def split: option.splits)
  with assms have "header = codes ''attachment; filename='' @ [34] @ asciiFallback nfkd ?safe @ [34] @
      codes ''; filename*=UTF-8'' @ [39, 39] @ enc"
    by (simp add: contentDisposition_def Let_def)
  moreover have "header_safe c" if "c \<in> set (asciiFallback nfkd ?safe) \<union> set enc" for c
    using that asciiFallback_safe encodedFileName_safe [OF enc] by blast
  ultimately show ?thesis unfolding header_safe_def by blast
qed

lemma contentDisposition_safe_witness:
  "\<exists>fallback enc. contentDisposition id id [97, 34, 59, 8364, 41] =
     Inr (codes ''attachment; filename='' @ [34] @ fallback @ [34] @ codes ''; filename*=UTF-8'' @ [39, 39] @ enc) \<and>
     (\<forall>c \<in> set fallback \<union> set enc. ascii_alnum c \<or> c \<in> {45, 46, 95, 33, 126, 42, 37})"
proof -
  have "encodedFileName (sanitizeContentDispositionFileName id [97, 34, 59, 8364, 41]) \<noteq> None"
    by (simp add: encodedFileName_def sanitizeContentDispositionFileName_def utf8_encode_def
        uri_unreserved_def ascii_alnum_def)
  then obtain h where h: "contentDisposition id id [97, 34, 59, 8364, 41] = Inr h"
    by (auto simp: contentDisposition_def Let_def)
  from contentDisposition_safe [OF h] h show ?thesis by auto
qed

end
