(* ===== verification/Processor.thy ===== *)
theory Processor
  imports Generations Attempts Storage
begin

text \<open>
  The transactions and the pure steps of
  \<open>src/report-generation/report-generation-processor.service.ts\<close>; \<open>Pipeline\<close> composes them into a
  job. Each clock reading of the code is an argument. Every write of a worker is fenced by its
  processing token and lease, \<open>owns_lease\<close> of \<open>Attempts\<close>.
\<close>

record processor_config =
  jobTimeoutMs :: int
  failedRetryWindowMs :: int
  failedRetryLimit :: int
  failedLockMs :: int
  reportModel :: string

definition progress_of :: "generation_stage \<Rightarrow> int" where
  "progress_of stage =
     (case stage of PREPARING \<Rightarrow> 5 | TRANSCRIBING \<Rightarrow> 10 | ANALYZING \<Rightarrow> 40 | GENERATING_CONTENT \<Rightarrow> 60
      | GENERATING_PDF \<Rightarrow> 80 | UPLOADING_OUTPUT \<Rightarrow> 95 | STAGE_COMPLETED \<Rightarrow> 100)"

section \<open>Claim and lease\<close>

definition claimable :: "int \<Rightarrow> string \<Rightarrow> generation_row \<Rightarrow> bool" where
  "claimable now gid g \<longleftrightarrow> gen_id g = gid \<and>
     (gen_status g = GS_QUEUED \<or>
      (gen_status g = GS_PROCESSING \<and>
       (case gen_leaseExpiresAt g of None \<Rightarrow> False | Some t \<Rightarrow> t < now)))"

definition claim_body :: "processor_config \<Rightarrow> int \<Rightarrow> string \<Rightarrow> string \<Rightarrow> (db, bool) tx" where
  "claim_body cfg now gid token d =
     (if count_where (claimable now gid) (generations d) \<noteq> 1 then Inr (False, d)
      else let d1 = d\<lparr>generations := update_where (claimable now gid)
               (\<lambda>g. g\<lparr>gen_status := GS_PROCESSING, gen_processingToken := Some token,
                      gen_leaseExpiresAt := Some (now + jobTimeoutMs cfg), gen_startedAt := Some now,
                      gen_attemptCount := gen_attemptCount g + 1\<rparr>) (generations d)\<rparr> in
        bindE (fromOption (PrismaError ''P2025'') (find_generation gid d1)) (\<lambda>g.
        Inr (True, d1\<lparr>reports := update_where
              (\<lambda>r. rep_id r = gen_reportId g \<and> (rep_status r = RS_QUEUED \<or> rep_status r = RS_PROCESSING))
              (\<lambda>r. r\<lparr>rep_status := RS_PROCESSING\<rparr>) (reports d1)\<rparr>)))"

definition leaseExpiration :: "processor_config \<Rightarrow> int \<Rightarrow> int" where
  "leaseExpiration cfg now = now + jobTimeoutMs cfg"

definition heartbeatIntervalMs :: "processor_config \<Rightarrow> int" where
  "heartbeatIntervalMs cfg = max 1000 (min 30000 (jobTimeoutMs cfg div 3))"

definition renewLease :: "processor_config \<Rightarrow> int \<Rightarrow> int \<Rightarrow> string \<Rightarrow> string \<Rightarrow> db \<Rightarrow> bool \<times> db" where
  "renewLease cfg now now2 gid token d =
     (count_where (owns_lease now gid token) (generations d) = 1,
      d\<lparr>generations := update_where (owns_lease now gid token)
          (\<lambda>g. g\<lparr>gen_leaseExpiresAt := Some (leaseExpiration cfg now2)\<rparr>) (generations d)\<rparr>)"

definition assertOwnership :: "processor_config \<Rightarrow> int \<Rightarrow> int \<Rightarrow> string \<Rightarrow> string \<Rightarrow> db \<Rightarrow> unit result \<times> db" where
  "assertOwnership cfg now now2 gid token d =
     (case renewLease cfg now now2 gid token d of
        (renewed, d1) \<Rightarrow> ((if \<not> renewed then Inl claimLost else Inr ()), d1))"

definition updateProgress ::
  "processor_config \<Rightarrow> int \<Rightarrow> int \<Rightarrow> string \<Rightarrow> generation_stage \<Rightarrow> int \<Rightarrow> string \<Rightarrow> db \<Rightarrow> unit result \<times> db" where
  "updateProgress cfg now now2 gid stage progress token d =
     ((if count_where (owns_lease now gid token) (generations d) \<noteq> 1 then Inl claimLost else Inr ()),
      d\<lparr>generations := update_where (owns_lease now gid token)
          (\<lambda>g. g\<lparr>gen_stage := stage, gen_progress := progress,
                 gen_leaseExpiresAt := Some (leaseExpiration cfg now2)\<rparr>) (generations d)\<rparr>)"

section \<open>The end of a generation\<close>

definition processed_by :: "string \<Rightarrow> string \<Rightarrow> generation_row \<Rightarrow> bool" where
  "processed_by gid token g \<longleftrightarrow>
     gen_id g = gid \<and> gen_status g = GS_PROCESSING \<and> gen_processingToken g = Some token"

definition finalize_body ::
  "int \<Rightarrow> int \<Rightarrow> string \<Rightarrow> string \<Rightarrow> string \<Rightarrow> string \<Rightarrow> string \<Rightarrow> int \<Rightarrow> (db, unit) tx" where
  "finalize_body now now2 gid rid u token storageKey size' d =
     bindE (guardE (exists_where (\<lambda>g. owns_lease now gid token g \<and> gen_userId g = u) (generations d)) claimLost) (\<lambda>_.
     bindE (create_output \<lparr>out_reportId = rid, out_generationId = gid, out_storageKey = storageKey,
               out_mimeType = ''application/pdf'', out_size = size', out_createdAt = now2\<rparr> d) (\<lambda>d1.
     bindE (guardE (count_where (\<lambda>g. processed_by gid token g \<and> gen_userId g = u) (generations d1) = 1) claimLost) (\<lambda>_.
     let d2 = d1\<lparr>generations := update_where (\<lambda>g. processed_by gid token g \<and> gen_userId g = u)
               (\<lambda>g. g\<lparr>gen_status := GS_COMPLETED, gen_stage := STAGE_COMPLETED,
                      gen_progress := progress_of STAGE_COMPLETED, gen_completedAt := Some now2,
                      gen_processingToken := None, gen_leaseExpiresAt := None\<rparr>) (generations d1)\<rparr> in
     bindE (guardE (exists_where (\<lambda>r. rep_id r = rid \<and> rep_userId r = u) (reports d2)) (PrismaError ''P2025'')) (\<lambda>_.
     bindE (consumeInTransaction gid
              (d2\<lparr>reports := update_where (\<lambda>r. rep_id r = rid \<and> rep_userId r = u)
                 (\<lambda>r. r\<lparr>rep_status := RS_READY, rep_failureCount := 0, rep_windowStartedAt := None,
                        rep_lockedUntil := None\<rparr>) (reports d2)\<rparr>)) (\<lambda>d3.
     Inr ((), d3))))))"

definition prepareRetry_body :: "int \<Rightarrow> string \<Rightarrow> string \<Rightarrow> string \<Rightarrow> (db, bool) tx" where
  "prepareRetry_body now gid token errorCode d =
     (if count_where (owns_lease now gid token) (generations d) \<noteq> 1 then Inr (False, d)
      else let d1 = d\<lparr>generations := update_where (owns_lease now gid token)
               (\<lambda>g. g\<lparr>gen_status := GS_QUEUED, gen_errorCode := Some errorCode,
                      gen_errorMessage := Some ''A temporary dependency error occurred; retrying'',
                      gen_processingToken := None, gen_leaseExpiresAt := None\<rparr>) (generations d)\<rparr> in
        bindE (fromOption (PrismaError ''P2025'') (find_generation gid d1)) (\<lambda>g.
        Inr (True, d1\<lparr>reports := update_where
              (\<lambda>r. rep_id r = gen_reportId g \<and> rep_status r = RS_PROCESSING)
              (\<lambda>r. r\<lparr>rep_status := RS_QUEUED\<rparr>) (reports d1)\<rparr>)))"

text \<open>The failure counter of a report: what the next failure at \<open>now\<close> makes of it.\<close>

definition failure_throttle :: "processor_config \<Rightarrow> int \<Rightarrow> report_row \<Rightarrow> int \<times> int option \<times> int option" where
  "failure_throttle cfg now report =
     (let withinWindow = (case rep_windowStartedAt report of
            None \<Rightarrow> False
          | Some t \<Rightarrow> now - t \<ge> 0 \<and> now - t \<le> failedRetryWindowMs cfg);
          consecutiveFailures = (if withinWindow then rep_failureCount report + 1 else 1);
          windowStartedAt = (if withinWindow then rep_windowStartedAt report else Some now);
          lockedUntil = (if consecutiveFailures \<ge> failedRetryLimit cfg
                         then Some (now + failedLockMs cfg) else None)
      in (consecutiveFailures, windowStartedAt, lockedUntil))"

definition apply_throttle :: "report_status \<Rightarrow> int \<times> int option \<times> int option \<Rightarrow> report_row \<Rightarrow> report_row" where
  "apply_throttle st t r =
     (case t of (n, w, l) \<Rightarrow>
        r\<lparr>rep_status := st, rep_failureCount := n, rep_windowStartedAt := w, rep_lockedUntil := l\<rparr>)"

definition failGeneration_body ::
  "processor_config \<Rightarrow> int \<Rightarrow> int \<Rightarrow> string \<Rightarrow> string \<Rightarrow> string \<Rightarrow> string \<Rightarrow> (db, bool) tx" where
  "failGeneration_body cfg now now2 gid token errorCode message d =
     (if count_where (owns_lease now2 gid token) (generations d) \<noteq> 1 then Inr (False, d)
      else let d1 = d\<lparr>generations := update_where (owns_lease now2 gid token)
               (\<lambda>g. g\<lparr>gen_status := GS_FAILED, gen_errorCode := Some errorCode,
                      gen_errorMessage := Some (take 300 message), gen_completedAt := Some now,
                      gen_processingToken := None, gen_leaseExpiresAt := None\<rparr>) (generations d)\<rparr> in
        bindE (fromOption (PrismaError ''P2025'') (find_generation gid d1)) (\<lambda>owned.
        bindE (fromOption (PrismaError ''P2025'') (find_report (gen_reportId owned) d1)) (\<lambda>report.
        let st = (if exists_where (\<lambda>q. out_reportId q = gen_reportId owned) (outputs d1)
                  then RS_READY else RS_FAILED) in
        bindE (update_report (gen_reportId owned) (apply_throttle st (failure_throttle cfg now report)) d1) (\<lambda>d2.
        bindE (releaseInTransaction gid (''Terminal failure: '' @ errorCode) d2) (\<lambda>d3.
        Inr (True, d3))))))"

datatype process_result = Completed | Deferred int

definition resultAfterClaimLoss :: "int \<Rightarrow> string \<Rightarrow> db \<Rightarrow> process_result" where
  "resultAfterClaimLoss now gid d =
     (case find_generation gid d of
        None \<Rightarrow> Completed
      | Some g \<Rightarrow>
         (if gen_status g \<noteq> GS_PROCESSING then Completed
          else let leaseExpiration = (case gen_leaseExpiresAt g of None \<Rightarrow> now | Some t \<Rightarrow> t)
               in Deferred (max (now + 1000) (leaseExpiration + 1000))))"

definition persistReportResult_body ::
  "processor_config \<Rightarrow> int \<Rightarrow> int \<Rightarrow> int \<Rightarrow> string \<Rightarrow> string \<Rightarrow> string \<Rightarrow> report_result \<Rightarrow>
     string option \<Rightarrow> int option \<Rightarrow> int option \<Rightarrow> (db, unit) tx" where
  "persistReportResult_body cfg now now2 now3 gid token attemptId result requestId inputTokens outputTokens d =
     bindE (require_lease now gid token d) (\<lambda>_.
     bindE (completeInTransaction now2 now3 attemptId token
              \<lparr>us_providerRequestId = requestId, us_inputTokens = inputTokens,
               us_outputTokens = outputTokens, us_audioDurationSeconds = None\<rparr> d) (\<lambda>d1.
     bindE (guardE (count_where (processed_by gid token) (generations d1) = 1) claimLost) (\<lambda>_.
     Inr ((), d1\<lparr>generations := update_where (processed_by gid token)
            (\<lambda>g. g\<lparr>gen_structuredResult := Some result, gen_provider := Some ''openai'',
                   gen_model := Some (reportModel cfg),
                   gen_providerRequestId := set_defined requestId (gen_providerRequestId g),
                   gen_inputTokens := set_defined inputTokens (gen_inputTokens g),
                   gen_outputTokens := set_defined outputTokens (gen_outputTokens g),
                   gen_leaseExpiresAt := Some (leaseExpiration cfg now3)\<rparr>) (generations d1)\<rparr>))))"

text \<open>\<open>upsert\<close> commits on its own; an error of the attempt is only logged.\<close>

definition scheduleOrphanCleanup ::
  "string \<Rightarrow> (string \<Rightarrow> s3_error option) \<Rightarrow> int \<Rightarrow> string \<Rightarrow> world \<Rightarrow> world" where
  "scheduleOrphanCleanup bucketName faults now key w =
     snd (attemptMany bucketName faults now [key] (w\<lparr>wdb := upsert_task now key ORPHAN_OUTPUT (wdb w)\<rparr>))"

section \<open>The pure steps\<close>

definition parseSnapshot :: "input_snapshot option \<Rightarrow> input_snapshot result" where
  "parseSnapshot value =
     (case value of
        Some s \<Rightarrow>
          (if sn_version s = 1 then Inr s
           else Inl (AiProviderError ''INVALID_INPUT_SNAPSHOT'' False ''Generation input snapshot is invalid'' None))
      | None \<Rightarrow> Inl (AiProviderError ''INVALID_INPUT_SNAPSHOT'' False ''Generation input snapshot is invalid'' None))"

definition normalizeError :: "exn \<Rightarrow> string \<times> bool \<times> string" where
  "normalizeError e =
     (case e of
        AiProviderError code retryable message q \<Rightarrow> (code, retryable, message)
      | _ \<Rightarrow> (''GENERATION_DEPENDENCY_UNAVAILABLE'', True,
               ''Report generation failed because a dependency is unavailable''))"

definition assertBeforeDeadline :: "int \<Rightarrow> int \<Rightarrow> unit result" where
  "assertBeforeDeadline now deadline =
     guardE (now < deadline)
       (AiProviderError ''GENERATION_TIMEOUT'' True ''Report generation exceeded its processing deadline'' None)"

definition SUPPORTED_IMAGE_MIME_TYPES :: "string list" where
  "SUPPORTED_IMAGE_MIME_TYPES = [''image/jpeg'', ''image/png'', ''image/webp'']"

definition assertSupportedImageMimeTypes :: "snapshot_asset list \<Rightarrow> unit result" where
  "assertSupportedImageMimeTypes images =
     guardE (\<not> list_ex (\<lambda>i. sa_verifiedMimeType i \<notin> set SUPPORTED_IMAGE_MIME_TYPES) images)
       (AiProviderError ''AI_UNSUPPORTED_IMAGE_MIME'' False ''A report image has an unsupported format'' None)"

definition referenced_ids :: "report_result \<Rightarrow> string list" where
  "referenced_ids result = concat (map sec_imageAssetIds (rr_sections result))"

definition validateImageReferences :: "report_result \<Rightarrow> snapshot_asset list \<Rightarrow> unit result" where
  "validateImageReferences result images =
     guardE (\<not> list_ex (\<lambda>i. i \<notin> set (map sa_id images)) (referenced_ids result))
       (AiProviderError ''AI_INVALID_IMAGE_REFERENCE'' False ''AI response referenced an unavailable image'' None)"

definition selected_images :: "report_result \<Rightarrow> snapshot_asset list \<Rightarrow> snapshot_asset list" where
  "selected_images result images = filter (\<lambda>i. sa_id i \<in> set (referenced_ids result)) images"

fun loadReferencedImages ::
  "(string \<Rightarrow> int \<Rightarrow> bytes result) \<Rightarrow> snapshot_asset list \<Rightarrow> (string \<times> bytes) list result" where
  "loadReferencedImages read [] = Inr []"
| "loadReferencedImages read (img # imgs) =
     bindE (read (sa_storageKey img) (sa_verifiedSize img)) (\<lambda>b.
     bindE (loadReferencedImages read imgs) (\<lambda>loaded. Inr ((sa_id img, b) # loaded)))"

subsection \<open>The source text\<close>

datatype json =
    JNull
  | JText utext
  | JInt int
  | JArray "json list"
  | JObject "(string \<times> json) list"

definition sourceTypeLabel :: "asset_type \<Rightarrow> string" where
  "sourceTypeLabel t =
     (case t of IMAGE \<Rightarrow> ''photograph'' | DOCUMENT \<Rightarrow> ''attached document'' | AUDIO \<Rightarrow> ''audio recording'')"

fun digits :: "nat \<Rightarrow> string" where
  "digits n = (if n < 10 then [char_of (48 + n)] else digits (n div 10) @ [char_of (48 + n mod 10)])"

definition asset_type_name :: "asset_type \<Rightarrow> string" where
  "asset_type_name t = (case t of IMAGE \<Rightarrow> ''IMAGE'' | DOCUMENT \<Rightarrow> ''DOCUMENT'' | AUDIO \<Rightarrow> ''AUDIO'')"

definition jstr :: "string \<Rightarrow> json" where
  "jstr s = JText (codes s)"

fun asset_manifest :: "(asset_type \<Rightarrow> nat) \<Rightarrow> snapshot_asset list \<Rightarrow> json list" where
  "asset_manifest counts [] = []"
| "asset_manifest counts (a # as) =
     (let sourceNumber = counts (sa_type a) + 1 in
      JObject [(''source'', jstr (sourceTypeLabel (sa_type a) @ '' '' @ digits sourceNumber)),
               (''type'', jstr (asset_type_name (sa_type a))),
               (''mimeType'', jstr (sa_verifiedMimeType a)),
               (''position'', JInt (sa_position a))]
      # asset_manifest (counts(sa_type a := sourceNumber)) as)"

text \<open>
  \<open>JSON.stringify\<close>: a string is quoted, with the control characters, the quote, the backslash and the
  surrogates that stand alone escaped; no key of the program needs an escape.
\<close>

definition hex_code :: "nat \<Rightarrow> nat" where
  "hex_code n = (if n < 10 then 48 + n else 87 + n)"

definition quote_char :: "nat \<Rightarrow> utext" where
  "quote_char c =
     (if c = 8 then codes [CHR 0x5C, CHR ''b''] else if c = 9 then codes [CHR 0x5C, CHR ''t'']
      else if c = 10 then codes [CHR 0x5C, CHR ''n''] else if c = 12 then codes [CHR 0x5C, CHR ''f'']
      else if c = 13 then codes [CHR 0x5C, CHR ''r'']
      else if c = 34 \<or> c = 92 then [92, c]
      else if c < 32 \<or> (55296 \<le> c \<and> c \<le> 57343)
      then [92, 117, hex_code (c div 4096), hex_code (c div 256 mod 16), hex_code (c div 16 mod 16), hex_code (c mod 16)]
      else [c])"

definition quoted :: "utext \<Rightarrow> utext" where
  "quoted s = [34] @ concat (map quote_char s) @ [34]"

fun commas :: "utext list \<Rightarrow> utext" where
  "commas [] = []"
| "commas [x] = x"
| "commas (x # y # xs) = x @ [44] @ commas (y # xs)"

fun stringify :: "json \<Rightarrow> utext" where
  "stringify JNull = codes ''null''"
| "stringify (JText t) = quoted t"
| "stringify (JInt i) = codes (if i < 0 then CHR ''-'' # digits (nat (- i)) else digits (nat i))"
| "stringify (JArray xs) = [91] @ commas (map stringify xs) @ [93]"
| "stringify (JObject kvs) = [123] @ commas (map (\<lambda>kv. quoted (codes (fst kv)) @ [58] @ stringify (snd kv)) kvs) @ [125]"

definition buildSourceText :: "input_snapshot \<Rightarrow> (string \<times> utext) list \<Rightarrow> utext" where
  "buildSourceText snapshot transcripts =
     stringify (JObject [(''requestedLanguage'', jstr (sn_language snapshot)),
              (''title'', JText (sn_title snapshot)),
              (''notes'', (case sn_notes snapshot of None \<Rightarrow> JNull | Some n \<Rightarrow> JText n)),
              (''assetManifest'', JArray (asset_manifest (\<lambda>t. 0) (sn_assets snapshot))),
              (''audioTranscripts'', JArray (map (\<lambda>(index, transcript).
                 JObject [(''source'', jstr (''audio recording '' @ digits (index + 1))),
                          (''text'', JText (snd transcript))])
                 (zip [0..<length transcripts] transcripts)))])"

text \<open>The source text is an object, so it is never blank.\<close>

lemma buildSourceText_Cons: "\<exists>cs. buildSourceText snapshot transcripts = 123 # cs @ [125]"
  by (simp add: buildSourceText_def)

end
