(* ===== verification/Transcriptions.thy ===== *)
theory Transcriptions
  imports Attempts
begin

text \<open>
  \<open>src/report-generation/asset-transcriptions.service.ts\<close>: the transcription of an audio asset, kept
  per asset and shared by the generations of its report. The provider's answer is an argument, a
  function of the language hint; \<open>env i\<close> is what other processes commit before the \<open>i\<close>-th access to
  the database and \<open>clk i\<close> the \<open>i\<close>-th reading of the clock.
\<close>

definition AUDIO_MIME_TYPES :: "string list" where
  "AUDIO_MIME_TYPES = [''audio/mpeg'', ''audio/x-m4a'', ''audio/wav'']"

record transcript =
  ts_text :: utext
  ts_language :: "string option"
  ts_durationSeconds :: "rat option"
  ts_providerRequestId :: "string option"

definition normalizeLanguage :: "string \<Rightarrow> string option" where
  "normalizeLanguage language =
     (if language \<in> set [''en'', ''uk'', ''de'', ''fr'', ''es''] then Some language else None)"

definition find_transcription :: "string \<Rightarrow> db \<Rightarrow> transcription_row option" where
  "find_transcription assetId d = find_first (\<lambda>t. tr_assetId t = assetId) (transcriptions d)"

definition cached_text :: "string \<Rightarrow> db \<Rightarrow> utext option" where
  "cached_text assetId d =
     (case find_transcription assetId d of
        None \<Rightarrow> None
      | Some t \<Rightarrow>
         (if tr_status t = TS_COMPLETED
          then (case tr_text t of Some (c # cs) \<Rightarrow> Some (c # cs) | _ \<Rightarrow> None) else None))"

definition upsert_transcription :: "string \<Rightarrow> string \<Rightarrow> db \<Rightarrow> db" where
  "upsert_transcription model assetId d =
     (if exists_where (\<lambda>t. tr_assetId t = assetId) (transcriptions d)
      then d\<lparr>transcriptions := update_where (\<lambda>t. tr_assetId t = assetId)
               (\<lambda>t. t\<lparr>tr_status := TS_PROCESSING, tr_errorCode := None, tr_errorMessage := None\<rparr>)
               (transcriptions d)\<rparr>
      else d\<lparr>transcriptions := transcriptions d @
               [\<lparr>tr_assetId = assetId, tr_status = TS_PROCESSING, tr_text = None, tr_language = None,
                 tr_provider = Some ''openai'', tr_model = Some model, tr_providerRequestId = None,
                 tr_errorCode = None, tr_errorMessage = None\<rparr>]\<rparr>)"

definition update_transcription ::
  "string \<Rightarrow> (transcription_row \<Rightarrow> transcription_row) \<Rightarrow> db \<Rightarrow> exn + db" where
  "update_transcription assetId f d =
     (if exists_where (\<lambda>t. tr_assetId t = assetId) (transcriptions d)
      then Inr (d\<lparr>transcriptions := update_where (\<lambda>t. tr_assetId t = assetId) f (transcriptions d)\<rparr>)
      else Inl (PrismaError ''P2025''))"

definition complete_transcription_body ::
  "int \<Rightarrow> int \<Rightarrow> int \<Rightarrow> string \<Rightarrow> string \<Rightarrow> string \<Rightarrow> string \<Rightarrow> string \<Rightarrow> string \<Rightarrow> transcript \<Rightarrow> (db, unit) tx" where
  "complete_transcription_body now now2 now3 model gid attemptId token assetId language result d =
     bindE (require_lease now gid token d) (\<lambda>_.
     bindE (completeInTransaction now2 now3 attemptId token
              \<lparr>us_providerRequestId = ts_providerRequestId result, us_inputTokens = None,
               us_outputTokens = None, us_audioDurationSeconds = ts_durationSeconds result\<rparr> d) (\<lambda>d1.
     bindE (update_transcription assetId
              (\<lambda>t. t\<lparr>tr_status := TS_COMPLETED, tr_text := Some (ts_text result),
                     tr_language := Some (case ts_language result of None \<Rightarrow> language | Some l \<Rightarrow> l),
                     tr_provider := Some ''openai'', tr_model := Some model,
                     tr_providerRequestId := set_defined (ts_providerRequestId result) (tr_providerRequestId t)\<rparr>)
              d1) (\<lambda>d2. Inr ((), d2))))"

text \<open>The error the \<open>catch\<close> block works with: its code, its request id and itself.\<close>

definition transcription_error :: "exn \<Rightarrow> string \<times> string option \<times> exn" where
  "transcription_error e =
     (case e of
        AiProviderError code r msg q \<Rightarrow> (code, q, e)
      | _ \<Rightarrow> (''TRANSCRIPTION_FAILED'', None,
               AiProviderError ''TRANSCRIPTION_FAILED'' True ''Audio transcription failed'' None))"

definition still_processing :: "string \<Rightarrow> string \<Rightarrow> db \<Rightarrow> bool" where
  "still_processing gid token d =
     exists_where (\<lambda>g. gen_id g = gid \<and> gen_status g = GS_PROCESSING \<and>
        gen_processingToken g = Some token) (generations d)"

definition transcription_failure ::
  "(nat \<Rightarrow> int) \<Rightarrow> (nat \<Rightarrow> db \<Rightarrow> db) \<Rightarrow> string \<Rightarrow> string \<Rightarrow> string \<Rightarrow> string \<Rightarrow> exn \<Rightarrow> db \<Rightarrow> utext result \<times> db" where
  "transcription_failure clk env gid attemptId token assetId e d =
     (case transcription_error e of (code, requestId, pe) \<Rightarrow>
       if code = ''GENERATION_CLAIM_LOST'' then (Inl pe, d)
       else let d1 = env 3 d in
         if \<not> still_processing gid token d1 then (Inl claimLost, d1)
         else let d2 = fail_attempt (clk 4) attemptId code (Some token) requestId (env 4 d1);
                  d3 = env 5 d2
              in (case update_transcription assetId
                    (\<lambda>t. t\<lparr>tr_status := TS_FAILED, tr_errorCode := Some code,
                           tr_errorMessage := Some ''Audio transcription failed''\<rparr>) d3 of
                    Inl e' \<Rightarrow> (Inl e', d3)
                  | Inr d4 \<Rightarrow> (Inl pe, d4)))"

definition getOrCreate ::
  "attempt_config \<Rightarrow> string \<Rightarrow> (nat \<Rightarrow> int) \<Rightarrow> (nat \<Rightarrow> db \<Rightarrow> db) \<Rightarrow> string \<Rightarrow> (string option \<Rightarrow> transcript result) \<Rightarrow>
     string \<Rightarrow> snapshot_asset \<Rightarrow> string \<Rightarrow> string \<Rightarrow> int \<Rightarrow> db \<Rightarrow> utext result \<times> db" where
  "getOrCreate cfg model clk env attemptId provider gid asset language token leaseExpiresAt d =
     (if sa_type asset \<noteq> AUDIO \<or> sa_verifiedMimeType asset \<notin> set AUDIO_MIME_TYPES
      then (Inl (AiProviderError ''TRANSCRIPTION_UNSUPPORTED'' False
                   ''Audio format is not supported for transcription'' None), d)
      else (case cached_text (sa_id asset) d of
         Some text' \<Rightarrow> (Inr text', d)
       | None \<Rightarrow>
          (let d1 = upsert_transcription model (sa_id asset) (env 0 d) in
           case run_tx (start_attempt cfg attemptId (clk 0) gid TRANSCRIPTION ''openai'' model token
                  leaseExpiresAt (Some (sa_id asset))) (env 1 d1) of
             (Inl e, d2) \<Rightarrow> (Inl e, d2)
           | (Inr (aid, n), d2) \<Rightarrow>
              (case provider (normalizeLanguage language) of
                 Inl e \<Rightarrow> transcription_failure clk env gid aid token (sa_id asset) e d2
               | Inr result \<Rightarrow>
                  (case run_tx (complete_transcription_body (clk 1) (clk 2) (clk 3) model gid aid token
                          (sa_id asset) language result) (env 2 d2) of
                     (Inr _, d3) \<Rightarrow> (Inr (ts_text result), d3)
                   | (Inl e, d3) \<Rightarrow> transcription_failure clk env gid aid token (sa_id asset) e d3)))))"

section \<open>Lemmas\<close>

lemma cached_text_Some_iff:
  "cached_text i d = Some x \<longleftrightarrow>
     (\<exists>t. find_transcription i d = Some t \<and> tr_status t = TS_COMPLETED \<and> tr_text t = Some x \<and> x \<noteq> [])"
  by (auto simp: cached_text_def split: option.splits list.splits)

lemma start_attempt_transcriptions:
  "start_attempt cfg i now g op p m t till a d = Inr (r, d') \<Longrightarrow> transcriptions d' = transcriptions d"
  by (erule start_attempt_cases) simp

lemma exists_upserted: "\<exists>t \<in> set (transcriptions (upsert_transcription m i d)). tr_assetId t = i"
  by (auto simp: upsert_transcription_def ex_update_where)

lemma complete_transcription_cached:
  assumes "complete_transcription_body now now2 now3 m g a token i l result d = Inr (u, d')" "ts_text result \<noteq> []"
  shows "cached_text i d' = Some (ts_text result)"
proof -
  let ?f = "\<lambda>t. t\<lparr>tr_status := TS_COMPLETED, tr_text := Some (ts_text result),
      tr_language := Some (case ts_language result of None \<Rightarrow> l | Some x \<Rightarrow> x),
      tr_provider := Some ''openai'', tr_model := Some m,
      tr_providerRequestId := set_defined (ts_providerRequestId result) (tr_providerRequestId t)\<rparr>"
  obtain d1 where d1: "update_transcription i ?f d1 = Inr d'"
    using assms(1) unfolding complete_transcription_body_def by (elim bindE_InrE) auto
  then have ex: "\<exists>t \<in> set (transcriptions d1). tr_assetId t = i"
    and d': "transcriptions d' = update_where (\<lambda>t. tr_assetId t = i) ?f (transcriptions d1)"
    by (auto simp: update_transcription_def split: if_splits)
  from find_first_update_same [where k = tr_assetId and f = ?f, OF _ ex] obtain t where
    "find_transcription i d' = Some (?f t)" by (auto simp: find_transcription_def d')
  then show ?thesis using assms(2) by (simp add: cached_text_Some_iff)
qed

section \<open>Properties\<close>

text \<open>
  A transcription is paid for once: a call that returns a non-empty text leaves it stored for
  the asset, and the next call, of any generation, returns the same text without touching the
  database or the provider.
\<close>

lemma transcription_is_reused:
  assumes "getOrCreate cfg m clk env aid provider g asset l token till d = (Inr x, d')" "x \<noteq> []"
  shows "getOrCreate cfg2 m2 clk2 env2 aid2 provider2 g2 asset l2 token2 till2 d' = (Inr x, d')"
proof -
  have kind: "sa_type asset = AUDIO" "sa_verifiedMimeType asset \<in> set AUDIO_MIME_TYPES"
    using assms(1) by (auto simp: getOrCreate_def split: if_splits)
  have "cached_text (sa_id asset) d' = Some x"
  proof (cases "cached_text (sa_id asset) d")
    case (Some y)
    with assms(1) kind show ?thesis by (simp add: getOrCreate_def)
  next
    case None
    have failure: "fst (transcription_failure clk env g a token i e s) \<noteq> Inr y" for a i e s y
      by (auto simp: transcription_failure_def Let_def split: prod.splits sum.splits if_splits)
    obtain d2 n result d3 u a where r: "provider (normalizeLanguage l) = Inr result"
      "run_tx (complete_transcription_body (clk 1) (clk 2) (clk 3) m g a token (sa_id asset) l result) (env 2 d2)
         = (Inr u, d3)" "x = ts_text result" "d' = d3"
      using assms(1) None kind failure
      by (auto simp: getOrCreate_def Let_def split: prod.splits sum.splits) (metis fst_conv)+
    then have "complete_transcription_body (clk 1) (clk 2) (clk 3) m g a token (sa_id asset) l result (env 2 d2)
        = Inr (u, d')"
      by (auto simp: run_tx_def split: sum.splits)
    from complete_transcription_cached [OF this] assms(2) r(3) show ?thesis by simp
  qed
  with kind show ?thesis by (simp add: getOrCreate_def)
qed

definition demo_audio :: snapshot_asset where
  "demo_audio = \<lparr>sa_id = ''au'', sa_type = AUDIO, sa_verifiedMimeType = ''audio/wav'', sa_verifiedSize = 10,
     sa_position = 0, sa_storageKey = ''k'', sa_originalFileName = [97]\<rparr>"

definition demo_transcript :: "utext \<Rightarrow> transcript" where
  "demo_transcript t = \<lparr>ts_text = t, ts_language = None, ts_durationSeconds = None, ts_providerRequestId = None\<rparr>"

definition demo_transcribe :: "string \<Rightarrow> utext \<Rightarrow> db \<Rightarrow> utext result \<times> db" where
  "demo_transcribe aid t = getOrCreate demo_attempt_cfg ''m'' (\<lambda>i. 5) (\<lambda>i d. d) aid (\<lambda>l. Inr (demo_transcript t))
     ''g'' demo_audio ''en'' ''t1'' 50"

definition demo_processing_db :: db where
  "demo_processing_db = empty_db\<lparr>generations := [demo_processing]\<rparr>"

lemma transcription_is_reused_witness:
  "\<exists>d'. demo_transcribe ''a1'' [104, 105] demo_processing_db = (Inr [104, 105], d') \<and>
    demo_transcribe ''a2'' [] d' = (Inr [104, 105], d')"
proof -
  have "fst (demo_transcribe ''a1'' [104, 105] demo_processing_db) = Inr [104, 105]" by code_simp
  then obtain d' where d': "demo_transcribe ''a1'' [104, 105] demo_processing_db = (Inr [104, 105], d')"
    by (metis prod.collapse)
  then have "demo_transcribe ''a2'' [] d' = (Inr [104, 105], d')"
    unfolding demo_transcribe_def by (rule transcription_is_reused) simp
  with d' show ?thesis by blast
qed

text \<open>
  C28. A recording without speech is not remembered: when its transcription is stored as completed with
  an empty text and the asset has used its attempts, every later call fails, and for good, with
  \<open>AI_PROVIDER_CALL_BUDGET_EXHAUSTED\<close>, whatever the provider would answer.
\<close>

theorem empty_transcript_exhausts_budget:
  assumes "find_transcription (sa_id asset) d = Some t" "tr_status t = TS_COMPLETED" "tr_text t = Some []"
    and "sa_type asset = AUDIO" "sa_verifiedMimeType asset \<in> set AUDIO_MIME_TYPES" "sa_id asset \<noteq> []"
    and "\<And>a. a \<in> set (attempts d) \<Longrightarrow> att_status a \<noteq> ATT_STARTED"
    and "int (count_where (\<lambda>a. att_operation a = TRANSCRIPTION \<and> att_assetId a = Some (sa_id asset)) (attempts d))
      \<ge> transcriptionMaxAttemptsPerAsset cfg"
  shows "fst (getOrCreate cfg m clk (\<lambda>i d. d) aid provider g asset l token till d) =
    Inl (AiProviderError ''AI_PROVIDER_CALL_BUDGET_EXHAUSTED'' False ''AI provider call budget exhausted'' None)"
proof -
  let ?d1 = "upsert_transcription m (sa_id asset) d"
  have none: "cached_text (sa_id asset) d = None" using assms(1-3) by (simp add: cached_text_def)
  have at: "attempts ?d1 = attempts d" by (simp add: upsert_transcription_def)
  have scope: "attempt_scope g TRANSCRIPTION (Some (sa_id asset)) =
      (\<lambda>a. att_operation a = TRANSCRIPTION \<and> att_assetId a = Some (sa_id asset))"
    using assms(6) by (auto simp: attempt_scope_def)
  have "start_attempt cfg aid (clk 0) g TRANSCRIPTION ''openai'' m token till (Some (sa_id asset)) ?d1 =
      Inl (AiProviderError ''AI_PROVIDER_CALL_BUDGET_EXHAUSTED'' False ''AI provider call budget exhausted'' None)"
    using assms(7,8) by (auto simp: start_attempt_def Let_def at scope list_ex_iff attempt_budget_def count_where_def)
  with none assms(4,5) show ?thesis by (simp add: getOrCreate_def Let_def)
qed

theorem empty_transcript_exhausts_budget_witness:
  "\<exists>d. fst (demo_transcribe ''a1'' [] demo_processing_db) = Inr [] \<and>
    d = snd (demo_transcribe ''a2'' [] (snd (demo_transcribe ''a1'' [] demo_processing_db))) \<and>
    fst (demo_transcribe ''a3'' [104] d) =
      Inl (AiProviderError ''AI_PROVIDER_CALL_BUDGET_EXHAUSTED'' False ''AI provider call budget exhausted'' None)"
proof -
  let ?d = "snd (demo_transcribe ''a2'' [] (snd (demo_transcribe ''a1'' [] demo_processing_db)))"
  have first: "fst (demo_transcribe ''a1'' [] demo_processing_db) = Inr []" by code_simp
  have "(case find_transcription ''au'' ?d of None \<Rightarrow> False
      | Some t \<Rightarrow> tr_status t = TS_COMPLETED \<and> tr_text t = Some [])" by code_simp
  then obtain t where t: "find_transcription ''au'' ?d = Some t" "tr_status t = TS_COMPLETED" "tr_text t = Some []"
    by (auto split: option.splits)
  have "list_all (\<lambda>a. att_status a \<noteq> ATT_STARTED) (attempts ?d)" by code_simp
  then have settled: "att_status a \<noteq> ATT_STARTED" if "a \<in> set (attempts ?d)" for a
    using that by (simp add: list_all_iff)
  have "int (count_where (\<lambda>a. att_operation a = TRANSCRIPTION \<and> att_assetId a = Some ''au'') (attempts ?d)) \<ge> 2"
    by code_simp
  with t settled show ?thesis
    using empty_transcript_exhausts_budget [of demo_audio ?d t demo_attempt_cfg "''m''" "\<lambda>i. 5" "''a3''"
        "\<lambda>l. Inr (demo_transcript [104])" "''g''" "''en''" "''t1''" 50] first
    by (simp add: demo_transcribe_def demo_audio_def demo_attempt_cfg_def AUDIO_MIME_TYPES_def)
qed

end
