(* ===== verification/Provider.thy ===== *)
theory Provider
  imports Processor Transcriptions
begin

text \<open>
  \<open>src/ai/openai/openai-report-provider.service.ts\<close>, \<open>openai-provider-error.ts\<close> and
  \<open>src/ai/report-result.schema.ts\<close>: moderation, transcription and the generation of a report at the provider.
  The OpenAI client is a parameter, one function for each endpoint, whose answer may depend on the number of
  the call; the zod library is a parameter with a contract, \<open>zod_contract\<close>, over the schemas of the code.
  Logging and the diagnostics that are only logged are left out.
\<close>

section \<open>Provider errors\<close>

text \<open>
  What a call of the client throws, by its most specific class. A field of an \<open>APIError\<close> that has another type
  than the code asks for is \<open>None\<close>.
\<close>

datatype thrown =
    APIUserAbortError
  | APIConnectionTimeoutError
  | APIConnectionError
  | APIError "int option" "string option" "string option"
  | ZodError
  | Provided exn
  | OtherError

definition errorCodeForStatus :: "int option \<Rightarrow> string" where
  "errorCodeForStatus status =
     (if status = Some 400 then ''AI_BAD_REQUEST''
      else if status = Some 401 then ''AI_AUTHENTICATION_FAILED''
      else if status = Some 403 then ''AI_PERMISSION_DENIED''
      else if status = Some 404 then ''AI_RESOURCE_NOT_FOUND''
      else if status = Some 408 then ''AI_TIMEOUT''
      else if status = Some 409 then ''AI_CONFLICT''
      else if status = Some 429 then ''AI_RATE_LIMITED''
      else ''AI_UNAVAILABLE'')"

definition provider_char :: "char \<Rightarrow> bool" where
  "provider_char c \<longleftrightarrow> ascii_alnum (of_char c) \<or> c \<in> set ''._:-''"

definition safeProviderValue :: "string option \<Rightarrow> string option" where
  "safeProviderValue v =
     (case v of
        None \<Rightarrow> None
      | Some s \<Rightarrow> (if length s > 0 \<and> length s \<le> 128 \<and> list_all provider_char s then Some s else None))"

definition INVALID_IMAGE_REFERENCE_CODES :: "string list" where
  "INVALID_IMAGE_REFERENCE_CODES = [''invalid_image'', ''invalid_image_url'']"

definition retryable_status :: "int option \<Rightarrow> bool" where
  "retryable_status status \<longleftrightarrow>
     status = Some 408 \<or> status = Some 409 \<or> status = Some 429 \<or> (case status of Some n \<Rightarrow> n \<ge> 500 | None \<Rightarrow> False)"

fun mapOpenAiProviderError :: "thrown \<Rightarrow> exn" where
  "mapOpenAiProviderError APIUserAbortError =
     AiProviderError ''AI_REQUEST_ABORTED'' False ''AI provider request was cancelled'' None"
| "mapOpenAiProviderError APIConnectionTimeoutError =
     AiProviderError ''AI_TIMEOUT'' True ''AI provider request timed out'' None"
| "mapOpenAiProviderError APIConnectionError =
     AiProviderError ''AI_UNAVAILABLE'' True ''AI provider connection failed'' None"
| "mapOpenAiProviderError (APIError status code requestID) =
     (let providerCode = safeProviderValue code;
          invalidImageReference = (case providerCode of None \<Rightarrow> False | Some c \<Rightarrow> c \<in> set INVALID_IMAGE_REFERENCE_CODES)
      in AiProviderError
           (if invalidImageReference then ''AI_INVALID_IMAGE_REFERENCE'' else errorCodeForStatus status)
           (\<not> invalidImageReference \<and> retryable_status status)
           ''AI provider request failed'' (safeProviderValue requestID))"
| "mapOpenAiProviderError _ = AiProviderError ''AI_UNAVAILABLE'' True ''AI provider request failed'' None"

definition schema_mismatch :: "string option \<Rightarrow> exn" where
  "schema_mismatch requestId =
     AiProviderError ''AI_INVALID_RESPONSE'' False ''AI provider response did not match the required schema'' requestId"

fun providerError :: "thrown \<Rightarrow> exn" where
  "providerError (Provided e) = e"
| "providerError ZodError = schema_mismatch None"
| "providerError e = mapOpenAiProviderError e"

section \<open>Moderation\<close>

datatype moderation_input = TextInput utext | ImageInput string

text \<open>\<open>client k input\<close> is the \<open>k\<close>th call: the flags of the results and the request id.\<close>

type_synonym moderation_client = "nat \<Rightarrow> moderation_input list \<Rightarrow> thrown + (bool list \<times> string option)"

definition OPENAI_MODERATION_MAX_IMAGES_PER_REQUEST :: nat where
  "OPENAI_MODERATION_MAX_IMAGES_PER_REQUEST = 1"

definition moderateInput :: "moderation_client \<Rightarrow> nat \<Rightarrow> moderation_input list \<Rightarrow> (bool \<times> string option) result" where
  "moderateInput client k input =
     (case client k input of
        Inl e \<Rightarrow> Inl (providerError e)
      | Inr (results, requestId) \<Rightarrow> Inr (list_ex (\<lambda>flagged. flagged) results, requestId))"

text \<open>The batches of images from number \<open>batchIndex\<close> on; \<open>n\<close> batches are left.\<close>

fun moderate_batches ::
  "moderation_client \<Rightarrow> nat \<Rightarrow> string list \<Rightarrow> nat \<Rightarrow> nat \<Rightarrow> string option \<Rightarrow> (bool \<times> string option) result" where
  "moderate_batches client k imageUrls batchIndex 0 requestId = Inr (False, requestId)"
| "moderate_batches client k imageUrls batchIndex (Suc n) requestId =
     (let m = OPENAI_MODERATION_MAX_IMAGES_PER_REQUEST;
          batch = take m (drop (batchIndex * m) imageUrls) in
      bindE (moderateInput client (k + batchIndex) (map ImageInput batch)) (\<lambda>(flagged, q).
      let requestId' = (case q of Some i \<Rightarrow> Some i | None \<Rightarrow> requestId) in
      if flagged then Inr (True, requestId')
      else moderate_batches client k imageUrls (batchIndex + 1) n requestId'))"

definition batch_count :: "string list \<Rightarrow> nat" where
  "batch_count imageUrls = (length imageUrls + OPENAI_MODERATION_MAX_IMAGES_PER_REQUEST - 1) div OPENAI_MODERATION_MAX_IMAGES_PER_REQUEST"

definition moderate :: "moderation_client \<Rightarrow> utext \<Rightarrow> string list \<Rightarrow> (bool \<times> string option) result" where
  "moderate client text' imageUrls =
     (let trimmedText = utrim text' in
      if trimmedText \<noteq> [] then
        bindE (moderateInput client 0 [TextInput trimmedText]) (\<lambda>(flagged, requestId).
        if flagged then Inr (True, requestId)
        else moderate_batches client 1 imageUrls 0 (batch_count imageUrls) requestId)
      else moderate_batches client 1 imageUrls 0 (batch_count imageUrls) None)"

section \<open>Transcription and files\<close>

record transcription_data =
  td_text :: utext
  td_language :: "string option"
  td_duration :: "rat option"

definition transcribe ::
  "(string option \<Rightarrow> thrown + (transcription_data \<times> string option)) \<Rightarrow> string option \<Rightarrow> transcript result" where
  "transcribe client language =
     (case client language of
        Inl e \<Rightarrow> Inl (providerError e)
      | Inr (t, requestId) \<Rightarrow>
          Inr \<lparr>ts_text = td_text t,
               ts_language = (case td_language t of Some l \<Rightarrow> Some l | None \<Rightarrow> language),
               ts_durationSeconds = td_duration t, ts_providerRequestId = requestId\<rparr>)"

definition uploadDocument :: "(utext \<Rightarrow> string \<Rightarrow> int \<Rightarrow> thrown + string) \<Rightarrow> int \<Rightarrow> utext \<Rightarrow> string \<Rightarrow> string result" where
  "uploadDocument client fileTtlSeconds fileName mimeType =
     (case client fileName mimeType fileTtlSeconds of Inl e \<Rightarrow> Inl (providerError e) | Inr i \<Rightarrow> Inr i)"

section \<open>The schema of a report\<close>

text \<open>\<open>z.string().trim().min(1).max(m)\<close> of a string that has been trimmed.\<close>

definition text_within :: "nat \<Rightarrow> utext \<Rightarrow> bool" where
  "text_within m s \<longleftrightarrow> utrim s = s \<and> 1 \<le> utf16_length s \<and> utf16_length s \<le> m"

definition count_within :: "nat \<Rightarrow> nat \<Rightarrow> 'a list \<Rightarrow> bool" where
  "count_within lo hi xs \<longleftrightarrow> lo \<le> length xs \<and> length xs \<le> hi"

fun block_schema :: "report_block \<Rightarrow> bool" where
  "block_schema (Paragraph t) = text_within 8000 t"
| "block_schema (BulletList items) = (count_within 1 30 items \<and> list_all (text_within 1000) items)"

definition nullable :: "('a \<Rightarrow> bool) \<Rightarrow> 'a option \<Rightarrow> bool" where
  "nullable p x = (case x of None \<Rightarrow> True | Some y \<Rightarrow> p y)"

definition section_schema :: "utext \<Rightarrow> report_block list \<Rightarrow> bool" where
  "section_schema t blocks \<longleftrightarrow> text_within 300 t \<and> count_within 1 50 blocks \<and> list_all block_schema blocks"

definition reportResultSchema :: "(string \<Rightarrow> bool) \<Rightarrow> report_result \<Rightarrow> bool" where
  "reportResultSchema uuid r \<longleftrightarrow> text_within 300 (rr_title r) \<and> nullable (text_within 500) (rr_subtitle r) \<and>
     text_within 8000 (rr_summary r) \<and> count_within 1 30 (rr_sections r) \<and>
     list_all (\<lambda>s. section_schema (sec_title s) (sec_blocks s) \<and> count_within 0 20 (sec_imageAssetIds s) \<and>
       list_all uuid (sec_imageAssetIds s)) (rr_sections r) \<and>
     nullable (text_within 8000) (rr_conclusion r) \<and>
     count_within 0 30 (rr_recommendations r) \<and> list_all (text_within 2000) (rr_recommendations r)"

text \<open>What the provider answers: references to images by alias.\<close>

record provider_section =
  ps_title :: utext
  ps_blocks :: "report_block list"
  ps_imageRefs :: "string list"

record provider_report =
  pv_title :: utext
  pv_subtitle :: "utext option"
  pv_summary :: utext
  pv_sections :: "provider_section list"
  pv_conclusion :: "utext option"
  pv_recommendations :: "utext list"

definition responseSchema :: "string list \<Rightarrow> provider_report \<Rightarrow> bool" where
  "responseSchema aliases p \<longleftrightarrow> text_within 300 (pv_title p) \<and> nullable (text_within 500) (pv_subtitle p) \<and>
     text_within 8000 (pv_summary p) \<and> count_within 1 30 (pv_sections p) \<and>
     list_all (\<lambda>s. section_schema (ps_title s) (ps_blocks s) \<and>
       (if aliases \<noteq> [] then count_within 0 20 (ps_imageRefs s) \<and> list_all (\<lambda>a. a \<in> set aliases) (ps_imageRefs s)
        else count_within 0 0 (ps_imageRefs s))) (pv_sections p) \<and>
     nullable (text_within 8000) (pv_conclusion p) \<and>
     count_within 0 30 (pv_recommendations p) \<and> list_all (text_within 2000) (pv_recommendations p)"

fun trim_block :: "report_block \<Rightarrow> report_block" where
  "trim_block (Paragraph t) = Paragraph (utrim t)"
| "trim_block (BulletList items) = BulletList (map utrim items)"

definition trim_result :: "report_result \<Rightarrow> report_result" where
  "trim_result r = r\<lparr>rr_title := utrim (rr_title r), rr_subtitle := map_option utrim (rr_subtitle r),
     rr_summary := utrim (rr_summary r),
     rr_sections := map (\<lambda>s. s\<lparr>sec_title := utrim (sec_title s), sec_blocks := map trim_block (sec_blocks s)\<rparr>) (rr_sections r),
     rr_conclusion := map_option utrim (rr_conclusion r), rr_recommendations := map utrim (rr_recommendations r)\<rparr>"

text \<open>
  The zod library: the format of a UUID, \<open>reportResultSchema.parse\<close> on a value of its type and
  \<open>responseSchema(aliases).safeParse\<close> on any value, \<open>None\<close> when the value does not match.
\<close>

record zod =
  zd_uuid :: "string \<Rightarrow> bool"
  zd_result :: "report_result \<Rightarrow> report_result option"
  zd_response :: "string list \<Rightarrow> json \<Rightarrow> provider_report option"

text \<open>
  The documented behaviour relied on: parsing trims, checks the bounds of the schema and returns the trimmed
  value; what \<open>safeParse\<close> accepts satisfies the schema.
\<close>

definition zod_contract :: "zod \<Rightarrow> bool" where
  "zod_contract Z \<longleftrightarrow>
     (\<forall>r. zd_result Z r = (if reportResultSchema (zd_uuid Z) (trim_result r) then Some (trim_result r) else None)) \<and>
     (\<forall>aliases j p. zd_response Z aliases j = Some p \<longrightarrow> responseSchema aliases p)"

section \<open>Generating a report\<close>

record provider_image =
  pi_assetId :: string
  pi_url :: string
  pi_mimeType :: string
  pi_referenceExpiresAt :: int

record report_request =
  rq_instructions :: string
  rq_sourceText :: utext
  rq_images :: "provider_image list"
  rq_documents :: "(string \<times> string) list"
  rq_safetyIdentifier :: string
  rq_maxOutputTokens :: int

datatype content_item = InputText utext | InputImage string | InputFile string

record response_data =
  rs_status :: string
  rs_output :: "json option"
  rs_usage :: "(int \<times> int) option"
  rs_requestId :: "string option"

record provider_result =
  vr_value :: report_result
  vr_providerRequestId :: "string option"
  vr_usage :: "(int \<times> int) option"

definition unsupported_image :: exn where
  "unsupported_image = AiProviderError ''AI_UNSUPPORTED_IMAGE_MIME'' False ''A report image has an unsupported format'' None"

definition expired_image :: exn where
  "expired_image = AiProviderError ''AI_INVALID_IMAGE_REFERENCE'' False
     ''A report image reference expired before provider generation'' None"

definition unavailable_image :: "string option \<Rightarrow> exn" where
  "unavailable_image requestId = AiProviderError ''AI_INVALID_IMAGE_REFERENCE'' False
     ''AI response referenced an unavailable image'' requestId"

definition validateImageInputs :: "int \<Rightarrow> provider_image list \<Rightarrow> unit result" where
  "validateImageInputs now images =
     (case find_first (\<lambda>i. pi_mimeType i \<notin> set SUPPORTED_IMAGE_MIME_TYPES \<or> pi_referenceExpiresAt i \<le> now) images of
        None \<Rightarrow> Inr ()
      | Some i \<Rightarrow> Inl (if pi_mimeType i \<notin> set SUPPORTED_IMAGE_MIME_TYPES then unsupported_image else expired_image))"

definition alias_of :: "nat \<Rightarrow> string" where
  "alias_of index = ''IMAGE_'' @ digits (index + 1)"

definition with_aliases :: "provider_image list \<Rightarrow> (string \<times> provider_image) list" where
  "with_aliases images = zip (map alias_of [0..<length images]) images"

definition alias_text :: "string \<Rightarrow> utext" where
  "alias_text a = codes (''The next image is '' @ a @ ''. Use this alias in imageRefs when referencing the image.'')"

definition request_content :: "report_request \<Rightarrow> content_item list" where
  "request_content request =
     InputText (rq_sourceText request)
     # concat (map (\<lambda>(a, image). [InputText (alias_text a), InputImage (pi_url image)]) (with_aliases (rq_images request)))
     @ map (\<lambda>(assetId, fileId). InputFile fileId) (rq_documents request)"

text \<open>The references of one section; \<open>seen\<close> holds the assets that have been referenced.\<close>

fun map_refs :: "(string \<Rightarrow> string option) \<Rightarrow> string option \<Rightarrow> string list \<Rightarrow> string list \<Rightarrow> string list result" where
  "map_refs assetIdByAlias requestId seen [] = Inr []"
| "map_refs assetIdByAlias requestId seen (a # as) =
     (case assetIdByAlias a of
        None \<Rightarrow> Inl (unavailable_image requestId)
      | Some assetId \<Rightarrow>
         (if assetId = [] then Inl (unavailable_image requestId)
          else if assetId \<in> set seen then map_refs assetIdByAlias requestId seen as
          else bindE (map_refs assetIdByAlias requestId (assetId # seen) as) (\<lambda>rest. Inr (assetId # rest))))"

fun map_sections :: "(string \<Rightarrow> string option) \<Rightarrow> string option \<Rightarrow> provider_section list \<Rightarrow> report_section list result" where
  "map_sections assetIdByAlias requestId [] = Inr []"
| "map_sections assetIdByAlias requestId (s # ss) =
     bindE (map_refs assetIdByAlias requestId [] (ps_imageRefs s)) (\<lambda>ids.
     bindE (map_sections assetIdByAlias requestId ss) (\<lambda>rest.
     Inr (\<lparr>sec_title = ps_title s, sec_blocks = ps_blocks s, sec_imageAssetIds = ids\<rparr> # rest)))"

definition mapImageAliases ::
  "zod \<Rightarrow> provider_report \<Rightarrow> (string \<times> provider_image) list \<Rightarrow> string option \<Rightarrow> report_result result" where
  "mapImageAliases Z p images requestId =
     bindE (map_sections (map_of (rev (map (\<lambda>(a, i). (a, pi_assetId i)) images))) requestId (pv_sections p)) (\<lambda>sections.
     fromOption (schema_mismatch None) (zd_result Z
       \<lparr>rr_title = pv_title p, rr_subtitle = pv_subtitle p, rr_summary = pv_summary p, rr_sections = sections,
        rr_conclusion = pv_conclusion p, rr_recommendations = pv_recommendations p\<rparr>))"

text \<open>The references an answer of any shape holds.\<close>

fun json_field :: "string \<Rightarrow> json \<Rightarrow> json option" where
  "json_field k (JObject fs) = map_of fs k"
| "json_field k _ = None"

fun json_items :: "json option \<Rightarrow> json list" where
  "json_items (Some (JArray xs)) = xs"
| "json_items _ = []"

fun json_text :: "json \<Rightarrow> utext list" where
  "json_text (JText t) = [t]"
| "json_text _ = []"

definition providerImageReferences :: "json \<Rightarrow> utext list" where
  "providerImageReferences result =
     concat (map (\<lambda>sec. concat (map json_text (json_items (json_field ''imageRefs'' sec))))
       (json_items (json_field ''sections'' result)))"

definition invalidProviderImageReference :: "json \<Rightarrow> string list \<Rightarrow> string option \<Rightarrow> exn" where
  "invalidProviderImageReference result aliases requestId =
     (if list_ex (\<lambda>a. a \<notin> set (map codes aliases)) (providerImageReferences result)
      then unavailable_image requestId else schema_mismatch requestId)"

definition generateReport ::
  "zod \<Rightarrow> (report_request \<Rightarrow> content_item list \<Rightarrow> thrown + response_data) \<Rightarrow> int \<Rightarrow> report_request \<Rightarrow> provider_result result" where
  "generateReport Z client now request =
     bindE (validateImageInputs now (rq_images request)) (\<lambda>_.
     (let images = with_aliases (rq_images request) in
      case client request (request_content request) of
        Inl e \<Rightarrow> Inl (providerError e)
      | Inr data \<Rightarrow>
         (case (if rs_status data \<noteq> ''completed'' then None else rs_output data) of
            None \<Rightarrow> Inl (AiProviderError ''AI_INCOMPLETE_RESPONSE'' (rs_status data = ''incomplete'')
                       ''The AI provider returned an incomplete response'' (rs_requestId data))
          | Some output \<Rightarrow>
             (case zd_response Z (map fst images) output of
                None \<Rightarrow> Inl (invalidProviderImageReference output (map fst images) (rs_requestId data))
              | Some parsed \<Rightarrow>
                  bindE (mapImageAliases Z parsed images (rs_requestId data)) (\<lambda>result.
                  Inr \<lparr>vr_value = result, vr_providerRequestId = rs_requestId data, vr_usage = rs_usage data\<rparr>)))))"

section \<open>Trimming\<close>

lemma utrim_idem [simp]: "utrim (utrim s) = utrim s"
  by (simp add: utrim_def)

lemma trim_block_idem [simp]: "trim_block (trim_block b) = trim_block b"
  by (cases b) simp_all

lemma trim_result_idem [simp]: "trim_result (trim_result r) = trim_result r"
  by (simp add: trim_result_def option.map_comp comp_def)

lemma rr_images_trim: "map sec_imageAssetIds (rr_sections (trim_result r)) = map sec_imageAssetIds (rr_sections r)"
  by (simp add: trim_result_def)

lemma zod_result:
  assumes "zod_contract Z" "zd_result Z r = Some r'"
  shows "r' = trim_result r" "reportResultSchema (zd_uuid Z) r'" "zd_result Z r' = Some r'"
  using assms by (auto simp: zod_contract_def split: if_splits)

section \<open>Image references\<close>

lemma map_refs_ok:
  assumes "map_refs f q seen as = Inr ids"
  shows "distinct ids \<and> set ids \<inter> set seen = {} \<and> set ids \<subseteq> ran f"
  using assms
proof (induction as arbitrary: seen ids)
  case (Cons a as)
  obtain i where i: "f a = Some i" "i \<noteq> []" using Cons.prems by (auto split: option.splits if_splits)
  show ?case
  proof (cases "i \<in> set seen")
    case True
    then show ?thesis using Cons i by simp
  next
    case False
    then obtain rest where rest: "map_refs f q (i # seen) as = Inr rest" "ids = i # rest"
      using Cons.prems i by (auto simp: bindE_Inr_iff)
    from Cons.IH [OF this(1)] False i(1) rest(2) show ?thesis by (auto simp: ran_def)
  qed
qed simp

lemma map_sections_ok:
  "map_sections f q ss = Inr rs \<Longrightarrow> list_all (\<lambda>s. distinct (sec_imageAssetIds s) \<and> set (sec_imageAssetIds s) \<subseteq> ran f) rs"
  by (induction ss arbitrary: rs) (auto simp: bindE_Inr_iff dest: map_refs_ok)

lemma ran_map_of: "ran (map_of xs) \<subseteq> snd ` set xs"
  by (auto simp: ran_def dest: map_of_SomeD intro: rev_image_eqI)

lemma with_aliases_images: "snd ` set (with_aliases images) = set images"
  by (simp add: with_aliases_def flip: set_map)

lemma mapImageAliases_ok:
  assumes "zod_contract Z" "mapImageAliases Z p (with_aliases images) q = Inr r"
  shows "reportResultSchema (zd_uuid Z) r \<and> zd_result Z r = Some r \<and>
    list_all (\<lambda>s. distinct (sec_imageAssetIds s) \<and> set (sec_imageAssetIds s) \<subseteq> pi_assetId ` set images) (rr_sections r)"
proof -
  let ?f = "map_of (rev (map (\<lambda>(a, i). (a, pi_assetId i)) (with_aliases images)))"
  obtain secs where secs: "map_sections ?f q (pv_sections p) = Inr secs" and
    z: "zd_result Z \<lparr>rr_title = pv_title p, rr_subtitle = pv_subtitle p, rr_summary = pv_summary p, rr_sections = secs,
        rr_conclusion = pv_conclusion p, rr_recommendations = pv_recommendations p\<rparr> = Some r"
    using assms(2) by (auto simp: mapImageAliases_def bindE_Inr_iff fromOption_Inr_iff)
  have "ran ?f \<subseteq> pi_assetId ` set images"
  proof -
    have "snd ` set (rev (map (\<lambda>(a, i). (a, pi_assetId i)) (with_aliases images))) = pi_assetId ` set images"
      unfolding with_aliases_images [symmetric] by (simp add: image_image case_prod_beta)
    with ran_map_of [of "rev (map (\<lambda>(a, i). (a, pi_assetId i)) (with_aliases images))"] show ?thesis by simp
  qed
  then have "list_all (\<lambda>ids. distinct ids \<and> set ids \<subseteq> pi_assetId ` set images) (map sec_imageAssetIds secs)"
    using map_sections_ok [OF secs] by (auto simp: list_all_iff)
  moreover have "map sec_imageAssetIds (rr_sections r) = map sec_imageAssetIds secs"
    using zod_result(1) [OF assms(1) z] rr_images_trim by simp
  ultimately have "list_all (\<lambda>ids. distinct ids \<and> set ids \<subseteq> pi_assetId ` set images) (map sec_imageAssetIds (rr_sections r))" by simp
  with zod_result(2,3) [OF assms(1) z] show ?thesis by (simp add: list_all_iff)
qed

lemma moderateInput_Inr:
  "moderateInput client k input = Inr (flagged, q) \<longleftrightarrow> (\<exists>results. client k input = Inr (results, q) \<and> flagged = (True \<in> set results))"
  by (auto simp: moderateInput_def list_ex_iff split: sum.splits prod.splits)

lemma moderate_batches_clean:
  assumes "moderate_batches client k urls b n q0 = Inr (False, q)" "b + n = length urls"
  shows "\<forall>i. b \<le> i \<and> i < length urls \<longrightarrow> (\<exists>results q. client (k + i) [ImageInput (urls ! i)] = Inr (results, q) \<and> True \<notin> set results)"
  using assms
proof (induction n arbitrary: b q0)
  case (Suc n)
  have b: "b < length urls" using Suc.prems(2) by simp
  then have batch: "take OPENAI_MODERATION_MAX_IMAGES_PER_REQUEST (drop (b * OPENAI_MODERATION_MAX_IMAGES_PER_REQUEST) urls) = [urls ! b]"
    by (simp add: OPENAI_MODERATION_MAX_IMAGES_PER_REQUEST_def take_Suc_conv_app_nth flip: Cons_nth_drop_Suc)
  obtain results q1 where c: "client (k + b) [ImageInput (urls ! b)] = Inr (results, q1)" "True \<notin> set results"
    and rest: "moderate_batches client k urls (Suc b) n (case q1 of Some i \<Rightarrow> Some i | None \<Rightarrow> q0) = Inr (False, q)"
    using Suc.prems(1) by (auto simp: batch Let_def bindE_Inr_iff moderateInput_Inr split: if_splits)
  have "\<forall>i. Suc b \<le> i \<and> i < length urls \<longrightarrow> (\<exists>results q. client (k + i) [ImageInput (urls ! i)] = Inr (results, q) \<and> True \<notin> set results)"
    using Suc.IH [OF rest] Suc.prems(2) by simp
  with c show ?case by (metis le_neq_implies_less Suc_leI)
qed auto

section \<open>Properties\<close>

text \<open>
  C14. What the provider service returns is valid for the rest of the pipeline: it matches the schema of a
  report, a second parse leaves it as it is, every section references assets of the request only, each once, so
  that the worker's own check of the references passes, and every image of the request has a supported type
  and an unexpired reference.
\<close>

theorem generated_report_is_valid:
  assumes "zod_contract Z" "generateReport Z client now request = Inr r"
    and "map sa_id images = map pi_assetId (rq_images request)"
  shows "reportResultSchema (zd_uuid Z) (vr_value r) \<and> zd_result Z (vr_value r) = Some (vr_value r) \<and>
    list_all (\<lambda>s. distinct (sec_imageAssetIds s)) (rr_sections (vr_value r)) \<and>
    validateImageReferences (vr_value r) images = Inr () \<and>
    list_all (\<lambda>i. pi_mimeType i \<in> set SUPPORTED_IMAGE_MIME_TYPES \<and> now < pi_referenceExpiresAt i) (rq_images request)"
proof -
  have v: "validateImageInputs now (rq_images request) = Inr ()" using assms(2) by (auto simp: generateReport_def bindE_Inr_iff)
  then have "list_all (\<lambda>i. pi_mimeType i \<in> set SUPPORTED_IMAGE_MIME_TYPES \<and> now < pi_referenceExpiresAt i) (rq_images request)"
    by (auto simp: validateImageInputs_def find_first_None_iff list_all_iff split: option.splits)
  moreover obtain p q where "mapImageAliases Z p (with_aliases (rq_images request)) q = Inr (vr_value r)"
    using assms(2) v by (auto simp: generateReport_def bindE_Inr_iff Let_def split: sum.splits option.splits if_splits)
  note ok = mapImageAliases_ok [OF assms(1) this]
  moreover have "set (map sa_id images) = pi_assetId ` set (rq_images request)" unfolding assms(3) by simp
  then have "validateImageReferences (vr_value r) images = Inr ()"
    using ok by (auto simp: validateImageReferences_def guardE_Inr_iff referenced_ids_def list_ex_iff list_all_iff)
  ultimately show ?thesis by (simp add: list_all_iff)
qed

text \<open>An instance: a report with one section that refers to the only image twice.\<close>

definition sample_answer :: provider_report where
  "sample_answer = \<lparr>pv_title = codes ''Roof'', pv_subtitle = None, pv_summary = codes ''Dry'',
     pv_sections = [\<lparr>ps_title = codes ''North'', ps_blocks = [Paragraph (codes ''No leak'')],
       ps_imageRefs = [''IMAGE_1'', ''IMAGE_1'']\<rparr>], pv_conclusion = None, pv_recommendations = []\<rparr>"

definition sample_zod :: zod where
  "sample_zod = \<lparr>zd_uuid = \<lambda>i. True,
     zd_result = \<lambda>r. if reportResultSchema (\<lambda>i. True) (trim_result r) then Some (trim_result r) else None,
     zd_response = \<lambda>aliases j. if responseSchema aliases sample_answer then Some sample_answer else None\<rparr>"

definition sample_request :: report_request where
  "sample_request = \<lparr>rq_instructions = ''write'', rq_sourceText = codes ''{}'',
     rq_images = [\<lparr>pi_assetId = ''a1'', pi_url = ''u1'', pi_mimeType = ''image/png'', pi_referenceExpiresAt = 9\<rparr>],
     rq_documents = [], rq_safetyIdentifier = ''u'', rq_maxOutputTokens = 6000\<rparr>"

definition sample_report_result :: report_result where
  "sample_report_result = \<lparr>rr_title = codes ''Roof'', rr_subtitle = None, rr_summary = codes ''Dry'',
     rr_sections = [\<lparr>sec_title = codes ''North'', sec_blocks = [Paragraph (codes ''No leak'')],
       sec_imageAssetIds = [''a1'']\<rparr>], rr_conclusion = None, rr_recommendations = []\<rparr>"

definition sample_image :: snapshot_asset where
  "sample_image = \<lparr>sa_id = ''a1'', sa_type = IMAGE, sa_verifiedMimeType = ''image/png'', sa_verifiedSize = 3,
     sa_position = 0, sa_storageKey = ''k'', sa_originalFileName = codes ''a''\<rparr>"

lemma sample_zod_contract: "zod_contract sample_zod"
  by (auto simp: zod_contract_def sample_zod_def split: if_splits)

lemma alias_of_0: "alias_of 0 = ''IMAGE_1''"
  by code_simp

lemma sample_generation:
  "generateReport sample_zod (\<lambda>r c. Inr \<lparr>rs_status = ''completed'', rs_output = Some JNull, rs_usage = None, rs_requestId = None\<rparr>)
     5 sample_request = Inr \<lparr>vr_value = sample_report_result, vr_providerRequestId = None, vr_usage = None\<rparr>"
  by (simp add: generateReport_def sample_request_def sample_zod_def sample_answer_def sample_report_result_def
      validateImageInputs_def find_first_def SUPPORTED_IMAGE_MIME_TYPES_def with_aliases_def alias_of_0
      responseSchema_def reportResultSchema_def section_schema_def count_within_def nullable_def text_within_def
      mapImageAliases_def trim_result_def codes_def utrim_def trim_by_def js_white_def utf16_length_def)

theorem generated_report_is_valid_witness:
  "zod_contract sample_zod \<and> reportResultSchema (zd_uuid sample_zod) sample_report_result \<and>
   validateImageReferences sample_report_result [sample_image] = Inr ()"
proof -
  have "map sa_id [sample_image] = map pi_assetId (rq_images sample_request)" by code_simp
  from generated_report_is_valid [OF sample_zod_contract sample_generation this] sample_zod_contract
  show ?thesis by simp
qed

text \<open>
  C19. Content counts as unflagged only after the provider has looked at all of it: the text, unless it is
  blank, and every image, one to a request, were submitted and answered without a flag.
\<close>

theorem unflagged_content_was_moderated:
  assumes "moderate client t urls = Inr (False, q)"
  shows "(utrim t \<noteq> [] \<longrightarrow> (\<exists>results q. client 0 [TextInput (utrim t)] = Inr (results, q) \<and> True \<notin> set results)) \<and>
    (\<forall>i < length urls. \<exists>results q. client (i + 1) [ImageInput (urls ! i)] = Inr (results, q) \<and> True \<notin> set results)"
proof -
  obtain q0 where b: "moderate_batches client 1 urls 0 (length urls) q0 = Inr (False, q)"
    and t: "utrim t \<noteq> [] \<Longrightarrow> \<exists>results. client 0 [TextInput (utrim t)] = Inr (results, q0) \<and> True \<notin> set results"
    using assms by (auto simp: moderate_def Let_def bindE_Inr_iff moderateInput_Inr batch_count_def
        OPENAI_MODERATION_MAX_IMAGES_PER_REQUEST_def split: if_splits)
  from moderate_batches_clean [OF b] t show ?thesis by (auto simp: add.commute)
qed

theorem unflagged_content_was_moderated_witness:
  "moderate (\<lambda>k i. Inr ([False], None)) (codes '' x '') [''u''] = Inr (False, None) \<and>
   (\<exists>results q. (\<lambda>(k::nat) (i::moderation_input list). Inr ([False], None) :: thrown + (bool list \<times> string option)) 0
      [TextInput (codes ''x'')] = Inr (results, q) \<and> True \<notin> set results)"
proof -
  have t: "utrim (codes '' x '') = codes ''x''"
    by (simp add: codes_def utrim_def trim_by_def js_white_def)
  then have m: "moderate (\<lambda>k i. Inr ([False], None)) (codes '' x '') [''u''] = Inr (False, None)"
    by (simp add: moderate_def moderateInput_def batch_count_def OPENAI_MODERATION_MAX_IMAGES_PER_REQUEST_def codes_def)
  from t unflagged_content_was_moderated [OF m] m show ?thesis by (auto simp: codes_def)
qed

text \<open>
  An error of the client is retried exactly when it is a time-out, a lost connection, an unknown error, or
  an answer 408, 409, 429 or 5xx that does not name an unusable image; it never has the code of a lost claim,
  which the worker treats apart, and what it quotes of the provider's answer is a short token.
\<close>

lemma provider_errors_are_classified:
  "\<exists>code retryable message requestId. mapOpenAiProviderError e = AiProviderError code retryable message requestId \<and>
    code \<noteq> ''GENERATION_CLAIM_LOST'' \<and>
    (retryable \<longleftrightarrow> (case e of APIUserAbortError \<Rightarrow> False
       | APIError status c r \<Rightarrow> retryable_status status \<and> c \<notin> Some ` set INVALID_IMAGE_REFERENCE_CODES
       | _ \<Rightarrow> True)) \<and>
    (case requestId of None \<Rightarrow> True | Some s \<Rightarrow> s \<noteq> [] \<and> length s \<le> 128 \<and> list_all provider_char s)"
proof (cases e)
  case (APIError status c r)
  have safe: "(case safeProviderValue x of None \<Rightarrow> True | Some s \<Rightarrow> s \<noteq> [] \<and> length s \<le> 128 \<and> list_all provider_char s)" for x
    by (simp add: safeProviderValue_def split: option.split)
  have "safeProviderValue (Some i) = Some i" if "i \<in> set INVALID_IMAGE_REFERENCE_CODES" for i
    using that by (auto simp: INVALID_IMAGE_REFERENCE_CODES_def safeProviderValue_def provider_char_def ascii_alnum_def)
  moreover have "safeProviderValue c = None \<or> safeProviderValue c = c"
    by (simp add: safeProviderValue_def split: option.split)
  ultimately have "(case safeProviderValue c of None \<Rightarrow> False | Some s \<Rightarrow> s \<in> set INVALID_IMAGE_REFERENCE_CODES) \<longleftrightarrow>
      c \<in> Some ` set INVALID_IMAGE_REFERENCE_CODES"
    by (cases c) auto
  moreover have "errorCodeForStatus status \<noteq> ''GENERATION_CLAIM_LOST''" by (simp add: errorCodeForStatus_def)
  ultimately show ?thesis using safe by (simp add: APIError Let_def)
qed auto

end
