(* ===== verification/Pipeline.thy ===== *)
theory Pipeline
  imports Provider
begin

text \<open>
  \<open>process\<close> of \<open>src/report-generation/report-generation-processor.service.ts\<close>, the job of a worker, composed
  of the transactions and steps of \<open>Processor\<close>, \<open>Attempts\<close>, \<open>Transcriptions\<close>, \<open>Storage\<close> and \<open>Provider\<close>.
  A job runs in numbered steps, one for each awaited call; what other processes commit meanwhile, the heartbeat
  of the job itself included, is \<open>sv_others\<close> of the step. The clock, the answers of the provider and of S3, the
  rendering of the PDF and new ids are functions of the number of the step; a call that the deadline or a lost
  lease aborts is an answer with an error. Logging is left out.
\<close>

section \<open>Jobs\<close>

record job_state =
  js_world :: world
  js_step :: nat
  js_files :: "string list"
  js_output :: "string option"
  js_deleted :: "string list"

type_synonym 'a job = "job_state \<Rightarrow> 'a result \<times> job_state"

definition returnJ :: "'a \<Rightarrow> 'a job" where
  "returnJ x s = (Inr x, s)"

definition throwJ :: "exn \<Rightarrow> 'a job" where
  "throwJ e s = (Inl e, s)"

definition liftJ :: "'a result \<Rightarrow> 'a job" where
  "liftJ r s = (r, s)"

definition bindJ :: "'a job \<Rightarrow> ('a \<Rightarrow> 'b job) \<Rightarrow> 'b job" where
  "bindJ m f s = (case m s of (Inl e, s') \<Rightarrow> (Inl e, s') | (Inr x, s') \<Rightarrow> f x s')"

definition catchJ :: "'a job \<Rightarrow> (exn \<Rightarrow> 'a job) \<Rightarrow> 'a job" where
  "catchJ m h s = (case m s of (Inl e, s') \<Rightarrow> h e s' | (Inr x, s') \<Rightarrow> (Inr x, s'))"

record services =
  sv_config :: processor_config
  sv_attempts :: attempt_config
  sv_transcriptionModel :: string
  sv_maxOutputTokens :: int
  sv_bucket :: string
  sv_zod :: zod
  sv_clock :: "nat \<Rightarrow> nat \<Rightarrow> int"
  sv_others :: "nat \<Rightarrow> nat \<Rightarrow> world \<Rightarrow> world"
  sv_newId :: "nat \<Rightarrow> string"
  sv_transcribe :: "nat \<Rightarrow> snapshot_asset \<Rightarrow> string option \<Rightarrow> transcript result"
  sv_moderate :: "nat \<Rightarrow> utext \<Rightarrow> string list \<Rightarrow> (bool \<times> string option) result"
  sv_stream :: "nat \<Rightarrow> string \<Rightarrow> unit result"
  sv_uploadDocument :: "nat \<Rightarrow> utext \<Rightarrow> string \<Rightarrow> string result"
  sv_generateReport :: "nat \<Rightarrow> report_request \<Rightarrow> provider_result result"
  sv_presignedGet :: "nat \<Rightarrow> string \<Rightarrow> (string \<times> int) result"
  sv_pdf :: "nat \<Rightarrow> report_result \<Rightarrow> (string \<times> bytes) list \<Rightarrow> int \<Rightarrow> string \<Rightarrow> utext \<Rightarrow> string option \<Rightarrow> bytes result"
  sv_headFault :: "nat \<Rightarrow> string \<Rightarrow> s3_error option"
  sv_getFault :: "nat \<Rightarrow> string \<Rightarrow> s3_error option"
  sv_putFault :: "nat \<Rightarrow> string \<Rightarrow> s3_error option"
  sv_deleteFault :: "nat \<Rightarrow> string \<Rightarrow> s3_error option"

text \<open>One awaited call: it works on the world as the others have left it.\<close>

definition awaitJ :: "services \<Rightarrow> (nat \<Rightarrow> world \<Rightarrow> 'a result \<times> world) \<Rightarrow> 'a job" where
  "awaitJ S f s =
     (let k = js_step s in
      case f k (sv_others S k 0 (js_world s)) of
        (r, w) \<Rightarrow> (r, s\<lparr>js_world := w, js_step := k + 1\<rparr>))"

definition dbJ :: "services \<Rightarrow> ((nat \<Rightarrow> int) \<Rightarrow> db \<Rightarrow> 'a result \<times> db) \<Rightarrow> 'a job" where
  "dbJ S f = awaitJ S (\<lambda>k w. case f (sv_clock S k) (wdb w) of (r, d) \<Rightarrow> (r, w\<lparr>wdb := d\<rparr>))"

definition askJ :: "services \<Rightarrow> (nat \<Rightarrow> world \<Rightarrow> 'a result) \<Rightarrow> 'a job" where
  "askJ S f = awaitJ S (\<lambda>k w. (f k w, w))"

definition nowJ :: "services \<Rightarrow> int job" where
  "nowJ S s = (Inr (sv_clock S (js_step s) 0), s\<lparr>js_step := js_step s + 1\<rparr>)"

definition beforeDeadline :: "services \<Rightarrow> int \<Rightarrow> unit job" where
  "beforeDeadline S deadline = bindJ (nowJ S) (\<lambda>now. liftJ (assertBeforeDeadline now deadline))"

definition progressJ :: "services \<Rightarrow> string \<Rightarrow> string \<Rightarrow> generation_stage \<Rightarrow> int \<Rightarrow> unit job" where
  "progressJ S gid token stage progress =
     dbJ S (\<lambda>c. updateProgress (sv_config S) (c 0) (c 1) gid stage progress token)"

fun eachJ :: "('a \<Rightarrow> 'b job) \<Rightarrow> 'a list \<Rightarrow> 'b list job" where
  "eachJ f [] = returnJ []"
| "eachJ f (x # xs) = bindJ (f x) (\<lambda>y. bindJ (eachJ f xs) (\<lambda>ys. returnJ (y # ys)))"

section \<open>Transcription\<close>

definition transcribeJ :: "services \<Rightarrow> string \<Rightarrow> string \<Rightarrow> int \<Rightarrow> string \<Rightarrow> snapshot_asset \<Rightarrow> utext job" where
  "transcribeJ S gid token deadline language asset = awaitJ S (\<lambda>k w.
     case getOrCreate (sv_attempts S) (sv_transcriptionModel S) (sv_clock S k)
            (\<lambda>i d. wdb (sv_others S k (i + 1) (w\<lparr>wdb := d\<rparr>))) (sv_newId S k) (sv_transcribe S k asset)
            gid asset language token deadline (wdb w) of
       (r, d) \<Rightarrow> (r, w\<lparr>wdb := d\<rparr>))"

text \<open>\<open>Math.round\<close> of the share of 25 per cent, computed exactly.\<close>

definition transcribing_progress :: "nat \<Rightarrow> nat \<Rightarrow> int" where
  "transcribing_progress index audioCount = progress_of TRANSCRIBING + int ((50 * (index + 1) + audioCount) div (2 * audioCount))"

fun transcribeAll ::
  "services \<Rightarrow> string \<Rightarrow> string \<Rightarrow> int \<Rightarrow> string \<Rightarrow> nat \<Rightarrow> nat \<Rightarrow> snapshot_asset list \<Rightarrow> (string \<times> utext) list job" where
  "transcribeAll S gid token deadline language audioCount index [] = returnJ []"
| "transcribeAll S gid token deadline language audioCount index (asset # as) =
     bindJ (beforeDeadline S deadline) (\<lambda>_.
     bindJ (transcribeJ S gid token deadline language asset) (\<lambda>transcript.
     bindJ (progressJ S gid token TRANSCRIBING (transcribing_progress index audioCount)) (\<lambda>_.
     bindJ (transcribeAll S gid token deadline language audioCount (index + 1) as) (\<lambda>rest.
     returnJ ((sa_id asset, transcript) # rest)))))"

section \<open>Moderation and generation\<close>

definition error_code :: "string \<Rightarrow> exn \<Rightarrow> string" where
  "error_code other e = (case e of AiProviderError code r m q \<Rightarrow> code | _ \<Rightarrow> other)"

definition error_request :: "exn \<Rightarrow> string option" where
  "error_request e = (case e of AiProviderError code r m q \<Rightarrow> q | _ \<Rightarrow> None)"

definition startAttemptJ ::
  "services \<Rightarrow> string \<Rightarrow> string \<Rightarrow> int \<Rightarrow> provider_operation \<Rightarrow> string \<Rightarrow> string job" where
  "startAttemptJ S gid token deadline operation model s =
     (let newId = sv_newId S (js_step s) in
      bindJ (dbJ S (\<lambda>c. run_tx (start_attempt (sv_attempts S) newId (c 0) gid operation ''openai'' model token deadline None)))
        (\<lambda>(attemptId, n). returnJ attemptId) s)"

definition failAttemptJ :: "services \<Rightarrow> string \<Rightarrow> string \<Rightarrow> string \<Rightarrow> exn \<Rightarrow> unit job" where
  "failAttemptJ S token attemptId other e =
     dbJ S (\<lambda>c d. (Inr (), fail_attempt (c 0) attemptId (error_code other e) (Some token) (error_request e) d))"

definition flagged_content :: exn where
  "flagged_content = AiProviderError ''CONTENT_NOT_PROCESSABLE'' False ''The supplied content cannot be processed'' None"

definition moderationJ :: "services \<Rightarrow> string \<Rightarrow> string \<Rightarrow> int \<Rightarrow> utext \<Rightarrow> string list \<Rightarrow> unit job" where
  "moderationJ S gid token deadline sourceText urls =
     bindJ (askJ S (\<lambda>k w. Inr (hasCompleted gid MODERATION None (wdb w)))) (\<lambda>completed.
     if completed then returnJ ()
     else
       bindJ (beforeDeadline S deadline) (\<lambda>_.
       bindJ (startAttemptJ S gid token deadline MODERATION ''omni-moderation-latest'') (\<lambda>attemptId.
       catchJ
         (bindJ (askJ S (\<lambda>k w. sv_moderate S k sourceText urls)) (\<lambda>(flagged, requestId).
          if flagged then throwJ flagged_content
          else dbJ S (\<lambda>c. run_tx (completeOwned (c 0) (c 1) (c 2) gid attemptId token
                 \<lparr>us_providerRequestId = requestId, us_inputTokens = None, us_outputTokens = None,
                  us_audioDurationSeconds = None\<rparr>))))
         (\<lambda>e. bindJ (failAttemptJ S token attemptId ''AI_UNAVAILABLE'' e) (\<lambda>_. throwJ e)))))"

definition uploadDocumentJ :: "services \<Rightarrow> int \<Rightarrow> snapshot_asset \<Rightarrow> (string \<times> string) job" where
  "uploadDocumentJ S deadline asset =
     bindJ (beforeDeadline S deadline) (\<lambda>_.
     bindJ (askJ S (\<lambda>k w. sv_stream S k (sa_storageKey asset))) (\<lambda>_.
     bindJ (askJ S (\<lambda>k w. sv_uploadDocument S k (sa_originalFileName asset) (sa_verifiedMimeType asset))) (\<lambda>fileId s.
     (Inr (sa_id asset, fileId), s\<lparr>js_files := js_files s @ [fileId]\<rparr>))))"

definition imageInputJ :: "services \<Rightarrow> snapshot_asset \<Rightarrow> provider_image job" where
  "imageInputJ S asset =
     bindJ (askJ S (\<lambda>k w. sv_presignedGet S k (sa_storageKey asset))) (\<lambda>(url, expiresAt).
     returnJ \<lparr>pi_assetId = sa_id asset, pi_url = url, pi_mimeType = sa_verifiedMimeType asset,
              pi_referenceExpiresAt = expiresAt\<rparr>)"

definition REPORT_INSTRUCTIONS :: string where
  "REPORT_INSTRUCTIONS =
     ''Create a concise, professional report in the requested language using only the supplied source content.'' @ [CHR 0x0A] @
     ''Never invent names, dates, quantities, events, observations, conclusions, or relationships between sources.'' @ [CHR 0x0A] @
     ''Treat every attached PDF, document, photograph, and audio recording as an independent source unless its contents provide direct evidence connecting it to another source.'' @ [CHR 0x0A] @
     ''Never claim that one attachment confirms another merely because both were uploaded to the same report. If sources appear unrelated, describe them separately and state that no relationship can be established from the supplied information.'' @ [CHR 0x0A] @
     ''State uncertainty and material limitations explicitly instead of guessing.'' @ [CHR 0x0A] @
     ''Clearly distinguish facts and direct observations from inferences and recommendations. Never phrase an inference or recommendation as an observed fact.'' @ [CHR 0x0A] @
     ''Use natural source terminology such as '' @ [CHR 0x22] @ ''attached PDF'' @ [CHR 0x22] @ '', '' @ [CHR 0x22] @ ''attached document'' @ [CHR 0x22] @ '', '' @ [CHR 0x22] @ ''photograph'' @ [CHR 0x22] @ '', or '' @ [CHR 0x22] @ ''audio recording'' @ [CHR 0x22] @ '' according to the actual source type.'' @ [CHR 0x0A] @
     ''Use image aliases only in imageAssetIds. Never include IMAGE_N aliases, asset IDs, report IDs, generation IDs, storage keys, or URLs in titles, prose, bullets, captions, conclusions, or recommendations.'' @ [CHR 0x0A] @
     ''Write natural customer-facing prose without technical image numbering.'' @ [CHR 0x0A] @
     ''Use the dedicated summary, conclusion, and recommendations fields only for those semantic sections. Never add a generic section whose title is equivalent to Summary, Conclusion, or Recommendations in the requested language.'' @ [CHR 0x0A] @
     ''Adapt the generic sections to the useful available content. Prefer detailed findings, observations, source details, inspection details, and limitations when those sections contain meaningful information; omit empty or unsupported sections.'' @ [CHR 0x0A] @
     ''Do not repeat the same fact across sections unless necessary. Keep the executive summary high-level, place evidence and detail in findings, and keep recommendations action-oriented.'' @ [CHR 0x0A] @
     ''Use neutral wording and do not depend on Markdown formatting.''"

definition parseResult :: "zod \<Rightarrow> report_result \<Rightarrow> report_result result" where
  "parseResult Z r = fromOption (PlainError ''ZodError'') (zd_result Z r)"

text \<open>What the inner \<open>catch\<close> rethrows.\<close>

definition response_error :: "exn \<Rightarrow> exn" where
  "response_error e =
     (case e of AiProviderError code r m q \<Rightarrow> e
      | _ \<Rightarrow> AiProviderError ''AI_INVALID_RESPONSE'' True ''AI response validation failed'' None)"

definition generationJ ::
  "services \<Rightarrow> string \<Rightarrow> string \<Rightarrow> int \<Rightarrow> string \<Rightarrow> utext \<Rightarrow> input_snapshot \<Rightarrow> snapshot_asset list \<Rightarrow> report_result job" where
  "generationJ S gid token deadline u sourceText snapshot imageAssets =
     bindJ (eachJ (uploadDocumentJ S deadline) (filter (\<lambda>a. sa_type a = DOCUMENT) (sn_assets snapshot))) (\<lambda>documents.
     bindJ (startAttemptJ S gid token deadline REPORT_GENERATION (reportModel (sv_config S))) (\<lambda>attemptId.
     catchJ
       (bindJ (beforeDeadline S deadline) (\<lambda>_.
        bindJ (eachJ (imageInputJ S) imageAssets) (\<lambda>images.
        bindJ (askJ S (\<lambda>k w. sv_generateReport S k
                \<lparr>rq_instructions = REPORT_INSTRUCTIONS, rq_sourceText = sourceText, rq_images = images,
                 rq_documents = documents, rq_safetyIdentifier = u, rq_maxOutputTokens = sv_maxOutputTokens S\<rparr>)) (\<lambda>answer.
        bindJ (liftJ (parseResult (sv_zod S) (vr_value answer))) (\<lambda>structuredResult.
        bindJ (liftJ (validateImageReferences structuredResult imageAssets)) (\<lambda>_.
        bindJ (dbJ S (\<lambda>c. run_tx (persistReportResult_body (sv_config S) (c 0) (c 1) (c 2) gid token attemptId
                 structuredResult (vr_providerRequestId answer)
                 (map_option fst (vr_usage answer)) (map_option snd (vr_usage answer))))) (\<lambda>_.
        returnJ structuredResult)))))))
       (\<lambda>e. bindJ (failAttemptJ S token attemptId ''AI_INVALID_RESPONSE'' e) (\<lambda>_. throwJ (response_error e)))))"

section \<open>The output\<close>

definition output_key :: "string \<Rightarrow> string \<Rightarrow> string \<Rightarrow> string \<Rightarrow> string" where
  "output_key u rid gid token =
     ''users/'' @ u @ ''/reports/'' @ rid @ ''/outputs/'' @ gid @ ''/'' @ token @ ''.pdf''"

definition readImageJ :: "services \<Rightarrow> snapshot_asset \<Rightarrow> (string \<times> bytes) job" where
  "readImageJ S img = askJ S (\<lambda>k w. bindE
     (readObjectBytes (sv_bucket S) (sv_headFault S k (sa_storageKey img)) (sv_getFault S k (sa_storageKey img))
        (sa_storageKey img) (sa_verifiedSize img) (objects w)) (\<lambda>b. Inr (sa_id img, b)))"

definition uploadJ :: "services \<Rightarrow> string \<Rightarrow> bytes \<Rightarrow> int job" where
  "uploadJ S key b s =
     awaitJ S (\<lambda>k w.
       case uploadObject (sv_bucket S) (sv_putFault S k key) (sv_headFault S k key) key b (objects w) of
         (r, bkt) \<Rightarrow> (r, w\<lparr>objects := bkt\<rparr>)) (s\<lparr>js_output := Some key\<rparr>)"

definition publishJ :: "services \<Rightarrow> string \<Rightarrow> string \<Rightarrow> int \<Rightarrow> string \<Rightarrow> string \<Rightarrow> bytes \<Rightarrow> unit job" where
  "publishJ S gid token deadline u rid pdfBytes =
     bindJ (dbJ S (\<lambda>c. assertOwnership (sv_config S) (c 0) (c 1) gid token)) (\<lambda>_.
     bindJ (progressJ S gid token UPLOADING_OUTPUT (progress_of UPLOADING_OUTPUT)) (\<lambda>_.
     bindJ (beforeDeadline S deadline) (\<lambda>_.
     bindJ (uploadJ S (output_key u rid gid token) pdfBytes) (\<lambda>_.
     bindJ (dbJ S (\<lambda>c. run_tx (finalize_body (c 0) (c 1) gid rid u token (output_key u rid gid token) (int (length pdfBytes))))) (\<lambda>_ s.
     (Inr (), s\<lparr>js_output := None\<rparr>))))))"

section \<open>The job\<close>

definition bodyJ :: "services \<Rightarrow> string \<Rightarrow> string \<Rightarrow> int \<Rightarrow> unit job" where
  "bodyJ S gid token deadline =
     bindJ (askJ S (\<lambda>k w. fromOption (PrismaError ''P2025'') (find_generation gid (wdb w)))) (\<lambda>g.
     bindJ (liftJ (parseSnapshot (gen_inputSnapshot g))) (\<lambda>snapshot.
     bindJ (progressJ S gid token TRANSCRIBING (progress_of TRANSCRIBING)) (\<lambda>_.
     let audioAssets = filter (\<lambda>a. sa_type a = AUDIO) (sn_assets snapshot);
         imageAssets = filter (\<lambda>a. sa_type a = IMAGE) (sn_assets snapshot) in
     bindJ (transcribeAll S gid token deadline (sn_language snapshot) (length audioAssets) 0 audioAssets) (\<lambda>transcripts.
     bindJ (progressJ S gid token ANALYZING (progress_of ANALYZING)) (\<lambda>_.
     bindJ (liftJ (assertSupportedImageMimeTypes imageAssets)) (\<lambda>_.
     bindJ (beforeDeadline S deadline) (\<lambda>_.
     bindJ (eachJ (imageInputJ S) imageAssets) (\<lambda>moderationInputs.
     let sourceText = buildSourceText snapshot transcripts in
     bindJ (moderationJ S gid token deadline sourceText (map pi_url moderationInputs)) (\<lambda>_.
     bindJ (progressJ S gid token GENERATING_CONTENT (progress_of GENERATING_CONTENT)) (\<lambda>_.
     bindJ (case gen_structuredResult g of
              Some r \<Rightarrow> liftJ (parseResult (sv_zod S) r)
            | None \<Rightarrow> generationJ S gid token deadline (gen_userId g) sourceText snapshot imageAssets) (\<lambda>structuredResult.
     bindJ (liftJ (validateImageReferences structuredResult imageAssets)) (\<lambda>_.
     bindJ (progressJ S gid token GENERATING_PDF (progress_of GENERATING_PDF)) (\<lambda>_.
     bindJ (beforeDeadline S deadline) (\<lambda>_.
     bindJ (eachJ (readImageJ S) (selected_images structuredResult imageAssets)) (\<lambda>pdfImages.
     bindJ (nowJ S) (\<lambda>generatedAt.
     bindJ (askJ S (\<lambda>k w. sv_pdf S k structuredResult pdfImages generatedAt (sn_language snapshot)
              (sn_title snapshot) (sn_timezone snapshot))) (\<lambda>pdfBytes.
     publishJ S gid token deadline (gen_userId g) (gen_reportId g) pdfBytes)))))))))))))))))"

definition claimLossJ :: "services \<Rightarrow> string \<Rightarrow> process_result job" where
  "claimLossJ S gid = askJ S (\<lambda>k w. Inr (resultAfterClaimLoss (sv_clock S k 0) gid (wdb w)))"

definition orphanJ :: "services \<Rightarrow> unit job" where
  "orphanJ S s =
     (case js_output s of
        None \<Rightarrow> (Inr (), s)
      | Some key \<Rightarrow>
          bindJ (awaitJ S (\<lambda>k w. (Inr (), scheduleOrphanCleanup (sv_bucket S) (sv_deleteFault S k) (sv_clock S k 0) key w)))
            (\<lambda>_ s. (Inr (), s\<lparr>js_output := None\<rparr>)) s)"

definition provider_exn :: "exn \<Rightarrow> exn" where
  "provider_exn e =
     (case e of AiProviderError code r m q \<Rightarrow> e
      | _ \<Rightarrow> (case normalizeError e of (code, retryable, message) \<Rightarrow> AiProviderError code retryable message None))"

definition failureJ :: "services \<Rightarrow> string \<Rightarrow> string \<Rightarrow> nat \<Rightarrow> nat \<Rightarrow> exn \<Rightarrow> process_result job" where
  "failureJ S gid token queueAttempt maximumQueueAttempts e =
     (case normalizeError e of (code, retryable, message) \<Rightarrow>
        bindJ (orphanJ S) (\<lambda>_.
        if code = ''GENERATION_CLAIM_LOST'' then claimLossJ S gid
        else if retryable \<and> queueAttempt < maximumQueueAttempts then
          bindJ (dbJ S (\<lambda>c. run_tx (prepareRetry_body (c 0) gid token code))) (\<lambda>prepared.
          if prepared then throwJ (provider_exn e) else claimLossJ S gid)
        else
          bindJ (dbJ S (\<lambda>c. run_tx (failGeneration_body (sv_config S) (c 0) (c 1) gid token code message))) (\<lambda>failed.
          if \<not> failed then claimLossJ S gid else returnJ Completed)))"

definition claimJ :: "services \<Rightarrow> string \<Rightarrow> string \<Rightarrow> bool job" where
  "claimJ S gid token = dbJ S (\<lambda>c. run_tx (claim_body (sv_config S) (c 0) gid token))"

definition guardedJ :: "services \<Rightarrow> string \<Rightarrow> string \<Rightarrow> nat \<Rightarrow> nat \<Rightarrow> process_result job" where
  "guardedJ S gid token queueAttempt maximumQueueAttempts =
     bindJ (nowJ S) (\<lambda>startedAt.
     catchJ (bindJ (bodyJ S gid token (startedAt + jobTimeoutMs (sv_config S))) (\<lambda>_. returnJ Completed))
       (failureJ S gid token queueAttempt maximumQueueAttempts))"

text \<open>\<open>finally\<close>: the temporary files of the provider are deleted, as far as it allows.\<close>

definition finallyJ :: "'a job \<Rightarrow> 'a job" where
  "finallyJ m s = (case m s of (r, s') \<Rightarrow> (r, s'\<lparr>js_deleted := js_files s'\<rparr>))"

definition process :: "services \<Rightarrow> string \<Rightarrow> string \<Rightarrow> nat \<Rightarrow> nat \<Rightarrow> process_result job" where
  "process S gid token queueAttempt maximumQueueAttempts =
     bindJ (claimJ S gid token) (\<lambda>claimed.
     if \<not> claimed then claimLossJ S gid
     else finallyJ (guardedJ S gid token queueAttempt maximumQueueAttempts))"

definition begin_job :: "world \<Rightarrow> job_state" where
  "begin_job w = \<lparr>js_world = w, js_step = 0, js_files = [], js_output = None, js_deleted = []\<rparr>"

end
