(* ===== verification/Lifecycle.thy ===== *)
theory Lifecycle
  imports Processor
begin

text \<open>
  The agreement of reports, generations, outputs and credits that the transactions of \<open>Generations\<close>
  and \<open>Processor\<close> keep: a report's status is that of its only active generation, a finished one has
  settled its credit, and an output exists exactly for a report that is ready.
\<close>

section \<open>The invariant\<close>

fun credit_of :: "generation_status \<Rightarrow> credit_state" where
  "credit_of GS_QUEUED = Reserved"
| "credit_of GS_PROCESSING = Reserved"
| "credit_of GS_COMPLETED = Consumed"
| "credit_of GS_FAILED = Restored"
| "credit_of GS_CANCELLED = Restored"

definition lease_ok :: "generation_row \<Rightarrow> bool" where
  "lease_ok g \<longleftrightarrow> (gen_status g = GS_PROCESSING \<longleftrightarrow> gen_processingToken g \<noteq> None) \<and>
     (gen_leaseExpiresAt g \<noteq> None \<longleftrightarrow> gen_processingToken g \<noteq> None)"

definition gen_ok :: "db \<Rightarrow> generation_row \<Rightarrow> bool" where
  "gen_ok d g \<longleftrightarrow>
     (\<exists>r \<in> set (reports d). rep_id r = gen_reportId g \<and> rep_userId r = gen_userId g) \<and>
     gen_priorReportStatus g \<in> {RS_DRAFT, RS_FAILED} \<and> lease_ok g \<and>
     live_ledger (gen_id g) d \<and> credit_state (gen_id g) d = credit_of (gen_status g) \<and>
     (gen_status g = GS_COMPLETED \<longleftrightarrow> (\<exists>q \<in> set (outputs d). out_generationId q = gen_id g))"

definition rep_ok :: "db \<Rightarrow> report_row \<Rightarrow> bool" where
  "rep_ok d r \<longleftrightarrow>
     (rep_status r = RS_QUEUED \<longleftrightarrow>
        (\<exists>g \<in> set (generations d). gen_reportId g = rep_id r \<and> gen_status g = GS_QUEUED)) \<and>
     (rep_status r = RS_PROCESSING \<longleftrightarrow>
        (\<exists>g \<in> set (generations d). gen_reportId g = rep_id r \<and> gen_status g = GS_PROCESSING)) \<and>
     (rep_status r = RS_READY \<longleftrightarrow> (\<exists>q \<in> set (outputs d). out_reportId q = rep_id r))"

definition out_ok :: "db \<Rightarrow> output_row \<Rightarrow> bool" where
  "out_ok d q \<longleftrightarrow>
     (\<exists>g \<in> set (generations d). gen_id g = out_generationId q \<and> gen_reportId g = out_reportId q)"

definition one_active :: "db \<Rightarrow> bool" where
  "one_active d \<longleftrightarrow>
     (\<forall>g \<in> set (generations d). \<forall>h \<in> set (generations d). gen_reportId g = gen_reportId h \<longrightarrow>
        active_status (gen_status g) \<longrightarrow> active_status (gen_status h) \<longrightarrow> gen_id g = gen_id h)"

definition ledger_refs :: "db \<Rightarrow> bool" where
  "ledger_refs d \<longleftrightarrow>
     (\<forall>t \<in> set (creditTxs d). \<forall>i. tx_generationId t = Some i \<longrightarrow> i \<in> gen_id ` set (generations d))"

definition sys_ok :: "db \<Rightarrow> bool" where
  "sys_ok d \<longleftrightarrow> keyed rep_id (reports d) \<and> keyed gen_id (generations d) \<and> ledger_ok d \<and>
     ledger_refs d \<and> one_active d \<and> (\<forall>g \<in> set (generations d). gen_ok d g) \<and>
     (\<forall>r \<in> set (reports d). rep_ok d r) \<and> (\<forall>q \<in> set (outputs d). out_ok d q)"

lemma sys_ok_empty: "sys_ok empty_db"
  using ledger_ok_empty by (simp add: sys_ok_def ledger_refs_def one_active_def empty_db_def)

lemma sys_okD:
  assumes "sys_ok d"
  shows "keyed rep_id (reports d)" "keyed gen_id (generations d)" "ledger_ok d" "ledger_refs d" "one_active d"
    and "g \<in> set (generations d) \<Longrightarrow> gen_ok d g" "r \<in> set (reports d) \<Longrightarrow> rep_ok d r"
    and "q \<in> set (outputs d) \<Longrightarrow> out_ok d q"
  using assms unfolding sys_ok_def by auto

lemma one_activeD:
  assumes "one_active d" "g \<in> set (generations d)" "h \<in> set (generations d)" "gen_reportId g = gen_reportId h"
    "active_status (gen_status g)" "active_status (gen_status h)"
  shows "gen_id g = gen_id h"
  using assms unfolding one_active_def by blast

text \<open>The status of a report that matches its generation's, and whether there is an output.\<close>

definition matches :: "generation_status \<Rightarrow> report_status \<Rightarrow> bool \<Rightarrow> bool" where
  "matches gs rs out \<longleftrightarrow>
     (case gs of
        GS_QUEUED \<Rightarrow> rs = RS_QUEUED \<and> \<not> out
      | GS_PROCESSING \<Rightarrow> rs = RS_PROCESSING \<and> \<not> out
      | GS_COMPLETED \<Rightarrow> rs = RS_READY \<and> out
      | _ \<Rightarrow> rs \<in> {RS_DRAFT, RS_FAILED} \<and> \<not> out)"

lemma sys_ok_active:
  assumes "sys_ok d" "g \<in> set (generations d)" "active_status (gen_status g)"
    "r \<in> set (reports d)" "rep_id r = gen_reportId g"
  shows "matches (gen_status g) (rep_status r) False"
    "\<And>q. q \<in> set (outputs d) \<Longrightarrow> out_reportId q \<noteq> gen_reportId g"
    "\<And>q. q \<in> set (outputs d) \<Longrightarrow> out_generationId q \<noteq> gen_id g"
    "\<And>h. h \<in> set (generations d) \<Longrightarrow> gen_reportId h = gen_reportId g \<Longrightarrow> active_status (gen_status h) \<Longrightarrow> h = g"
proof -
  have r: "rep_ok d r" by (rule sys_okD(7) [OF assms(1,4)])
  then show "matches (gen_status g) (rep_status r) False"
    using assms(2,3,5) by (auto simp: rep_ok_def matches_def active_status_def)
  have "rep_status r \<noteq> RS_READY" using r assms(2,3,5) by (auto simp: rep_ok_def active_status_def)
  then show out: "out_reportId q \<noteq> gen_reportId g" if "q \<in> set (outputs d)" for q
    using r that assms(5) by (auto simp: rep_ok_def)
  show "out_generationId q \<noteq> gen_id g" if q: "q \<in> set (outputs d)" for q
  proof
    assume "out_generationId q = gen_id g"
    then have "gen_status g = GS_COMPLETED" using sys_okD(6) [OF assms(1,2)] q by (auto simp: gen_ok_def)
    with assms(3) show False by simp
  qed
  show "h = g" if "h \<in> set (generations d)" "gen_reportId h = gen_reportId g" "active_status (gen_status h)" for h
    using sys_okD(5) [OF assms(1)] sys_okD(2) [OF assms(1)] assms(2,3) that
    unfolding one_active_def by (metis keyed_eq)
qed

section \<open>Updating the one active generation of a report\<close>

text \<open>
  Every transaction on an active generation changes that row, its report and the credit of the
  generation, and adds at most one output of the two. If the new rows match, the invariant holds again.
\<close>

lemma sys_ok_update:
  assumes ok: "sys_ok d" and g: "g \<in> set (generations d)" "active_status (gen_status g)"
    and gens: "generations d' = update_where (\<lambda>h. gen_id h = gen_id g) F (generations d)"
    and reps: "reports d' = update_where (\<lambda>r. rep_id r = gen_reportId g) R (reports d)"
    and outs: "outputs d' = outputs d @ new" "\<And>q. q \<in> set new \<Longrightarrow> out_reportId q = gen_reportId g \<and> out_generationId q = gen_id g"
    and F: "\<And>h. gen_id (F h) = gen_id h" "\<And>h. gen_reportId (F h) = gen_reportId h"
      "\<And>h. gen_userId (F h) = gen_userId h" "\<And>h. gen_priorReportStatus (F h) = gen_priorReportStatus h" "lease_ok (F g)"
    and R: "\<And>r. rep_id (R r) = rep_id r" "\<And>r. rep_userId (R r) = rep_userId r"
      "\<And>r. r \<in> set (reports d) \<Longrightarrow> rep_id r = gen_reportId g \<Longrightarrow> matches (gen_status (F g)) (rep_status (R r)) (new \<noteq> [])"
    and ledger: "ledger_ok d'" "\<And>h. live_ledger h d' = live_ledger h d"
      "\<And>h. h \<noteq> gen_id g \<Longrightarrow> credit_state h d' = credit_state h d"
      "credit_state (gen_id g) d' = credit_of (gen_status (F g))"
      "\<And>t i. t \<in> set (creditTxs d') \<Longrightarrow> tx_generationId t = Some i \<Longrightarrow> t \<in> set (creditTxs d) \<or> i = gen_id g"
  shows "sys_ok d'"
proof -
  let ?f = "\<lambda>h. if gen_id h = gen_id g then F h else h"
  note keyed = sys_okD(1,2) [OF ok]
  have same: "h = g" if "h \<in> set (generations d)" "gen_id h = gen_id g" for h
    using keyed_eq [OF keyed(2) that(1) g(1) that(2)] .
  have genset: "set (generations d') = ?f ` set (generations d)"
    by (auto simp: gens update_where_def)
  obtain r0 where r0: "r0 \<in> set (reports d)" "rep_id r0 = gen_reportId g"
    using sys_okD(6) [OF ok g(1)] by (auto simp: gen_ok_def)
  note active = sys_ok_active [OF ok g r0]
  have "keyed rep_id (reports d')" "keyed gen_id (generations d')"
    using keyed F(1) R(1) by (simp_all add: gens reps)
  moreover have "ledger_refs d'"
    using sys_okD(4) [OF ok] ledger(5) g(1) F(1)
    by (auto simp: ledger_refs_def gens image_update_where)
  moreover have "one_active d'"
  proof -
    have "gen_id h = gen_id k" if hk: "h \<in> set (generations d)" "k \<in> set (generations d)"
        "gen_reportId h = gen_reportId k" "active_status (gen_status (?f h))" "active_status (gen_status (?f k))" for h k
    proof -
      have orig: "active_status (gen_status h)" if "h \<in> set (generations d)" "active_status (gen_status (?f h))" for h
        using that same g(2) by (cases "gen_id h = gen_id g") auto
      show ?thesis using sys_okD(5) [OF ok] hk(1-3) orig [OF hk(1,4)] orig [OF hk(2,5)]
        unfolding one_active_def by blast
    qed
    moreover have ids: "gen_id (?f h) = gen_id h" "gen_reportId (?f h) = gen_reportId h" for h using F(1,2) by simp_all
    ultimately show ?thesis unfolding one_active_def genset ball_simps(9) ids by blast
  qed
  moreover have "gen_ok d' h'" if h': "h' \<in> set (generations d')" for h'
  proof -
    obtain h where h: "h \<in> set (generations d)" "h' = ?f h" using h' unfolding genset by blast
    have ids: "gen_id h' = gen_id h" "gen_reportId h' = gen_reportId h" "gen_userId h' = gen_userId h"
      "gen_priorReportStatus h' = gen_priorReportStatus h" using h(2) F by auto
    note gh = sys_okD(6) [OF ok h(1)]
    have "\<exists>r \<in> set (reports d'). rep_id r = gen_reportId h' \<and> rep_userId r = gen_userId h'"
      using gh ex_update_where [of "\<lambda>r. (rep_id r, rep_userId r)" R _ "reports d" "(gen_reportId h, gen_userId h)"] R(1,2)
      by (simp add: gen_ok_def reps ids)
    moreover have "lease_ok h'" using h same F(5) gh by (auto simp: gen_ok_def)
    moreover have "credit_state (gen_id h') d' = credit_of (gen_status h')"
      using h same ledger(3,4) gh ids(1) by (auto simp: gen_ok_def)
    moreover have "gen_status h' = GS_COMPLETED \<longleftrightarrow> (\<exists>q \<in> set (outputs d'). out_generationId q = gen_id h')"
    proof (cases "gen_id h = gen_id g")
      case True
      with h same have "h' = F g" by auto
      moreover have "gen_status (F g) = GS_COMPLETED \<longleftrightarrow> new \<noteq> []"
        using R(3) [OF r0] by (cases "gen_status (F g)") (auto simp: matches_def)
      moreover have "(\<exists>q \<in> set (outputs d'). out_generationId q = gen_id g) \<longleftrightarrow> new \<noteq> []"
        using active(3) outs by (cases new) auto
      ultimately show ?thesis using F(1) by simp
    next
      case False
      with h gh outs show ?thesis by (auto simp: gen_ok_def)
    qed
    ultimately show ?thesis using gh ids ledger(2) unfolding gen_ok_def by simp
  qed
  moreover have "rep_ok d' r'" if "r' \<in> set (reports d')" for r'
  proof -
    obtain r where r: "r \<in> set (reports d)" "r' = (if rep_id r = gen_reportId g then R r else r)"
      using \<open>r' \<in> set (reports d')\<close> unfolding reps in_update_where by blast
    note rr = sys_okD(7) [OF ok r(1)]
    have id: "rep_id r' = rep_id r" using r R(1) by auto
    show ?thesis
    proof (cases "rep_id r = gen_reportId g")
      case True
      then have r': "r' = R r" using r by simp
      have m: "matches (gen_status (F g)) (rep_status r') (new \<noteq> [])" using R(3) [OF r(1) True] r' by simp
      have gen: "(\<exists>h \<in> set (generations d'). gen_reportId h = rep_id r' \<and> gen_status h = s) \<longleftrightarrow> gen_status (F g) = s"
        if "active_status s" for s
      proof
        assume "\<exists>h \<in> set (generations d'). gen_reportId h = rep_id r' \<and> gen_status h = s"
        then obtain h where h: "h \<in> set (generations d)" "gen_reportId (?f h) = gen_reportId g" "gen_status (?f h) = s"
          unfolding genset bex_simps id True by blast
        show "gen_status (F g) = s"
        proof (cases "gen_id h = gen_id g")
          case True then show ?thesis using same [OF h(1)] h(3) by auto
        next
          case False
          with h that have "h = g" by (intro active(4)) auto
          with False show ?thesis by simp
        qed
      next
        assume s: "gen_status (F g) = s"
        have "F g \<in> set (generations d')" unfolding genset using g(1) by (intro image_eqI [of _ _ g]) simp_all
        with s show "\<exists>h \<in> set (generations d'). gen_reportId h = rep_id r' \<and> gen_status h = s"
          using F(2) id True by (intro bexI [of _ "F g"]) simp_all
      qed
      have "(\<exists>q \<in> set (outputs d'). out_reportId q = rep_id r') \<longleftrightarrow> new \<noteq> []"
        using active(2) outs id True by (cases new) auto
      with m show ?thesis using gen [of GS_QUEUED] gen [of GS_PROCESSING] unfolding rep_ok_def
        by (cases "gen_status (F g)") (auto simp: matches_def)
    next
      case False
      then have r': "r' = r" using r by simp
      have "(\<exists>h \<in> set (generations d'). gen_reportId h = rep_id r \<and> gen_status h = s) \<longleftrightarrow>
          (\<exists>h \<in> set (generations d). gen_reportId h = rep_id r \<and> gen_status h = s)" for s
        unfolding genset using False same F(2) by fastforce
      moreover have "(\<exists>q \<in> set (outputs d'). out_reportId q = rep_id r) \<longleftrightarrow> (\<exists>q \<in> set (outputs d). out_reportId q = rep_id r)"
        using False outs by auto
      ultimately show ?thesis using rr unfolding rep_ok_def r' by simp
    qed
  qed
  moreover have "out_ok d' q" if q: "q \<in> set (outputs d')" for q
  proof -
    have "\<exists>h \<in> set (generations d). (gen_id h, gen_reportId h) = (out_generationId q, out_reportId q)"
      using q outs sys_okD(8) [OF ok, of q] g(1) by (cases "q \<in> set new") (auto simp: out_ok_def)
    then show ?thesis
      using ex_update_where [of "\<lambda>h. (gen_id h, gen_reportId h)" F _ "generations d" "(out_generationId q, out_reportId q)"]
        F(1,2) by (simp add: out_ok_def gens)
  qed
  ultimately show ?thesis using ledger(1) unfolding sys_ok_def by blast
qed

section \<open>The transactions of a worker\<close>

lemma owns_leaseD:
  assumes "owns_lease now gid token g"
  shows "gen_id g = gid" "gen_status g = GS_PROCESSING" "gen_processingToken g = Some token"
    "\<exists>t. gen_leaseExpiresAt g = Some t \<and> now < t" "active_status (gen_status g)" "processed_by gid token g"
  using assms by (auto simp: owns_lease_def processed_by_def split: option.splits)

text \<open>An update whose condition names the row's id is an update of that row.\<close>

lemma update_where_key:
  assumes "keyed k rows" "g \<in> set rows" "p g" "\<And>x. p x \<Longrightarrow> k x = k g"
  shows "update_where p f rows = update_where (\<lambda>x. k x = k g) f rows"
  unfolding update_where_def by (rule map_cong) (use assms keyed_eq in \<open>metis+\<close>)

lemma count_where_key:
  assumes "keyed gen_id rows" "count_where p rows = 1" "\<And>x. p x \<Longrightarrow> gen_id x = gid"
  obtains g where "g \<in> set rows" "p g" "gen_id g = gid"
    "\<And>f. update_where p f rows = update_where (\<lambda>x. gen_id x = gen_id g) f rows"
proof -
  obtain g where g: "g \<in> set rows" "p g" using count_where_pos [of p rows 0] assms(2) by auto
  then have "gen_id g = gid" using assms(3) by blast
  with g show thesis using assms(1,3) by (intro that [of g]) (auto intro!: update_where_key)
qed

lemma find_generation_updated:
  assumes "keyed gen_id (generations d)" "g \<in> set (generations d)" "\<And>h. gen_id (F h) = gen_id h"
    "generations d' = update_where (\<lambda>h. gen_id h = gen_id g) F (generations d)"
  shows "find_generation (gen_id g) d' = Some (F g)"
proof -
  have "F g \<in> set (generations d')" using assms(2) by (auto simp: assms(4) update_where_def image_iff)
  moreover have "keyed gen_id (generations d')" using assms(1,3) by (simp add: assms(4))
  ultimately show ?thesis using assms(3) unfolding find_generation_def
    by (intro find_first_keyed [where k = gen_id]) auto
qed

text \<open>
  What the invariant reads of a generation and of a report. A step that keeps these views, and the
  state of every credit, keeps the invariant.
\<close>

definition gen_view :: "generation_row \<Rightarrow> string \<times> string \<times> string \<times> report_status \<times> generation_status \<times> string option \<times> bool" where
  "gen_view g = (gen_id g, gen_reportId g, gen_userId g, gen_priorReportStatus g, gen_status g,
     gen_processingToken g, gen_leaseExpiresAt g = None)"

definition rep_view :: "report_row \<Rightarrow> string \<times> string \<times> report_status" where
  "rep_view r = (rep_id r, rep_userId r, rep_status r)"

lemma same_view_ex:
  assumes "map k xs = map k ys"
  shows "(\<exists>x \<in> set xs. P (k x)) \<longleftrightarrow> (\<exists>y \<in> set ys. P (k y))"
proof -
  have "k ` set xs = k ` set ys" using arg_cong [OF assms, of set] by simp
  then have "(\<exists>z \<in> k ` set xs. P z) \<longleftrightarrow> (\<exists>z \<in> k ` set ys. P z)" by simp
  then show ?thesis unfolding bex_simps(7) .
qed

lemma same_view_obtain:
  assumes "map k xs = map k ys" "x \<in> set xs"
  obtains y where "y \<in> set ys" "k y = k x"
  using same_view_ex [OF assms(1), of "\<lambda>z. z = k x"] assms(2) by auto

lemma sys_ok_view:
  assumes ok: "sys_ok d"
    and gens: "map gen_view (generations d') = map gen_view (generations d)"
    and reps: "map rep_view (reports d') = map rep_view (reports d)"
    and outs: "outputs d' = outputs d" and ledger: "ledger_ok d'"
    and credit: "\<And>g. credit_state g d' = credit_state g d" "\<And>g. live_ledger g d' = live_ledger g d"
    and refs: "\<And>t i. t \<in> set (creditTxs d') \<Longrightarrow> tx_generationId t = Some i \<Longrightarrow>
      \<exists>u \<in> set (creditTxs d). tx_generationId u = Some i"
  shows "sys_ok d'"
proof -
  have ids: "map gen_id (generations d') = map gen_id (generations d)"
    using arg_cong [OF gens, of "map fst"] by (simp add: o_def gen_view_def)
  have rids: "map rep_id (reports d') = map rep_id (reports d)"
    using arg_cong [OF reps, of "map fst"] by (simp add: o_def rep_view_def)
  have "keyed gen_id (generations d')" "keyed rep_id (reports d')"
    using sys_okD(1,2) [OF ok] ids rids by (simp_all add: keyed_def)
  moreover have "ledger_refs d'"
    unfolding ledger_refs_def
  proof (intro ballI allI impI)
    fix t i assume "t \<in> set (creditTxs d')" "tx_generationId t = Some i"
    from refs [OF this] obtain u where "u \<in> set (creditTxs d)" "tx_generationId u = Some i" by blast
    with sys_okD(4) [OF ok] have "i \<in> set (map gen_id (generations d))" by (auto simp: ledger_refs_def)
    then show "i \<in> gen_id ` set (generations d')" unfolding ids [symmetric] by simp
  qed
  moreover have "one_active d'"
    unfolding one_active_def
  proof (intro ballI impI)
    fix g h assume gh: "g \<in> set (generations d')" "h \<in> set (generations d')" "gen_reportId g = gen_reportId h"
      "active_status (gen_status g)" "active_status (gen_status h)"
    obtain g0 where g0: "g0 \<in> set (generations d)" "gen_view g0 = gen_view g" by (rule same_view_obtain [OF gens gh(1)])
    obtain h0 where h0: "h0 \<in> set (generations d)" "gen_view h0 = gen_view h" by (rule same_view_obtain [OF gens gh(2)])
    have "gen_id g0 = gen_id h0"
      by (rule one_activeD [OF sys_okD(5) [OF ok] g0(1) h0(1)]) (use g0(2) h0(2) gh(3-5) in \<open>simp_all add: gen_view_def\<close>)
    with g0(2) h0(2) show "gen_id g = gen_id h" by (simp add: gen_view_def)
  qed
  moreover have "gen_ok d' h'" if h': "h' \<in> set (generations d')" for h'
  proof -
    obtain h where h: "h \<in> set (generations d)" "gen_view h = gen_view h'" by (rule same_view_obtain [OF gens h'])
    then have eqs: "gen_id h' = gen_id h" "gen_reportId h' = gen_reportId h" "gen_userId h' = gen_userId h"
      "gen_priorReportStatus h' = gen_priorReportStatus h" "gen_status h' = gen_status h"
      "gen_processingToken h' = gen_processingToken h" "(gen_leaseExpiresAt h' = None) = (gen_leaseExpiresAt h = None)"
      by (simp_all add: gen_view_def)
    have "(\<exists>r \<in> set (reports d'). rep_id r = gen_reportId h \<and> rep_userId r = gen_userId h) \<longleftrightarrow>
        (\<exists>r \<in> set (reports d). rep_id r = gen_reportId h \<and> rep_userId r = gen_userId h)"
      using same_view_ex [OF reps, of "\<lambda>(i, u, s). i = gen_reportId h \<and> u = gen_userId h"] by (simp add: rep_view_def)
    then show ?thesis
      using sys_okD(6) [OF ok h(1)] credit unfolding gen_ok_def lease_ok_def eqs outs by simp
  qed
  moreover have "rep_ok d' r'" if r': "r' \<in> set (reports d')" for r'
  proof -
    obtain r where r: "r \<in> set (reports d)" "rep_view r = rep_view r'" by (rule same_view_obtain [OF reps r'])
    have eqs: "rep_id r' = rep_id r" "rep_status r' = rep_status r" using r(2) by (simp_all add: rep_view_def)
    have "(\<exists>g \<in> set (generations d'). gen_reportId g = rep_id r \<and> gen_status g = s) \<longleftrightarrow>
        (\<exists>g \<in> set (generations d). gen_reportId g = rep_id r \<and> gen_status g = s)" for s
      using same_view_ex [OF gens, of "\<lambda>(i, r', u, p, s', t, l). r' = rep_id r \<and> s' = s"] by (simp add: gen_view_def)
    with sys_okD(7) [OF ok r(1)] show ?thesis by (simp add: rep_ok_def outs eqs)
  qed
  moreover have "out_ok d' q" if "q \<in> set (outputs d')" for q
    using sys_okD(8) [OF ok, of q] that
      same_view_ex [OF gens, of "\<lambda>(i, r', u, p, s', t, l). i = out_generationId q \<and> r' = out_reportId q"]
    by (simp add: out_ok_def outs gen_view_def)
  ultimately show ?thesis using ledger unfolding sys_ok_def by blast
qed

text \<open>A step that only touches the lease, the stage or the result of the processed generation.\<close>

lemma sys_ok_keeps_state:
  assumes ok: "sys_ok d" and F: "\<And>h. h \<in> set (generations d) \<Longrightarrow> p h \<Longrightarrow> gen_view (F h) = gen_view h"
    and d': "generations d' = update_where p F (generations d)" "reports d' = reports d" "outputs d' = outputs d"
      "grants d' = grants d" "creditTxs d' = creditTxs d"
  shows "sys_ok d'"
proof (rule sys_ok_view [OF ok])
  show "map gen_view (generations d') = map gen_view (generations d)"
    unfolding d'(1) update_where_def map_map o_def by (rule map_cong) (use F in auto)
  show "ledger_ok d'" using sys_okD(3) [OF ok] ledger_ok_cong [OF d'(4,5)] by simp
qed (use credit_view_cong [OF d'(5)] d' in auto)

lemma credit_refs:
  assumes "consumeInTransaction gid d = Inr d' \<or> releaseInTransaction gid r d = Inr d' \<or>
      (reserve now u gid d = Inr d' \<and> keyed gr_id (grants d))"
    and "t \<in> set (creditTxs d')" "tx_generationId t = Some i"
  shows "t \<in> set (creditTxs d) \<or> i = gid"
  using assms(1)
proof (elim disjE conjE)
  assume "consumeInTransaction gid d = Inr d'"
  then show ?thesis by (cases rule: consume_cases) (use assms(2,3) in auto)
next
  assume "releaseInTransaction gid r d = Inr d'"
  then show ?thesis by (cases rule: release_cases) (use assms(2,3) in auto)
next
  assume r: "reserve now u gid d = Inr d'" "keyed gr_id (grants d)"
  then show ?thesis by (cases rule: reserve_cases) (use assms(2,3) in \<open>auto simp: take_credit_def\<close>)
qed

lemma sys_ok_credit:
  assumes "sys_ok d" "g \<in> set (generations d)"
  shows "live_ledger (gen_id g) d" "credit_state (gen_id g) d = credit_of (gen_status g)" "lease_ok g"
    "gen_priorReportStatus g \<in> {RS_DRAFT, RS_FAILED}"
    "\<exists>r \<in> set (reports d). rep_id r = gen_reportId g \<and> rep_userId r = gen_userId g"
  using sys_okD(6) [OF assms] by (auto simp: gen_ok_def)

lemma credit_of_active: "active_status s \<Longrightarrow> credit_of s = Reserved"
  by (cases s) simp_all

text \<open>The active generation ends with its credit consumed or released.\<close>

lemma sys_ok_settle:
  assumes ok: "sys_ok d" and g: "g \<in> set (generations d)" "active_status (gen_status g)"
    and pre: "creditTxs dm = creditTxs d" "grants dm = grants d"
    and settle: "(consumeInTransaction (gen_id g) dm = Inr d' \<and> gen_status (F g) = GS_COMPLETED) \<or>
      (releaseInTransaction (gen_id g) r dm = Inr d' \<and> gen_status (F g) \<in> {GS_FAILED, GS_CANCELLED})"
    and gens: "generations dm = update_where (\<lambda>h. gen_id h = gen_id g) F (generations d)"
    and reps: "reports dm = update_where (\<lambda>r. rep_id r = gen_reportId g) R (reports d)"
    and outs: "outputs dm = outputs d @ new" "\<And>q. q \<in> set new \<Longrightarrow> out_reportId q = gen_reportId g \<and> out_generationId q = gen_id g"
    and F: "\<And>h. gen_id (F h) = gen_id h" "\<And>h. gen_reportId (F h) = gen_reportId h"
      "\<And>h. gen_userId (F h) = gen_userId h" "\<And>h. gen_priorReportStatus (F h) = gen_priorReportStatus h" "lease_ok (F g)"
    and R: "\<And>r. rep_id (R r) = rep_id r" "\<And>r. rep_userId (R r) = rep_userId r"
      "\<And>r. r \<in> set (reports d) \<Longrightarrow> rep_id r = gen_reportId g \<Longrightarrow> matches (gen_status (F g)) (rep_status (R r)) (new \<noteq> [])"
  shows "sys_ok d'"
proof -
  have ok1: "ledger_ok dm" using sys_okD(3) [OF ok] ledger_ok_cong [OF pre(2,1)] by simp
  note view = credit_view_cong [OF pre(1)]
  have live: "live_ledger (gen_id g) dm" and reserved: "credit_state (gen_id g) dm = Reserved"
    using sys_ok_credit(1,2) [OF ok g(1)] view credit_of_active [OF g(2)] by simp_all
  have frame: "credit_frame dm d'" using settle credit_frames(2,3) by blast
  have step: "ledger_ok d' \<and> (\<forall>h. live_ledger h d' = live_ledger h dm) \<and>
      (\<forall>h. h \<noteq> gen_id g \<longrightarrow> credit_state h d' = credit_state h dm) \<and>
      credit_state (gen_id g) d' = credit_of (gen_status (F g))"
    using settle
  proof (elim disjE conjE)
    assume c: "consumeInTransaction (gen_id g) dm = Inr d'" "gen_status (F g) = GS_COMPLETED"
    from ledger.con_step [OF ok1 live c(1)] c(2) show ?thesis by simp
  next
    assume c: "releaseInTransaction (gen_id g) r dm = Inr d'" "gen_status (F g) \<in> {GS_FAILED, GS_CANCELLED}"
    from ledger.rel_step [OF ok1 live c(1)] c(2) reserved show ?thesis by auto
  qed
  show ?thesis
  proof (rule sys_ok_update [OF ok g])
    show "generations d' = update_where (\<lambda>h. gen_id h = gen_id g) F (generations d)"
      "reports d' = update_where (\<lambda>r. rep_id r = gen_reportId g) R (reports d)" "outputs d' = outputs d @ new"
      using credit_frameD [OF frame] gens reps outs(1) by simp_all
    show "t \<in> set (creditTxs d) \<or> i = gen_id g" if "t \<in> set (creditTxs d')" "tx_generationId t = Some i" for t i
      using credit_refs [OF _ that, of "gen_id g" dm r] settle pre(1) by auto
  qed (use step view outs(2) F R in simp_all)
qed

section \<open>Each transaction keeps the invariant\<close>

lemma owned_lease: "sys_ok d \<Longrightarrow> h \<in> set (generations d) \<Longrightarrow> processed_by gid token h \<Longrightarrow> gen_leaseExpiresAt h \<noteq> None"
  using sys_ok_credit(3) [of d h] by (auto simp: processed_by_def lease_ok_def)

lemma sys_ok_updateProgress: "sys_ok d \<Longrightarrow> sys_ok (snd (updateProgress cfg now now2 gid st pr token d))"
  by (rule sys_ok_keeps_state [where p = "owns_lease now gid token" and
        F = "\<lambda>g. g\<lparr>gen_stage := st, gen_progress := pr, gen_leaseExpiresAt := Some (leaseExpiration cfg now2)\<rparr>"])
    (auto simp: updateProgress_def owns_lease_def gen_view_def split: option.splits)

lemma sys_ok_renewLease: "sys_ok d \<Longrightarrow> sys_ok (snd (renewLease cfg now now2 gid token d))"
  by (rule sys_ok_keeps_state [where p = "owns_lease now gid token" and
        F = "\<lambda>g. g\<lparr>gen_leaseExpiresAt := Some (leaseExpiration cfg now2)\<rparr>"])
    (auto simp: renewLease_def owns_lease_def gen_view_def split: option.splits)

lemma sys_ok_persist:
  assumes ok: "sys_ok d"
    and step: "persistReportResult_body cfg now now2 now3 gid token aid result q it ot d = Inr (u, d')"
  shows "sys_ok d'"
proof -
  let ?F = "\<lambda>g. g\<lparr>gen_structuredResult := Some result, gen_provider := Some ''openai'',
       gen_model := Some (reportModel cfg), gen_providerRequestId := set_defined q (gen_providerRequestId g),
       gen_inputTokens := set_defined it (gen_inputTokens g), gen_outputTokens := set_defined ot (gen_outputTokens g),
       gen_leaseExpiresAt := Some (leaseExpiration cfg now3)\<rparr>"
  obtain d1 where c: "completeInTransaction now2 now3 aid token
      \<lparr>us_providerRequestId = q, us_inputTokens = it, us_outputTokens = ot, us_audioDurationSeconds = None\<rparr> d = Inr d1"
    and d': "d' = d1\<lparr>generations := update_where (processed_by gid token) ?F (generations d1)\<rparr>"
    using step unfolding persistReportResult_body_def by (elim bindE_InrE) auto
  obtain rows where d1: "d1 = d\<lparr>attempts := rows\<rparr>"
    using c unfolding completeInTransaction_def Let_def by (elim bindE_InrE) auto
  show ?thesis
    by (rule sys_ok_keeps_state [OF ok, where p = "processed_by gid token" and F = ?F])
      (use owned_lease [OF ok] in \<open>auto simp: d' d1 gen_view_def\<close>)
qed

lemma sys_ok_claim:
  assumes ok: "sys_ok d" and step: "claim_body cfg now gid token d = Inr (b, d')"
  shows "sys_ok d'"
proof (cases "count_where (claimable now gid) (generations d) = 1")
  case False
  with step ok show ?thesis by (simp add: claim_body_def)
next
  case True
  let ?F = "\<lambda>g. g\<lparr>gen_status := GS_PROCESSING, gen_processingToken := Some token,
      gen_leaseExpiresAt := Some (now + jobTimeoutMs cfg), gen_startedAt := Some now,
      gen_attemptCount := gen_attemptCount g + 1\<rparr>"
  obtain g where g: "g \<in> set (generations d)" "claimable now gid g" "gen_id g = gid"
    and upd: "\<And>f. update_where (claimable now gid) f (generations d) = update_where (\<lambda>x. gen_id x = gen_id g) f (generations d)"
    by (rule count_where_key [OF sys_okD(2) [OF ok] True, of gid]) (auto simp: claimable_def)
  have act: "active_status (gen_status g)" using g(2) by (auto simp: claimable_def active_status_def)
  let ?d1 = "d\<lparr>generations := update_where (\<lambda>x. gen_id x = gen_id g) ?F (generations d)\<rparr>"
  have found: "find_generation gid ?d1 = Some (?F g)"
    using find_generation_updated [OF sys_okD(2) [OF ok] g(1), of ?F ?d1] g(3) by simp
  have d': "d' = ?d1\<lparr>reports := update_where
      (\<lambda>r. rep_id r = gen_reportId g \<and> (rep_status r = RS_QUEUED \<or> rep_status r = RS_PROCESSING))
      (\<lambda>r. r\<lparr>rep_status := RS_PROCESSING\<rparr>) (reports d)\<rparr>"
    using step True found by (simp add: claim_body_def Let_def upd)
  have status: "rep_status r = RS_QUEUED \<or> rep_status r = RS_PROCESSING"
    if "r \<in> set (reports d)" "rep_id r = gen_reportId g" for r
    using sys_ok_active(1) [OF ok g(1) act that] act by (cases "gen_status g") (auto simp: matches_def)
  have reps: "reports d' = update_where (\<lambda>r. rep_id r = gen_reportId g) (\<lambda>r. r\<lparr>rep_status := RS_PROCESSING\<rparr>) (reports d)"
    unfolding d' update_where_def using status by (auto intro!: map_cong)
  show ?thesis
    by (rule sys_ok_update [OF ok g(1) act _ reps, where F = ?F and new = "[]"])
      (use sys_okD(3) [OF ok] sys_ok_credit(2) [OF ok g(1)] credit_of_active [OF act] in
        \<open>auto simp: d' lease_ok_def matches_def ledger_ok_cong [of d' d] credit_view_cong [of d' d]
           cong: ledger_ok_cong credit_view_cong\<close>)
qed

lemma sys_ok_prepareRetry:
  assumes ok: "sys_ok d" and step: "prepareRetry_body now gid token code d = Inr (b, d')"
  shows "sys_ok d'"
proof (cases "count_where (owns_lease now gid token) (generations d) = 1")
  case False
  with step ok show ?thesis by (simp add: prepareRetry_body_def)
next
  case True
  let ?F = "\<lambda>g. g\<lparr>gen_status := GS_QUEUED, gen_errorCode := Some code,
      gen_errorMessage := Some ''A temporary dependency error occurred; retrying'',
      gen_processingToken := None, gen_leaseExpiresAt := None\<rparr>"
  obtain g where g: "g \<in> set (generations d)" "owns_lease now gid token g" "gen_id g = gid"
    and upd: "\<And>f. update_where (owns_lease now gid token) f (generations d) = update_where (\<lambda>x. gen_id x = gen_id g) f (generations d)"
    by (rule count_where_key [OF sys_okD(2) [OF ok] True, of gid]) (auto simp: owns_lease_def)
  note act = owns_leaseD(5) [OF g(2)]
  let ?d1 = "d\<lparr>generations := update_where (\<lambda>x. gen_id x = gen_id g) ?F (generations d)\<rparr>"
  have found: "find_generation gid ?d1 = Some (?F g)"
    using find_generation_updated [OF sys_okD(2) [OF ok] g(1), of ?F ?d1] g(3) by simp
  have d': "d' = ?d1\<lparr>reports := update_where
      (\<lambda>r. rep_id r = gen_reportId g \<and> rep_status r = RS_PROCESSING)
      (\<lambda>r. r\<lparr>rep_status := RS_QUEUED\<rparr>) (reports d)\<rparr>"
    using step True found by (simp add: prepareRetry_body_def Let_def upd)
  have status: "rep_status r = RS_PROCESSING" if "r \<in> set (reports d)" "rep_id r = gen_reportId g" for r
    using sys_ok_active(1) [OF ok g(1) act that] owns_leaseD(2) [OF g(2)] by (auto simp: matches_def)
  have reps: "reports d' = update_where (\<lambda>r. rep_id r = gen_reportId g) (\<lambda>r. r\<lparr>rep_status := RS_QUEUED\<rparr>) (reports d)"
    unfolding d' update_where_def using status by (auto intro!: map_cong)
  show ?thesis
    by (rule sys_ok_update [OF ok g(1) act _ reps, where F = ?F and new = "[]"])
      (use sys_okD(3) [OF ok] sys_ok_credit(2) [OF ok g(1)] credit_of_active [OF act] in
        \<open>auto simp: d' lease_ok_def matches_def ledger_ok_cong [of d' d] credit_view_cong [of d' d]
           cong: ledger_ok_cong credit_view_cong\<close>)
qed

text \<open>What a terminal failure that commits did.\<close>

lemma failGeneration_cases:
  assumes step: "failGeneration_body cfg now now2 gid token code msg d = Inr (b, d')"
    and keyed: "keyed gen_id (generations d)"
  obtains (lost) "\<not> b" "d' = d" "count_where (owns_lease now2 gid token) (generations d) \<noteq> 1"
  | (failed) g r d1 where "b" "g \<in> set (generations d)" "owns_lease now2 gid token g"
      "r \<in> set (reports d)" "rep_id r = gen_reportId g"
      "releaseInTransaction gid (''Terminal failure: '' @ code) d1 = Inr d'"
      "d1 = d\<lparr>generations := update_where (\<lambda>h. gen_id h = gen_id g)
               (\<lambda>g. g\<lparr>gen_status := GS_FAILED, gen_errorCode := Some code,
                      gen_errorMessage := Some (take 300 msg), gen_completedAt := Some now,
                      gen_processingToken := None, gen_leaseExpiresAt := None\<rparr>) (generations d),
              reports := update_where (\<lambda>x. rep_id x = gen_reportId g)
               (apply_throttle (if exists_where (\<lambda>q. out_reportId q = gen_reportId g) (outputs d)
                  then RS_READY else RS_FAILED) (failure_throttle cfg now r)) (reports d)\<rparr>"
proof (cases "count_where (owns_lease now2 gid token) (generations d) = 1")
  case False
  with step show thesis by (intro lost) (simp_all add: failGeneration_body_def)
next
  case True
  let ?F = "\<lambda>g. g\<lparr>gen_status := GS_FAILED, gen_errorCode := Some code,
      gen_errorMessage := Some (take 300 msg), gen_completedAt := Some now,
      gen_processingToken := None, gen_leaseExpiresAt := None\<rparr>"
  obtain g where g: "g \<in> set (generations d)" "owns_lease now2 gid token g" "gen_id g = gid"
    and upd: "\<And>f. update_where (owns_lease now2 gid token) f (generations d) = update_where (\<lambda>x. gen_id x = gen_id g) f (generations d)"
    by (rule count_where_key [OF keyed True, of gid]) (auto simp: owns_lease_def)
  let ?d1 = "d\<lparr>generations := update_where (\<lambda>x. gen_id x = gen_id g) ?F (generations d)\<rparr>"
  have found: "find_generation gid ?d1 = Some (?F g)"
    using find_generation_updated [OF keyed g(1), of ?F ?d1] g(3) by simp
  let ?st = "if exists_where (\<lambda>q. out_reportId q = gen_reportId g) (outputs d) then RS_READY else RS_FAILED"
  have "bindE (fromOption (PrismaError ''P2025'') (find_report (gen_reportId g) ?d1)) (\<lambda>report.
        bindE (update_report (gen_reportId g) (apply_throttle ?st (failure_throttle cfg now report)) ?d1) (\<lambda>d2.
        bindE (releaseInTransaction gid (''Terminal failure: '' @ code) d2) (\<lambda>d3. Inr (True, d3)))) = Inr (b, d')"
    using step True found by (simp add: failGeneration_body_def Let_def upd)
  then obtain r d2 where r: "find_report (gen_reportId g) ?d1 = Some r"
    "update_report (gen_reportId g) (apply_throttle ?st (failure_throttle cfg now r)) ?d1 = Inr d2"
    "releaseInTransaction gid (''Terminal failure: '' @ code) d2 = Inr d'" "b"
    by (elim bindE_InrE) (auto simp: fromOption_Inr_iff)
  have rep: "r \<in> set (reports d)" "rep_id r = gen_reportId g"
    using find_first_Some r(1) [unfolded find_report_def] by fastforce+
  have d2: "d2 = ?d1\<lparr>reports := update_where (\<lambda>x. rep_id x = gen_reportId g)
      (apply_throttle ?st (failure_throttle cfg now r)) (reports d)\<rparr>"
    using r(2) by (simp add: update_report_Inr_iff)
  show thesis by (rule failed [OF r(4) g(1,2) rep r(3)]) (simp add: d2)
qed

lemma apply_throttle_simps [simp]:
  "rep_id (apply_throttle st t r) = rep_id r" "rep_userId (apply_throttle st t r) = rep_userId r"
  "rep_status (apply_throttle st t r) = st"
  by (cases t; simp add: apply_throttle_def)+

lemma sys_ok_failGeneration:
  assumes ok: "sys_ok d" and step: "failGeneration_body cfg now now2 gid token code msg d = Inr (b, d')"
  shows "sys_ok d'"
  using step sys_okD(2) [OF ok]
proof (cases rule: failGeneration_cases)
  case lost
  with ok show ?thesis by simp
next
  case (failed g r d1)
  note id = owns_leaseD(1) [OF failed(3)] and act = owns_leaseD(5) [OF failed(3)]
  have none: "\<not> exists_where (\<lambda>q. out_reportId q = gen_reportId g) (outputs d)"
    using sys_ok_active(2) [OF ok failed(2) act failed(4,5)] by auto
  show ?thesis
    by (rule sys_ok_settle [OF ok failed(2) act, where r = "''Terminal failure: '' @ code" and d' = d' and new = "[]"
        and dm = d1 and R = "apply_throttle RS_FAILED (failure_throttle cfg now r)"
        and F = "\<lambda>g. g\<lparr>gen_status := GS_FAILED, gen_errorCode := Some code,
                      gen_errorMessage := Some (take 300 msg), gen_completedAt := Some now,
                      gen_processingToken := None, gen_leaseExpiresAt := None\<rparr>"])
      (use failed(6) none in \<open>simp_all add: failed(7) id lease_ok_def matches_def del: exists_where_iff\<close>)
qed

lemma sys_ok_cancel:
  assumes ok: "sys_ok d" and step: "cancel_body now u rid gid d = Inr (p, d')"
  shows "sys_ok d'"
  using step sys_okD(2) [OF ok]
proof (cases rule: cancel_body_cases)
  case (1 g d1)
  have act: "active_status (gen_status g)" using 1(5) by simp
  show ?thesis
    by (rule sys_ok_settle [OF ok 1(1) act, where r = "''Queued generation cancelled''" and d' = d' and new = "[]"
        and dm = d1 and R = "\<lambda>r. r\<lparr>rep_status := gen_priorReportStatus g\<rparr>"
        and F = "\<lambda>g. g\<lparr>gen_status := GS_CANCELLED, gen_cancelledAt := Some now\<rparr>"])
      (use 1 sys_ok_credit(3,4) [OF ok 1(1)] in \<open>simp_all add: lease_ok_def matches_def\<close>)
qed

text \<open>What a success that commits did.\<close>

lemma finalize_cases:
  assumes step: "finalize_body now now2 gid rid u token key n d = Inr (v, d')"
    and keyed: "keyed gen_id (generations d)"
  obtains g d1 where "g \<in> set (generations d)" "owns_lease now gid token g" "gen_userId g = u"
    "consumeInTransaction gid d1 = Inr d'"
    "d1 = d\<lparr>generations := update_where (\<lambda>h. gen_id h = gen_id g)
             (\<lambda>g. g\<lparr>gen_status := GS_COMPLETED, gen_stage := STAGE_COMPLETED,
                    gen_progress := progress_of STAGE_COMPLETED, gen_completedAt := Some now2,
                    gen_processingToken := None, gen_leaseExpiresAt := None\<rparr>) (generations d),
            reports := update_where (\<lambda>r. rep_id r = rid \<and> rep_userId r = u)
             (\<lambda>r. r\<lparr>rep_status := RS_READY, rep_failureCount := 0, rep_windowStartedAt := None,
                    rep_lockedUntil := None\<rparr>) (reports d),
            outputs := outputs d @ [\<lparr>out_reportId = rid, out_generationId = gid, out_storageKey = key,
               out_mimeType = ''application/pdf'', out_size = n, out_createdAt = now2\<rparr>]\<rparr>"
    "\<And>q. q \<in> set (outputs d) \<Longrightarrow> out_reportId q \<noteq> rid \<and> out_generationId q \<noteq> gid \<and> out_storageKey q \<noteq> key"
proof -
  let ?q = "\<lparr>out_reportId = rid, out_generationId = gid, out_storageKey = key,
      out_mimeType = ''application/pdf'', out_size = n, out_createdAt = now2\<rparr>"
  let ?F = "\<lambda>g. g\<lparr>gen_status := GS_COMPLETED, gen_stage := STAGE_COMPLETED,
      gen_progress := progress_of STAGE_COMPLETED, gen_completedAt := Some now2,
      gen_processingToken := None, gen_leaseExpiresAt := None\<rparr>"
  let ?R = "\<lambda>r. r\<lparr>rep_status := RS_READY, rep_failureCount := 0, rep_windowStartedAt := None, rep_lockedUntil := None\<rparr>"
  let ?p = "\<lambda>g. processed_by gid token g \<and> gen_userId g = u"
  obtain d0 dm where s: "\<exists>g \<in> set (generations d). owns_lease now gid token g \<and> gen_userId g = u"
    "create_output ?q d = Inr d0" "consumeInTransaction gid dm = Inr d'"
    "dm = d0\<lparr>generations := update_where ?p ?F (generations d0),
            reports := update_where (\<lambda>r. rep_id r = rid \<and> rep_userId r = u) ?R (reports d0)\<rparr>"
    using step unfolding finalize_body_def Let_def by (elim bindE_InrE) (auto simp: guardE_Inr_iff)
  then obtain g where g: "g \<in> set (generations d)" "owns_lease now gid token g" "gen_userId g = u" by blast
  have upd: "update_where ?p ?F (generations d) = update_where (\<lambda>h. gen_id h = gen_id g) ?F (generations d)"
    by (rule update_where_key [OF keyed g(1)]) (use g owns_leaseD [OF g(2)] in \<open>auto simp: processed_by_def\<close>)
  from s(2) have d0: "d0 = d\<lparr>outputs := outputs d @ [?q]\<rparr>" "\<And>q. q \<in> set (outputs d) \<Longrightarrow>
      out_reportId q \<noteq> rid \<and> out_generationId q \<noteq> gid \<and> out_storageKey q \<noteq> key"
    by (auto simp: create_output_def split: if_splits)
  show thesis
    by (rule that [OF g s(3)]) (use d0 upd s(4) in simp_all)
qed

lemma sys_ok_finalize:
  assumes ok: "sys_ok d" and step: "finalize_body now now2 gid rid u token key n d = Inr (v, d')"
    and rid: "\<And>g. g \<in> set (generations d) \<Longrightarrow> gen_id g = gid \<Longrightarrow> gen_reportId g = rid"
  shows "sys_ok d'"
  using step sys_okD(2) [OF ok]
proof (cases rule: finalize_cases)
  case (1 g d1)
  note id = owns_leaseD(1) [OF 1(2)] and act = owns_leaseD(5) [OF 1(2)]
  have r: "gen_reportId g = rid" by (rule rid [OF 1(1) id])
  have own: "rep_userId x = u" if x: "x \<in> set (reports d)" "rep_id x = rid" for x
  proof -
    obtain y where "y \<in> set (reports d)" "rep_id y = rid" "rep_userId y = u"
      using sys_ok_credit(5) [OF ok 1(1)] r 1(3) by auto
    with x show ?thesis using keyed_eq [OF sys_okD(1) [OF ok], of x y] by auto
  qed
  have reps: "update_where (\<lambda>r. rep_id r = rid \<and> rep_userId r = u) R (reports d) =
      update_where (\<lambda>r. rep_id r = gen_reportId g) R (reports d)" for R
    unfolding update_where_def r using own by (auto intro!: map_cong)
  show ?thesis
    by (rule sys_ok_settle [OF ok 1(1) act, where d' = d' and dm = d1
        and new = "[\<lparr>out_reportId = rid, out_generationId = gid, out_storageKey = key,
               out_mimeType = ''application/pdf'', out_size = n, out_createdAt = now2\<rparr>]"
        and R = "\<lambda>r. r\<lparr>rep_status := RS_READY, rep_failureCount := 0, rep_windowStartedAt := None,
                    rep_lockedUntil := None\<rparr>"
        and F = "\<lambda>g. g\<lparr>gen_status := GS_COMPLETED, gen_stage := STAGE_COMPLETED,
                    gen_progress := progress_of STAGE_COMPLETED, gen_completedAt := Some now2,
                    gen_processingToken := None, gen_leaseExpiresAt := None\<rparr>"])
      (use 1(4) r id in \<open>simp_all add: 1(5) reps lease_ok_def matches_def\<close>)
qed

text \<open>A start creates a generation whose id the ledger has never seen.\<close>

definition fresh_uuid :: "string \<Rightarrow> db \<Rightarrow> bool" where
  "fresh_uuid gid d \<longleftrightarrow> (\<forall>t \<in> set (creditTxs d). \<forall>a. tx_idempotencyKey t \<noteq> credit_key gid a)"

lemma sys_ok_start:
  assumes ok: "sys_ok d" and fresh: "fresh_uuid gid d"
    and step: "start_body cfg clk gid u rid key d = Inr (g, d')"
  shows "sys_ok d'"
  using step
proof (cases rule: start_body_cases)
  case duplicate
  with ok show ?thesis by simp
next
  case (created report user d2)
  let ?d1 = "d\<lparr>generations := generations d @ [g]\<rparr>"
  have id: "gen_id g = gid" "gen_reportId g = rid" "gen_userId g = u" "gen_status g = GS_QUEUED"
    "gen_priorReportStatus g = rep_status report" "gen_processingToken g = None" "gen_leaseExpiresAt g = None"
    by (simp_all add: created(8))
  have new: "gen_id h \<noteq> gid" "gen_reportId h = rid \<Longrightarrow> \<not> active_status (gen_status h)"
    if "h \<in> set (generations d)" for h
    using created(9) that id by (auto simp: generation_conflict_def)
  have old: "rep_status report \<in> {RS_DRAFT, RS_FAILED}"
    using created(7) by (auto simp: start_checks_Inr_iff)
  have ok1: "ledger_ok ?d1" using sys_okD(3) [OF ok] ledger_ok_cong [of ?d1 d] by simp
  have live: "live_ledger gid ?d1" using fresh by (auto simp: live_ledger_def fresh_uuid_def)
  have unres: "credit_state gid ?d1 = Unreserved"
    using fresh by (auto simp: credit_state_cases findReservation_def find_tx_def find_first_None_iff fresh_uuid_def)
  note led = ledger.res_step [OF ok1 live created(10)]
  note frame = credit_frameD [OF credit_frames(1) [OF created(10)]]
  have view: "creditTxs d' = creditTxs d2" "grants d' = grants d2" by (simp_all add: created(11))
  have vw: "credit_state h d' = credit_state h d2" "live_ledger h d' = live_ledger h d2"
     "credit_state h ?d1 = credit_state h d" "live_ledger h ?d1 = live_ledger h d" for h
    using credit_view_cong [OF view(1)] credit_view_cong [of ?d1 d] by simp_all
  have gens: "generations d' = generations d @ [g]" and outs: "outputs d' = outputs d"
    and reps: "reports d' = update_where (\<lambda>r. rep_id r = rid) (\<lambda>r. r\<lparr>rep_status := RS_QUEUED\<rparr>) (reports d)"
    using frame by (simp_all add: created(11))
  have "ledger_ok d'" using led ledger_ok_cong [OF view(2,1)] by simp
  moreover have "keyed rep_id (reports d')" "keyed gen_id (generations d')"
    using sys_okD(1,2) [OF ok] new(1) by (auto simp: reps gens keyed_append1 id)
  moreover have "ledger_refs d'"
    using sys_okD(4) [OF ok] credit_refs [of gid ?d1 d2] created(10) ledger_okD(1) [OF ok1]
    by (fastforce simp: ledger_refs_def gens view id)
  moreover have "one_active d'"
    unfolding one_active_def
  proof (intro ballI impI)
    fix a b assume ab: "a \<in> set (generations d')" "b \<in> set (generations d')" "gen_reportId a = gen_reportId b"
      "active_status (gen_status a)" "active_status (gen_status b)"
    have cases: "h = g \<or> h \<in> set (generations d)" if "h \<in> set (generations d')" for h using that by (auto simp: gens)
    show "gen_id a = gen_id b"
    proof (cases "a = g \<or> b = g")
      case True
      then have "a = b" using cases [OF ab(1)] cases [OF ab(2)] new(2) ab(3-5) id(2) by metis
      then show ?thesis by simp
    next
      case False
      then show ?thesis using cases [OF ab(1)] cases [OF ab(2)] one_activeD [OF sys_okD(5) [OF ok] _ _ ab(3-5)] by blast
    qed
  qed
  moreover have noout: "out_reportId q \<noteq> rid" if "q \<in> set (outputs d)" for q
    using sys_okD(7) [OF ok created(2)] old that created(3) by (auto simp: rep_ok_def)
  moreover have exr: "(\<exists>r \<in> set (reports d'). rep_id r = i \<and> rep_userId r = j) \<longleftrightarrow>
      (\<exists>r \<in> set (reports d). rep_id r = i \<and> rep_userId r = j)" for i j
    using ex_update_where [of "\<lambda>r. (rep_id r, rep_userId r)" "\<lambda>r. r\<lparr>rep_status := RS_QUEUED\<rparr>" _ "reports d" "(i, j)"]
    by (simp add: reps)
  moreover have "gen_ok d' h" if "h \<in> set (generations d')" for h
  proof (cases "h = g")
    case True
    have "out_generationId q \<noteq> gid" if "q \<in> set (outputs d)" for q
      using sys_okD(8) [OF ok that] new(1) by (auto simp: out_ok_def)
    then show ?thesis
      using True led unres old created(2-4) vw live exr
      by (auto simp: gen_ok_def lease_ok_def id outs)
  next
    case False
    with that have h: "h \<in> set (generations d)" by (simp add: gens)
    have ex: "\<exists>r \<in> set (reports d'). rep_id r = gen_reportId h \<and> rep_userId r = gen_userId h"
      using sys_ok_credit(5) [OF ok h] exr by simp
    have "credit_state (gen_id h) d' = credit_state (gen_id h) d" "live_ledger (gen_id h) d' = live_ledger (gen_id h) d"
      using led vw new(1) [OF h] by auto
    with sys_okD(6) [OF ok h] ex show ?thesis by (simp add: gen_ok_def outs)
  qed
  moreover have "rep_ok d' r'" if r': "r' \<in> set (reports d')" for r'
  proof -
    obtain r where r: "r \<in> set (reports d)" "r' = (if rep_id r = rid then r\<lparr>rep_status := RS_QUEUED\<rparr> else r)"
      using r' unfolding reps in_update_where by blast
    show ?thesis
    proof (cases "rep_id r = rid")
      case True
      then have "r = report" using keyed_eq [OF sys_okD(1) [OF ok] r(1) created(2)] created(3) by simp
      then have "r' = report\<lparr>rep_status := RS_QUEUED\<rparr>" using r(2) created(3) by simp
      then show ?thesis
        using new(2) noout created(3) id by (force simp: rep_ok_def gens outs active_status_def)
    next
      case False
      with r sys_okD(7) [OF ok r(1)] show ?thesis by (auto simp: rep_ok_def gens outs id)
    qed
  qed
  moreover have "out_ok d' q" if "q \<in> set (outputs d')" for q
    using sys_okD(8) [OF ok, of q] that by (auto simp: out_ok_def outs gens)
  ultimately show ?thesis unfolding sys_ok_def by blast
qed

section \<open>Deletions\<close>

text \<open>Deleting generations leaves their ledger entries with a null generation.\<close>

definition detach :: "string set \<Rightarrow> credit_tx_row list \<Rightarrow> credit_tx_row list" where
  "detach I txs = update_where (\<lambda>t. \<exists>i \<in> I. tx_generationId t = Some i) (\<lambda>t. t\<lparr>tx_generationId := None\<rparr>) txs"

lemma in_detach:
  "t \<in> set (detach I txs) \<Longrightarrow> \<exists>u \<in> set txs. tx_idempotencyKey t = tx_idempotencyKey u \<and> tx_type t = tx_type u \<and>
     tx_grantId t = tx_grantId u \<and>
     (t = u \<and> (\<forall>i \<in> I. tx_generationId u \<noteq> Some i) \<or> tx_generationId t = None \<and> (\<exists>i \<in> I. tx_generationId u = Some i))"
  unfolding detach_def in_update_where
  by (elim bexE) (simp split: if_splits, auto)

lemma detach_mem:
  "u \<in> set txs \<Longrightarrow> \<exists>t \<in> set (detach I txs). tx_idempotencyKey t = tx_idempotencyKey u \<and> tx_grantId t = tx_grantId u"
  using ex_update_where [of "\<lambda>t. (tx_idempotencyKey t, tx_grantId t)" "\<lambda>t. t\<lparr>tx_generationId := None\<rparr>" _ txs
      "(tx_idempotencyKey u, tx_grantId u)"]
  by (auto simp: detach_def)

lemma count_detach:
  "(\<And>t. p (t\<lparr>tx_generationId := None\<rparr>) = p t) \<Longrightarrow> count_where p (detach I txs) = count_where p txs"
  unfolding detach_def by (rule count_update_where_inv)

lemma ledger_ok_detach:
  assumes ok: "ledger_ok d" and d': "creditTxs d' = detach I (creditTxs d)" "grants d' = grants d"
  shows "ledger_ok d'"
proof -
  have "keyed tx_idempotencyKey (creditTxs d')" using ledger_okD(2) [OF ok] by (simp add: d' detach_def)
  moreover have "tx_shape t \<and> tx_paired (creditTxs d') t \<and> (\<forall>i. tx_grantId t = Some i \<longrightarrow> i \<in> gr_id ` set (grants d'))"
    if t: "t \<in> set (creditTxs d')" for t
  proof -
    from in_detach [OF t [unfolded d']] obtain u where u: "u \<in> set (creditTxs d)"
      "tx_idempotencyKey t = tx_idempotencyKey u" "tx_type t = tx_type u" "tx_grantId t = tx_grantId u"
      "t = u \<or> tx_generationId t = None" by blast
    have "tx_shape t" using ledger_okD(3) [OF ok u(1)] u(2-5)
      by (auto simp: tx_shape_def split: credit_tx_type.splits)
    moreover have "tx_paired (creditTxs d') t"
      using ledger_okD(4) [OF ok u(1)] detach_mem [of _ "creditTxs d" I] u(2,4)
      unfolding tx_paired_def d'(1) by metis
    ultimately show ?thesis using ledger_okD(5) [OF ok u(1)] u(4) d'(2) by simp
  qed
  moreover have "grant_balanced (creditTxs d') g" if "g \<in> set (grants d')" for g
    using ledger_okD(6) [OF ok, of g] that
    by (simp add: grant_balanced_def d' count_detach reserved_of_def released_of_def)
  ultimately show ?thesis using ledger_okD(1) [OF ok] unfolding ledger_ok_def d'(2) by blast
qed

lemma find_first_update_neq:
  assumes "\<And>r. q r \<Longrightarrow> \<not> p r" "\<And>r. q r \<Longrightarrow> \<not> p (f r)"
  shows "find_first p (update_where q f rows) = find_first p rows"
  by (induction rows) (auto simp: find_first_Cons update_where_Cons assms)

lemma find_first_update_None:
  assumes "\<And>r. p (f r) = p r"
  shows "find_first p (update_where q f rows) = None \<longleftrightarrow> find_first p rows = None"
  by (induction rows) (auto simp: find_first_Cons update_where_Cons assms)

lemma credit_view_detach:
  assumes d': "creditTxs d' = detach I (creditTxs d)" and h: "h \<notin> I"
  shows "credit_state h d' = credit_state h d" "live_ledger h d \<Longrightarrow> live_ledger h d'"
proof -
  have "findTerminal h d' = findTerminal h d"
    unfolding findTerminal_def d' detach_def by (rule find_first_update_neq) (use h in auto)
  moreover have "findReservation h d' = None \<longleftrightarrow> findReservation h d = None"
    unfolding findReservation_def find_tx_def d' detach_def by (rule find_first_update_None) simp
  ultimately show "credit_state h d' = credit_state h d"
    by (cases "findReservation h d"; cases "findReservation h d'") (auto simp: credit_state_def)
  assume live: "live_ledger h d"
  show "live_ledger h d'"
    unfolding live_ledger_def
  proof (intro ballI impI)
    fix t assume t: "t \<in> set (creditTxs d')"
      "tx_idempotencyKey t = credit_key h ''consume'' \<or> tx_idempotencyKey t = credit_key h ''release''"
    from in_detach [OF t(1) [unfolded d']] obtain u where u: "u \<in> set (creditTxs d)"
      "tx_idempotencyKey t = tx_idempotencyKey u" "t = u \<or> (\<exists>i \<in> I. tx_generationId u = Some i)" by blast
    then have "tx_generationId u = Some h" using live t(2) by (auto simp: live_ledger_def)
    with u(3) h show "tx_generationId t = Some h" by auto
  qed
qed

lemma sys_ok_delete:
  assumes ok: "sys_ok d"
    and P: "\<And>g. g \<in> set (generations d) \<Longrightarrow> P g \<Longrightarrow> \<not> active_status (gen_status g)"
      "\<And>g. g \<in> set (generations d) \<Longrightarrow> P g \<Longrightarrow> \<not> Q (gen_reportId g) \<Longrightarrow> gen_status g \<noteq> GS_COMPLETED"
      "\<And>g. g \<in> set (generations d) \<Longrightarrow> Q (gen_reportId g) \<Longrightarrow> P g"
    and d': "generations d' = delete_where P (generations d)" "reports d' = delete_where (\<lambda>r. Q (rep_id r)) (reports d)"
      "set (outputs d') = {q \<in> set (outputs d). \<forall>g \<in> set (generations d). P g \<longrightarrow> gen_id g \<noteq> out_generationId q}"
      "creditTxs d' = detach (gen_id ` {g \<in> set (generations d). P g}) (creditTxs d)" "grants d' = grants d"
  shows "sys_ok d'"
proof -
  let ?I = "gen_id ` {g \<in> set (generations d). P g}"
  have kept: "gen_id h \<notin> ?I" if "h \<in> set (generations d)" "\<not> P h" for h
    using that keyed_eq [OF sys_okD(2) [OF ok] that(1)] by auto
  have gin: "h \<in> set (generations d') \<longleftrightarrow> h \<in> set (generations d) \<and> \<not> P h" for h by (simp add: d')
  have "ledger_ok d'" by (rule ledger_ok_detach [OF sys_okD(3) [OF ok] d'(4,5)])
  moreover have "keyed rep_id (reports d')" "keyed gen_id (generations d')"
    using sys_okD(1,2) [OF ok] by (simp_all add: d' keyed_delete_where)
  moreover have "ledger_refs d'"
    unfolding ledger_refs_def
  proof (intro ballI allI impI)
    fix t i assume t: "t \<in> set (creditTxs d')" "tx_generationId t = Some i"
    from in_detach [OF t(1) [unfolded d'(4)]] t(2) have "t \<in> set (creditTxs d)" "i \<notin> ?I" by auto
    then show "i \<in> gen_id ` set (generations d')"
      using sys_okD(4) [OF ok] t(2) unfolding ledger_refs_def by (fastforce simp: d'(1))
  qed
  moreover have "one_active d'"
    unfolding one_active_def using one_activeD [OF sys_okD(5) [OF ok]] gin by (intro ballI impI) blast
  moreover have "gen_ok d' h" if "h \<in> set (generations d')" for h
  proof -
    have h: "h \<in> set (generations d)" "\<not> P h" using that gin by auto
    note k = kept [OF h] and gh = sys_okD(6) [OF ok h(1)]
    have "\<exists>r \<in> set (reports d'). rep_id r = gen_reportId h \<and> rep_userId r = gen_userId h"
    proof -
      obtain r where "r \<in> set (reports d)" "rep_id r = gen_reportId h" "rep_userId r = gen_userId h"
        using sys_ok_credit(5) [OF ok h(1)] by blast
      with P(3) [OF h(1)] h(2) show ?thesis by (intro bexI [of _ r]) (auto simp: d'(2))
    qed
    moreover have "(\<exists>q \<in> set (outputs d'). out_generationId q = gen_id h) \<longleftrightarrow> (\<exists>q \<in> set (outputs d). out_generationId q = gen_id h)"
    proof
      assume "\<exists>q \<in> set (outputs d). out_generationId q = gen_id h"
      then obtain q where q: "q \<in> set (outputs d)" "out_generationId q = gen_id h" by blast
      have "gen_id g \<noteq> gen_id h" if "g \<in> set (generations d)" "P g" for g
        using k that by (metis (mono_tags, lifting) imageI mem_Collect_eq)
      then have "\<forall>g \<in> set (generations d). P g \<longrightarrow> gen_id g \<noteq> out_generationId q" unfolding q(2) by blast
      then have "q \<in> set (outputs d')" unfolding d'(3) using q(1) by simp
      with q(2) show "\<exists>q \<in> set (outputs d'). out_generationId q = gen_id h" by blast
    next
      assume "\<exists>q \<in> set (outputs d'). out_generationId q = gen_id h"
      then show "\<exists>q \<in> set (outputs d). out_generationId q = gen_id h" unfolding d'(3) by blast
    qed
    ultimately show ?thesis
      using gh credit_view_detach [OF d'(4) k] by (simp add: gen_ok_def)
  qed
  moreover have "rep_ok d' r" if "r \<in> set (reports d')" for r
  proof -
    have r: "r \<in> set (reports d)" "\<not> Q (rep_id r)" using that by (auto simp: d')
    have g: "(\<exists>g \<in> set (generations d'). gen_reportId g = rep_id r \<and> gen_status g = s) \<longleftrightarrow>
        (\<exists>g \<in> set (generations d). gen_reportId g = rep_id r \<and> gen_status g = s)" if s: "active_status s" for s
    proof
      assume "\<exists>g \<in> set (generations d). gen_reportId g = rep_id r \<and> gen_status g = s"
      then obtain g where g: "g \<in> set (generations d)" "gen_reportId g = rep_id r" "gen_status g = s" by blast
      with P(1) s have "g \<in> set (generations d')" unfolding gin by blast
      with g(2,3) show "\<exists>g \<in> set (generations d'). gen_reportId g = rep_id r \<and> gen_status g = s" by blast
    qed (auto simp: gin)
    have "(\<exists>q \<in> set (outputs d'). out_reportId q = rep_id r) \<longleftrightarrow> (\<exists>q \<in> set (outputs d). out_reportId q = rep_id r)"
    proof
      assume "\<exists>q \<in> set (outputs d). out_reportId q = rep_id r"
      then obtain q where q: "q \<in> set (outputs d)" "out_reportId q = rep_id r" by blast
      have "\<not> P g" if g: "g \<in> set (generations d)" "gen_id g = out_generationId q" for g
      proof
        assume "P g"
        obtain h where "h \<in> set (generations d)" "gen_id h = out_generationId q" "gen_reportId h = out_reportId q"
          using sys_okD(8) [OF ok q(1)] by (auto simp: out_ok_def)
        with g have "h = g" using keyed_eq [OF sys_okD(2) [OF ok]] by metis
        with \<open>gen_reportId h = out_reportId q\<close> q(2) r(2) have "\<not> Q (gen_reportId g)" by simp
        from P(2) [OF g(1) \<open>P g\<close> this] show False
          using sys_okD(6) [OF ok g(1)] q(1) g(2) by (auto simp: gen_ok_def)
      qed
      with q show "\<exists>q \<in> set (outputs d'). out_reportId q = rep_id r" by (auto simp: d'(3))
    qed (auto simp: d'(3))
    then show ?thesis using sys_okD(7) [OF ok r(1)] g [of GS_QUEUED] g [of GS_PROCESSING] by (simp add: rep_ok_def)
  qed
  moreover have "out_ok d' q" if "q \<in> set (outputs d')" for q
  proof -
    have q: "q \<in> set (outputs d)" "\<forall>g \<in> set (generations d). P g \<longrightarrow> gen_id g \<noteq> out_generationId q"
      using that unfolding d'(3) by simp_all
    obtain h where h: "h \<in> set (generations d)" "gen_id h = out_generationId q" "gen_reportId h = out_reportId q"
      using sys_okD(8) [OF ok q(1)] by (auto simp: out_ok_def)
    with q(2) have "h \<in> set (generations d')" unfolding gin by blast
    with h(2,3) show ?thesis unfolding out_ok_def by blast
  qed
  ultimately show ?thesis unfolding sys_ok_def by blast
qed

lemma sys_ok_cong:
  assumes "reports d' = reports d" "generations d' = generations d" "outputs d' = outputs d"
    "grants d' = grants d" "creditTxs d' = creditTxs d"
  shows "sys_ok d' = sys_ok d"
proof -
  note v = credit_view_cong [OF assms(5)] and l = ledger_ok_cong [OF assms(4,5)]
  have "gen_ok d' g = gen_ok d g" "rep_ok d' r = rep_ok d r" "out_ok d' q = out_ok d q" for g r q
    by (simp_all add: gen_ok_def rep_ok_def out_ok_def assms v)
  then show ?thesis by (simp add: sys_ok_def ledger_refs_def one_active_def assms l)
qed

text \<open>A release reads and writes the grants and the ledger only.\<close>

lemma release_irrelevant:
  assumes same: "creditTxs dv = creditTxs d" "grants dv = grants d"
    and rel: "releaseInTransaction gid r d = Inr d1"
  shows "releaseInTransaction gid r dv = Inr (dv\<lparr>grants := grants d1, creditTxs := creditTxs d1\<rparr>)"
proof -
  have view: "findReservation gid dv = findReservation gid d" "findTerminal gid dv = findTerminal gid d"
    using same by (simp_all add: findReservation_def find_tx_def findTerminal_def)
  have conf: "credit_tx_conflict dv t = credit_tx_conflict d t" for t
    using same by (simp add: credit_tx_conflict_def)
  have id: "dv\<lparr>grants := grants d, creditTxs := creditTxs d\<rparr> = dv" unfolding same [symmetric] by simp
  show ?thesis
  proof (cases "findReservation gid d")
    case None
    with rel view id show ?thesis by (simp add: releaseInTransaction_def)
  next
    case (Some t)
    show ?thesis
    proof (cases "tx_grantId t = None \<or> findTerminal gid d \<noteq> None")
      case True
      have "releaseInTransaction gid r d = Inr d" "releaseInTransaction gid r dv = Inr dv"
        using True Some view
        by (cases "tx_grantId t"; cases "findTerminal gid d"; simp add: releaseInTransaction_def)+
      with rel id show ?thesis by simp
    next
      case False
      then obtain i where i: "tx_grantId t = Some i" "findTerminal gid d = None" by auto
      let ?t = "\<lparr>tx_userId = tx_userId t, tx_generationId = Some gid, tx_grantId = Some i,
          tx_type = TX_RELEASE, tx_amount = 1, tx_idempotencyKey = credit_key gid ''release'',
          tx_reason = take 200 r\<rparr>"
      have body: "releaseInTransaction gid r x =
          (if find_first (\<lambda>g. gr_id g = i) (grants x) = None then Inl (PrismaError ''P2025'')
           else create_credit_tx ?t (x\<lparr>grants := update_where (\<lambda>g. gr_id g = i) (add_credits 1) (grants x)\<rparr>))"
        if "findReservation gid x = Some t" "findTerminal gid x = None" for x
        using that i(1) by (simp add: releaseInTransaction_def)
      have "find_first (\<lambda>g. gr_id g = i) (grants d) \<noteq> None" "\<not> credit_tx_conflict d ?t"
        "d1 = d\<lparr>grants := update_where (\<lambda>g. gr_id g = i) (add_credits 1) (grants d), creditTxs := creditTxs d @ [?t]\<rparr>"
        using rel unfolding body [OF Some i(2)] create_credit_tx_def by (simp_all split: if_splits)
      then show ?thesis
        unfolding body [OF view(1) [unfolded Some] view(2) [unfolded i(2)]] create_credit_tx_def
        by (simp add: same conf)
    qed
  qed
qed

lemma delete_where_update_where:
  "(\<And>r. p r \<Longrightarrow> p (f r)) \<Longrightarrow> delete_where p (update_where p f rows) = delete_where p rows"
  by (induction rows) (simp_all add: delete_where_def update_where_Cons)

text \<open>The compensation of a failed enqueue: the credit is given back and the generation is gone.\<close>

lemma sys_ok_compensate:
  assumes ok: "sys_ok d" and step: "compensate_body gid d = Inr (v, d')"
  shows "sys_ok d'"
  using step
proof (cases rule: compensate_body_cases)
  case noop
  with ok show ?thesis by simp
next
  case (undone g d1)
  have g: "g \<in> set (generations d)" "gen_id g = gid" using find_generation_SomeD [OF undone(1)] by auto
  have act: "active_status (gen_status g)" using undone(2) by simp
  let ?F = "\<lambda>g. g\<lparr>gen_status := GS_CANCELLED\<rparr>"
  let ?R = "\<lambda>r. r\<lparr>rep_status := gen_priorReportStatus g\<rparr>"
  define dv where "dv = d\<lparr>generations := update_where (\<lambda>h. gen_id h = gen_id g) ?F (generations d),
      reports := update_where (\<lambda>r. rep_id r = gen_reportId g) ?R (reports d)\<rparr>"
  define dw where "dw = dv\<lparr>grants := grants d1, creditTxs := creditTxs d1\<rparr>"
  note frame = credit_frameD [OF credit_frames(3) [OF undone(3)]]
  have pre: "creditTxs dv = creditTxs d" "grants dv = grants d" by (simp_all add: dv_def)
  have rel: "releaseInTransaction gid ''Queue enqueue failed'' dv = Inr dw"
    unfolding dw_def by (rule release_irrelevant [OF pre undone(3)])
  have okw: "sys_ok dw"
    by (rule sys_ok_settle [OF ok g(1) act, where r = "''Queue enqueue failed''" and d' = dw and new = "[]"
        and dm = dv and R = ?R and F = ?F])
      (use rel g undone(2) sys_ok_credit(3,4) [OF ok g(1)] in \<open>simp_all add: dv_def lease_ok_def matches_def\<close>)
  have status: "rep_status r = RS_QUEUED" if "r \<in> set (reports d)" "rep_id r = gen_reportId g" for r
    using sys_ok_active(1) [OF ok g(1) act that] undone(2) by (simp add: matches_def)
  have fields: "generations d' = delete_where (\<lambda>h. gen_id h = gid) (generations d)"
    "reports d' = update_where (\<lambda>r. rep_id r = gen_reportId g \<and> rep_status r = RS_QUEUED) ?R (reports d)"
    "outputs d' = delete_where (\<lambda>q. out_generationId q = gid) (outputs d)"
    "creditTxs d' = update_where (\<lambda>t. tx_generationId t = Some gid) (\<lambda>t. t\<lparr>tx_generationId := None\<rparr>) (creditTxs d1)"
    "grants d' = grants d1"
    using undone(4) frame(4,5) unfolding delete_generation_def
    by (simp_all split: if_splits add: eq_commute [of _ d'])
  have fw: "generations dw = update_where (\<lambda>h. gen_id h = gen_id g) ?F (generations d)" "outputs dw = outputs d"
    "reports dw = update_where (\<lambda>r. rep_id r = gen_reportId g) ?R (reports d)" "creditTxs dw = creditTxs d1"
    "grants dw = grants d1"
    by (simp_all add: dw_def dv_def)
  have reps: "reports d' = reports dw"
    unfolding fields fw update_where_def using status by (intro map_cong) auto
  have mem: "h \<in> set (generations dw) \<and> gen_id h = gid \<longleftrightarrow> h = ?F g" for h
  proof
    assume h: "h \<in> set (generations dw) \<and> gen_id h = gid"
    then have "h \<in> set (update_where (\<lambda>x. gen_id x = gen_id g) ?F (generations d))" by (simp add: fw)
    then obtain k where k: "k \<in> set (generations d)" "h = (if gen_id k = gen_id g then ?F k else k)"
      unfolding in_update_where by blast
    with h g(2) have "gen_id k = gen_id g" by (cases "gen_id k = gen_id g") simp_all
    with k keyed_eq [OF sys_okD(2) [OF ok] k(1) g(1)] show "h = ?F g" by simp
  next
    assume "h = ?F g"
    with g show "h \<in> set (generations dw) \<and> gen_id h = gid"
      by (auto simp: fw update_where_def image_iff intro!: bexI [of _ g])
  qed
  have nooutput: "out_generationId q \<noteq> gid" if "q \<in> set (outputs d)" for q
  proof -
    obtain r where r: "r \<in> set (reports d)" "rep_id r = gen_reportId g" using sys_ok_credit(5) [OF ok g(1)] by blast
    show ?thesis using sys_ok_active(3) [OF ok g(1) act r that] g(2) by simp
  qed
  show ?thesis
  proof (rule sys_ok_delete [OF okw, where P = "\<lambda>h. gen_id h = gid" and Q = "\<lambda>i. False"])
    show "\<not> active_status (gen_status h)" "\<not> False \<Longrightarrow> gen_status h \<noteq> GS_COMPLETED"
      if "h \<in> set (generations dw)" "gen_id h = gid" for h
      using mem [of h] that by auto
    show "generations d' = delete_where (\<lambda>h. gen_id h = gid) (generations dw)"
      unfolding fields fw g(2) by (simp add: delete_where_update_where)
    have "gen_id ` {h \<in> set (generations dw). gen_id h = gid} = {gid}"
      unfolding mem using g(2) by simp
    then show "creditTxs d' = detach (gen_id ` {h \<in> set (generations dw). gen_id h = gid}) (creditTxs dw)"
      by (simp add: fields fw detach_def)
    show "set (outputs d') = {q \<in> set (outputs dw). \<forall>h \<in> set (generations dw). gen_id h = gid \<longrightarrow> gen_id h \<noteq> out_generationId q}"
      unfolding fields fw using nooutput by auto
    show "grants d' = grants dw" by (simp add: fields fw)
    show "reports d' = delete_where (\<lambda>r. False) (reports dw)" by (simp add: reps delete_where_def)
  qed simp
qed

end
