(* ===== verification/Reports.thy ===== *)
theory Reports
  imports Storage
begin

text \<open>
  \<open>src/reports/reports.service.ts\<close> and \<open>src/reports/report-lifecycle.ts\<close>: creating, listing,
  changing, duplicating and deleting reports. The state is \<open>world\<close>, the database and the bucket. Flags
  say whether the database refuses a statement; the replies of S3 are functions of the key.
\<close>

section \<open>The lifecycle guard\<close>

definition EDITABLE_REPORT_STATUSES :: "report_status list" where
  "EDITABLE_REPORT_STATUSES = [RS_DRAFT, RS_FAILED]"

definition assertReportEditable :: "report_status \<Rightarrow> unit result" where
  "assertReportEditable status =
     (if status \<in> set EDITABLE_REPORT_STATUSES then Inr ()
      else if status = RS_QUEUED \<or> status = RS_PROCESSING
      then Inl (conflict ''REPORT_GENERATION_ACTIVE'' ''The report cannot be changed while generation is active'')
      else Inl (conflict ''REPORT_NOT_EDITABLE'' ''The report cannot be changed in its current state''))"

section \<open>Creating and reading\<close>

record report_dto =
  dto_title :: utext
  dto_notes :: "utext option"

definition new_report :: "string \<Rightarrow> string \<Rightarrow> utext \<Rightarrow> utext option \<Rightarrow> int \<Rightarrow> report_row" where
  "new_report reportId userId title notes now =
     \<lparr>rep_id = reportId, rep_userId = userId, rep_title = title, rep_notes = notes, rep_status = RS_DRAFT,
      rep_lockedUntil = None, rep_windowStartedAt = None, rep_failureCount = 0, rep_createdAt = now\<rparr>"

definition create_report_row :: "report_row \<Rightarrow> db \<Rightarrow> exn + db" where
  "create_report_row r d =
     (if exists_where (\<lambda>x. rep_id x = rep_id r) (reports d) then Inl (PrismaError ''P2002'')
      else Inr (d\<lparr>reports := reports d @ [r]\<rparr>))"

definition create :: "string \<Rightarrow> int \<Rightarrow> string \<Rightarrow> report_dto \<Rightarrow> db \<Rightarrow> exn + (report_row \<times> db)" where
  "create newId now userId dto d =
     (let r = new_report newId userId (dto_title dto) (dto_notes dto) now in
      bindE (create_report_row r d) (\<lambda>d1. Inr (r, d1)))"

record paginated_reports =
  pag_data :: "report_row list"
  pag_page :: nat
  pag_limit :: nat
  pag_total :: nat
  pag_totalPages :: nat

text \<open>\<open>Math.ceil(total / limit)\<close>; the DTO makes \<open>page\<close> and \<open>limit\<close> at least 1.\<close>

definition findAll :: "string \<Rightarrow> nat \<Rightarrow> nat \<Rightarrow> db \<Rightarrow> paginated_reports" where
  "findAll userId page limit d =
     (let mine = sort_key (\<lambda>r. - rep_createdAt r) (filter (\<lambda>r. rep_userId r = userId) (reports d));
          total = count_where (\<lambda>r. rep_userId r = userId) (reports d)
      in \<lparr>pag_data = take limit (drop ((page - 1) * limit) mine), pag_page = page, pag_limit = limit,
          pag_total = total, pag_totalPages = (total + limit - 1) div limit\<rparr>)"

definition owned_report :: "string \<Rightarrow> string \<Rightarrow> db \<Rightarrow> report_row option" where
  "owned_report userId reportId d = find_first (\<lambda>r. rep_id r = reportId \<and> rep_userId r = userId) (reports d)"

definition report_not_found :: exn where
  "report_not_found = HttpError 404 [] ''Report not found'' []"

definition findOne :: "string \<Rightarrow> string \<Rightarrow> db \<Rightarrow> report_row result" where
  "findOne userId reportId d = fromOption report_not_found (owned_report userId reportId d)"

section \<open>Changing\<close>

text \<open>A property missing from the body is \<open>undefined\<close> and leaves its column.\<close>

record update_dto =
  upd_title :: "utext option"
  upd_notes :: "utext option"

definition apply_update :: "update_dto \<Rightarrow> report_row \<Rightarrow> report_row" where
  "apply_update dto r =
     r\<lparr>rep_title := (case upd_title dto of None \<Rightarrow> rep_title r | Some t \<Rightarrow> t),
       rep_notes := (case upd_notes dto of None \<Rightarrow> rep_notes r | Some n \<Rightarrow> Some n)\<rparr>"

text \<open>\<open>env\<close> is what other processes commit between the update and the reads that follow it.\<close>

definition update :: "(db \<Rightarrow> db) \<Rightarrow> string \<Rightarrow> string \<Rightarrow> update_dto \<Rightarrow> db \<Rightarrow> report_row result \<times> db" where
  "update env userId reportId dto d =
     (let p = (\<lambda>r. rep_id r = reportId \<and> rep_userId r = userId \<and> rep_status r \<in> set EDITABLE_REPORT_STATUSES);
          n = count_where p (reports d);
          d1 = env (d\<lparr>reports := update_where p (apply_update dto) (reports d)\<rparr>)
      in if n = 0
         then ((case owned_report userId reportId d1 of
                  None \<Rightarrow> Inl report_not_found
                | Some owned \<Rightarrow>
                    bindE (assertReportEditable (rep_status owned)) (\<lambda>_.
                    Inl (conflict ''REPORT_UPDATE_CONFLICT'' ''The report changed concurrently; retry the request''))), d1)
         else (findOne userId reportId d1, d1))"

section \<open>Duplicating\<close>

definition REPORT_TITLE_MAX_LENGTH :: nat where
  "REPORT_TITLE_MAX_LENGTH = 120"

definition COPY_SUFFIXES :: "string \<Rightarrow> utext" where
  "COPY_SUFFIXES language =
     [32, 8212, 32] @
     (if language = ''de'' then [75, 111, 112, 105, 101]
      else if language = ''es'' then [67, 111, 112, 105, 97]
      else if language = ''fr'' then [67, 111, 112, 105, 101]
      else if language = ''uk'' then [1050, 1086, 1087, 1110, 1103]
      else [67, 111, 112, 121])"

definition duplicateTitle :: "utext \<Rightarrow> string \<Rightarrow> utext" where
  "duplicateTitle title language =
     (let suffix = COPY_SUFFIXES language;
          maximumBaseLength = REPORT_TITLE_MAX_LENGTH - length suffix;
          base = utrim (take maximumBaseLength (utrim title))
      in base @ suffix)"

text \<open>\<open>createMany\<close> with \<open>skipDuplicates\<close>.\<close>

fun create_tasks :: "int \<Rightarrow> cleanup_reason \<Rightarrow> string list \<Rightarrow> db \<Rightarrow> db" where
  "create_tasks now reason [] d = d"
| "create_tasks now reason (k # ks) d =
     create_tasks now reason ks
       (if exists_where (\<lambda>t. cl_storageKey t = k) (cleanupTasks d) then d
        else d\<lparr>cleanupTasks := cleanupTasks d @
               [\<lparr>cl_storageKey = k, cl_reason = reason, cl_attemptCount = 0,
                 cl_lastAttemptAt = None, cl_createdAt = now\<rparr>]\<rparr>)"

record storage_env =
  se_bucket :: string
  se_copyFault :: "string \<Rightarrow> s3_error option"
  se_headFault :: "string \<Rightarrow> s3_error option"
  se_deleteFault :: "string \<Rightarrow> s3_error option"

definition rollbackDuplicateCopies :: "storage_env \<Rightarrow> bool \<Rightarrow> int \<Rightarrow> string list \<Rightarrow> world \<Rightarrow> world" where
  "rollbackDuplicateCopies se dbFails now keys w =
     (if length keys = 0 then w
      else if dbFails then w
      else snd (attemptMany (se_bucket se) (se_deleteFault se) now keys
             (w\<lparr>wdb := create_tasks now DUPLICATE_ROLLBACK keys (wdb w)\<rparr>)))"

text \<open>The copies: pairs of a source asset and its copy; the keys copied so far are returned.\<close>

fun copy_assets :: "storage_env \<Rightarrow> (asset_row \<times> asset_row) list \<Rightarrow> bucket \<Rightarrow> (unit result \<times> string list) \<times> bucket" where
  "copy_assets se [] bkt = ((Inr (), []), bkt)"
| "copy_assets se ((src, cp) # rest) bkt =
     (case copyObject (se_bucket se) (se_copyFault se (as_storageKey cp)) (se_headFault se (as_storageKey cp))
             (as_storageKey src) (as_storageKey cp) bkt of
        (Inl e, bkt1) \<Rightarrow> ((Inl e, []), bkt1)
      | (Inr size', bkt1) \<Rightarrow>
          (if size' \<noteq> (case as_verifiedSize cp of Some n \<Rightarrow> n | None \<Rightarrow> as_declaredSize cp)
           then ((Inl (PlainError ''Copied asset verification failed''), [as_storageKey cp]), bkt1)
           else (case copy_assets se rest bkt1 of
                   ((r, ks), bkt2) \<Rightarrow> ((r, as_storageKey cp # ks), bkt2))))"

definition asset_key :: "string \<Rightarrow> string \<Rightarrow> string \<Rightarrow> string \<Rightarrow> string" where
  "asset_key userId reportId assetId uuid =
     ''users/'' @ userId @ ''/reports/'' @ reportId @ ''/assets/'' @ assetId @ ''-'' @ uuid"

definition copy_of_asset :: "string \<Rightarrow> string \<Rightarrow> string \<Rightarrow> string \<Rightarrow> int \<Rightarrow> asset_row \<Rightarrow> asset_row" where
  "copy_of_asset userId reportId assetId uuid now a =
     a\<lparr>as_id := assetId, as_reportId := reportId, as_status := AS_READY,
       as_storageKey := asset_key userId reportId assetId uuid, as_rejectionReason := None,
       as_createdAt := now\<rparr>"

definition duplicate ::
  "storage_env \<Rightarrow> bool \<Rightarrow> bool \<Rightarrow> string \<Rightarrow> (nat \<Rightarrow> string) \<Rightarrow> (nat \<Rightarrow> string) \<Rightarrow> int \<Rightarrow> string \<Rightarrow> string \<Rightarrow>
     world \<Rightarrow> report_row result \<times> world" where
  "duplicate se createFails rollbackFails duplicateId assetIds uuids now userId reportId w =
     (case owned_report userId reportId (wdb w) of
        None \<Rightarrow> (Inl report_not_found, w)
      | Some source \<Rightarrow>
         (if rep_status source \<noteq> RS_READY
          then (Inl (conflict ''REPORT_NOT_DUPLICABLE'' ''Only a completed report can be duplicated''), w)
          else
            let sources = sort_key (\<lambda>a. (as_position a, as_createdAt a))
                  (filter (\<lambda>a. as_reportId a = rep_id source \<and> as_status a = AS_READY) (assets (wdb w)));
                copies = map (\<lambda>(i, a). copy_of_asset userId duplicateId (assetIds i) (uuids i) now a)
                  (zip [0..<length sources] sources);
                language = (case find_first (\<lambda>u. usr_id u = userId) (users (wdb w)) of
                              None \<Rightarrow> [] | Some u \<Rightarrow> usr_language u);
                r = new_report duplicateId userId (duplicateTitle (rep_title source) language) (rep_notes source) now;
                unavailable' = unavailable ''REPORT_DUPLICATION_FAILED''
                  ''The report could not be duplicated; retry the request''
            in (case copy_assets se (zip sources copies) (objects w) of
                  ((Inl e, copied), bkt) \<Rightarrow>
                     (Inl unavailable', rollbackDuplicateCopies se rollbackFails now copied (w\<lparr>objects := bkt\<rparr>))
                | ((Inr _, copied), bkt) \<Rightarrow>
                    (case (if createFails then Inl (PrismaError ''P2003'') else create_report_row r (wdb w)) of
                       Inl e \<Rightarrow> (Inl unavailable', rollbackDuplicateCopies se rollbackFails now copied (w\<lparr>objects := bkt\<rparr>))
                     | Inr d1 \<Rightarrow> (Inr r, w\<lparr>objects := bkt, wdb := d1\<lparr>assets := assets d1 @ copies\<rparr>\<rparr>)))))"

section \<open>Deleting\<close>

text \<open>The deletion of a report's row with everything its foreign keys cascade to.\<close>

definition delete_report_row :: "string \<Rightarrow> db \<Rightarrow> db" where
  "delete_report_row reportId d =
     (let goneG = (\<lambda>i. \<exists>g \<in> set (generations d). gen_id g = i \<and> gen_reportId g = reportId);
          goneA = (\<lambda>i. \<exists>a \<in> set (assets d). as_id a = i \<and> as_reportId a = reportId)
      in d\<lparr>reports := delete_where (\<lambda>r. rep_id r = reportId) (reports d),
           assets := delete_where (\<lambda>a. as_reportId a = reportId) (assets d),
           generations := delete_where (\<lambda>g. gen_reportId g = reportId) (generations d),
           outputs := delete_where (\<lambda>q. out_reportId q = reportId \<or> goneG (out_generationId q)) (outputs d),
           attempts := delete_where (\<lambda>a. goneG (att_generationId a) \<or>
               (case att_assetId a of None \<Rightarrow> False | Some i \<Rightarrow> goneA i)) (attempts d),
           transcriptions := delete_where (\<lambda>t. goneA (tr_assetId t)) (transcriptions d),
           creditTxs := update_where (\<lambda>t. \<exists>i. tx_generationId t = Some i \<and> goneG i)
               (\<lambda>t. t\<lparr>tx_generationId := None\<rparr>) (creditTxs d)\<rparr>)"

definition report_keys :: "string \<Rightarrow> db \<Rightarrow> string list" where
  "report_keys reportId d =
     map as_storageKey (filter (\<lambda>a. as_reportId a = reportId) (assets d)) @
     (case find_first (\<lambda>q. out_reportId q = reportId) (outputs d) of None \<Rightarrow> [] | Some q \<Rightarrow> [out_storageKey q])"

definition delete_body :: "int \<Rightarrow> string \<Rightarrow> string \<Rightarrow> (db, string list) tx" where
  "delete_body now userId reportId d =
     (case owned_report userId reportId d of
        None \<Rightarrow> Inl report_not_found
      | Some report \<Rightarrow>
         (if rep_status report = RS_QUEUED \<or> rep_status report = RS_PROCESSING
          then Inl (conflict ''REPORT_GENERATION_ACTIVE'' ''A report cannot be deleted while generation is active'')
          else let keys = report_keys (rep_id report) d;
                   d1 = (if length keys > 0 then create_tasks now REPORT_DELETE keys d else d)
               in Inr (keys, delete_report_row (rep_id report) d1)))"

text \<open>The loop of three serializable attempts; \<open>fault i\<close> is the error the database raises in attempt \<open>i\<close>.\<close>

fun delete_loop ::
  "(nat \<Rightarrow> exn option) \<Rightarrow> (nat \<Rightarrow> db \<Rightarrow> db) \<Rightarrow> (db, string list) tx \<Rightarrow> nat \<Rightarrow> nat \<Rightarrow> db \<Rightarrow> string list result \<times> db" where
  "delete_loop fault env body 0 attempt' d = (Inr [], d)"
| "delete_loop fault env body (Suc n) attempt' d =
     (let d1 = env attempt' d in
      case (case fault attempt' of Some e \<Rightarrow> Inl e | None \<Rightarrow> body d1) of
        Inr (keys, d2) \<Rightarrow> (Inr keys, d2)
      | Inl e \<Rightarrow>
         (if e \<noteq> PrismaError ''P2034'' then (Inl e, d1)
          else if attempt' = 3
          then (Inl (conflict ''REPORT_DELETE_CONFLICT'' ''The report could not be deleted; retry the request''), d1)
          else delete_loop fault env body n (attempt' + 1) d1))"

definition delete ::
  "storage_env \<Rightarrow> (nat \<Rightarrow> exn option) \<Rightarrow> (nat \<Rightarrow> db \<Rightarrow> db) \<Rightarrow> int \<Rightarrow> string \<Rightarrow> string \<Rightarrow> world \<Rightarrow> unit result \<times> world" where
  "delete se fault env now userId reportId w =
     (case delete_loop fault env (delete_body now userId reportId) 3 1 (wdb w) of
        (Inl e, d) \<Rightarrow> (Inl e, w\<lparr>wdb := d\<rparr>)
      | (Inr keys, d) \<Rightarrow>
          (Inr (), snd (attemptMany (se_bucket se) (se_deleteFault se) now keys (w\<lparr>wdb := d\<rparr>))))"

section \<open>Deletion, step by step\<close>

lemma create_tasks_frame:
  "\<exists>rows. create_tasks now reason ks d = d\<lparr>cleanupTasks := rows\<rparr>"
proof (induction ks arbitrary: d)
  case Nil
  have "create_tasks now reason [] d = d\<lparr>cleanupTasks := cleanupTasks d\<rparr>" by simp
  then show ?case by blast
next
  case (Cons k ks)
  show ?case using Cons.IH [of "d\<lparr>cleanupTasks := _\<rparr>"] Cons.IH [of d] by auto
qed

lemma delete_body_cases:
  assumes "delete_body now u rid d = Inr (keys, d')"
  obtains r rows where "r \<in> set (reports d)" "rep_id r = rid" "rep_status r \<noteq> RS_QUEUED"
    "rep_status r \<noteq> RS_PROCESSING" "rep_userId r = u" "keys = report_keys rid d"
    "create_tasks now REPORT_DELETE keys d = d\<lparr>cleanupTasks := rows\<rparr>"
    "d' = delete_report_row rid (d\<lparr>cleanupTasks := rows\<rparr>)"
proof -
  obtain r where r: "owned_report u rid d = Some r" "rep_status r \<noteq> RS_QUEUED" "rep_status r \<noteq> RS_PROCESSING"
    using assms by (auto simp: delete_body_def split: option.splits if_splits)
  from find_first_Some [OF r(1) [unfolded owned_report_def]]
  have rin: "r \<in> set (reports d)" "rep_id r = rid" "rep_userId r = u" by auto
  have keys: "keys = report_keys rid d" and d': "d' = delete_report_row rid (create_tasks now REPORT_DELETE keys d)"
    using assms r rin by (auto simp: delete_body_def Let_def)
  obtain rows where "create_tasks now REPORT_DELETE keys d = d\<lparr>cleanupTasks := rows\<rparr>"
    using create_tasks_frame by blast
  with that rin r keys d' show thesis by metis
qed

end
