(* ===== verification/Entitlements.thy ===== *)
theory Entitlements
  imports Credits
begin

text \<open>
  \<open>src/entitlements/entitlements.service.ts\<close>, the user's view of subscription and credits, and
  \<open>src/cli/grant-generation-credits.ts\<close>, the administrative grant. The view is related to the
  reservation of \<open>Credits\<close>, which reads the same rows.
\<close>

section \<open>The entitlements of a user\<close>

record entitlements =
  ent_subscription :: "(string \<times> subscription_status \<times> int) option"
  ent_available :: int
  ent_monthly :: int
  ent_purchased :: int
  ent_canGenerate :: bool

definition sum_remaining :: "grant_row list \<Rightarrow> int" where
  "sum_remaining gs = foldl (\<lambda>total g. total + gr_remainingCredits g) 0 gs"

definition getForUser :: "int \<Rightarrow> string \<Rightarrow> db \<Rightarrow> entitlements" where
  "getForUser now userId d =
     (let subscription = find_first (live_subscription now userId)
            (sort_key (\<lambda>s. - sub_currentPeriodEnd s) (subscriptions d));
          gs = filter (usable_grant now userId) (grants d);
          monthly = sum_remaining (filter (\<lambda>g. gr_source g = SUBSCRIPTION_MONTHLY) gs);
          purchased = sum_remaining (filter (\<lambda>g. gr_source g = PURCHASED_PACK) gs);
          available = sum_remaining gs
      in \<lparr>ent_subscription =
            map_option (\<lambda>s. (sub_planCode s, sub_status s, sub_currentPeriodEnd s)) subscription,
          ent_available = available, ent_monthly = monthly, ent_purchased = purchased,
          ent_canGenerate = available > 0\<rparr>)"

section \<open>The administrative grant\<close>

text \<open>
  The arguments are already split at \<open>--name=\<close>; \<open>amount\<close> is \<open>Number(...)\<close>, \<open>None\<close> for a value that
  is not an integer. \<open>normalizeEmail\<close> trims and lowers an address.
\<close>

definition lower_char :: "char \<Rightarrow> char" where
  "lower_char c = (let n = of_char c :: nat in
     if (65 \<le> n \<and> n \<le> 90) \<or> (192 \<le> n \<and> n \<le> 222 \<and> n \<noteq> 215) then char_of (n + 32) else c)"

definition normalizeEmail :: "string \<Rightarrow> string" where
  "normalizeEmail email = map lower_char (strim email)"

definition assertCreditGrantEnabled :: "string option \<Rightarrow> string option \<Rightarrow> unit result" where
  "assertCreditGrantEnabled nodeEnvironment developmentGrantEnabled =
     (if nodeEnvironment = Some ''production''
      then Inl (PlainError ''Development credit grants are disabled in production'')
      else if developmentGrantEnabled \<noteq> Some ''true''
      then Inl (PlainError ''ENABLE_DEV_CREDIT_GRANTS=true is required'')
      else Inr ())"

definition readArgument :: "string \<Rightarrow> string list \<Rightarrow> string option" where
  "readArgument name argv =
     (let prefix = ''--'' @ name @ ''='' in
      map_option (drop (length prefix)) (List.find (\<lambda>a. take (length prefix) a = prefix) argv))"

definition admin_key :: "string \<Rightarrow> string" where
  "admin_key requestKey = ''admin-credit-grant:'' @ requestKey"

definition grantCredits ::
  "string option \<Rightarrow> string option \<Rightarrow> (string \<Rightarrow> int option) \<Rightarrow> string \<Rightarrow> int \<Rightarrow> string list \<Rightarrow> db \<Rightarrow> exn + db" where
  "grantCredits nodeEnv devGrants toInteger newGrantId now argv d =
     (case (readArgument ''email'' argv, Option.bind (readArgument ''credits'' argv) toInteger,
            readArgument ''idempotency-key'' argv) of
        (Some email, Some amount, Some requestKey) \<Rightarrow>
          (if email = [] \<or> requestKey = [] \<or> amount < 1 \<or> amount > 1000
           then Inl (PlainError ''Usage'')
           else (case assertCreditGrantEnabled nodeEnv devGrants of
              Inl e \<Rightarrow> Inl e
            | Inr _ \<Rightarrow>
               (case find_first (\<lambda>u. usr_email u = normalizeEmail email) (users d) of
                  None \<Rightarrow> Inl (PlainError ''A verified user with that email was not found'')
                | Some user \<Rightarrow>
                   (if usr_emailVerifiedAt user = None
                    then Inl (PlainError ''A verified user with that email was not found'')
                    else (case find_tx (admin_key requestKey) d of
                        Some _ \<Rightarrow> Inr d
                      | None \<Rightarrow>
                         (case create_grant
                            \<lparr>gr_id = newGrantId, gr_userId = usr_id user, gr_source = ADMIN,
                             gr_totalCredits = amount, gr_remainingCredits = amount,
                             gr_validFrom = now, gr_expiresAt = None,
                             gr_subscriptionPeriodKey = None, gr_createdAt = now\<rparr> d of
                            Inl e \<Rightarrow> Inl e
                          | Inr d1 \<Rightarrow>
                              create_credit_tx
                                \<lparr>tx_userId = usr_id user, tx_generationId = None,
                                 tx_grantId = Some newGrantId, tx_type = TX_GRANT,
                                 tx_amount = amount, tx_idempotencyKey = admin_key requestKey,
                                 tx_reason = ''Protected administrative credit grant''\<rparr> d1))))))
      | _ \<Rightarrow> Inl (PlainError ''Usage''))"

section \<open>Lemmas\<close>

lemma sum_remaining_eq: "sum_remaining gs = sum_list (map gr_remainingCredits gs)"
proof -
  have "foldl (\<lambda>t g. t + gr_remainingCredits g) a gs = a + sum_list (map gr_remainingCredits gs)" for a
    by (induction gs arbitrary: a) simp_all
  then show ?thesis by (simp add: sum_remaining_def)
qed

lemma sum_remaining_pos_iff:
  assumes "\<And>g. g \<in> set gs \<Longrightarrow> gr_remainingCredits g > 0"
  shows "sum_remaining gs > 0 \<longleftrightarrow> gs \<noteq> []"
  using assms
proof (induction gs)
  case (Cons g gs)
  then have "sum_remaining gs \<ge> 0" by (force simp: sum_remaining_eq intro!: sum_list_nonneg)
  with Cons.prems [of g] show ?case by (simp add: sum_remaining_eq)
qed (simp add: sum_remaining_def)

lemma canGenerate_iff_usable:
  "ent_canGenerate (getForUser now u d) \<longleftrightarrow> (\<exists>g \<in> set (grants d). usable_grant now u g)"
proof -
  have "sum_remaining (filter (usable_grant now u) (grants d)) > 0 \<longleftrightarrow>
      filter (usable_grant now u) (grants d) \<noteq> []"
    by (rule sum_remaining_pos_iff) (auto dest: usable_grant_pos)
  then show ?thesis by (simp add: getForUser_def Let_def filter_empty_conv)
qed

lemma ent_subscription_None_iff:
  "ent_subscription (getForUser now u d) = None \<longleftrightarrow>
     find_first (live_subscription now u) (subscriptions d) = None"
  by (simp add: getForUser_def Let_def find_first_None_iff)

lemma ledger_ok_grant:
  assumes ok: "ledger_ok d" and fresh: "\<And>h. h \<in> set (grants d) \<Longrightarrow> gr_id h \<noteq> gr_id g"
    and new: "gr_remainingCredits g = gr_totalCredits g" "0 \<le> gr_totalCredits g"
  shows "ledger_ok (d\<lparr>grants := grants d @ [g]\<rparr>)"
proof -
  have "count_where (reserved_of (gr_id g)) (creditTxs d) = 0" "count_where (released_of (gr_id g)) (creditTxs d) = 0"
    using ledger_okD(5) [OF ok] fresh by (force simp: count_where_0_iff reserved_of_def released_of_def)+
  then have "grant_balanced (creditTxs d) g" using new by (simp add: grant_balanced_def)
  then show ?thesis
    using ledger_okD [OF ok] fresh unfolding ledger_ok_def by (simp add: image_iff keyed_append1)
qed

lemma grantCredits_cases:
  assumes "grantCredits env dev toInt newId now argv d = Inr d'"
  obtains (repeated) "d' = d"
  | (granted) g t where "\<And>h. h \<in> set (grants d) \<Longrightarrow> gr_id h \<noteq> gr_id g" "gr_id g = newId"
      "gr_remainingCredits g = gr_totalCredits g" "1 \<le> gr_totalCredits g" "gr_totalCredits g \<le> 1000"
      "\<And>u. u \<in> set (creditTxs d) \<Longrightarrow> tx_idempotencyKey u \<noteq> tx_idempotencyKey t"
      "tx_type t = TX_GRANT" "tx_generationId t = None" "tx_grantId t = Some newId"
      "\<exists>k. tx_idempotencyKey t = admin_key k" "env \<noteq> Some ''production''" "dev = Some ''true''"
      "\<exists>u \<in> set (users d). usr_id u = gr_userId g \<and> usr_emailVerifiedAt u \<noteq> None"
      "d' = d\<lparr>grants := grants d @ [g], creditTxs := creditTxs d @ [t]\<rparr>"
proof -
  obtain email amount key where args: "readArgument ''email'' argv = Some email"
    "Option.bind (readArgument ''credits'' argv) toInt = Some amount"
    "readArgument ''idempotency-key'' argv = Some key"
    using assms by (auto simp: grantCredits_def split: option.splits)
  obtain user where user: "find_first (\<lambda>u. usr_email u = normalizeEmail email) (users d) = Some user"
    "usr_emailVerifiedAt user \<noteq> None" "1 \<le> amount" "amount \<le> 1000"
    "assertCreditGrantEnabled env dev = Inr ()"
    using assms args by (auto simp: grantCredits_def split: option.splits if_splits sum.splits)
  then have env: "env \<noteq> Some ''production''" "dev = Some ''true''"
    by (auto simp: assertCreditGrantEnabled_def split: if_splits)
  show thesis
  proof (cases "find_tx (admin_key key) d")
    case (Some t)
    with assms args user show thesis by (intro repeated) (simp add: grantCredits_def split: if_splits)
  next
    case None
    let ?g = "\<lparr>gr_id = newId, gr_userId = usr_id user, gr_source = ADMIN, gr_totalCredits = amount,
        gr_remainingCredits = amount, gr_validFrom = now, gr_expiresAt = None,
        gr_subscriptionPeriodKey = None, gr_createdAt = now\<rparr>"
    let ?t = "\<lparr>tx_userId = usr_id user, tx_generationId = None, tx_grantId = Some newId,
        tx_type = TX_GRANT, tx_amount = amount, tx_idempotencyKey = admin_key key,
        tx_reason = ''Protected administrative credit grant''\<rparr>"
    have "(\<forall>h \<in> set (grants d). gr_id h \<noteq> newId) \<and> d' = d\<lparr>grants := grants d @ [?g], creditTxs := creditTxs d @ [?t]\<rparr>"
      using assms args user None
      by (auto simp: grantCredits_def create_grant_def create_credit_tx_def split: if_splits)
    with None user env show thesis
      by (intro granted [of ?g ?t]) (auto simp: find_tx_def find_first_None_iff dest: find_first_Some)
  qed
qed

lemma ledger_ok_grantCredits:
  assumes ok: "ledger_ok d" and step: "grantCredits env dev toInt newId now argv d = Inr d'"
  shows "ledger_ok d'"
  using step
proof (cases rule: grantCredits_cases)
  case repeated
  with ok show ?thesis by simp
next
  case (granted g t)
  let ?d1 = "d\<lparr>grants := grants d @ [g]\<rparr>"
  have ok1: "ledger_ok ?d1"
    by (rule ledger_ok_grant [OF ok granted(1,3)]) (use granted in auto)
  have shape: "tx_shape t" "tx_paired (creditTxs ?d1) t"
    using granted(7,8,10) by (auto simp: tx_shape_def tx_paired_def admin_key_def credit_key_def)
  show ?thesis
    by (rule ledger_ok_append_neutral [OF ok1 _ shape])
      (use granted in \<open>auto simp del: db.simps(4)\<close>)
qed

section \<open>Properties\<close>

text \<open>
  C26. The view tells the truth about the next reservation: for a generation the ledger does not know,
  \<open>canGenerate\<close> holds exactly when a reservation at that time succeeds, and otherwise the view decides
  which error it raises.
\<close>

theorem canGenerate_iff_reservable:
  assumes "ledger_ok d"
    and "\<And>t. t \<in> set (creditTxs d) \<Longrightarrow> tx_generationId t \<noteq> Some gid \<and>
           tx_idempotencyKey t \<noteq> credit_key gid ''reserve''"
  shows "if ent_canGenerate (getForUser now u d) then \<exists>d'. reserve now u gid d = Inr d'
    else reserve now u gid d =
      Inl (if (\<exists>g \<in> set (grants d). gr_userId g = u) \<or> ent_subscription (getForUser now u d) \<noteq> None
           then conflict ''GENERATION_CREDITS_EXHAUSTED'' ''No generation credits are available''
           else conflict ''SUBSCRIPTION_REQUIRED''
                  ''A subscription or purchased generation credits are required'')"
proof (cases "ent_canGenerate (getForUser now u d)")
  case True
  then obtain g where "g \<in> set (grants d)" "usable_grant now u g" by (auto simp: canGenerate_iff_usable)
  from reserve_succeeds [OF ledger_okD(1) [OF assms(1)] this assms(2)] True show ?thesis by simp
next
  case False
  have none: "find_tx (credit_key gid ''reserve'') d = None"
    using assms(2) by (simp add: find_tx_def find_first_None_iff)
  have "grant_candidates now u d = []"
    using False by (auto simp: grant_candidates_Nil_iff canGenerate_iff_usable)
  moreover have "count_where (\<lambda>g. gr_userId g = u) (grants d) = 0 \<longleftrightarrow>
      \<not> (\<exists>g \<in> set (grants d). gr_userId g = u)"
    by (auto simp: count_where_0_iff)
  ultimately show ?thesis
    using False none by (simp add: reserve_def ent_subscription_None_iff)
qed

theorem canGenerate_iff_reservable_witness:
  "ent_canGenerate (getForUser 5 ''u'' demo_ledger) \<and> (\<exists>d'. reserve 5 ''u'' ''h'' demo_ledger = Inr d') \<and>
   reserve 100 ''u'' ''h'' demo_ledger =
     Inl (conflict ''GENERATION_CREDITS_EXHAUSTED'' ''No generation credits are available'')"
proof -
  have ok: "ledger_ok demo_ledger" unfolding demo_ledger_def by (rule ledger_ok_history [OF ledger_ok_empty])
  have "\<forall>t \<in> set (creditTxs demo_ledger). tx_generationId t \<noteq> Some ''h'' \<and>
        tx_idempotencyKey t \<noteq> credit_key ''h'' ''reserve''" by code_simp
  then have fresh: "tx_generationId t \<noteq> Some ''h'' \<and> tx_idempotencyKey t \<noteq> credit_key ''h'' ''reserve''"
    if "t \<in> set (creditTxs demo_ledger)" for t using that by blast
  have now: "ent_canGenerate (getForUser 5 ''u'' demo_ledger)" by code_simp
  have late: "\<not> ent_canGenerate (getForUser 100 ''u'' demo_ledger)" by code_simp
  have mine: "\<exists>g \<in> set (grants demo_ledger). gr_userId g = ''u''" by code_simp
  show ?thesis
    using canGenerate_iff_reservable [OF ok fresh, of 5 "''u''"]
      canGenerate_iff_reservable [OF ok fresh, of 100 "''u''"] now late mine by simp
qed

text \<open>
  The administrative grant keeps the ledger's invariant; it refuses to run in production or
  without the development switch, grants between 1 and 1000 credits to a verified user only, and a
  request key is granted once.
\<close>

lemma grantCredits_safe:
  assumes "ledger_ok d" "grantCredits env dev toInt newId now argv d = Inr d'"
  shows "ledger_ok d' \<and> env \<noteq> Some ''production'' \<and> dev = Some ''true'' \<and>
    grantCredits env dev toInt newId2 now2 argv d' = Inr d' \<and>
    (d' \<noteq> d \<longrightarrow> (\<exists>g t. d' = d\<lparr>grants := grants d @ [g], creditTxs := creditTxs d @ [t]\<rparr> \<and>
       gr_remainingCredits g = gr_totalCredits g \<and> 1 \<le> gr_totalCredits g \<and> gr_totalCredits g \<le> 1000 \<and>
       (\<exists>u \<in> set (users d). usr_id u = gr_userId g \<and> usr_emailVerifiedAt u \<noteq> None)))"
proof -
  have env: "env \<noteq> Some ''production''" "dev = Some ''true''"
    using assms(2) by (auto simp: grantCredits_def assertCreditGrantEnabled_def split: option.splits if_splits)
  obtain email amount key user where args: "readArgument ''email'' argv = Some email"
    "Option.bind (readArgument ''credits'' argv) toInt = Some amount" "email \<noteq> []" "key \<noteq> []"
    "\<not> amount < 1" "\<not> amount > 1000"
    "readArgument ''idempotency-key'' argv = Some key"
    "find_first (\<lambda>u. usr_email u = normalizeEmail email) (users d) = Some user"
    "usr_emailVerifiedAt user \<noteq> None"
    using assms(2) by (auto simp: grantCredits_def split: option.splits if_splits sum.splits)
  have "find_tx (admin_key key) d' \<noteq> None \<and> users d' = users d"
    using assms(2) args env
    by (auto simp: grantCredits_def create_grant_def create_credit_tx_def find_tx_def find_first_None_iff
        assertCreditGrantEnabled_def dest: find_first_Some split: option.splits if_splits)
  then have "grantCredits env dev toInt newId2 now2 argv d' = Inr d'"
    using args env by (auto simp: grantCredits_def assertCreditGrantEnabled_def)
  moreover have "d' \<noteq> d \<longrightarrow> (\<exists>g t. d' = d\<lparr>grants := grants d @ [g], creditTxs := creditTxs d @ [t]\<rparr> \<and>
       gr_remainingCredits g = gr_totalCredits g \<and> 1 \<le> gr_totalCredits g \<and> gr_totalCredits g \<le> 1000 \<and>
       (\<exists>u \<in> set (users d). usr_id u = gr_userId g \<and> usr_emailVerifiedAt u \<noteq> None))"
    using assms(2) by (cases rule: grantCredits_cases) auto
  ultimately show ?thesis using ledger_ok_grantCredits [OF assms] env by blast
qed

definition demo_user :: user_row where
  "demo_user = \<lparr>usr_id = ''u'', usr_fullName = [], usr_email = ''a@b.c'', usr_passwordHash = ''h'',
     usr_language = ''en'', usr_timezone = None, usr_photoUrl = None, usr_isPremium = False,
     usr_emailVerifiedAt = Some 0, usr_createdAt = 0\<rparr>"

definition demo_argv :: "string list" where
  "demo_argv = [''--email= A@b.c'', ''--credits=5'', ''--idempotency-key=k'']"

lemma demo_email: "normalizeEmail '' A@b.c'' = ''a@b.c''"
  by (simp add: normalizeEmail_def strim_def trim_by_def js_white_def lower_char_def Let_def) code_simp

lemma grantCredits_safe_witness:
  "\<exists>d'. grantCredits (Some ''test'') (Some ''true'') (\<lambda>s. if s = ''5'' then Some 5 else None) ''n'' 7 demo_argv
       (empty_db\<lparr>users := [demo_user]\<rparr>) = Inr d' \<and> ledger_ok d' \<and>
     grantCredits (Some ''test'') (Some ''true'') (\<lambda>s. if s = ''5'' then Some 5 else None) ''m'' 9 demo_argv d' = Inr d'"
proof -
  let ?d = "empty_db\<lparr>users := [demo_user]\<rparr>"
  have "case grantCredits (Some ''test'') (Some ''true'') (\<lambda>s. if s = ''5'' then Some 5 else None) ''n'' 7
      demo_argv ?d of Inl _ \<Rightarrow> False | Inr d' \<Rightarrow> length (grants d') = 1"
    using demo_email
    by (simp add: grantCredits_def readArgument_def demo_argv_def assertCreditGrantEnabled_def demo_user_def
        find_first_def find_tx_def create_defs credit_tx_conflict_def empty_db_def)
  then obtain d' where d': "grantCredits (Some ''test'') (Some ''true'')
      (\<lambda>s. if s = ''5'' then Some 5 else None) ''n'' 7 demo_argv ?d = Inr d'" by (auto split: sum.splits)
  have "ledger_ok ?d" using ledger_ok_empty by (simp add: ledger_ok_def)
  from grantCredits_safe [OF this d'] d' show ?thesis by blast
qed

end
