(* ===== verification/GenerationSystem.thy ===== *)
theory GenerationSystem
  imports Lifecycle Reports Entitlements
begin

text \<open>
  The API processes and the workers together: a labelled step relation over the committed
  transactions on the shared database, the states they can reach, and the worker's fencing token as
  the contract \<open>fenced_writer\<close>. A transaction that throws commits nothing and is no step.
\<close>

section \<open>The steps\<close>

datatype action =
    Start string | MarkEnqueued string | Compensate string | Cancel string
  | Claim string string | Progress string string | RenewLease string string
  | PersistResult string string | Finalize string string | PrepareRetry string string | Fail string string
  | Allocate | AdminGrant | CreateReport string | UpdateReport string | DeleteReport string | Elsewhere

definition mark_enqueued :: "int \<Rightarrow> string \<Rightarrow> db \<Rightarrow> db" where
  "mark_enqueued now gid d = d\<lparr>generations := update_where
     (\<lambda>h. gen_id h = gid \<and> gen_status h = GS_QUEUED \<and> gen_enqueuedAt h = None)
     (\<lambda>h. h\<lparr>gen_enqueuedAt := Some now\<rparr>) (generations d)\<rparr>"

inductive step :: "processor_config \<Rightarrow> start_config \<Rightarrow> db \<Rightarrow> action \<Rightarrow> db \<Rightarrow> bool"
  for pc :: processor_config and sc :: start_config where
  start: "fresh_uuid gid d \<Longrightarrow> start_body sc clk gid u rid key d = Inr (g, d') \<Longrightarrow> step pc sc d (Start gid) d'"
| marked: "step pc sc d (MarkEnqueued gid) (mark_enqueued now gid d)"
| compensate: "compensate_body gid d = Inr (v, d') \<Longrightarrow> step pc sc d (Compensate gid) d'"
| cancel: "cancel_body now u rid gid d = Inr (p, d') \<Longrightarrow> step pc sc d (Cancel gid) d'"
| claim: "claim_body pc now gid token d = Inr (b, d') \<Longrightarrow> step pc sc d (Claim gid token) d'"
| progress: "step pc sc d (Progress gid token) (snd (updateProgress pc now now2 gid stage n token d))"
| renew: "step pc sc d (RenewLease gid token) (snd (renewLease pc now now2 gid token d))"
| persist: "persistReportResult_body pc now now2 now3 gid token aid result q it ot d = Inr (v, d') \<Longrightarrow>
    step pc sc d (PersistResult gid token) d'"
| finalize: "g \<in> set (generations d) \<Longrightarrow> gen_id g = gid \<Longrightarrow>
    finalize_body now now2 gid (gen_reportId g) u token key n d = Inr (v, d') \<Longrightarrow> step pc sc d (Finalize gid token) d'"
| prepareRetry: "prepareRetry_body now gid token code d = Inr (b, d') \<Longrightarrow> step pc sc d (PrepareRetry gid token) d'"
| fail: "failGeneration_body pc now now2 gid token code msg d = Inr (b, d') \<Longrightarrow> step pc sc d (Fail gid token) d'"
| allocate: "allocateMonthly i now u k n from till d = Inr d' \<Longrightarrow> step pc sc d Allocate d'"
| grant: "grantCredits env dev toInt i now argv d = Inr d' \<Longrightarrow> step pc sc d AdminGrant d'"
| createReport: "create rid now u dto d = Inr (r, d') \<Longrightarrow> step pc sc d (CreateReport rid) d'"
| updateReport: "step pc sc d (UpdateReport rid) (snd (update (\<lambda>x. x) u rid dto d))"
| deleteReport: "delete_body now u rid d = Inr (keys, d') \<Longrightarrow> step pc sc d (DeleteReport rid) d'"
| elsewhere: "reports d' = reports d \<Longrightarrow> generations d' = generations d \<Longrightarrow> outputs d' = outputs d \<Longrightarrow>
    grants d' = grants d \<Longrightarrow> creditTxs d' = creditTxs d \<Longrightarrow> step pc sc d Elsewhere d'"

inductive_cases stepE: "step pc sc d a d'"

inductive steps :: "processor_config \<Rightarrow> start_config \<Rightarrow> db \<Rightarrow> action list \<Rightarrow> db \<Rightarrow> bool"
  for pc :: processor_config and sc :: start_config where
  none: "steps pc sc d [] d"
| snoc: "steps pc sc d as d1 \<Longrightarrow> step pc sc d1 a d2 \<Longrightarrow> steps pc sc d (as @ [a]) d2"

definition reachable :: "processor_config \<Rightarrow> start_config \<Rightarrow> db \<Rightarrow> bool" where
  "reachable pc sc d \<longleftrightarrow> (\<exists>as. steps pc sc empty_db as d)"

section \<open>The steps outside the generation itself\<close>

lemma sys_ok_mark: "sys_ok d \<Longrightarrow> sys_ok (mark_enqueued now gid d)"
  by (rule sys_ok_keeps_state [where F = "\<lambda>h. h\<lparr>gen_enqueuedAt := Some now\<rparr>"
        and p = "\<lambda>h. gen_id h = gid \<and> gen_status h = GS_QUEUED \<and> gen_enqueuedAt h = None"])
    (simp_all add: mark_enqueued_def gen_view_def)

lemma sys_ok_grants:
  assumes ok: "sys_ok d" and frame: "reports d' = reports d" "generations d' = generations d" "outputs d' = outputs d"
    and ledger: "ledger_ok d'" "creditTxs d' = creditTxs d @ new"
    and new: "\<And>t. t \<in> set new \<Longrightarrow> tx_generationId t = None \<and> (\<forall>g a. tx_idempotencyKey t \<noteq> credit_key g a)"
    and "length new \<le> 1"
  shows "sys_ok d'"
proof (rule sys_ok_view [OF ok])
  have view: "credit_state g d' = credit_state g d \<and> live_ledger g d' = live_ledger g d" for g
  proof (cases new)
    case Nil
    then show ?thesis using credit_view_cong [of d' d] ledger(2) by simp
  next
    case (Cons t ts)
    with assms(8) have t: "creditTxs d' = creditTxs d @ [t]" using ledger(2) by simp
    have n: "tx_generationId t = None" "\<And>g a. tx_idempotencyKey t \<noteq> credit_key g a" using new [of t] Cons by auto
    show ?thesis
      using n by (auto simp: credit_state_def find_credit_append [OF t] live_ledger_def t split: option.splits)
  qed
  then show "credit_state g d' = credit_state g d" "live_ledger g d' = live_ledger g d" for g by blast+
  show "\<exists>u \<in> set (creditTxs d). tx_generationId u = Some i"
    if "t \<in> set (creditTxs d')" "tx_generationId t = Some i" for t i
    using that new [of t] by (auto simp: ledger(2))
qed (use frame ledger in simp_all)

lemma sys_ok_allocate:
  assumes ok: "sys_ok d" and step: "allocateMonthly i now u k n from till d = Inr d'"
  shows "sys_ok d'"
proof -
  from step obtain new where "reports d' = reports d" "generations d' = generations d" "outputs d' = outputs d"
    "creditTxs d' = creditTxs d @ new" "length new \<le> 1"
    "\<And>t. t \<in> set new \<Longrightarrow> tx_generationId t = None \<and> tx_idempotencyKey t = period_key u k"
  proof -
    have "reports d' = reports d \<and> generations d' = generations d \<and> outputs d' = outputs d \<and>
      (\<exists>new. creditTxs d' = creditTxs d @ new \<and> length new \<le> 1 \<and>
        (\<forall>t \<in> set new. tx_generationId t = None \<and> tx_idempotencyKey t = period_key u k))"
      using step by (auto simp: allocateMonthly_def create_credit_tx_def create_grant_def split: if_splits option.splits)
    with that show thesis by blast
  qed
  with ledger_ok_allocateMonthly [OF sys_okD(3) [OF ok] step] show ?thesis
    by (intro sys_ok_grants [OF ok]) auto
qed

lemma sys_ok_grantCredits:
  assumes ok: "sys_ok d" and step: "grantCredits env dev toInt i now argv d = Inr d'"
  shows "sys_ok d'"
  using step
proof (cases rule: grantCredits_cases)
  case repeated
  with ok show ?thesis by simp
next
  case (granted g t)
  note l = ledger_ok_grantCredits [OF sys_okD(3) [OF ok] step]
  from granted(10) have "tx_idempotencyKey t \<noteq> credit_key h a" for h a by (auto simp: admin_key_def credit_key_def)
  with granted(8) show ?thesis by (intro sys_ok_grants [OF ok _ _ _ l, of "[t]"]) (auto simp: granted(14))
qed

lemma sys_ok_createReport:
  assumes ok: "sys_ok d" and step: "create rid now u dto d = Inr (r, d')"
  shows "sys_ok d'"
proof -
  have r: "rep_id r = rid" "rep_status r = RS_DRAFT" and new: "\<And>x. x \<in> set (reports d) \<Longrightarrow> rep_id x \<noteq> rid"
    and d': "d' = d\<lparr>reports := reports d @ [r]\<rparr>"
    using step by (auto simp: create_def create_report_row_def new_report_def Let_def split: if_splits)
  have gens: "gen_reportId g \<noteq> rid" if "g \<in> set (generations d)" for g
    using sys_ok_credit(5) [OF ok that] new by auto
  have outs: "out_reportId q \<noteq> rid" if q: "q \<in> set (outputs d)" for q
    using sys_okD(8) [OF ok q] gens by (auto simp: out_ok_def)
  have l: "ledger_ok d'" using sys_okD(3) [OF ok] ledger_ok_cong [of d' d] by (simp add: d')
  have "gen_ok d' g" if "g \<in> set (generations d)" for g
    using sys_okD(6) [OF ok that] credit_view_cong [of d' d "gen_id g"] by (auto simp: gen_ok_def d')
  moreover have "rep_ok d' x" if "x \<in> set (reports d')" for x
    using that sys_okD(7) [OF ok, of x] gens outs r by (auto simp: rep_ok_def d')
  moreover have "out_ok d' q" if "q \<in> set (outputs d)" for q
    using sys_okD(8) [OF ok that] by (simp add: out_ok_def d')
  moreover have "keyed rep_id (reports d')" using sys_okD(1) [OF ok] new r(1) by (simp add: d' keyed_append1)
  moreover have "one_active d' = one_active d" "ledger_refs d' = ledger_refs d"
    by (simp_all add: d' one_active_def ledger_refs_def)
  then have "one_active d'" "ledger_refs d'" using sys_okD(4,5) [OF ok] by simp_all
  moreover have "keyed gen_id (generations d')" using sys_okD(2) [OF ok] by (simp add: d')
  moreover have "generations d' = generations d" "outputs d' = outputs d" by (simp_all add: d')
  ultimately show ?thesis using l unfolding sys_ok_def by (intro conjI ballI) simp_all
qed

lemma sys_ok_updateReport: "sys_ok d \<Longrightarrow> sys_ok (snd (update (\<lambda>x. x) u rid dto d))"
proof -
  assume ok: "sys_ok d"
  define d' where "d' = snd (update (\<lambda>x. x) u rid dto d)"
  define rows where "rows = reports d'"
  have d': "d' = d\<lparr>reports := rows\<rparr>" "map rep_view rows = map rep_view (reports d)"
    by (simp_all add: rows_def d'_def update_def Let_def update_where_def apply_update_def rep_view_def)
  have "sys_ok d'"
    by (rule sys_ok_view [OF ok]) (use d' sys_okD(3) [OF ok] ledger_ok_cong [of d' d] credit_view_cong [of d' d] in auto)
  then show ?thesis by (simp add: d'_def)
qed

lemma sys_ok_deleteReport:
  assumes ok: "sys_ok d" and step: "delete_body now u rid d = Inr (keys, d')"
  shows "sys_ok d'"
proof -
  obtain r rows where rin: "r \<in> set (reports d)" "rep_id r = rid"
    and r: "rep_status r \<noteq> RS_QUEUED" "rep_status r \<noteq> RS_PROCESSING"
    and d': "d' = delete_report_row rid (d\<lparr>cleanupTasks := rows\<rparr>)"
    using step by (cases rule: delete_body_cases)
  have inact: "\<not> active_status (gen_status g)" if "g \<in> set (generations d)" "gen_reportId g = rid" for g
    using sys_okD(7) [OF ok rin(1)] r rin(2) that by (auto simp: rep_ok_def active_status_def)
  have out: "out_reportId q = rid \<longrightarrow> (\<exists>g \<in> set (generations d). gen_id g = out_generationId q \<and> gen_reportId g = rid)"
    if "q \<in> set (outputs d)" for q
    using sys_okD(8) [OF ok that] by (auto simp: out_ok_def)
  have dt: "creditTxs d' = detach (gen_id ` {g \<in> set (generations d). gen_reportId g = rid}) (creditTxs d)"
    unfolding d' delete_report_row_def Let_def detach_def by (auto intro!: arg_cong2 [where f = "\<lambda>p. update_where p _"])
  have "set (outputs d') = {q \<in> set (outputs d). \<forall>g \<in> set (generations d). gen_reportId g = rid \<longrightarrow> gen_id g \<noteq> out_generationId q}"
  proof (rule set_eqI)
    fix q show "q \<in> set (outputs d') \<longleftrightarrow> q \<in> {q \<in> set (outputs d). \<forall>g \<in> set (generations d). gen_reportId g = rid \<longrightarrow> gen_id g \<noteq> out_generationId q}"
      using out [of q] unfolding d' delete_report_row_def Let_def by simp blast
  qed
  then show ?thesis
    by (intro sys_ok_delete [OF ok, where P = "\<lambda>g. gen_reportId g = rid" and Q = "\<lambda>i. i = rid"])
      (use inact dt in \<open>simp_all add: d' delete_report_row_def Let_def\<close>)
qed

section \<open>The invariant holds in every reachable state\<close>

lemma step_sys_ok:
  assumes "step pc sc d a d'" "sys_ok d"
  shows "sys_ok d'"
  using assms
proof (cases rule: step.cases)
  case (finalize g gid now now2 u token key n v)
  have "gen_reportId h = gen_reportId g" if "h \<in> set (generations d)" "gen_id h = gid" for h
    using keyed_eq [OF sys_okD(2) [OF assms(2)], of h g] that finalize(2,3) by simp
  then show ?thesis using sys_ok_finalize [OF assms(2) finalize(4)] by blast
next
  case elsewhere
  with assms(2) sys_ok_cong show ?thesis by blast
qed (auto intro: sys_ok_start sys_ok_mark sys_ok_compensate sys_ok_cancel sys_ok_claim sys_ok_updateProgress
    sys_ok_renewLease sys_ok_persist sys_ok_prepareRetry sys_ok_failGeneration sys_ok_allocate sys_ok_grantCredits
    sys_ok_createReport sys_ok_updateReport sys_ok_deleteReport)

lemma steps_sys_ok: "steps pc sc d as d' \<Longrightarrow> sys_ok d \<Longrightarrow> sys_ok d'"
  by (induction rule: steps.induct) (auto intro: step_sys_ok)

lemma reachable_sys_ok: "reachable pc sc d \<Longrightarrow> sys_ok d"
  unfolding reachable_def using steps_sys_ok sys_ok_empty by blast

section \<open>What a step does to one generation\<close>

text \<open>
  A row after the step is new, with an id the ledger did not know, or comes from a row of the same id:
  then it belongs to the same report, a settled status is kept, and a processing token it did not have is the one of a claim.
\<close>

definition tracked :: "db \<Rightarrow> action \<Rightarrow> db \<Rightarrow> bool" where
  "tracked d a d' \<longleftrightarrow> (\<forall>h \<in> set (generations d').
     (fresh_uuid (gen_id h) d \<and> gen_processingToken h = None) \<or>
     (\<exists>g \<in> set (generations d). gen_id g = gen_id h \<and> gen_reportId g = gen_reportId h \<and>
        (active_status (gen_status g) \<or> gen_status h = gen_status g) \<and>
        (\<forall>t. gen_processingToken h = Some t \<longrightarrow> gen_processingToken g = Some t \<or> a = Claim (gen_id h) t)))"

lemma generations_mark_enqueued:
  "generations (mark_enqueued now gid d) = update_where
     (\<lambda>h. gen_id h = gid \<and> gen_status h = GS_QUEUED \<and> gen_enqueuedAt h = None)
     (\<lambda>h. h\<lparr>gen_enqueuedAt := Some now\<rparr>) (generations d)"
  by (simp add: mark_enqueued_def)

lemma generations_updateProgress:
  "generations (snd (updateProgress pc now now2 gid stage n token d)) = update_where (owns_lease now gid token)
     (\<lambda>g. g\<lparr>gen_stage := stage, gen_progress := n, gen_leaseExpiresAt := Some (leaseExpiration pc now2)\<rparr>) (generations d)"
  by (simp add: updateProgress_def)

lemma generations_renewLease:
  "generations (snd (renewLease pc now now2 gid token d)) = update_where (owns_lease now gid token)
     (\<lambda>g. g\<lparr>gen_leaseExpiresAt := Some (leaseExpiration pc now2)\<rparr>) (generations d)"
  by (simp add: renewLease_def)

lemma tracked_subset: "set (generations d') \<subseteq> set (generations d) \<Longrightarrow> tracked d a d'"
  by (auto simp: tracked_def)

lemma tracked_update:
  assumes gens: "generations d' = update_where p F (generations d)"
    and F: "\<And>h. h \<in> set (generations d) \<Longrightarrow> p h \<Longrightarrow> gen_id (F h) = gen_id h \<and> gen_reportId (F h) = gen_reportId h \<and>
      (active_status (gen_status h) \<or> gen_status (F h) = gen_status h) \<and>
      (\<forall>t. gen_processingToken (F h) = Some t \<longrightarrow> gen_processingToken h = Some t \<or> a = Claim (gen_id h) t)"
  shows "tracked d a d'"
  unfolding tracked_def
proof
  fix h assume "h \<in> set (generations d')"
  then obtain g where g: "g \<in> set (generations d)" "h = (if p g then F g else g)"
    unfolding gens in_update_where by blast
  have "gen_id g = gen_id h \<and> gen_reportId g = gen_reportId h \<and> (active_status (gen_status g) \<or> gen_status h = gen_status g) \<and>
      (\<forall>t. gen_processingToken h = Some t \<longrightarrow> gen_processingToken g = Some t \<or> a = Claim (gen_id h) t)"
    using F [OF g(1)] g(2) by (cases "p g") auto
  with g(1) show "(fresh_uuid (gen_id h) d \<and> gen_processingToken h = None) \<or> (\<exists>g \<in> set (generations d). gen_id g = gen_id h \<and> gen_reportId g = gen_reportId h \<and>
        (active_status (gen_status g) \<or> gen_status h = gen_status g) \<and>
        (\<forall>t. gen_processingToken h = Some t \<longrightarrow> gen_processingToken g = Some t \<or> a = Claim (gen_id h) t))" by blast
qed

lemma tracked_update_of:
  assumes "keyed gen_id (generations d)" "g \<in> set (generations d)" "active_status (gen_status g)"
    and "generations d' = update_where (\<lambda>h. gen_id h = gen_id g) F (generations d)"
    and "\<And>h. gen_id (F h) = gen_id h" "\<And>h. gen_reportId (F h) = gen_reportId h" "\<And>h. gen_processingToken (F h) = None \<or> gen_processingToken (F h) = gen_processingToken h"
  shows "tracked d a d'"
proof (rule tracked_update [OF assms(4)])
  fix h assume h: "h \<in> set (generations d)" "gen_id h = gen_id g"
  from keyed_eq [OF assms(1) h(1) assms(2) h(2)] have "h = g" .
  then show "gen_id (F h) = gen_id h \<and> gen_reportId (F h) = gen_reportId h \<and> (active_status (gen_status h) \<or> gen_status (F h) = gen_status h) \<and>
      (\<forall>t. gen_processingToken (F h) = Some t \<longrightarrow> gen_processingToken h = Some t \<or> a = Claim (gen_id h) t)"
    using assms(3,5,6) assms(7) [of g] by auto
qed

lemma tracked_start:
  assumes "fresh_uuid gid d" "start_body sc clk gid u rid key d = Inr (g, d')"
  shows "tracked d a d'"
  using assms(2)
proof (cases rule: start_body_cases)
  case duplicate
  then show ?thesis by (simp add: tracked_subset)
next
  case (created report user d2)
  have gens: "generations d' = generations d @ [g]"
    using credit_frameD(4) [OF credit_frames(1) [OF created(10)]] by (simp add: created(11))
  have "gen_id g = gid" "gen_processingToken g = None" by (simp_all add: created(8))
  with assms(1) show ?thesis unfolding tracked_def gens by auto
qed

lemma tracked_claim:
  assumes "claim_body pc now gid token d = Inr (b, d')"
  shows "tracked d (Claim gid token) d'"
proof (cases "count_where (claimable now gid) (generations d) = 1")
  case False
  with assms show ?thesis by (simp add: claim_body_def tracked_subset)
next
  case True
  have "generations d' = update_where (claimable now gid)
      (\<lambda>g. g\<lparr>gen_status := GS_PROCESSING, gen_processingToken := Some token,
             gen_leaseExpiresAt := Some (now + jobTimeoutMs pc), gen_startedAt := Some now,
             gen_attemptCount := gen_attemptCount g + 1\<rparr>) (generations d)"
    using assms True by (auto simp: claim_body_def Let_def result_iffs)
  then show ?thesis by (rule tracked_update) (auto simp: claimable_def active_status_def)
qed

lemma tracked_prepareRetry:
  assumes "prepareRetry_body now gid token code d = Inr (b, d')"
  shows "tracked d a d'"
proof (cases "count_where (owns_lease now gid token) (generations d) = 1")
  case False
  with assms show ?thesis by (simp add: prepareRetry_body_def tracked_subset)
next
  case True
  have "generations d' = update_where (owns_lease now gid token)
      (\<lambda>g. g\<lparr>gen_status := GS_QUEUED, gen_errorCode := Some code,
             gen_errorMessage := Some ''A temporary dependency error occurred; retrying'',
             gen_processingToken := None, gen_leaseExpiresAt := None\<rparr>) (generations d)"
    using assms True by (auto simp: prepareRetry_body_def Let_def result_iffs)
  then show ?thesis by (rule tracked_update) (auto simp: owns_leaseD)
qed

lemma tracked_persist:
  assumes "persistReportResult_body pc now now2 now3 gid token aid result q it ot d = Inr (v, d')"
  shows "tracked d a d'"
proof -
  obtain d1 where c: "completeInTransaction now2 now3 aid token
      \<lparr>us_providerRequestId = q, us_inputTokens = it, us_outputTokens = ot, us_audioDurationSeconds = None\<rparr> d = Inr d1"
    and d': "generations d' = update_where (processed_by gid token)
       (\<lambda>g. g\<lparr>gen_structuredResult := Some result, gen_provider := Some ''openai'',
       gen_model := Some (reportModel pc), gen_providerRequestId := set_defined q (gen_providerRequestId g),
       gen_inputTokens := set_defined it (gen_inputTokens g), gen_outputTokens := set_defined ot (gen_outputTokens g),
       gen_leaseExpiresAt := Some (leaseExpiration pc now3)\<rparr>) (generations d1)"
    using assms unfolding persistReportResult_body_def by (elim bindE_InrE) auto
  have "generations d1 = generations d"
    using c unfolding completeInTransaction_def Let_def by (elim bindE_InrE) auto
  show ?thesis by (rule tracked_update [OF d' [unfolded \<open>generations d1 = generations d\<close>]]) auto
qed

lemma tracked_delete_generation: "delete_generation gid d1 = Inr d' \<Longrightarrow> generations d1 = generations d \<Longrightarrow> tracked d a d'"
  by (rule tracked_subset) (auto simp: delete_generation_def split: if_splits)

lemma step_tracked:
  assumes "step pc sc d a d'" "sys_ok d"
  shows "tracked d a d'"
  using assms(1)
proof (cases rule: step.cases)
  case (start gid clk u rid key g)
  then show ?thesis using tracked_start by blast
next
  case (marked gid now)
  have "tracked d a (mark_enqueued now gid d)"
    by (rule tracked_update [OF generations_mark_enqueued]) simp
  with marked show ?thesis by simp
next
  case (compensate gid v)
  from compensate(2) show ?thesis
  proof (cases rule: compensate_body_cases)
    case noop
    then show ?thesis by (simp add: tracked_subset)
  next
    case (undone g d1)
    then show ?thesis using credit_frameD(4) [OF credit_frames(3) [OF undone(3)]]
      by (intro tracked_delete_generation [OF undone(4)]) simp
  qed
next
  case (cancel now u rid gid p)
  from cancel(2) sys_okD(2) [OF assms(2)] show ?thesis
  proof (cases rule: cancel_body_cases)
    case (1 g d1)
    have "generations d' = generations d1" by (rule credit_frameD(4) [OF credit_frames(3) [OF 1(7)]])
    then have gens: "generations d' = update_where (\<lambda>h. gen_id h = gen_id g)
        (\<lambda>g. g\<lparr>gen_status := GS_CANCELLED, gen_cancelledAt := Some now\<rparr>) (generations d)"
      by (simp add: 1(2) 1(6))
    show ?thesis
      by (rule tracked_update_of [OF sys_okD(2) [OF assms(2)] 1(1) _ gens]) (simp_all add: 1(5))
  qed
next
  case (claim now gid token b)
  then show ?thesis using tracked_claim by blast
next
  case (progress gid token now now2 stage n)
  have "tracked d a (snd (updateProgress pc now now2 gid stage n token d))"
    by (rule tracked_update [OF generations_updateProgress]) simp
  with progress show ?thesis by simp
next
  case (renew gid token now now2)
  have "tracked d a (snd (renewLease pc now now2 gid token d))"
    by (rule tracked_update [OF generations_renewLease]) simp
  with renew show ?thesis by simp
next
  case persist
  then show ?thesis using tracked_persist by blast
next
  case (finalize g gid now now2 u token key n v)
  from finalize(4) sys_okD(2) [OF assms(2)] show ?thesis
  proof (cases rule: finalize_cases)
    case (1 h d1)
    have "generations d' = generations d1" by (rule credit_frameD(4) [OF credit_frames(2) [OF 1(4)]])
    then have gens: "generations d' = update_where (\<lambda>k. gen_id k = gen_id h)
        (\<lambda>g. g\<lparr>gen_status := GS_COMPLETED, gen_stage := STAGE_COMPLETED,
               gen_progress := progress_of STAGE_COMPLETED, gen_completedAt := Some now2,
               gen_processingToken := None, gen_leaseExpiresAt := None\<rparr>) (generations d)"
      by (simp add: 1(5))
    show ?thesis
      by (rule tracked_update_of [OF sys_okD(2) [OF assms(2)] 1(1) owns_leaseD(5) [OF 1(2)] gens]) simp_all
  qed
next
  case prepareRetry
  then show ?thesis using tracked_prepareRetry by blast
next
  case (fail now now2 gid token code msg b)
  from fail(2) sys_okD(2) [OF assms(2)] show ?thesis
  proof (cases rule: failGeneration_cases)
    case lost
    then show ?thesis by (simp add: tracked_subset)
  next
    case (failed g r d1)
    have "generations d' = generations d1" by (rule credit_frameD(4) [OF credit_frames(3) [OF failed(6)]])
    then have gens: "generations d' = update_where (\<lambda>h. gen_id h = gen_id g)
        (\<lambda>g. g\<lparr>gen_status := GS_FAILED, gen_errorCode := Some code,
               gen_errorMessage := Some (take 300 msg), gen_completedAt := Some now,
               gen_processingToken := None, gen_leaseExpiresAt := None\<rparr>) (generations d)"
      by (simp add: failed(7))
    show ?thesis
      by (rule tracked_update_of [OF sys_okD(2) [OF assms(2)] failed(2) owns_leaseD(5) [OF failed(3)] gens]) simp_all
  qed
next
  case allocate
  then have "generations d' = generations d"
    by (auto simp: allocateMonthly_def create_credit_tx_def create_grant_def split: if_splits option.splits)
  then show ?thesis by (simp add: tracked_subset)
next
  case (grant env dev toInt i now argv)
  from grant(2) show ?thesis by (cases rule: grantCredits_cases) (simp_all add: tracked_subset)
next
  case (createReport rid now u dto r)
  then have "generations d' = generations d"
    by (auto simp: create_def create_report_row_def Let_def split: if_splits)
  then show ?thesis by (simp add: tracked_subset)
next
  case (updateReport u rid dto)
  then show ?thesis by (intro tracked_subset) (auto simp: update_def Let_def)
next
  case (deleteReport now u rid keys)
  from deleteReport(2) have "set (generations d') \<subseteq> set (generations d)"
    by (cases rule: delete_body_cases) (auto simp: delete_report_row_def Let_def)
  then show ?thesis by (rule tracked_subset)
next
  case elsewhere
  then show ?thesis by (simp add: tracked_subset)
qed

section \<open>Tokens and settled generations along a run\<close>

text \<open>\<open>held\<close>: the generation is still processed under this token. Tokens are random UUIDs, claimed once.\<close>

definition held :: "db \<Rightarrow> string \<Rightarrow> string \<Rightarrow> bool" where
  "held d gid token \<longleftrightarrow> (\<exists>g \<in> set (generations d). gen_id g = gid \<and> gen_processingToken g = Some token)"

lemma owns_held: "g \<in> set (generations d) \<Longrightarrow> owns_lease now gid token g \<Longrightarrow> held d gid token"
  unfolding held_def using owns_leaseD(1,3) by blast

lemma not_held_none:
  assumes "\<not> held d gid token"
  shows "count_where (owns_lease now gid token) (generations d) = 0"
    "count_where (processed_by gid token) (generations d) = 0"
    "\<not> exists_where (owns_lease now gid token) (generations d)"
    "\<not> exists_where (\<lambda>g. owns_lease now gid token g \<and> P g) (generations d)"
    "update_where (owns_lease now gid token) f (generations d) = generations d"
proof -
  have no: "\<not> owns_lease now gid token g" "\<not> processed_by gid token g" if "g \<in> set (generations d)" for g
    using assms that by (auto simp: held_def processed_by_def dest: owns_leaseD(1,3))
  then show "count_where (owns_lease now gid token) (generations d) = 0"
    "count_where (processed_by gid token) (generations d) = 0"
    "\<not> exists_where (owns_lease now gid token) (generations d)"
    "\<not> exists_where (\<lambda>g. owns_lease now gid token g \<and> P g) (generations d)"
    by (auto simp: count_where_0_iff)
  show "update_where (owns_lease now gid token) f (generations d) = generations d"
    by (rule update_where_no_match) (rule no)
qed

lemma step_not_held:
  assumes "step pc sc d a d'" "sys_ok d" "\<not> held d gid token" "a \<noteq> Claim gid token"
  shows "\<not> held d' gid token"
proof
  assume "held d' gid token"
  then obtain h where h: "h \<in> set (generations d')" "gen_id h = gid" "gen_processingToken h = Some token"
    by (auto simp: held_def)
  with step_tracked [OF assms(1,2)] obtain g where "g \<in> set (generations d)" "gen_id g = gid"
    "gen_processingToken g = Some token \<or> a = Claim gid token"
    unfolding tracked_def by fastforce
  with assms(3,4) show False by (auto simp: held_def)
qed

lemma steps_not_held:
  assumes "steps pc sc d as d'" "sys_ok d" "\<not> held d gid token" "Claim gid token \<notin> set as"
  shows "\<not> held d' gid token"
  using assms
proof (induction rule: steps.induct)
  case (snoc d as d1 a d2)
  then have "a \<noteq> Claim gid token" "\<not> held d1 gid token" by auto
  with step_not_held [OF snoc(2) steps_sys_ok [OF snoc(1) snoc.prems(1)]] show ?case by blast
qed

definition ledger_knows :: "string \<Rightarrow> db \<Rightarrow> bool" where
  "ledger_knows gid d \<longleftrightarrow> \<not> fresh_uuid gid d"

lemma ledger_knows_iff: "ledger_knows gid d \<longleftrightarrow> (\<exists>k \<in> tx_idempotencyKey ` set (creditTxs d). \<exists>a. k = credit_key gid a)"
  by (auto simp: ledger_knows_def fresh_uuid_def)

lemma ledger_knows_mono:
  "tx_idempotencyKey ` set (creditTxs d) \<subseteq> tx_idempotencyKey ` set (creditTxs d') \<Longrightarrow> ledger_knows gid d \<Longrightarrow> ledger_knows gid d'"
  unfolding ledger_knows_iff by blast

lemma credit_keys_mono:
  assumes "reserve now u gid d = Inr d' \<and> keyed gr_id (grants d) \<or> consumeInTransaction gid d = Inr d' \<or>
    releaseInTransaction gid r d = Inr d'"
  shows "set (creditTxs d) \<subseteq> set (creditTxs d')"
  using assms
proof (elim disjE conjE)
  assume "reserve now u gid d = Inr d'" "keyed gr_id (grants d)"
  then show ?thesis by (cases rule: reserve_cases) (auto simp: take_credit_def)
next
  assume "consumeInTransaction gid d = Inr d'"
  then show ?thesis by (cases rule: consume_cases) auto
next
  assume "releaseInTransaction gid r d = Inr d'"
  then show ?thesis by (cases rule: release_cases) auto
qed

lemma generation_known:
  assumes "sys_ok d" "g \<in> set (generations d)"
  shows "ledger_knows (gen_id g) d"
proof -
  have "credit_state (gen_id g) d \<noteq> Unreserved"
    unfolding sys_ok_credit(2) [OF assms] by (cases "gen_status g") simp_all
  then have "findReservation (gen_id g) d \<noteq> None" by (cases "findReservation (gen_id g) d") (simp_all add: credit_state_def)
  then show ?thesis by (auto simp: ledger_knows_iff findReservation_def find_tx_def find_first_None_iff)
qed

lemma step_ledger_keys:
  assumes "step pc sc d a d'" "sys_ok d"
  shows "tx_idempotencyKey ` set (creditTxs d) \<subseteq> tx_idempotencyKey ` set (creditTxs d')"
  using assms(1)
proof (cases rule: step.cases)
  case (start gid clk u rid key g)
  from start(3) show ?thesis
  proof (cases rule: start_body_cases)
    case (created report user d2)
    have "keyed gr_id (grants d)" using ledger_okD(1) [OF sys_okD(3) [OF assms(2)]] .
    with created(10) have "set (creditTxs d) \<subseteq> set (creditTxs d2)"
      using credit_keys_mono [where r = "[]"] by force
    then show ?thesis by (auto simp: created(11))
  qed simp
next
  case (compensate gid v)
  from compensate(2) show ?thesis
  proof (cases rule: compensate_body_cases)
    case (undone g d1)
    have "set (creditTxs d) \<subseteq> set (creditTxs d1)" using credit_keys_mono undone(3) by blast
    moreover have "tx_idempotencyKey ` set (creditTxs d') = tx_idempotencyKey ` set (creditTxs d1)"
      using undone(4) by (simp add: delete_generation_def eq_commute [of _ d'] image_update_where del: exists_where_iff split: if_splits)
    ultimately show ?thesis by blast
  qed simp
next
  case (cancel now u rid gid p)
  from cancel(2) sys_okD(2) [OF assms(2)] show ?thesis
  proof (cases rule: cancel_body_cases)
    case (1 g d1)
    have "set (creditTxs d1) \<subseteq> set (creditTxs d')" using credit_keys_mono 1(7) by blast
    then show ?thesis by (auto simp: 1(6))
  qed
next
  case (claim now gid token b)
  then have "creditTxs d' = creditTxs d" by (auto simp: claim_body_def Let_def result_iffs split: if_splits)
  then show ?thesis by simp
next
  case persist
  then have "creditTxs d' = creditTxs d"
    unfolding persistReportResult_body_def completeInTransaction_def Let_def by (elim bindE_InrE) auto
  then show ?thesis by simp
next
  case (finalize g gid now now2 u token key n v)
  from finalize(4) sys_okD(2) [OF assms(2)] show ?thesis
  proof (cases rule: finalize_cases)
    case (1 h d1)
    have "set (creditTxs d1) \<subseteq> set (creditTxs d')" using credit_keys_mono 1(4) by blast
    then show ?thesis by (auto simp: 1(5))
  qed
next
  case prepareRetry
  then have "creditTxs d' = creditTxs d" by (auto simp: prepareRetry_body_def Let_def result_iffs split: if_splits)
  then show ?thesis by simp
next
  case (fail now now2 gid token code msg b)
  from fail(2) sys_okD(2) [OF assms(2)] show ?thesis
  proof (cases rule: failGeneration_cases)
    case (failed g r d1)
    have "set (creditTxs d1) \<subseteq> set (creditTxs d')" using credit_keys_mono failed(6) by blast
    then show ?thesis by (auto simp: failed(7))
  qed simp
next
  case allocate
  with allocateMonthly_txs show ?thesis by fastforce
next
  case (grant env dev toInt i now argv)
  from grant(2) show ?thesis by (cases rule: grantCredits_cases) auto
next
  case (createReport rid now u dto r)
  then have "creditTxs d' = creditTxs d" by (auto simp: create_def create_report_row_def Let_def split: if_splits)
  then show ?thesis by simp
next
  case (deleteReport now u rid keys)
  from deleteReport(2) show ?thesis
    by (cases rule: delete_body_cases) (simp add: delete_report_row_def Let_def image_update_where)
qed (simp_all add: mark_enqueued_def updateProgress_def renewLease_def update_def Let_def)

text \<open>A settled status stays, while the generation exists: its id is never used again.\<close>

lemma step_settled:
  assumes step: "step pc sc d a d'" and ok: "sys_ok d" and known: "ledger_knows gid d"
    and status: "\<And>g. g \<in> set (generations d) \<Longrightarrow> gen_id g = gid \<Longrightarrow> gen_status g = s" and s: "\<not> active_status s"
    and h: "h \<in> set (generations d')" "gen_id h = gid"
  shows "gen_status h = s"
proof -
  have "\<not> fresh_uuid (gen_id h) d" using known h(2) by (simp add: ledger_knows_def)
  with step_tracked [OF step ok] h(1) obtain g where "g \<in> set (generations d)" "gen_id g = gen_id h"
    "active_status (gen_status g) \<or> gen_status h = gen_status g"
    unfolding tracked_def by blast
  with status h(2) s show ?thesis by metis
qed

lemma steps_settled:
  assumes "steps pc sc d as d'" "sys_ok d" "ledger_knows gid d" "\<not> active_status s"
    "\<And>g. g \<in> set (generations d) \<Longrightarrow> gen_id g = gid \<Longrightarrow> gen_status g = s"
  shows "ledger_knows gid d' \<and> (\<forall>h \<in> set (generations d'). gen_id h = gid \<longrightarrow> gen_status h = s)"
  using assms
proof (induction rule: steps.induct)
  case (snoc d as d1 a d2)
  note ok = steps_sys_ok [OF snoc(1) snoc.prems(1)]
  note before = snoc.IH [OF snoc.prems]
  have "ledger_knows gid d2" using ledger_knows_mono [OF step_ledger_keys [OF snoc(2) ok]] before by blast
  moreover have "gen_status h = s" if "h \<in> set (generations d2)" "gen_id h = gid" for h
    by (rule step_settled [OF snoc(2) ok _ _ snoc.prems(3) that]) (use before in auto)
  ultimately show ?case by blast
qed auto

section \<open>The contract of a fenced writer\<close>

text \<open>
  Every write of a worker names its token. The contract: without the token the write reports the loss
  and leaves the database; then no interleaving brings the token back.
\<close>

locale fenced_writer =
  fixes wr :: "'a \<Rightarrow> string \<Rightarrow> string \<Rightarrow> db \<Rightarrow> 'r \<times> db" and lost :: 'r
  assumes fenced: "\<not> held d gid token \<Longrightarrow> wr x gid token d = (lost, d)"
begin

lemma stays_fenced:
  assumes "reachable pc sc d" "\<not> held d gid token" "steps pc sc d as d'" "Claim gid token \<notin> set as"
  shows "wr x gid token d' = (lost, d')"
  using fenced [OF steps_not_held [OF assms(3) reachable_sys_ok [OF assms(1)] assms(2,4)]] .

text \<open>A sequence of such writes has no effect either.\<close>

lemma all_fenced:
  "\<not> held d gid token \<Longrightarrow> foldl (\<lambda>d x. snd (wr x gid token d)) d xs = d"
  by (induction xs) (simp_all add: fenced)

end

interpretation fence_progress: fenced_writer
  "\<lambda>(pc, now, now2, stage, n) gid token. updateProgress pc now now2 gid stage n token" "Inl claimLost"
  by unfold_locales (auto simp: updateProgress_def not_held_none)

interpretation fence_renew: fenced_writer
  "\<lambda>(pc, now, now2) gid token. assertOwnership pc now now2 gid token" "Inl claimLost"
  by unfold_locales (auto simp: assertOwnership_def renewLease_def not_held_none)

interpretation fence_persist: fenced_writer
  "\<lambda>(pc, now, now2, now3, aid, result, q, it, ot) gid token.
     run_tx (persistReportResult_body pc now now2 now3 gid token aid result q it ot)" "Inl claimLost"
  by unfold_locales
    (auto simp: run_tx_def persistReportResult_body_def require_lease_def guardE_def not_held_none simp del: exists_where_iff)

interpretation fence_finalize: fenced_writer
  "\<lambda>(now, now2, rid, u, key, n) gid token. run_tx (finalize_body now now2 gid rid u token key n)" "Inl claimLost"
  by unfold_locales (auto simp: run_tx_def finalize_body_def guardE_def not_held_none simp del: exists_where_iff)

interpretation fence_retry: fenced_writer
  "\<lambda>(now, code) gid token. run_tx (prepareRetry_body now gid token code)" "Inr False"
  by unfold_locales (auto simp: run_tx_def prepareRetry_body_def not_held_none)

interpretation fence_fail: fenced_writer
  "\<lambda>(pc, now, now2, code, msg) gid token. run_tx (failGeneration_body pc now now2 gid token code msg)" "Inr False"
  by unfold_locales (auto simp: run_tx_def failGeneration_body_def not_held_none)

interpretation fence_attempt: fenced_writer
  "\<lambda>(now, now2, now3, aid, usage) gid token. run_tx (completeOwned now now2 now3 gid aid token usage)" "Inl claimLost"
  by unfold_locales
    (auto simp: run_tx_def completeOwned_def require_lease_def guardE_def not_held_none simp del: exists_where_iff)

end
