(* ===== verification/GenerationProperties.thy ===== *)
theory GenerationProperties
  imports GenerationSystem
begin

text \<open>
  The properties of the generation lifecycle: what holds in every reachable state, the fencing of
  workers, what a start, its compensation, a cancellation, a success and a failure do.
\<close>

section \<open>A concrete run\<close>

definition demo_pc :: processor_config where
  "demo_pc = \<lparr>jobTimeoutMs = 600000, failedRetryWindowMs = 3600000, failedRetryLimit = 2,
     failedLockMs = 7200000, reportModel = ''m''\<rparr>"

definition demo_sc :: start_config where
  "demo_sc = \<lparr>generationEnabled = True, startRateWindowSeconds = 3600, startRateLimit = 5,
     dailySafetyLimit = 10, globalDailyLimit = 100\<rparr>"

definition ok_state :: "exn + ('a \<times> db) \<Rightarrow> db" where
  "ok_state r = (case r of Inl _ \<Rightarrow> empty_db | Inr (_, d) \<Rightarrow> d)"

definition demo0 :: db where
  "demo0 = (case allocateMonthly ''gr'' 5 ''u'' ''2026'' 3 0 9999999 (empty_db\<lparr>users := [demo_user]\<rparr>) of
     Inl _ \<Rightarrow> empty_db | Inr d \<Rightarrow> d)"

definition demo_asset :: asset_row where
  "demo_asset = \<lparr>as_id = ''a'', as_reportId = ''r'', as_type = IMAGE, as_status = AS_READY,
     as_storageKey = ''ka'', as_originalFileName = [], as_declaredMimeType = ''image/png'',
     as_verifiedMimeType = Some ''image/png'', as_declaredSize = 9, as_verifiedSize = Some 9,
     as_position = 0, as_width = Some 1, as_height = Some 1, as_durationSeconds = None,
     as_rejectionReason = None, as_createdAt = 11\<rparr>"

definition demo_report :: db where
  "demo_report = ok_state (create ''r'' 10 ''u'' \<lparr>dto_title = [65], dto_notes = None\<rparr> demo0)"

definition demo1 :: db where
  "demo1 = demo_report\<lparr>assets := [demo_asset]\<rparr>"

definition demo_start :: "exn + (generation_row \<times> db)" where
  "demo_start = start_body demo_sc (\<lambda>_. 20) ''g'' ''u'' ''r'' ''key'' demo1"

definition demo2 :: db where
  "demo2 = ok_state demo_start"

definition demo3 :: db where
  "demo3 = ok_state (claim_body demo_pc 30 ''g'' ''t'' demo2)"

definition demo4 :: db where
  "demo4 = ok_state (finalize_body 40 41 ''g'' ''r'' ''u'' ''t'' ''k.pdf'' 1000 demo3)"

definition demo5 :: db where
  "demo5 = ok_state (failGeneration_body demo_pc 50 50 ''g'' ''t'' ''E'' ''boom'' demo3)"

lemma ok_stateE:
  assumes "\<not> isl r"
  obtains x where "r = Inr (x, ok_state r)"
  using assms by (cases r) (auto simp: ok_state_def)

lemma reachable_step: "reachable pc sc d \<Longrightarrow> step pc sc d a d' \<Longrightarrow> reachable pc sc d'"
  unfolding reachable_def by (blast intro: snoc)

lemma reachable_empty: "reachable pc sc empty_db"
  unfolding reachable_def by (blast intro: none)

lemma steps_one: "step pc sc d a d' \<Longrightarrow> steps pc sc d [a] d'"
  using snoc [OF none] by force

lemma demo1_reachable: "reachable demo_pc demo_sc demo1"
proof -
  let ?u = "empty_db\<lparr>users := [demo_user]\<rparr>"
  have "step demo_pc demo_sc empty_db Elsewhere ?u" by (rule elsewhere) simp_all
  note r1 = reachable_step [OF reachable_empty this]
  have "\<not> isl (allocateMonthly ''gr'' 5 ''u'' ''2026'' 3 0 9999999 ?u)" by code_simp
  then have "allocateMonthly ''gr'' 5 ''u'' ''2026'' 3 0 9999999 ?u = Inr demo0"
    unfolding demo0_def by (cases "allocateMonthly ''gr'' 5 ''u'' ''2026'' 3 0 9999999 ?u") simp_all
  note r2 = reachable_step [OF r1 allocate [OF this]]
  have "\<not> isl (create ''r'' 10 ''u'' \<lparr>dto_title = [65], dto_notes = None\<rparr> demo0)" by code_simp
  then obtain x where "create ''r'' 10 ''u'' \<lparr>dto_title = [65], dto_notes = None\<rparr> demo0 = Inr (x, demo_report)"
    unfolding demo_report_def by (rule ok_stateE)
  note r3 = reachable_step [OF r2 createReport [OF this]]
  have "step demo_pc demo_sc demo_report Elsewhere demo1" by (rule elsewhere) (simp_all add: demo1_def)
  from reachable_step [OF r3 this] show ?thesis .
qed

lemma demo1_fresh: "fresh_uuid gid demo1"
proof -
  have "map tx_idempotencyKey (creditTxs demo1) = [period_key ''u'' ''2026'']" by code_simp
  then have "tx_idempotencyKey ` set (creditTxs demo1) = {period_key ''u'' ''2026''}"
    unfolding set_map [symmetric] by simp
  then show ?thesis unfolding fresh_uuid_def by (metis image_eqI period_key_neq(1) singletonD)
qed

lemma demo2_start: "\<exists>g. demo_start = Inr (g, demo2)"
proof -
  have "\<not> isl demo_start" by code_simp
  then show ?thesis unfolding demo2_def by (elim ok_stateE) blast
qed

lemma demo2_step: "step demo_pc demo_sc demo1 (Start ''g'') demo2"
  using demo2_start start [OF demo1_fresh] unfolding demo_start_def by blast

lemma demo3_step: "step demo_pc demo_sc demo2 (Claim ''g'' ''t'') demo3"
proof -
  have "\<not> isl (claim_body demo_pc 30 ''g'' ''t'' demo2)" by code_simp
  then show ?thesis unfolding demo3_def by (elim ok_stateE) (rule claim)
qed

lemma demo4_step: "step demo_pc demo_sc demo3 (Finalize ''g'' ''t'') demo4"
proof -
  have "\<not> isl (finalize_body 40 41 ''g'' ''r'' ''u'' ''t'' ''k.pdf'' 1000 demo3)" by code_simp
  then obtain v where v: "finalize_body 40 41 ''g'' ''r'' ''u'' ''t'' ''k.pdf'' 1000 demo3 = Inr (v, demo4)"
    unfolding demo4_def by (rule ok_stateE)
  have "\<exists>g \<in> set (generations demo3). gen_id g = ''g'' \<and> gen_reportId g = ''r''" by code_simp
  then obtain g where "g \<in> set (generations demo3)" "gen_id g = ''g''" "gen_reportId g = ''r''" by blast
  with v show ?thesis by (intro finalize [of g]) simp_all
qed

lemmas demo_reachable = demo1_reachable
  reachable_step [OF demo1_reachable demo2_step]
  reachable_step [OF reachable_step [OF demo1_reachable demo2_step] demo3_step]
  reachable_step [OF reachable_step [OF reachable_step [OF demo1_reachable demo2_step] demo3_step] demo4_step]

section \<open>Reachable states\<close>

text \<open>
  C1. In every state the API and the workers can reach: at most one generation of a report is
  queued or processing; the report is QUEUED or PROCESSING exactly when such a generation is; it is
  READY exactly when it has an output; and a generation is COMPLETED exactly when an output is its own.
\<close>

theorem reports_agree_with_generations:
  assumes "reachable pc sc d"
  shows "(\<forall>g \<in> set (generations d). \<forall>h \<in> set (generations d).
        gen_reportId g = gen_reportId h \<and> active_status (gen_status g) \<and> active_status (gen_status h) \<longrightarrow> g = h) \<and>
    (\<forall>r \<in> set (reports d).
       (rep_status r = RS_QUEUED \<longleftrightarrow>
          (\<exists>g \<in> set (generations d). gen_reportId g = rep_id r \<and> gen_status g = GS_QUEUED)) \<and>
       (rep_status r = RS_PROCESSING \<longleftrightarrow>
          (\<exists>g \<in> set (generations d). gen_reportId g = rep_id r \<and> gen_status g = GS_PROCESSING)) \<and>
       (rep_status r = RS_READY \<longleftrightarrow> (\<exists>q \<in> set (outputs d). out_reportId q = rep_id r))) \<and>
    (\<forall>g \<in> set (generations d).
       gen_status g = GS_COMPLETED \<longleftrightarrow> (\<exists>q \<in> set (outputs d). out_generationId q = gen_id g))"
proof -
  note ok = reachable_sys_ok [OF assms]
  have "g = h" if "g \<in> set (generations d)" "h \<in> set (generations d)" "gen_reportId g = gen_reportId h"
    "active_status (gen_status g)" "active_status (gen_status h)" for g h
    using one_activeD [OF sys_okD(5) [OF ok] that] keyed_eq [OF sys_okD(2) [OF ok] that(1,2)] by blast
  moreover have "rep_ok d r" if "r \<in> set (reports d)" for r by (rule sys_okD(7) [OF ok that])
  moreover have "gen_ok d g" if "g \<in> set (generations d)" for g by (rule sys_okD(6) [OF ok that])
  ultimately show ?thesis unfolding rep_ok_def gen_ok_def by blast
qed

theorem reports_agree_with_generations_witness:
  "\<exists>r q. reports demo4 = [r] \<and> rep_status r = RS_READY \<and> q \<in> set (outputs demo4) \<and> out_reportId q = rep_id r"
proof -
  have r: "map rep_status (reports demo4) = [RS_READY]" by code_simp
  then obtain x where x: "reports demo4 = [x]" "rep_status x = RS_READY"
    by (cases "reports demo4") auto
  with reports_agree_with_generations [OF demo_reachable(4)] show ?thesis by auto
qed

text \<open>
  C2. In every reachable state the credit of each generation is the one of its status: reserved while
  it is queued or processing, consumed once completed, given back once failed or cancelled; and no
  grant is overdrawn or overfilled.
\<close>

theorem credits_follow_generations:
  assumes "reachable pc sc d"
  shows "(\<forall>g \<in> set (generations d). credit_state (gen_id g) d =
      (case gen_status g of GS_QUEUED \<Rightarrow> Reserved | GS_PROCESSING \<Rightarrow> Reserved | GS_COMPLETED \<Rightarrow> Consumed
       | GS_FAILED \<Rightarrow> Restored | GS_CANCELLED \<Rightarrow> Restored)) \<and>
    (\<forall>x \<in> set (grants d). 0 \<le> gr_remainingCredits x \<and> gr_remainingCredits x \<le> gr_totalCredits x)"
proof -
  note ok = reachable_sys_ok [OF assms]
  have "credit_of s = (case s of GS_QUEUED \<Rightarrow> Reserved | GS_PROCESSING \<Rightarrow> Reserved | GS_COMPLETED \<Rightarrow> Consumed
       | GS_FAILED \<Rightarrow> Restored | GS_CANCELLED \<Rightarrow> Restored)" for s by (cases s) simp_all
  with sys_ok_credit(2) [OF ok] ledger_ok_bounds [OF sys_okD(3) [OF ok]] show ?thesis by simp
qed

theorem credits_follow_generations_witness:
  "credit_state ''g'' demo3 = Reserved \<and> credit_state ''g'' demo4 = Consumed"
proof -
  have g: "\<exists>g \<in> set (generations demo3). gen_id g = ''g'' \<and> gen_status g = GS_PROCESSING"
    "\<exists>g \<in> set (generations demo4). gen_id g = ''g'' \<and> gen_status g = GS_COMPLETED" by code_simp+
  then show ?thesis
    using credits_follow_generations [OF demo_reachable(3)] credits_follow_generations [OF demo_reachable(4)] by force
qed

section \<open>Fencing\<close>



text \<open>
  Settled is final: once a generation is completed, failed or cancelled, no steps of the API or of
  workers change its status, and its id never comes back with another one.
\<close>

lemma settled_generation_is_final:
  assumes "reachable pc sc d" "g \<in> set (generations d)"
    "gen_status g \<in> {GS_COMPLETED, GS_FAILED, GS_CANCELLED}" "steps pc sc d as d'"
  shows "\<forall>h \<in> set (generations d'). gen_id h = gen_id g \<longrightarrow> gen_status h = gen_status g"
proof -
  note ok = reachable_sys_ok [OF assms(1)]
  have s: "\<not> active_status (gen_status g)" using assms(3) by (auto simp: active_status_def)
  have "gen_status h = gen_status g" if "h \<in> set (generations d)" "gen_id h = gen_id g" for h
    using keyed_eq [OF sys_okD(2) [OF ok] that(1) assms(2) that(2)] by simp
  from steps_settled [OF assms(4) ok generation_known [OF ok assms(2)] s this] show ?thesis by blast
qed

lemma settled_generation_is_final_witness:
  "\<exists>h. generations (mark_enqueued 99 ''g'' demo4) = [h] \<and> gen_status h = GS_COMPLETED"
proof -
  have "map gen_id (generations demo4) = [''g'']" "map gen_status (generations demo4) = [GS_COMPLETED]" by code_simp+
  then obtain g where g: "generations demo4 = [g]" "gen_id g = ''g''" "gen_status g = GS_COMPLETED"
    by (cases "generations demo4") auto
  have s: "steps demo_pc demo_sc demo4 [MarkEnqueued ''g''] (mark_enqueued 99 ''g'' demo4)"
    by (rule steps_one [OF marked])
  have "g \<in> set (generations demo4)" "gen_status g \<in> {GS_COMPLETED, GS_FAILED, GS_CANCELLED}" using g by simp_all
  from settled_generation_is_final [OF demo_reachable(4) this s] g show ?thesis
    by (simp add: mark_enqueued_def update_where_def)
qed

lemma claim_facts:
  assumes "reachable pc sc d" "claim_body pc now gid token d = Inr (b, d')"
  shows "b = (\<exists>g \<in> set (generations d). gen_id g = gid \<and> (gen_status g = GS_QUEUED \<or>
        gen_status g = GS_PROCESSING \<and> (\<exists>t. gen_leaseExpiresAt g = Some t \<and> t < now)))"
    and "\<not> b \<longrightarrow> d' = d"
    and "b \<longrightarrow> (\<forall>other. held d' gid other \<longrightarrow> other = token) \<and>
      (\<forall>later other. later \<le> now + jobTimeoutMs pc \<longrightarrow> claim_body pc later gid other d' = Inr (False, d')) \<and>
      (\<forall>later. later < now + jobTimeoutMs pc \<longrightarrow> fst (assertOwnership pc later later gid token d') = Inr ())"
proof -
  note keyed = sys_okD(2) [OF reachable_sys_ok [OF assms(1)]]
  have iff: "claimable now gid g \<longleftrightarrow> gen_id g = gid \<and> (gen_status g = GS_QUEUED \<or>
        gen_status g = GS_PROCESSING \<and> (\<exists>t. gen_leaseExpiresAt g = Some t \<and> t < now))" for now g
    by (auto simp: claimable_def split: option.splits)
  have one: "count_where (claimable now gid) (generations d) = 1 \<longleftrightarrow> (\<exists>g \<in> set (generations d). claimable now gid g)"
    using count_where_eq_1 [OF keyed, of "claimable now gid"] count_where_pos [of "claimable now gid" _ 0]
    by (auto simp: claimable_def)
  have b: "b \<longleftrightarrow> count_where (claimable now gid) (generations d) = 1"
    using assms(2) by (auto simp: claim_body_def Let_def result_iffs split: if_splits)
  then show "b = (\<exists>g \<in> set (generations d). gen_id g = gid \<and> (gen_status g = GS_QUEUED \<or>
        gen_status g = GS_PROCESSING \<and> (\<exists>t. gen_leaseExpiresAt g = Some t \<and> t < now)))"
    unfolding one iff by blast
  show "\<not> b \<longrightarrow> d' = d" using assms(2) b by (auto simp: claim_body_def Let_def)
  let ?F = "\<lambda>g. g\<lparr>gen_status := GS_PROCESSING, gen_processingToken := Some token,
      gen_leaseExpiresAt := Some (now + jobTimeoutMs pc), gen_startedAt := Some now,
      gen_attemptCount := gen_attemptCount g + 1\<rparr>"
  show "b \<longrightarrow> (\<forall>other. held d' gid other \<longrightarrow> other = token) \<and>
      (\<forall>later other. later \<le> now + jobTimeoutMs pc \<longrightarrow> claim_body pc later gid other d' = Inr (False, d')) \<and>
      (\<forall>later. later < now + jobTimeoutMs pc \<longrightarrow> fst (assertOwnership pc later later gid token d') = Inr ())"
  proof
    assume b1: b
    have gens: "generations d' = update_where (claimable now gid) ?F (generations d)"
      using assms(2) b b1 by (auto simp: claim_body_def Let_def result_iffs)
    obtain g where g: "g \<in> set (generations d)" "claimable now gid g" using b b1 one by auto
    have mine: "h = ?F g" if h: "h \<in> set (generations d')" "gen_id h = gid" for h
    proof -
      obtain k where k: "k \<in> set (generations d)" "h = (if claimable now gid k then ?F k else k)"
        using h(1) unfolding gens in_update_where by blast
      then have "gen_id k = gid" using h(2) by (auto split: if_splits)
      then have "k = g" using keyed_eq [OF keyed k(1) g(1)] g(2) by (auto simp: claimable_def)
      with k(2) g(2) show ?thesis by simp
    qed
    have "?F g \<in> set (generations d')" using g unfolding gens in_update_where by (intro bexI [of _ g]) simp_all
    moreover have "keyed gen_id (generations d')" using keyed by (simp add: gens)
    ultimately have owns: "count_where (owns_lease later gid token) (generations d') = 1"
      if "later < now + jobTimeoutMs pc" for later
      using that g(2) by (intro count_where_eq_1 [of gen_id _ _ "?F g"]) (auto simp: owns_lease_def claimable_def)
    have "count_where (claimable later gid) (generations d') = 0" if "later \<le> now + jobTimeoutMs pc" for later
      using mine that by (force simp: count_where_0_iff claimable_def)
    then show "(\<forall>other. held d' gid other \<longrightarrow> other = token) \<and>
      (\<forall>later other. later \<le> now + jobTimeoutMs pc \<longrightarrow> claim_body pc later gid other d' = Inr (False, d')) \<and>
      (\<forall>later. later < now + jobTimeoutMs pc \<longrightarrow> fst (assertOwnership pc later later gid token d') = Inr ())"
      using owns mine by (force simp: held_def claim_body_def assertOwnership_def renewLease_def)
  qed
qed

text \<open>
  C8. A claim succeeds exactly when the generation is queued, or processing under a lease that has run
  out. Then the claimer alone holds it: until the lease ends every other claim fails and changes nothing,
  and the claimer's own writes are accepted.
\<close>

theorem claim_is_exclusive:
  assumes "reachable pc sc d" "claim_body pc now gid token d = Inr (b, d')"
  shows "(b \<longleftrightarrow> (\<exists>g \<in> set (generations d). gen_id g = gid \<and> (gen_status g = GS_QUEUED \<or>
        gen_status g = GS_PROCESSING \<and> (\<exists>t. gen_leaseExpiresAt g = Some t \<and> t < now)))) \<and>
    (\<not> b \<longrightarrow> d' = d) \<and>
    (b \<longrightarrow> (\<forall>other. held d' gid other \<longrightarrow> other = token) \<and>
      (\<forall>later other. later \<le> now + jobTimeoutMs pc \<longrightarrow> claim_body pc later gid other d' = Inr (False, d')) \<and>
      (\<forall>later. later < now + jobTimeoutMs pc \<longrightarrow> fst (assertOwnership pc later later gid token d') = Inr ()))"
  using claim_facts [OF assms] by blast

theorem claim_is_exclusive_witness:
  "claim_body demo_pc 600030 ''g'' ''other'' demo3 = Inr (False, demo3) \<and>
   (\<exists>d'. claim_body demo_pc 600031 ''g'' ''other'' demo3 = Inr (True, d'))"
proof -
  have "\<not> isl (claim_body demo_pc 30 ''g'' ''t'' demo2)" by code_simp
  then obtain b where b: "claim_body demo_pc 30 ''g'' ''t'' demo2 = Inr (b, demo3)"
    unfolding demo3_def by (rule ok_stateE)
  have "\<exists>g \<in> set (generations demo2). gen_id g = ''g'' \<and> gen_status g = GS_QUEUED" by code_simp
  then have bt: b using claim_is_exclusive [OF demo_reachable(2) b] by blast
  have "\<not> isl (claim_body demo_pc 600031 ''g'' ''other'' demo3)" by code_simp
  then obtain c d' where c: "claim_body demo_pc 600031 ''g'' ''other'' demo3 = Inr (c, d')" by (auto elim: ok_stateE)
  have "\<exists>g \<in> set (generations demo3). gen_id g = ''g'' \<and> gen_status g = GS_PROCESSING \<and> gen_leaseExpiresAt g = Some 600030"
    by code_simp
  then have c1: c using claim_is_exclusive [OF demo_reachable(3) c] by force
  show ?thesis
    using claim_is_exclusive [OF demo_reachable(2) b] bt c c1 by (simp add: demo_pc_def)
qed

end
