(* ===== verification/GenerationOutcomes.thy ===== *)
theory GenerationOutcomes
  imports GenerationProperties
begin

text \<open>
  What the transactions at the ends of a generation's life achieve: a success or a failure committed by
  the worker that holds the lease, the throttle on failing reports, a start, its compensation when the
  queue refuses the job, and a cancellation.
\<close>

section \<open>The worker's last transaction\<close>

lemma count_owned:
  assumes "sys_ok d" "g \<in> set (generations d)" "\<And>h. p h \<Longrightarrow> gen_id h = gen_id g" "p g"
  shows "count_where p (generations d) = 1"
proof (rule count_where_eq_1 [where k = gen_id])
  show "gen_id x = gen_id y" if "p x" "p y" for x y using assms(3) that by metis
qed (use sys_okD(2) [OF assms(1)] assms(2,4) in simp_all)

lemma updated_row: "r \<in> set rows \<Longrightarrow> p r \<Longrightarrow> f r \<in> set (update_where p f rows)"
  unfolding in_update_where by (rule bexI [of _ r]) simp_all

lemma updated_exists: "r \<in> set rows \<Longrightarrow> p r \<Longrightarrow> Q (f r) \<Longrightarrow> \<exists>x \<in> set (update_where p f rows). Q x"
  by (rule bexI [OF _ updated_row])

text \<open>
  C16. The worker that holds the lease can always finish: with a fresh storage key the success commits,
  and output, COMPLETED generation, READY report with its failure counter cleared and consumed credit
  appear together.
\<close>

theorem success_commits_together:
  assumes "reachable pc sc d" "g \<in> set (generations d)" "owns_lease now (gen_id g) token g"
    and "\<And>q. q \<in> set (outputs d) \<Longrightarrow> out_storageKey q \<noteq> key"
  shows "\<exists>d'. finalize_body now now2 (gen_id g) (gen_reportId g) (gen_userId g) token key size' d = Inr ((), d') \<and>
    (\<exists>h \<in> set (generations d'). gen_id h = gen_id g \<and> gen_status h = GS_COMPLETED) \<and>
    (\<exists>q \<in> set (outputs d'). out_reportId q = gen_reportId g \<and> out_generationId q = gen_id g \<and> out_storageKey q = key) \<and>
    (\<exists>r \<in> set (reports d'). rep_id r = gen_reportId g \<and> rep_status r = RS_READY \<and> rep_failureCount r = 0 \<and>
       rep_lockedUntil r = None) \<and>
    credit_state (gen_id g) d' = Consumed"
proof -
  note ok = reachable_sys_ok [OF assms(1)]
  note own = owns_leaseD [OF assms(3)]
  let ?gid = "gen_id g" and ?rid = "gen_reportId g" and ?u = "gen_userId g"
  let ?q = "\<lparr>out_reportId = ?rid, out_generationId = ?gid, out_storageKey = key,
      out_mimeType = ''application/pdf'', out_size = size', out_createdAt = now2\<rparr>"
  obtain r where r: "r \<in> set (reports d)" "rep_id r = ?rid" "rep_userId r = ?u"
    using sys_ok_credit(5) [OF ok assms(2)] by blast
  note act = sys_ok_active [OF ok assms(2) own(5) r(1,2)]
  have out: "create_output ?q d = Inr (d\<lparr>outputs := outputs d @ [?q]\<rparr>)"
    using act(2,3) assms(4) by (auto simp: create_output_def)
  have n: "count_where (\<lambda>h. processed_by ?gid token h \<and> gen_userId h = ?u) (generations d) = 1"
    by (rule count_owned [OF ok assms(2)]) (use own(6) in \<open>auto simp: processed_by_def\<close>)
  define d2 where "d2 = d\<lparr>outputs := outputs d @ [?q], generations := update_where
      (\<lambda>h. processed_by ?gid token h \<and> gen_userId h = ?u)
      (\<lambda>h. h\<lparr>gen_status := GS_COMPLETED, gen_stage := STAGE_COMPLETED, gen_progress := progress_of STAGE_COMPLETED,
             gen_completedAt := Some now2, gen_processingToken := None, gen_leaseExpiresAt := None\<rparr>) (generations d)\<rparr>"
  define d3 where "d3 = d2\<lparr>reports := update_where (\<lambda>r. rep_id r = ?rid \<and> rep_userId r = ?u)
      (\<lambda>r. r\<lparr>rep_status := RS_READY, rep_failureCount := 0, rep_windowStartedAt := None, rep_lockedUntil := None\<rparr>) (reports d2)\<rparr>"
  have gens3: "generations d3 = update_where (\<lambda>h. processed_by ?gid token h \<and> gen_userId h = ?u)
      (\<lambda>h. h\<lparr>gen_status := GS_COMPLETED, gen_stage := STAGE_COMPLETED, gen_progress := progress_of STAGE_COMPLETED,
             gen_completedAt := Some now2, gen_processingToken := None, gen_leaseExpiresAt := None\<rparr>) (generations d)"
    and reps3: "reports d3 = update_where (\<lambda>r. rep_id r = ?rid \<and> rep_userId r = ?u)
      (\<lambda>r. r\<lparr>rep_status := RS_READY, rep_failureCount := 0, rep_windowStartedAt := None, rep_lockedUntil := None\<rparr>) (reports d)"
    by (simp_all add: d3_def d2_def)
  have same: "creditTxs d3 = creditTxs d" "grants d3 = grants d" by (simp_all add: d3_def d2_def)
  have "credit_state ?gid d = Reserved" using sys_ok_credit(2) [OF ok assms(2)] own(2) by simp
  then have "credit_state ?gid d3 = Reserved" "live_ledger ?gid d3" "ledger_ok d3"
    using credit_view_cong [OF same(1)] sys_ok_credit(1) [OF ok assms(2)] sys_okD(3) [OF ok] ledger_ok_cong [OF same(2,1)]
    by simp_all
  then obtain d' where d': "consumeInTransaction ?gid d3 = Inr d'" using consume_reserved_succeeds by blast
  have lease: "exists_where (\<lambda>h. owns_lease now ?gid token h \<and> gen_userId h = ?u) (generations d)"
    using assms(2,3) by auto
  have rep: "exists_where (\<lambda>r. rep_id r = ?rid \<and> rep_userId r = ?u) (reports d2)"
    using r by (auto simp: d2_def)
  have fin: "finalize_body now now2 ?gid ?rid ?u token key size' d = Inr ((), d')"
    unfolding finalize_body_def using lease out n rep d'
    by (simp add: Let_def d3_def d2_def del: exists_where_iff)
  have "credit_state ?gid d' = Consumed"
    using credit_state_consume [OF \<open>ledger_ok d3\<close> \<open>live_ledger ?gid d3\<close> d'] by blast
  moreover note frame = credit_frameD [OF credit_frames(2) [OF d']]
  have "\<exists>h \<in> set (generations d'). gen_id h = ?gid \<and> gen_status h = GS_COMPLETED"
    unfolding frame(4) gens3 by (rule updated_exists [OF assms(2)]) (use own(6) in simp_all)
  moreover have "\<exists>q \<in> set (outputs d'). out_reportId q = ?rid \<and> out_generationId q = ?gid \<and> out_storageKey q = key"
    using frame by (intro bexI [of _ ?q]) (simp_all add: d3_def d2_def)
  moreover have "\<exists>r \<in> set (reports d'). rep_id r = ?rid \<and> rep_status r = RS_READY \<and> rep_failureCount r = 0 \<and>
       rep_lockedUntil r = None"
    unfolding frame(2) reps3 by (rule updated_exists [OF r(1)]) (use r in simp_all)
  ultimately show ?thesis using fin by (intro exI [of _ d']) auto
qed

theorem success_commits_together_witness:
  "\<exists>d'. finalize_body 40 41 ''g'' ''r'' ''u'' ''t'' ''k.pdf'' 1000 demo3 = Inr ((), d') \<and>
     credit_state ''g'' d' = Consumed"
proof -
  have "\<exists>g \<in> set (generations demo3). gen_id g = ''g'' \<and> gen_reportId g = ''r'' \<and> gen_userId g = ''u'' \<and>
      owns_lease 40 ''g'' ''t'' g" "outputs demo3 = []" by code_simp+
  then obtain g where g: "g \<in> set (generations demo3)" "gen_id g = ''g''" "gen_reportId g = ''r''" "gen_userId g = ''u''"
    "owns_lease 40 ''g'' ''t'' g" and no: "outputs demo3 = []" by blast
  from success_commits_together [OF demo_reachable(3) g(1), of 40 "''t''" "''k.pdf''" 41 1000] g no
  show ?thesis by auto
qed

text \<open>
  C17. The worker that holds the lease can always give up: the failure commits, the generation is FAILED
  with its code, the credit is given back, and the report is FAILED with the failure counted by the throttle;
  when the throttle locks the report, a new start is refused until the lock ends.
\<close>

theorem failure_releases_and_throttles:
  assumes "reachable pc sc d" "g \<in> set (generations d)" "owns_lease now2 (gen_id g) token g"
  shows "\<exists>d' r r'. failGeneration_body pc now now2 (gen_id g) token code msg d = Inr (True, d') \<and>
    (\<exists>h \<in> set (generations d'). gen_id h = gen_id g \<and> gen_status h = GS_FAILED \<and> gen_errorCode h = Some code) \<and>
    credit_state (gen_id g) d' = Restored \<and>
    r \<in> set (reports d) \<and> rep_id r = gen_reportId g \<and> r' \<in> set (reports d') \<and> rep_id r' = gen_reportId g \<and>
    rep_status r' = RS_FAILED \<and>
    (rep_failureCount r', rep_windowStartedAt r', rep_lockedUntil r') = failure_throttle pc now r \<and>
    (rep_failureCount r' \<ge> failedRetryLimit pc \<longrightarrow>
       (\<forall>later < now + failedLockMs pc. \<not> (\<exists>v. assertReportUnlocked later r' = Inr v)))"
proof -
  note ok = reachable_sys_ok [OF assms(1)]
  note own = owns_leaseD [OF assms(3)]
  let ?gid = "gen_id g" and ?rid = "gen_reportId g"
  let ?F = "\<lambda>g. g\<lparr>gen_status := GS_FAILED, gen_errorCode := Some code, gen_errorMessage := Some (take 300 msg),
      gen_completedAt := Some now, gen_processingToken := None, gen_leaseExpiresAt := None\<rparr>"
  obtain r0 where r0: "r0 \<in> set (reports d)" "rep_id r0 = ?rid" using sys_ok_credit(5) [OF ok assms(2)] by blast
  note act = sys_ok_active [OF ok assms(2) own(5) r0]
  have n: "count_where (owns_lease now2 ?gid token) (generations d) = 1"
    by (rule count_owned [OF ok assms(2)]) (use assms(3) in \<open>auto dest: owns_leaseD(1)\<close>)
  have upd: "update_where (owns_lease now2 ?gid token) ?F (generations d) = update_where (\<lambda>h. gen_id h = ?gid) ?F (generations d)"
    by (rule update_where_key [where k = gen_id, OF sys_okD(2) [OF ok] assms(2)]) (use assms(3) in \<open>auto dest: owns_leaseD(1)\<close>)
  define d1 where "d1 = d\<lparr>generations := update_where (\<lambda>h. gen_id h = ?gid) ?F (generations d)\<rparr>"
  have found: "find_generation ?gid d1 = Some (?F g)"
    by (rule find_generation_updated [OF sys_okD(2) [OF ok] assms(2)]) (simp_all add: d1_def)
  obtain r where r: "find_report ?rid d1 = Some r"
    using r0 find_first_not_None [of r0 "reports d" "\<lambda>r. rep_id r = ?rid"] by (auto simp: find_report_def d1_def)
  have rin: "r \<in> set (reports d)" "rep_id r = ?rid"
    using find_first_Some [OF r [unfolded find_report_def]] by (simp_all add: d1_def)
  have noout: "\<not> exists_where (\<lambda>q. out_reportId q = ?rid) (outputs d1)" using act(2) by (auto simp: d1_def)
  define d2 where "d2 = d1\<lparr>reports := update_where (\<lambda>x. rep_id x = ?rid)
      (apply_throttle RS_FAILED (failure_throttle pc now r)) (reports d)\<rparr>"
  have gens2: "generations d2 = update_where (\<lambda>h. gen_id h = ?gid) ?F (generations d)"
    and reps2: "reports d2 = update_where (\<lambda>x. rep_id x = ?rid) (apply_throttle RS_FAILED (failure_throttle pc now r)) (reports d)"
    by (simp_all add: d2_def d1_def)
  have same: "creditTxs d2 = creditTxs d" "grants d2 = grants d" by (simp_all add: d2_def d1_def)
  have "credit_state ?gid d = Reserved" using sys_ok_credit(2) [OF ok assms(2)] own(2) by simp
  then have pre: "credit_state ?gid d2 = Reserved" "live_ledger ?gid d2" "ledger_ok d2"
    using credit_view_cong [OF same(1)] sys_ok_credit(1) [OF ok assms(2)] sys_okD(3) [OF ok] ledger_ok_cong [OF same(2,1)]
    by simp_all
  then obtain d' where d': "releaseInTransaction ?gid (''Terminal failure: '' @ code) d2 = Inr d'"
    using release_total by blast
  have upd2: "update_report ?rid (apply_throttle RS_FAILED (failure_throttle pc now r)) d1 = Inr d2"
    using r0 by (auto simp: update_report_Inr_iff d2_def d1_def)
  have fail: "failGeneration_body pc now now2 ?gid token code msg d = Inr (True, d')"
    unfolding failGeneration_body_def Let_def upd d1_def [symmetric] using n noout upd2 d'
    by (simp add: found r del: exists_where_iff)
  note frame = credit_frameD [OF credit_frames(3) [OF d']]
  let ?r' = "apply_throttle RS_FAILED (failure_throttle pc now r) r"
  have "credit_state ?gid d' = Restored"
    using credit_state_release [OF pre(3,2) d'] pre(1) by simp
  moreover have "\<exists>h \<in> set (generations d'). gen_id h = ?gid \<and> gen_status h = GS_FAILED \<and> gen_errorCode h = Some code"
    unfolding frame(4) gens2 by (rule updated_exists [OF assms(2)]) simp_all
  moreover have "?r' \<in> set (reports d')"
    unfolding frame(2) reps2 by (rule updated_row [OF rin(1)]) (rule rin(2))
  moreover have t: "(rep_failureCount ?r', rep_windowStartedAt ?r', rep_lockedUntil ?r') = failure_throttle pc now r"
    by (simp add: apply_throttle_def split: prod.splits)
  moreover have "\<forall>later < now + failedLockMs pc. \<not> (\<exists>v. assertReportUnlocked later ?r' = Inr v)"
    if "rep_failureCount ?r' \<ge> failedRetryLimit pc"
    using that t by (simp add: failure_throttle_def Let_def assertReportUnlocked_def)
  ultimately show ?thesis
    using fail rin by (intro exI [of _ d'] exI [of _ r] exI [of _ ?r']) simp
qed

theorem failure_releases_and_throttles_witness:
  "\<exists>d' r'. failGeneration_body demo_pc 50 50 ''g'' ''t'' ''E'' ''boom'' demo3 = Inr (True, d') \<and>
     credit_state ''g'' d' = Restored \<and> r' \<in> set (reports d') \<and> rep_status r' = RS_FAILED"
proof -
  have "\<exists>g \<in> set (generations demo3). gen_id g = ''g'' \<and> owns_lease 50 ''g'' ''t'' g" by code_simp
  then obtain g where g: "g \<in> set (generations demo3)" "gen_id g = ''g''" "owns_lease 50 ''g'' ''t'' g" by blast
  from failure_releases_and_throttles [OF demo_reachable(3) g(1), of 50 "''t''" 50 "''E''" "''boom''"] g
  show ?thesis by auto
qed

section \<open>The throttle over several failures\<close>

text \<open>The report's columns after failures at the given times with no success in between.\<close>

fun fail_at :: "processor_config \<Rightarrow> int list \<Rightarrow> report_row \<Rightarrow> report_row" where
  "fail_at pc [] r = r"
| "fail_at pc (t # ts) r = fail_at pc ts (apply_throttle RS_FAILED (failure_throttle pc t r) r)"

lemma apply_throttle_cols:
  "rep_failureCount (apply_throttle st (n, w, l) r) = n"
  "rep_windowStartedAt (apply_throttle st (n, w, l) r) = w"
  "rep_lockedUntil (apply_throttle st (n, w, l) r) = l"
  by (simp_all add: apply_throttle_def)

lemma fail_at_window:
  assumes "rep_windowStartedAt r = Some t0" "\<And>t. t \<in> set ts \<Longrightarrow> t0 \<le> t \<and> t \<le> t0 + failedRetryWindowMs pc" "ts \<noteq> []"
  shows "rep_failureCount (fail_at pc ts r) = rep_failureCount r + int (length ts) \<and>
    rep_lockedUntil (fail_at pc ts r) =
      (if rep_failureCount r + int (length ts) \<ge> failedRetryLimit pc then Some (last ts + failedLockMs pc) else None)"
  using assms
proof (induction ts arbitrary: r)
  case (Cons t ts)
  let ?r = "apply_throttle RS_FAILED (failure_throttle pc t r) r"
  have t: "t0 \<le> t" "t \<le> t0 + failedRetryWindowMs pc" using Cons.prems(2) [of t] by auto
  have f: "failure_throttle pc t r = (rep_failureCount r + 1, Some t0,
      if rep_failureCount r + 1 \<ge> failedRetryLimit pc then Some (t + failedLockMs pc) else None)"
    using t Cons.prems(1) by (simp add: failure_throttle_def Let_def)
  show ?case
  proof (cases ts)
    case Nil
    then show ?thesis by (simp add: f apply_throttle_cols)
  next
    case (Cons u us)
    then have "ts \<noteq> []" by simp
    from Cons.IH [OF _ Cons.prems(2) this, of ?r] show ?thesis
      using \<open>ts \<noteq> []\<close> by (simp add: f apply_throttle_cols algebra_simps)
  qed
qed simp

text \<open>
  Failures that all fall in the window of the first one are counted; the report is locked, from the
  last of them on, exactly when they reach the limit. A failure after the window starts counting anew.
\<close>

lemma throttle_locks_at_limit:
  assumes "sorted (t # ts)" "last (t # ts) \<le> t + failedRetryWindowMs pc"
    and "\<And>s. rep_windowStartedAt r = Some s \<Longrightarrow> t > s + failedRetryWindowMs pc"
  shows "rep_failureCount (fail_at pc (t # ts) r) = int (length (t # ts)) \<and>
    rep_lockedUntil (fail_at pc (t # ts) r) =
      (if int (length (t # ts)) \<ge> failedRetryLimit pc then Some (last (t # ts) + failedLockMs pc) else None)"
proof -
  have f: "failure_throttle pc t r = (1, Some t, if 1 \<ge> failedRetryLimit pc then Some (t + failedLockMs pc) else None)"
    using assms(3) by (auto simp: failure_throttle_def Let_def split: option.splits)
  let ?r = "apply_throttle RS_FAILED (failure_throttle pc t r) r"
  show ?thesis
  proof (cases "ts = []")
    case True
    then show ?thesis by (simp add: f apply_throttle_cols)
  next
    case False
    have "t \<le> u \<and> u \<le> t + failedRetryWindowMs pc" if "u \<in> set ts" for u
    proof -
      have "u \<le> last ts" using assms(1) that by (induction ts) (auto split: if_splits)
      with assms False that show ?thesis by auto
    qed
    from fail_at_window [of ?r t ts pc, OF _ this False] show ?thesis
      using False by (simp add: f apply_throttle_cols algebra_simps)
  qed
qed

lemma throttle_locks_at_limit_witness:
  "rep_lockedUntil (fail_at demo_pc [100, 200] (new_report ''r'' ''u'' [] None 0)) = Some 7200200 \<and>
   rep_lockedUntil (fail_at demo_pc [100] (new_report ''r'' ''u'' [] None 0)) = None"
  using throttle_locks_at_limit [of 100 "[200]" demo_pc "new_report ''r'' ''u'' [] None 0"]
    throttle_locks_at_limit [of 100 "[]" demo_pc "new_report ''r'' ''u'' [] None 0"]
  by (simp add: demo_pc_def new_report_def)

section \<open>Start, compensation, cancellation\<close>

text \<open>What a start that creates a generation does to the ledger; its id is fresh.\<close>

lemma created_ledger:
  assumes ok: "sys_ok d" and fresh: "fresh_uuid gid d" and res: "reserve now u gid (d\<lparr>generations := gs\<rparr>) = Inr d2"
  obtains x where "x \<in> set (grants d)" "usable_grant now u x"
    "\<And>y. y \<in> set (grants d) \<Longrightarrow> usable_grant now u y \<Longrightarrow> grant_key x \<le> grant_key y"
    "grants d2 = update_where (\<lambda>r. gr_id r = gr_id x) (add_credits (-1)) (grants d)"
    "creditTxs d2 = creditTxs d @ [reserve_tx u gid (gr_id x)]"
proof -
  have keyed: "keyed gr_id (grants (d\<lparr>generations := gs\<rparr>))" using ledger_okD(1) [OF sys_okD(3) [OF ok]] by simp
  from res keyed show thesis
  proof (cases rule: reserve_cases)
    case (existing t)
    then have "t \<in> set (creditTxs d)" "tx_idempotencyKey t = credit_key gid ''reserve''"
      using find_first_Some [OF existing(1) [unfolded find_tx_def]] by simp_all
    with fresh show thesis by (auto simp: fresh_uuid_def)
  next
    case (paid x)
    then show thesis by (intro that [of x]) (simp_all add: take_credit_def)
  qed
qed

lemma add_credits_inverse: "add_credits 1 (add_credits (-1) x) = x"
  by (simp add: add_credits_def)

lemma update_where_inverse:
  assumes "\<And>r. p (f r) = p r" "\<And>r. r \<in> set rows \<Longrightarrow> p r \<Longrightarrow> g (f r) = r"
  shows "update_where p g (update_where p f rows) = rows"
  unfolding update_where_def map_map o_def by (rule map_idI) (use assms in auto)

text \<open>Releasing what this start reserved gives the very grant its credit back.\<close>

lemma release_refunds:
  assumes fresh: "fresh_uuid gid d" "findTerminal gid d = None"
    and ledger: "grants dm = update_where (\<lambda>r. gr_id r = i) (add_credits (-1)) (grants d)"
      "creditTxs dm = creditTxs d @ [reserve_tx u gid i]" "i \<in> gr_id ` set (grants d)"
    and rel: "releaseInTransaction gid why dm = Inr d2"
  shows "grants d2 = grants d \<and> (\<exists>t. creditTxs d2 = creditTxs d @ [reserve_tx u gid i, t] \<and> tx_generationId t = Some gid)"
proof -
  have "findReservation gid d = None"
    using fresh(1) by (auto simp: findReservation_def find_tx_def find_first_None_iff fresh_uuid_def)
  then have view: "findReservation gid dm = Some (reserve_tx u gid i)" "findTerminal gid dm = None"
    using fresh(2) by (simp_all add: find_credit_append [OF ledger(2)])
  from rel show ?thesis
  proof (cases rule: release_cases)
    case noop
    with view show ?thesis by (auto simp: reserve_tx_def)
  next
    case (restored r t j)
    have "j = i" using view(1) restored(1,2) by (auto simp: reserve_tx_def)
    then show ?thesis
      using restored(7) by (simp add: restored(11) ledger(1,2) update_where_inverse add_credits_inverse)
  qed
qed

lemma fresh_no_terminal: "ledger_ok d \<Longrightarrow> fresh_uuid gid d \<Longrightarrow> findTerminal gid d = None"
  by (rule unreserved_no_terminal)
    (auto simp: findReservation_def find_tx_def find_first_None_iff fresh_uuid_def)



text \<open>A start that created a generation, in the terms its undoing needs.\<close>

lemma start_undone_ledger:
  assumes ok: "sys_ok d" and fresh: "fresh_uuid gid d" and new: "by_idempotency_key u rid key d = None"
    and start: "start_body cfg clk gid u rid key d = Inr (g, d1)"
    and dm: "grants dm = grants d1" "creditTxs dm = creditTxs d1"
    and rel: "releaseInTransaction gid why dm = Inr d2"
  shows "grants d2 = grants d"
    "\<exists>x t. creditTxs d2 = creditTxs d @ [reserve_tx u gid x, t] \<and> tx_generationId t = Some gid"
    "\<exists>report \<in> set (reports d). rep_id report = rid \<and> gen_priorReportStatus g = rep_status report"
    "generations d1 = generations d @ [g]" "gen_id g = gid" "gen_status g = GS_QUEUED" "gen_reportId g = rid" "gen_userId g = u"
    "reports d1 = update_where (\<lambda>r. rep_id r = rid) (\<lambda>r. r\<lparr>rep_status := RS_QUEUED\<rparr>) (reports d)"
    "outputs d1 = outputs d" "\<And>h. h \<in> set (generations d) \<Longrightarrow> gen_id h \<noteq> gid"
proof -
  have start': "start_body cfg clk gid u rid key d = Inr (g, d1)" by (rule start)
  from start' have *: "grants d2 = grants d \<and>
    (\<exists>x t. creditTxs d2 = creditTxs d @ [reserve_tx u gid x, t] \<and> tx_generationId t = Some gid) \<and>
    (\<exists>report \<in> set (reports d). rep_id report = rid \<and> gen_priorReportStatus g = rep_status report) \<and>
    generations d1 = generations d @ [g] \<and> gen_id g = gid \<and> gen_status g = GS_QUEUED \<and> gen_reportId g = rid \<and> gen_userId g = u \<and>
    reports d1 = update_where (\<lambda>r. rep_id r = rid) (\<lambda>r. r\<lparr>rep_status := RS_QUEUED\<rparr>) (reports d) \<and>
    outputs d1 = outputs d \<and> (\<forall>h \<in> set (generations d). gen_id h \<noteq> gid)"
  proof (cases rule: start_body_cases)
    case duplicate
    with new show ?thesis by simp
  next
    case (created report user dr)
    note frame = credit_frameD [OF credit_frames(1) [OF created(10)]]
    obtain x where x: "x \<in> set (grants d)"
      "grants dr = update_where (\<lambda>r. gr_id r = gr_id x) (add_credits (-1)) (grants d)"
      "creditTxs dr = creditTxs d @ [reserve_tx u gid (gr_id x)]"
      by (rule created_ledger [OF ok fresh created(10)], rule that)
    have "grants d2 = grants d \<and> (\<exists>t. creditTxs d2 = creditTxs d @ [reserve_tx u gid (gr_id x), t] \<and> tx_generationId t = Some gid)"
      by (rule release_refunds [OF fresh fresh_no_terminal [OF sys_okD(3) [OF ok] fresh] _ _ _ rel])
        (use x in \<open>simp_all add: dm created(11)\<close>)
    moreover have "\<forall>h \<in> set (generations d). gen_id h \<noteq> gid"
      using created(9) by (auto simp: created(8) generation_conflict_def)
    moreover have "gen_id g = gid" "gen_status g = GS_QUEUED" "gen_reportId g = rid" "gen_userId g = u"
      "gen_priorReportStatus g = rep_status report" by (simp_all add: created(8))
    moreover have "generations d1 = generations d @ [g]" "outputs d1 = outputs d"
      using frame by (simp_all add: created(11))
    ultimately show ?thesis using created(2,3) by (auto simp: created(11))
  qed
  then show "grants d2 = grants d"
    "\<exists>x t. creditTxs d2 = creditTxs d @ [reserve_tx u gid x, t] \<and> tx_generationId t = Some gid"
    "\<exists>report \<in> set (reports d). rep_id report = rid \<and> gen_priorReportStatus g = rep_status report"
    "generations d1 = generations d @ [g]" "gen_id g = gid" "gen_status g = GS_QUEUED" "gen_reportId g = rid" "gen_userId g = u"
    "reports d1 = update_where (\<lambda>r. rep_id r = rid) (\<lambda>r. r\<lparr>rep_status := RS_QUEUED\<rparr>) (reports d)"
    "outputs d1 = outputs d" "\<And>h. h \<in> set (generations d) \<Longrightarrow> gen_id h \<noteq> gid"
    by blast+
qed

lemma detached_none:
  "t \<in> set (update_where (\<lambda>t. tx_generationId t = Some gid) (\<lambda>t. t\<lparr>tx_generationId := None\<rparr>) ts) \<Longrightarrow>
     tx_generationId t \<noteq> Some gid"
  by (induction ts) (auto simp: update_where_Cons split: if_splits)

lemma status_restored:
  assumes "keyed rep_id rows" "r \<in> set rows" "rep_id r = rid"
  shows "update_where (\<lambda>r. rep_id r = rid) (\<lambda>x. x\<lparr>rep_status := rep_status r\<rparr>)
      (update_where (\<lambda>r. rep_id r = rid) (\<lambda>x. x\<lparr>rep_status := RS_QUEUED\<rparr>) rows) = rows"
  by (rule update_where_inverse) (use keyed_eq [OF assms(1) _ assms(2)] assms(3) in auto)

text \<open>
  C29. The compensation is the inverse of the start: when the queue refuses the job, it always commits,
  and reports, generations, grants and outputs are what they were before the start; the two ledger entries
  of the attempt stay, detached. The key is free again.
\<close>

theorem compensation_undoes_start:
  assumes "reachable pc sc d" "fresh_uuid gid d" "by_idempotency_key u rid key d = None"
    and "start_body sc clk gid u rid key d = Inr (g, d1)"
  shows "\<exists>d2. compensateQueueFailure gid d1 = (Inr (), d2) \<and> reports d2 = reports d \<and>
    generations d2 = generations d \<and> grants d2 = grants d \<and> outputs d2 = outputs d \<and>
    length (creditTxs d2) = length (creditTxs d) + 2 \<and>
    (\<forall>t \<in> set (creditTxs d2). tx_generationId t \<noteq> Some gid) \<and> by_idempotency_key u rid key d2 = None"
proof -
  note ok = reachable_sys_ok [OF assms(1)]
  have ok1: "sys_ok d1" by (rule sys_ok_start [OF ok assms(2,4)])
  have "g \<in> set (generations d1) \<and> gen_id g = gid"
    using assms(4) by (cases rule: start_body_cases)
      (use assms(3) credit_frameD(4) [OF credit_frames(1)] in auto)
  then have "live_ledger gid d1" using sys_ok_credit(1) [OF ok1] by blast
  then obtain dr where rel: "releaseInTransaction gid ''Queue enqueue failed'' d1 = Inr dr"
    using release_total [OF sys_okD(3) [OF ok1]] by blast
  note u = start_undone_ledger [OF ok assms(2,3,4) refl refl rel]
  note frame = credit_frameD [OF credit_frames(3) [OF rel]]
  obtain report where rep: "report \<in> set (reports d)" "rep_id report = rid" "gen_priorReportStatus g = rep_status report"
    using u(3) by blast
  have found: "find_generation gid d1 = Some g"
    using u(11) by (auto simp: find_generation_def u(4,5) find_first_append find_first_Cons find_first_None_iff
        split: option.splits dest: find_first_Some)
  have reps: "update_where (\<lambda>r. rep_id r = rid \<and> rep_status r = RS_QUEUED) (\<lambda>r. r\<lparr>rep_status := gen_priorReportStatus g\<rparr>) (reports d1) = reports d"
  proof -
    have "update_where (\<lambda>r. rep_id r = rid \<and> rep_status r = RS_QUEUED) f (reports d1) = update_where (\<lambda>r. rep_id r = rid) f (reports d1)" for f
      unfolding u(9) by (simp add: update_where_def)
    then show ?thesis using status_restored [OF sys_okD(1) [OF ok] rep(1,2)] by (simp add: u(9) rep(3))
  qed
  have outs: "out_generationId q \<noteq> gid" if "q \<in> set (outputs d)" for q
    using sys_okD(8) [OF ok that] u(11) by (auto simp: out_ok_def)
  define d2 where "d2 = dr\<lparr>reports := reports d, generations := generations d, outputs := outputs d,
    attempts := delete_where (\<lambda>a. att_generationId a = gid) (attempts dr),
    creditTxs := update_where (\<lambda>t. tx_generationId t = Some gid) (\<lambda>t. t\<lparr>tx_generationId := None\<rparr>) (creditTxs dr)\<rparr>"
  have gens: "delete_where (\<lambda>h. gen_id h = gid) (generations d1) = generations d"
    using u(5,11) by (simp add: u(4) delete_where_def)
  have outs': "delete_where (\<lambda>q. out_generationId q = gid) (outputs d1) = outputs d"
    using outs by (simp add: u(10) delete_where_def)
  have "delete_generation gid (dr\<lparr>reports := reports d\<rparr>) = Inr d2"
    using frame(3,4) gens outs' u(4,5) by (auto simp: delete_generation_def d2_def frame)
  then have "compensate_body gid d1 = Inr ((), d2)"
    using found rel reps by (simp add: compensate_body_def u(5,6,7) frame(2))
  then have c: "compensateQueueFailure gid d1 = (Inr (), d2)" by (simp add: compensateQueueFailure_def)
  have "length (creditTxs d2) = length (creditTxs d) + 2"
    using u(2) by (auto simp: d2_def)
  moreover have "\<forall>t \<in> set (creditTxs d2). tx_generationId t \<noteq> Some gid"
    using detached_none by (auto simp: d2_def)
  moreover have "by_idempotency_key u rid key d2 = None" using assms(3) by (simp add: by_idempotency_key_def d2_def)
  ultimately show ?thesis using c u(1) by (intro exI [of _ d2]) (simp add: d2_def)
qed

theorem compensation_undoes_start_witness:
  "\<exists>d2. compensateQueueFailure ''g'' demo2 = (Inr (), d2) \<and> grants d2 = grants demo1 \<and> generations d2 = []"
proof -
  obtain g where g: "demo_start = Inr (g, demo2)" using demo2_start by blast
  have "by_idempotency_key ''u'' ''r'' ''key'' demo1 = None" "generations demo1 = []" by code_simp+
  with compensation_undoes_start [OF demo_reachable(1) demo1_fresh _ g [unfolded demo_start_def]]
  show ?thesis by auto
qed

text \<open>
  C30. A queued generation can always be cancelled: it becomes CANCELLED, its report returns to the status
  before the start, its credit is given back. Any other generation cannot be cancelled.
\<close>

theorem cancel_gives_back:
  assumes "reachable pc sc d" "g \<in> set (generations d)"
  shows "if gen_status g = GS_QUEUED
    then \<exists>p d'. cancel_body now (gen_userId g) (gen_reportId g) (gen_id g) d = Inr (p, d') \<and>
      pg_id p = gen_id g \<and> pg_status p = GS_CANCELLED \<and> credit_state (gen_id g) d' = Restored \<and>
      (\<forall>r \<in> set (reports d'). rep_id r = gen_reportId g \<longrightarrow> rep_status r = gen_priorReportStatus g)
    else cancel_body now (gen_userId g) (gen_reportId g) (gen_id g) d =
      Inl (conflict ''GENERATION_NOT_CANCELLABLE'' ''Generation processing has already started'')"
proof (cases "gen_status g = GS_QUEUED")
  case False
  note keyed = sys_okD(2) [OF reachable_sys_ok [OF assms(1)]]
  have "find_first (\<lambda>h. gen_id h = gen_id g \<and> gen_reportId h = gen_reportId g \<and> gen_userId h = gen_userId g \<and>
      gen_status h = GS_QUEUED) (generations d) = None"
    using False keyed_eq [OF keyed _ assms(2)] by (auto simp: find_first_None_iff)
  with False show ?thesis by (simp add: cancel_body_def Let_def)
next
  case True
  note ok = reachable_sys_ok [OF assms(1)]
  let ?gid = "gen_id g" and ?rid = "gen_reportId g"
  let ?p = "\<lambda>h. gen_id h = ?gid \<and> gen_reportId h = ?rid \<and> gen_userId h = gen_userId g \<and> gen_status h = GS_QUEUED"
  let ?F = "\<lambda>g. g\<lparr>gen_status := GS_CANCELLED, gen_cancelledAt := Some now\<rparr>"
  let ?R = "\<lambda>r. r\<lparr>rep_status := gen_priorReportStatus g\<rparr>"
  have found: "find_first ?p (generations d) = Some g"
    by (rule find_first_keyed [where k = gen_id, OF sys_okD(2) [OF ok] assms(2)]) (use True in auto)
  have n: "count_where ?p (generations d) = 1"
    by (rule count_owned [OF ok assms(2)]) (use True in auto)
  have upd: "update_where ?p ?F (generations d) = update_where (\<lambda>h. gen_id h = ?gid) ?F (generations d)"
    by (rule update_where_key [where k = gen_id, OF sys_okD(2) [OF ok] assms(2)]) (use True in auto)
  obtain r where r: "r \<in> set (reports d)" "rep_id r = ?rid" using sys_ok_credit(5) [OF ok assms(2)] by blast
  define d1 where "d1 = d\<lparr>generations := update_where (\<lambda>h. gen_id h = ?gid) ?F (generations d),
      reports := update_where (\<lambda>r. rep_id r = ?rid) ?R (reports d)\<rparr>"
  have same: "creditTxs d1 = creditTxs d" "grants d1 = grants d" by (simp_all add: d1_def)
  have pre: "credit_state ?gid d1 = Reserved" "live_ledger ?gid d1" "ledger_ok d1"
    using credit_view_cong [OF same(1)] sys_ok_credit(1,2) [OF ok assms(2)] True sys_okD(3) [OF ok]
      ledger_ok_cong [OF same(2,1)] by simp_all
  then obtain d' where rel: "releaseInTransaction ?gid ''Queued generation cancelled'' d1 = Inr d'"
    using release_total by blast
  note frame = credit_frameD [OF credit_frames(3) [OF rel]]
  have gens: "generations d' = update_where (\<lambda>h. gen_id h = ?gid) ?F (generations d)"
    and reps: "reports d' = update_where (\<lambda>r. rep_id r = ?rid) ?R (reports d)"
    using frame by (simp_all add: d1_def)
  have h: "find_generation ?gid d' = Some (?F g)"
    by (rule find_generation_updated [OF sys_okD(2) [OF ok] assms(2) _ gens]) simp
  have "update_report ?rid ?R (d\<lparr>generations := update_where ?p ?F (generations d)\<rparr>) = Inr d1"
    unfolding upd using r by (auto simp: update_report_Inr_iff d1_def)
  then have "cancel_body now (gen_userId g) ?rid ?gid d = Inr (toPublicGeneration (?F g), d')"
    using found n rel h by (simp add: cancel_body_def Let_def)
  moreover have "\<forall>r \<in> set (reports d'). rep_id r = ?rid \<longrightarrow> rep_status r = gen_priorReportStatus g"
    unfolding reps by (auto simp: in_update_where)
  moreover have "credit_state ?gid d' = Restored" using credit_state_release [OF pre(3,2) rel] pre(1) by simp
  ultimately show ?thesis using True by (simp add: toPublicGeneration_def)
qed

theorem cancel_gives_back_witness:
  "\<exists>p d'. cancel_body 25 ''u'' ''r'' ''g'' demo2 = Inr (p, d') \<and> credit_state ''g'' d' = Restored"
proof -
  have "\<exists>g \<in> set (generations demo2). gen_id g = ''g'' \<and> gen_reportId g = ''r'' \<and> gen_userId g = ''u'' \<and>
      gen_status g = GS_QUEUED" by code_simp
  then obtain g where "g \<in> set (generations demo2)" "gen_id g = ''g''" "gen_reportId g = ''r''" "gen_userId g = ''u''"
    "gen_status g = GS_QUEUED" by blast
  with cancel_gives_back [OF demo_reachable(2), of g 25] show ?thesis by auto
qed

section \<open>The loop and the replay of a start\<close>



lemma find_first_update_where:
  assumes "\<And>r. q r \<Longrightarrow> p (f r) = p r"
  shows "find_first p (update_where q f rows) = map_option (\<lambda>r. if q r then f r else r) (find_first p rows)"
  by (induction rows) (use assms in \<open>auto simp: find_first_Cons update_where_Cons\<close>)

lemma start_body_lookup:
  assumes "start_body cfg clk gid u rid key d = Inr (g, d')"
  shows "by_idempotency_key u rid key d' = Some g"
  using assms
proof (cases rule: start_body_cases)
  case duplicate
  then show ?thesis by simp
next
  case (created report user d2)
  have "generations d' = generations d @ [g]"
    using credit_frameD(4) [OF credit_frames(1) [OF created(10)]] by (simp add: created(11))
  moreover have "gen_userId g = u" "gen_reportId g = rid" "gen_idempotencyKey g = key" by (simp_all add: created(8))
  ultimately show ?thesis
    using created(1) by (simp add: by_idempotency_key_def find_first_append find_first_Cons)
qed

lemma start_loop_lookup:
  assumes "start_loop fault env body lookup n i d = (Inr (Some g), d')"
    and "\<And>i d g d'. body i d = Inr (g, d') \<Longrightarrow> lookup d' = Some g"
  shows "lookup d' = Some g"
  using assms(1)
proof (induction n arbitrary: i d)
  case (Suc n)
  define r where "r = (case fault i of Some e \<Rightarrow> Inl e | None \<Rightarrow> body i (env i d))"
  have step: "(case r of Inr (g, d2) \<Rightarrow> (Inr (Some g), d2)
      | Inl e \<Rightarrow> (if e = PrismaError ''P2034'' then
            (if i < SERIALIZABLE_RETRY_LIMIT then start_loop fault env body lookup n (i + 1) (env i d)
             else (Inl (conflict ''GENERATION_CREDIT_RESERVATION_FAILED''
                     ''Generation could not be reserved; retry the request''), env i d))
          else if e = PrismaError ''P2002'' then
            (case lookup (env i d) of Some dup \<Rightarrow> (Inr (Some dup), env i d)
             | None \<Rightarrow> (Inl (conflict ''GENERATION_ALREADY_ACTIVE'' ''A generation is already active''), env i d))
          else (Inl e, env i d))) = (Inr (Some g), d')"
    using Suc.prems by (simp add: Let_def r_def)
  show ?case
  proof (cases r)
    case (Inl e)
    with step Suc.IH show ?thesis by (auto split: if_splits option.splits)
  next
    case (Inr p)
    then have "fault i = None" "body i (env i d) = Inr p" by (auto simp: r_def split: option.splits)
    with step Inr assms(2) show ?thesis by (cases p) auto
  qed
qed simp

lemma toPublic_id: "pg_id (toPublicGeneration g) = gen_id g"
  by (simp add: toPublicGeneration_def)

text \<open>Handing a generation to the queue: an answer keeps everything but the marker.\<close>

lemma ensureEnqueued_answer:
  assumes "ensureEnqueued qf cf mf now g s = (Inr p, s')"
  shows "p = toPublicGeneration g" "grants (sdb s') = grants (sdb s)" "creditTxs (sdb s') = creditTxs (sdb s)"
    "reports (sdb s') = reports (sdb s)" "map gen_id (generations (sdb s')) = map gen_id (generations (sdb s))"
    "map_option gen_id (by_idempotency_key u rid key (sdb s')) = map_option gen_id (by_idempotency_key u rid key (sdb s))"
proof -
  have *: "p = toPublicGeneration g \<and> (sdb s' = sdb s \<or> sdb s' = mark_enqueued now (gen_id g) (sdb s))"
    using assms by (auto simp: ensureEnqueued_def mark_enqueued_def split: if_splits sum.splits)
  have m: "map_option gen_id (by_idempotency_key u rid key (mark_enqueued now (gen_id g) d)) =
      map_option gen_id (by_idempotency_key u rid key d)" for d
    unfolding by_idempotency_key_def generations_mark_enqueued
    by (subst find_first_update_where) (auto simp: option.map_comp o_def intro!: option.map_cong)
  show "p = toPublicGeneration g" "grants (sdb s') = grants (sdb s)" "creditTxs (sdb s') = creditTxs (sdb s)"
    "reports (sdb s') = reports (sdb s)" "map gen_id (generations (sdb s')) = map gen_id (generations (sdb s))"
    "map_option gen_id (by_idempotency_key u rid key (sdb s')) = map_option gen_id (by_idempotency_key u rid key (sdb s))"
    using * m by (auto simp: mark_enqueued_def)
qed

lemma start_answer_lookup:
  assumes "start cfg w gid u rid key s = (Inr p, s')"
  shows "generationEnabled cfg \<and> valid_idempotency_key key \<and>
    map_option gen_id (by_idempotency_key u rid key (sdb s')) = Some (pg_id p)"
proof -
  have guards: "generationEnabled cfg" "valid_idempotency_key key"
    using assms by (auto simp: start_def Let_def split: if_splits)
  obtain g sm where found: "by_idempotency_key u rid key (sdb sm) = Some g"
    and e: "ensureEnqueued (o_queueFails w) (o_compensationFails w) (o_markerFails w) (o_clock w 4 0) g sm = (Inr p, s')"
  proof (cases "by_idempotency_key u rid key (sdb s)")
    case (Some g)
    with assms guards that show thesis by (simp add: start_def Let_def)
  next
    case None
    obtain r d where loop: "start_loop (o_fault w) (o_env w) (\<lambda>i. start_body cfg (o_clock w i) gid u rid key)
        (by_idempotency_key u rid key) SERIALIZABLE_RETRY_LIMIT 1 (sdb s) = (r, d)" by force
    with assms guards None obtain g where r: "r = Inr (Some g)"
      and e: "ensureEnqueued (o_queueFails w) (o_compensationFails w) (o_markerFails w) (o_clock w 4 0) g (s\<lparr>sdb := d\<rparr>) = (Inr p, s')"
      by (auto simp: start_def Let_def split: sum.splits option.splits)
    have "by_idempotency_key u rid key d = Some g"
      by (rule start_loop_lookup [OF loop [unfolded r]]) (rule start_body_lookup)
    with e show thesis by (intro that [of "s\<lparr>sdb := d\<rparr>"]) simp_all
  qed
  show ?thesis
    using guards found ensureEnqueued_answer(6) [OF e, of u rid key] ensureEnqueued_answer(1) [OF e] by (simp add: toPublic_id)
qed

text \<open>
  C32. A start is idempotent in its key: after a start that answered, whatever the concurrent commits and
  database errors on the way, repeating it answers with the same generation (or, if the queue refuses,
  with an error) and neither creates a generation nor charges a credit.
\<close>

theorem start_replay_is_idempotent:
  assumes "start cfg w gid u rid key s = (Inr p, s1)" "start cfg w2 gid2 u rid key s1 = (Inr p2, s2)"
  shows "pg_id p2 = pg_id p \<and> grants (sdb s2) = grants (sdb s1) \<and> creditTxs (sdb s2) = creditTxs (sdb s1) \<and>
    reports (sdb s2) = reports (sdb s1) \<and> map gen_id (generations (sdb s2)) = map gen_id (generations (sdb s1))"
proof -
  from start_answer_lookup [OF assms(1)] obtain g where g: "by_idempotency_key u rid key (sdb s1) = Some g"
    "gen_id g = pg_id p" "generationEnabled cfg" "valid_idempotency_key key" by auto
  then have "ensureEnqueued (o_queueFails w2) (o_compensationFails w2) (o_markerFails w2) (o_clock w2 4 0) g s1 = (Inr p2, s2)"
    using assms(2) by (simp add: start_def Let_def)
  from ensureEnqueued_answer [OF this] g(2) show ?thesis by (simp add: toPublic_id)
qed

definition demo_outcomes :: outcomes where
  "demo_outcomes = \<lparr>o_fault = \<lambda>_. None, o_env = \<lambda>_ x. x, o_clock = \<lambda>_ _. 20, o_queueFails = False,
     o_compensationFails = False, o_markerFails = False\<rparr>"

theorem start_replay_is_idempotent_witness:
  "\<exists>p s1 p2 s2. start demo_sc demo_outcomes ''g'' ''u'' ''r'' ''key'' \<lparr>sdb = demo1, jobs = []\<rparr> = (Inr p, s1) \<and>
     start demo_sc demo_outcomes ''h'' ''u'' ''r'' ''key'' s1 = (Inr p2, s2) \<and> pg_id p2 = pg_id p \<and>
     grants (sdb s2) = grants (sdb s1)"
proof -
  let ?s = "\<lparr>sdb = demo1, jobs = []\<rparr>"
  have queue: "\<exists>p s'. ensureEnqueued False False False 20 g s = (Inr p, s')" for g s
    by (simp add: ensureEnqueued_def enqueue_def)
  have key: "valid_idempotency_key ''key''"
    by (simp add: valid_idempotency_key_def strim_def trim_by_def js_white_def)
  obtain g where g: "demo_start = Inr (g, demo2)" using demo2_start by blast
  have none: "by_idempotency_key ''u'' ''r'' ''key'' demo1 = None" by code_simp
  have first: "start demo_sc demo_outcomes ''g'' ''u'' ''r'' ''key'' ?s =
      ensureEnqueued False False False 20 g \<lparr>sdb = demo2, jobs = []\<rparr>"
    using key none g [unfolded demo_start_def]
    by (simp add: start_def demo_outcomes_def SERIALIZABLE_RETRY_LIMIT_def eval_nat_numeral demo_sc_def)
  with queue obtain p s1 where p: "start demo_sc demo_outcomes ''g'' ''u'' ''r'' ''key'' ?s = (Inr p, s1)" by metis
  from start_answer_lookup [OF p] obtain h where "by_idempotency_key ''u'' ''r'' ''key'' (sdb s1) = Some h" by auto
  with key have "start demo_sc demo_outcomes ''h'' ''u'' ''r'' ''key'' s1 = ensureEnqueued False False False 20 h s1"
    by (simp add: start_def demo_outcomes_def demo_sc_def)
  with queue obtain p2 s2 where "start demo_sc demo_outcomes ''h'' ''u'' ''r'' ''key'' s1 = (Inr p2, s2)" by metis
  with p start_replay_is_idempotent [OF p this] show ?thesis by blast
qed

end
