(* ===== verification/PipelineProperties.thy ===== *)
theory PipelineProperties
  imports Pipeline GenerationOutcomes
begin

text \<open>
  The job of a worker as a part of the system: whatever the other processes commit meanwhile, a run of
  \<open>process\<close> moves the database along the step relation of \<open>GenerationSystem\<close>, so that every invariant of
  the reachable states holds at each of its moments; how a run ends; and what becomes of its output.
\<close>

section \<open>Runs of the system\<close>

definition runs :: "processor_config \<Rightarrow> start_config \<Rightarrow> db \<Rightarrow> db \<Rightarrow> bool" where
  "runs pc sc d d' \<longleftrightarrow> (\<exists>as. steps pc sc d as d')"

lemma runs_refl [simp, intro]: "runs pc sc d d"
  unfolding runs_def by (blast intro: steps.none)

lemma runs_step: "step pc sc d a d' \<Longrightarrow> runs pc sc d d'"
  unfolding runs_def by (blast intro: steps_one)

lemma steps_append: "steps pc sc d1 bs d2 \<Longrightarrow> steps pc sc d as d1 \<Longrightarrow> steps pc sc d (as @ bs) d2"
proof (induction rule: steps.induct)
  case (snoc d1 bs d2 b d3)
  then show ?case using steps.snoc [of pc sc d "as @ bs" d2 b d3] by simp
qed simp

lemma runs_trans [trans]: "runs pc sc d d1 \<Longrightarrow> runs pc sc d1 d2 \<Longrightarrow> runs pc sc d d2"
  unfolding runs_def by (blast intro: steps_append)

lemma runs_elsewhere:
  "reports d' = reports d \<Longrightarrow> generations d' = generations d \<Longrightarrow> outputs d' = outputs d \<Longrightarrow>
   grants d' = grants d \<Longrightarrow> creditTxs d' = creditTxs d \<Longrightarrow> runs pc sc d d'"
  by (rule runs_step, rule elsewhere)

lemma runs_sys_ok: "runs pc sc d d' \<Longrightarrow> sys_ok d \<Longrightarrow> sys_ok d'"
  unfolding runs_def by (blast intro: steps_sys_ok)

lemma runs_reachable: "runs pc sc d d' \<Longrightarrow> reachable pc sc d \<Longrightarrow> reachable pc sc d'"
  unfolding runs_def reachable_def by (blast intro: steps_append)

lemma runs_tx:
  assumes "\<And>x d1. body d = Inr (x, d1) \<Longrightarrow> runs pc sc d d1"
  shows "runs pc sc d (snd (run_tx body d))"
  using assms by (cases "body d") (auto simp: run_tx_def)

text \<open>The tables of the generations are untouched by the ledger of attempts and the transcriptions.\<close>

lemma runs_same: "d' = d\<lparr>attempts := a, transcriptions := t\<rparr> \<Longrightarrow> runs pc sc d d'"
  by (rule runs_elsewhere) simp_all

lemma start_attempt_runs: "start_attempt cfg i now g op p m t till a d = Inr (r, d') \<Longrightarrow> runs pc sc d d'"
  by (erule start_attempt_cases) (simp add: runs_elsewhere)

lemma complete_frame:
  assumes "completeInTransaction now now2 aid token usage d = Inr d'"
  shows "reports d' = reports d" "generations d' = generations d" "outputs d' = outputs d" "grants d' = grants d"
    "creditTxs d' = creditTxs d"
  using assms unfolding completeInTransaction_def Let_def by (elim bindE_InrE; auto)+

lemma completeOwned_runs: "completeOwned now now2 now3 gid aid token usage d = Inr (r, d') \<Longrightarrow> runs pc sc d d'"
  unfolding completeOwned_def by (elim bindE_InrE) (auto intro: runs_elsewhere simp: complete_frame)

lemma fail_attempt_runs: "runs pc sc d (fail_attempt now aid code token q d)"
  by (rule runs_elsewhere) (simp_all add: fail_attempt_def split: option.split)

lemma update_transcription_runs: "update_transcription i f d = Inr d' \<Longrightarrow> runs pc sc d d'"
  by (auto simp: update_transcription_def intro: runs_elsewhere split: if_splits)

lemma upsert_transcription_runs: "runs pc sc d (upsert_transcription m i d)"
  by (rule runs_elsewhere) (simp_all add: upsert_transcription_def)

lemma complete_transcription_runs:
  assumes "complete_transcription_body now now2 now3 m gid aid token i l t d = Inr (r, d')"
  shows "runs pc sc d d'"
proof -
  obtain d1 f where c: "completeInTransaction now2 now3 aid token
      \<lparr>us_providerRequestId = ts_providerRequestId t, us_inputTokens = None, us_outputTokens = None,
       us_audioDurationSeconds = ts_durationSeconds t\<rparr> d = Inr d1" and u: "update_transcription i f d1 = Inr d'"
    using assms unfolding complete_transcription_body_def by (elim bindE_InrE) auto
  have "runs pc sc d d1" by (rule runs_elsewhere) (simp_all add: complete_frame [OF c])
  with update_transcription_runs [OF u] show ?thesis by (rule runs_trans [rotated])
qed

lemma upsert_task_runs: "runs pc sc d (upsert_task now key reason d)"
  by (rule runs_elsewhere) (simp_all add: upsert_task_def)

lemma attempt_runs: "runs pc sc (wdb w) (wdb (snd (attempt bucket faults now key w)))"
  by (rule runs_elsewhere)
    (simp_all add: attempt_def split: prod.split sum.split)

lemma scheduleOrphanCleanup_runs: "runs pc sc (wdb w) (wdb (scheduleOrphanCleanup bucket faults now key w))"
proof -
  have "runs pc sc (wdb w) (wdb (w\<lparr>wdb := upsert_task now key ORPHAN_OUTPUT (wdb w)\<rparr>))"
    using upsert_task_runs by simp
  also have "runs pc sc \<dots> (wdb (snd (attempt bucket faults now key (w\<lparr>wdb := upsert_task now key ORPHAN_OUTPUT (wdb w)\<rparr>))))"
    by (rule attempt_runs)
  finally show ?thesis by (simp add: scheduleOrphanCleanup_def attemptMany_one)
qed

section \<open>A transcription\<close>

text \<open>The others move the database along the steps, at every access.\<close>

definition env_runs :: "processor_config \<Rightarrow> start_config \<Rightarrow> (nat \<Rightarrow> db \<Rightarrow> db) \<Rightarrow> bool" where
  "env_runs pc sc e \<longleftrightarrow> (\<forall>i d. runs pc sc d (e i d))"

lemma env_runsD: "env_runs pc sc e \<Longrightarrow> runs pc sc d (e i d)"
  by (simp add: env_runs_def)

lemma transcription_failure_runs:
  assumes e: "env_runs pc sc e"
  shows "runs pc sc d (snd (transcription_failure clk e gid aid token i x d))"
proof -
  obtain code q pe where te: "transcription_error x = (code, q, pe)" by (metis prod_cases3)
  define d2 where "d2 = fail_attempt (clk 4) aid code (Some token) q (e 4 (e 3 d))"
  have "runs pc sc d (e 3 d)" by (rule env_runsD [OF e])
  moreover have "runs pc sc (e 3 d) (e 4 (e 3 d))" by (rule env_runsD [OF e])
  moreover have "runs pc sc (e 4 (e 3 d)) d2" unfolding d2_def by (rule fail_attempt_runs)
  moreover have "runs pc sc d2 (e 5 d2)" by (rule env_runsD [OF e])
  ultimately have "runs pc sc d (e 3 d)" "runs pc sc d (e 5 d2)" by (blast intro: runs_trans)+
  then show ?thesis
    by (auto simp: transcription_failure_def te Let_def d2_def [symmetric] split: sum.split
        dest: update_transcription_runs [of _ _ _ _ pc sc] intro: runs_trans)
qed

lemma getOrCreate_runs:
  assumes e: "env_runs pc sc e"
  shows "runs pc sc d (snd (getOrCreate cfg m clk e aid provider gid asset l token till d))"
proof (cases "sa_type asset \<noteq> AUDIO \<or> sa_verifiedMimeType asset \<notin> set AUDIO_MIME_TYPES \<or> cached_text (sa_id asset) d \<noteq> None")
  case True
  then show ?thesis by (auto simp: getOrCreate_def)
next
  case False
  define d1 where "d1 = e 1 (upsert_transcription m (sa_id asset) (e 0 d))"
  obtain r d2 where r: "run_tx (start_attempt cfg aid (clk 0) gid TRANSCRIPTION ''openai'' m token till (Some (sa_id asset))) d1 = (r, d2)"
    by fastforce
  have "runs pc sc d d1" unfolding d1_def by (blast intro: runs_trans env_runsD [OF e] upsert_transcription_runs)
  moreover have "runs pc sc d1 d2" using runs_tx [of _ d1 pc sc] start_attempt_runs r by (metis snd_conv)
  ultimately have d2: "runs pc sc d d2" by (rule runs_trans)
  show ?thesis
  proof (cases r)
    case (Inl x)
    with False r d2 show ?thesis by (auto simp: getOrCreate_def Let_def d1_def)
  next
    case (Inr y)
    obtain i n where y: "y = (i, n)" by force
    note fail = runs_trans [OF d2 transcription_failure_runs [OF e]]
    show ?thesis
    proof (cases "provider (normalizeLanguage l)")
      case (Inl x)
      with False r Inr y fail show ?thesis by (auto simp: getOrCreate_def Let_def d1_def)
    next
      case (Inr t)
      obtain r3 d3 where r3: "run_tx (complete_transcription_body (clk 1) (clk 2) (clk 3) m gid i token
          (sa_id asset) l t) (e 2 d2) = (r3, d3)" by fastforce
      have "runs pc sc (e 2 d2) d3" using runs_tx [of _ "e 2 d2" pc sc] complete_transcription_runs r3 by (metis snd_conv)
      then have d3: "runs pc sc d d3" using runs_trans [OF d2 runs_trans [OF env_runsD [OF e]]] by blast
      then show ?thesis using False r \<open>r = Inr y\<close> y Inr r3 runs_trans [OF d3 transcription_failure_runs [OF e]]
        by (cases r3) (auto simp: getOrCreate_def Let_def d1_def)
    qed
  qed
qed

section \<open>Jobs that move along the steps\<close>

abbreviation jdb :: "job_state \<Rightarrow> db" where
  "jdb s \<equiv> wdb (js_world s)"

definition others_step :: "services \<Rightarrow> start_config \<Rightarrow> bool" where
  "others_step S sc \<longleftrightarrow> (\<forall>k i w. runs (sv_config S) sc (wdb w) (wdb (sv_others S k i w)))"

text \<open>From the states of \<open>P\<close>, the job moves along the steps.\<close>

definition moves :: "services \<Rightarrow> start_config \<Rightarrow> (db \<Rightarrow> bool) \<Rightarrow> 'a job \<Rightarrow> bool" where
  "moves S sc P m \<longleftrightarrow> (\<forall>s. P (jdb s) \<longrightarrow> runs (sv_config S) sc (jdb s) (jdb (snd (m s))))"

definition stable :: "services \<Rightarrow> start_config \<Rightarrow> (db \<Rightarrow> bool) \<Rightarrow> bool" where
  "stable S sc P \<longleftrightarrow> (\<forall>d d'. P d \<longrightarrow> runs (sv_config S) sc d d' \<longrightarrow> P d')"

lemma moves_return [intro]: "moves S sc P (returnJ x)"
  by (simp add: moves_def returnJ_def)

lemma moves_throw [intro]: "moves S sc P (throwJ e)"
  by (simp add: moves_def throwJ_def)

lemma moves_lift [intro]: "moves S sc P (liftJ r)"
  by (simp add: moves_def liftJ_def)

lemma moves_now [intro]: "moves S sc P (nowJ S)"
  by (simp add: moves_def nowJ_def)

lemma moves_bind [intro]:
  assumes "stable S sc P" "moves S sc P m" "\<And>x. moves S sc P (f x)"
  shows "moves S sc P (bindJ m f)"
  unfolding moves_def
proof (intro allI impI)
  fix s assume P: "P (jdb s)"
  obtain r s1 where m: "m s = (r, s1)" by fastforce
  have 1: "runs (sv_config S) sc (jdb s) (jdb s1)" using assms(2) P m by (auto simp: moves_def dest: spec [of _ s])
  then have "P (jdb s1)" using assms(1) P unfolding stable_def by blast
  then have 2: "runs (sv_config S) sc (jdb s1) (jdb (snd (f x s1)))" for x using assms(3) by (simp add: moves_def)
  show "runs (sv_config S) sc (jdb s) (jdb (snd (bindJ m f s)))"
    using m 1 runs_trans [OF 1 2] by (cases r) (simp_all add: bindJ_def)
qed

lemma moves_catch [intro]:
  assumes "stable S sc P" "moves S sc P m" "\<And>e. moves S sc P (h e)"
  shows "moves S sc P (catchJ m h)"
  unfolding moves_def
proof (intro allI impI)
  fix s assume P: "P (jdb s)"
  obtain r s1 where m: "m s = (r, s1)" by fastforce
  have 1: "runs (sv_config S) sc (jdb s) (jdb s1)" using assms(2) P m by (auto simp: moves_def dest: spec [of _ s])
  then have "P (jdb s1)" using assms(1) P unfolding stable_def by blast
  then have 2: "runs (sv_config S) sc (jdb s1) (jdb (snd (h e s1)))" for e using assms(3) by (simp add: moves_def)
  show "runs (sv_config S) sc (jdb s) (jdb (snd (catchJ m h s)))"
    using m 1 runs_trans [OF 1 2] by (cases r) (simp_all add: catchJ_def)
qed

lemma moves_if [intro]: "moves S sc P m \<Longrightarrow> moves S sc P n \<Longrightarrow> moves S sc P (if c then m else n)"
  by simp

lemma moves_each: "stable S sc P \<Longrightarrow> (\<And>x. moves S sc P (f x)) \<Longrightarrow> moves S sc P (eachJ f xs)"
  by (induction xs) auto

lemma moves_await:
  assumes "others_step S sc" "stable S sc P"
    and "\<And>k w. P (wdb w) \<Longrightarrow> runs (sv_config S) sc (wdb w) (wdb (snd (f k w)))"
  shows "moves S sc P (awaitJ S f)"
  unfolding moves_def
proof (intro allI impI)
  fix s assume P: "P (jdb s)"
  have 1: "runs (sv_config S) sc (jdb s) (wdb (sv_others S (js_step s) 0 (js_world s)))"
    using assms(1) by (simp add: others_step_def)
  with assms(2) P have "P (wdb (sv_others S (js_step s) 0 (js_world s)))" unfolding stable_def by blast
  from runs_trans [OF 1 assms(3) [OF this]]
  show "runs (sv_config S) sc (jdb s) (jdb (snd (awaitJ S f s)))"
    by (simp add: awaitJ_def Let_def split: prod.split)
      (metis snd_conv)
qed

lemma moves_db:
  assumes "others_step S sc" "stable S sc P" "\<And>c d. P d \<Longrightarrow> runs (sv_config S) sc d (snd (f c d))"
  shows "moves S sc P (dbJ S f)"
  unfolding dbJ_def by (rule moves_await [OF assms(1,2)]) (use assms(3) in \<open>auto split: prod.split simp: \<close>, metis snd_conv)

lemma moves_ask: "others_step S sc \<Longrightarrow> stable S sc P \<Longrightarrow> moves S sc P (askJ S f)"
  unfolding askJ_def by (rule moves_await) simp_all

lemma moves_tx:
  assumes "others_step S sc" "stable S sc P"
    and "\<And>c d x d'. P d \<Longrightarrow> body c d = Inr (x, d') \<Longrightarrow> runs (sv_config S) sc d d'"
  shows "moves S sc P (dbJ S (\<lambda>c. run_tx (body c)))"
  by (rule moves_db [OF assms(1,2)], rule runs_tx, rule assms(3))

section \<open>The steps of the job\<close>

lemma stable_sys_ok: "stable S sc sys_ok"
  unfolding stable_def using runs_sys_ok by blast

text \<open>The generation with this id belongs to this report, whatever happens.\<close>

definition belongs :: "string \<Rightarrow> string \<Rightarrow> db \<Rightarrow> bool" where
  "belongs gid rid d \<longleftrightarrow> sys_ok d \<and> ledger_knows gid d \<and>
     (\<forall>h \<in> set (generations d). gen_id h = gid \<longrightarrow> gen_reportId h = rid)"

lemma belongs_step:
  assumes "step pc sc d a d'" "belongs gid rid d"
  shows "belongs gid rid d'"
proof -
  have ok: "sys_ok d" and known: "ledger_knows gid d" using assms(2) by (simp_all add: belongs_def)
  have "ledger_knows gid d'" by (rule ledger_knows_mono [OF step_ledger_keys [OF assms(1) ok] known])
  moreover have "gen_reportId h = rid" if h: "h \<in> set (generations d')" "gen_id h = gid" for h
  proof -
    have "\<not> fresh_uuid (gen_id h) d" using known h(2) by (simp add: ledger_knows_def)
    with step_tracked [OF assms(1) ok] h(1) obtain g where "g \<in> set (generations d)" "gen_id g = gen_id h"
      "gen_reportId g = gen_reportId h" unfolding tracked_def by blast
    with assms(2) h(2) show ?thesis by (auto simp: belongs_def)
  qed
  ultimately show ?thesis using step_sys_ok [OF assms(1) ok] by (simp add: belongs_def)
qed

lemma stable_belongs: "stable S sc (belongs gid rid)"
proof -
  have "belongs gid rid d'" if "steps (sv_config S) sc d as d'" "belongs gid rid d" for d as d'
    using that by (induction rule: steps.induct) (auto intro: belongs_step)
  then show ?thesis unfolding stable_def runs_def by blast
qed

lemma find_generation_Some: "find_generation gid d = Some g \<Longrightarrow> g \<in> set (generations d) \<and> gen_id g = gid"
  unfolding find_generation_def by (drule find_first_Some) simp

lemma belongs_found:
  assumes "sys_ok d" "find_generation gid d = Some g"
  shows "belongs gid (gen_reportId g) d"
proof -
  note g = find_generation_Some [OF assms(2)]
  have "h = g" if "h \<in> set (generations d)" "gen_id h = gid" for h
    using keyed_eq [OF sys_okD(2) [OF assms(1)] that(1), of g] g that(2) by simp
  with g assms(1) generation_known [OF assms(1), of g] show ?thesis by (auto simp: belongs_def)
qed

lemma moves_progress: "others_step S sc \<Longrightarrow> stable S sc P \<Longrightarrow> moves S sc P (progressJ S gid token stage n)"
  unfolding progressJ_def by (rule moves_db) (blast intro: runs_step progress)+

lemma moves_deadline: "stable S sc P \<Longrightarrow> moves S sc P (beforeDeadline S deadline)"
  unfolding beforeDeadline_def by blast

lemma moves_start: "others_step S sc \<Longrightarrow> stable S sc P \<Longrightarrow> moves S sc P (startAttemptJ S gid token deadline op m)"
proof -
  assume a: "others_step S sc" "stable S sc P"
  have "moves S sc P (bindJ (dbJ S (\<lambda>c. run_tx (start_attempt (sv_attempts S) i (c 0) gid op ''openai'' m token deadline None)))
      (\<lambda>(attemptId, n). returnJ attemptId))" for i
    by (rule moves_bind [OF a(2)], rule moves_tx [OF a])
      (auto intro: start_attempt_runs)
  then show ?thesis by (simp add: moves_def startAttemptJ_def Let_def)
qed

lemma moves_failAttempt: "others_step S sc \<Longrightarrow> stable S sc P \<Longrightarrow> moves S sc P (failAttemptJ S token aid other e)"
  unfolding failAttemptJ_def by (rule moves_db) (simp_all add: fail_attempt_runs)

lemma moves_transcribe:
  assumes "others_step S sc" "stable S sc P"
  shows "moves S sc P (transcribeJ S gid token deadline language asset)"
  unfolding transcribeJ_def
proof (rule moves_await [OF assms])
  fix k w
  have "env_runs (sv_config S) sc (\<lambda>i d. wdb (sv_others S k (i + 1) (w\<lparr>wdb := d\<rparr>)))"
    unfolding env_runs_def using assms(1) unfolding others_step_def by (metis world.select_convs(1) world.surjective world.update_convs(1))
  from getOrCreate_runs [OF this]
  show "runs (sv_config S) sc (wdb w) (wdb (snd (case getOrCreate (sv_attempts S) (sv_transcriptionModel S) (sv_clock S k)
            (\<lambda>i d. wdb (sv_others S k (i + 1) (w\<lparr>wdb := d\<rparr>))) (sv_newId S k) (sv_transcribe S k asset)
            gid asset language token deadline (wdb w) of (r, d) \<Rightarrow> (r, w\<lparr>wdb := d\<rparr>))))"
    by (simp split: prod.split) (metis snd_conv)
qed

lemma moves_transcribeAll:
  assumes "others_step S sc" "stable S sc P"
  shows "moves S sc P (transcribeAll S gid token deadline language n index as)"
  by (induction as arbitrary: index)
    (auto intro!: moves_bind moves_transcribe moves_progress moves_deadline assms)

lemmas moves_steps = moves_return moves_throw moves_lift moves_now moves_bind moves_catch moves_each moves_ask moves_progress moves_deadline moves_start
  moves_failAttempt moves_transcribe moves_transcribeAll

lemma moves_moderation:
  assumes "others_step S sc" "stable S sc P"
  shows "moves S sc P (moderationJ S gid token deadline sourceText urls)"
proof -
  have "moves S sc P (dbJ S (\<lambda>c. run_tx (completeOwned (c 0) (c 1) (c 2) gid aid token usage)))" for aid usage
    by (rule moves_tx [OF assms]) (rule completeOwned_runs)
  then show ?thesis unfolding moderationJ_def by (auto intro!: moves_steps assms)
qed

lemma moves_uploadDocument:
  assumes "others_step S sc" "stable S sc P"
  shows "moves S sc P (uploadDocumentJ S deadline asset)"
proof -
  have "moves S sc P (\<lambda>s. (Inr x, s\<lparr>js_files := js_files s @ [f]\<rparr>))" for x f by (simp add: moves_def)
  then show ?thesis unfolding uploadDocumentJ_def by (auto intro!: moves_steps assms)
qed

lemma moves_imageInput:
  assumes "others_step S sc" "stable S sc P"
  shows "moves S sc P (imageInputJ S asset)"
  unfolding imageInputJ_def by (auto intro!: moves_steps assms)

lemma moves_generation:
  assumes "others_step S sc" "stable S sc P"
  shows "moves S sc P (generationJ S gid token deadline u sourceText snapshot imageAssets)"
proof -
  have "moves S sc P (dbJ S (\<lambda>c. run_tx (persistReportResult_body (sv_config S) (c 0) (c 1) (c 2) gid token aid r q it ot)))"
    for aid r q it ot
    by (rule moves_tx [OF assms]) (blast intro: runs_step persist)
  then show ?thesis unfolding generationJ_def
    by (auto intro!: moves_steps moves_uploadDocument moves_imageInput assms)
qed

lemma moves_upload:
  assumes "others_step S sc" "stable S sc P"
  shows "moves S sc P (uploadJ S key b)"
proof -
  let ?f = "\<lambda>k w. case uploadObject (sv_bucket S) (sv_putFault S k key) (sv_headFault S k key) key b (objects w) of
         (r, bkt) \<Rightarrow> (r, w\<lparr>objects := bkt\<rparr>)"
  have "moves S sc P (awaitJ S ?f)" by (rule moves_await [OF assms]) (simp split: prod.split)
  then show ?thesis unfolding moves_def uploadJ_def
    by (metis (no_types, lifting) job_state.ext_inject job_state.surjective job_state.update_convs(4))
qed

lemma moves_ownership:
  assumes "others_step S sc" "stable S sc P"
  shows "moves S sc P (dbJ S (\<lambda>c. assertOwnership (sv_config S) (c 0) (c 1) gid token))"
proof (rule moves_db [OF assms])
  fix c d
  have "snd (assertOwnership (sv_config S) (c 0) (c 1) gid token d) = snd (renewLease (sv_config S) (c 0) (c 1) gid token d)"
    by (simp add: assertOwnership_def split: prod.split)
  then show "runs (sv_config S) sc d (snd (assertOwnership (sv_config S) (c 0) (c 1) gid token d))"
    using runs_step [OF renew] by metis
qed

lemma moves_publish:
  assumes "others_step S sc"
  shows "moves S sc (belongs gid rid) (publishJ S gid token deadline u rid b)"
proof -
  have fin: "runs (sv_config S) sc d d'"
    if b: "belongs gid rid d" and f: "finalize_body now now2 gid rid u token key n d = Inr (x, d')" for now now2 key n d x d'
  proof -
    from f have "\<exists>g \<in> set (generations d). owns_lease now gid token g"
      by (auto simp: finalize_body_def result_iffs)
    then obtain g where g: "g \<in> set (generations d)" "gen_id g = gid" by (blast dest: owns_leaseD(1))
    with b have "gen_reportId g = rid" by (auto simp: belongs_def)
    with f have "finalize_body now now2 gid (gen_reportId g) u token key n d = Inr (x, d')" by simp
    from runs_step [OF finalize [OF g this]] show ?thesis .
  qed
  have 1: "moves S sc (belongs gid rid) (dbJ S (\<lambda>c. run_tx (finalize_body (c 0) (c 1) gid rid u token (output_key u rid gid token) n)))" for n
    by (rule moves_tx [OF assms stable_belongs]) (rule fin)
  have 3: "moves S sc (belongs gid rid) (\<lambda>s. (Inr (), s\<lparr>js_output := None\<rparr>))" by (simp add: moves_def)
  show ?thesis unfolding publishJ_def
    by (intro moves_bind 1 3 moves_ownership moves_progress moves_deadline moves_upload assms stable_belongs)
qed

lemma moves_bind_post:
  assumes "moves S sc P m" "\<And>s x s'. P (jdb s) \<Longrightarrow> m s = (Inr x, s') \<Longrightarrow> Q x (jdb s')" "\<And>x. moves S sc (Q x) (f x)"
  shows "moves S sc P (bindJ m f)"
  unfolding moves_def
proof (intro allI impI)
  fix s assume P: "P (jdb s)"
  obtain r s1 where m: "m s = (r, s1)" by fastforce
  have 1: "runs (sv_config S) sc (jdb s) (jdb s1)" using assms(1) P m by (auto simp: moves_def dest: spec [of _ s])
  show "runs (sv_config S) sc (jdb s) (jdb (snd (bindJ m f s)))"
  proof (cases r)
    case (Inr x)
    with assms(2) [OF P] m have "Q x (jdb s1)" by simp
    then have "runs (sv_config S) sc (jdb s1) (jdb (snd (f x s1)))" using assms(3) by (simp add: moves_def)
    with 1 m Inr show ?thesis by (simp add: bindJ_def runs_trans [OF 1])
  qed (use 1 m in \<open>simp add: bindJ_def\<close>)
qed

lemma read_generation:
  assumes "others_step S sc" "sys_ok (jdb s)"
    and "askJ S (\<lambda>k w. fromOption (PrismaError ''P2025'') (find_generation gid (wdb w))) s = (Inr g, s')"
  shows "belongs gid (gen_reportId g) (jdb s')"
proof -
  let ?w = "sv_others S (js_step s) 0 (js_world s)"
  have "sys_ok (wdb ?w)" using assms(1,2) runs_sys_ok unfolding others_step_def by blast
  moreover have "find_generation gid (wdb ?w) = Some g" "jdb s' = wdb ?w"
    using assms(3) by (auto simp: askJ_def awaitJ_def Let_def fromOption_Inr_iff)
  ultimately show ?thesis using belongs_found by simp
qed

text \<open>What follows the reading of the generation, and its end, the publication.\<close>

lemma moves_result:
  assumes "others_step S sc" "stable S sc P"
  shows "moves S sc P (case x of Some r \<Rightarrow> liftJ (parseResult (sv_zod S) r)
            | None \<Rightarrow> generationJ S gid token deadline u sourceText snapshot imageAssets)"
  by (cases x) (auto intro: moves_generation assms)

lemma moves_readImage: "others_step S sc \<Longrightarrow> stable S sc P \<Longrightarrow> moves S sc P (readImageJ S img)"
  unfolding readImageJ_def by (rule moves_ask)

lemma moves_body:
  assumes "others_step S sc"
  shows "moves S sc sys_ok (bodyJ S gid token deadline)"
  unfolding bodyJ_def Let_def
  by (rule moves_bind_post [where Q = "\<lambda>g. belongs gid (gen_reportId g)", OF moves_ask [OF assms stable_sys_ok]],
      erule (1) read_generation [OF assms])
    (intro moves_steps moves_moderation moves_result moves_imageInput moves_readImage moves_publish assms stable_belongs)+

lemma moves_orphan:
  assumes "others_step S sc" "stable S sc P"
  shows "moves S sc P (orphanJ S)"
proof -
  have "moves S sc P (bindJ (awaitJ S (\<lambda>k w. (Inr (), scheduleOrphanCleanup (sv_bucket S) (sv_deleteFault S k) (sv_clock S k 0) key w)))
            (\<lambda>_ s. (Inr (), s\<lparr>js_output := None\<rparr>)))" for key
    by (rule moves_bind [OF assms(2)], rule moves_await [OF assms])
      (simp_all add: scheduleOrphanCleanup_runs, simp add: moves_def)
  then show ?thesis unfolding moves_def orphanJ_def by (simp split: option.split)
qed

lemma moves_claimLoss: "others_step S sc \<Longrightarrow> stable S sc P \<Longrightarrow> moves S sc P (claimLossJ S gid)"
  unfolding claimLossJ_def by (rule moves_ask)

lemma moves_failure:
  assumes "others_step S sc" "stable S sc P"
  shows "moves S sc P (failureJ S gid token n m e)"
proof -
  have "moves S sc P (dbJ S (\<lambda>c. run_tx (prepareRetry_body (c 0) gid token code)))" for code
    by (rule moves_tx [OF assms]) (blast intro: runs_step prepareRetry)
  moreover have "moves S sc P (dbJ S (\<lambda>c. run_tx (failGeneration_body (sv_config S) (c 0) (c 1) gid token code msg)))" for code msg
    by (rule moves_tx [OF assms]) (blast intro: runs_step fail)
  ultimately show ?thesis unfolding failureJ_def
    by (auto split: prod.split intro!: moves_steps moves_orphan moves_claimLoss assms)
qed

lemma moves_claim: "others_step S sc \<Longrightarrow> stable S sc P \<Longrightarrow> moves S sc P (claimJ S gid token)"
  unfolding claimJ_def by (rule moves_tx) (blast intro: runs_step claim)+

lemma moves_finally: "moves S sc P m \<Longrightarrow> moves S sc P (finallyJ m)"
  unfolding moves_def finallyJ_def by (auto split: prod.split)

lemma moves_guarded: "others_step S sc \<Longrightarrow> moves S sc sys_ok (guardedJ S gid token n m)"
  unfolding guardedJ_def by (auto intro!: moves_steps moves_body moves_failure stable_sys_ok)

lemma moves_process:
  assumes "others_step S sc"
  shows "moves S sc sys_ok (process S gid token n m)"
  unfolding process_def
  by (auto intro!: moves_bind moves_claim moves_claimLoss moves_finally moves_guarded stable_sys_ok assms)

section \<open>The ends of a run\<close>

lemma found_after:
  assumes "keyed gen_id (generations d)" "count_where p (generations d) = 1" "\<And>x. p x \<Longrightarrow> gen_id x = gid"
    "\<And>x. gen_id (F x) = gen_id x"
  obtains g where "g \<in> set (generations d)" "p g" "gen_id g = gid"
    "find_generation gid (d\<lparr>generations := update_where p F (generations d)\<rparr>) = Some (F g)"
proof -
  obtain g where g: "g \<in> set (generations d)" "p g" "gen_id g = gid"
    and upd: "\<And>f. update_where p f (generations d) = update_where (\<lambda>x. gen_id x = gen_id g) f (generations d)"
    using count_where_key [OF assms(1,2,3)] by blast
  have "find_generation gid (d\<lparr>generations := update_where p F (generations d)\<rparr>) = Some (F g)"
    using find_generation_updated [OF assms(1) g(1), of F "d\<lparr>generations := update_where p F (generations d)\<rparr>"] assms(4) g(3)
    by (simp add: upd)
  from that [OF g this] show thesis .
qed

definition all_status :: "string \<Rightarrow> (generation_status \<Rightarrow> bool) \<Rightarrow> db \<Rightarrow> bool" where
  "all_status gid p d \<longleftrightarrow> (\<forall>h \<in> set (generations d). gen_id h = gid \<longrightarrow> p (gen_status h))"

lemma all_status_update:
  "(\<And>x. gen_id (F x) = gen_id x) \<Longrightarrow> gid = gen_id g \<Longrightarrow> p (gen_status (F g)) \<Longrightarrow> keyed gen_id (generations d) \<Longrightarrow>
   g \<in> set (generations d) \<Longrightarrow> generations d' = update_where (\<lambda>h. gen_id h = gen_id g) F (generations d) \<Longrightarrow>
   all_status gid p d'"
proof -
  assume a: "\<And>x. gen_id (F x) = gen_id x" "gid = gen_id g" "p (gen_status (F g))" "keyed gen_id (generations d)"
    "g \<in> set (generations d)" "generations d' = update_where (\<lambda>h. gen_id h = gen_id g) F (generations d)"
  show "all_status gid p d'"
    unfolding all_status_def
  proof (intro ballI impI)
    fix h assume "h \<in> set (generations d')" "gen_id h = gid"
    then obtain x where x: "x \<in> set (generations d)" "h = (if gen_id x = gen_id g then F x else x)"
      unfolding a(6) in_update_where by blast
    with \<open>gen_id h = gid\<close> a(1,2) have "gen_id x = gen_id g" by (auto split: if_splits)
    with keyed_eq [OF a(4) x(1) a(5)] have "x = g" by blast
    with x(2) a(3) show "p (gen_status h)" by simp
  qed
qed

lemma claim_total:
  assumes "sys_ok d"
  shows "claim_body pc now gid token d \<noteq> Inl e"
proof (cases "count_where (claimable now gid) (generations d) = 1")
  case True
  let ?F = "\<lambda>g. g\<lparr>gen_status := GS_PROCESSING, gen_processingToken := Some token,
      gen_leaseExpiresAt := Some (now + jobTimeoutMs pc), gen_startedAt := Some now,
      gen_attemptCount := gen_attemptCount g + 1\<rparr>"
  obtain g where "find_generation gid (d\<lparr>generations := update_where (claimable now gid) ?F (generations d)\<rparr>) = Some (?F g)"
    by (rule found_after [OF sys_okD(2) [OF assms] True, where gid = gid and F = ?F]) (auto simp: claimable_def)
  with True show ?thesis by (simp add: claim_body_def Let_def)
qed (simp add: claim_body_def)

lemma prepareRetry_end:
  assumes "sys_ok d"
  shows "prepareRetry_body now gid token code d = Inr (False, d) \<or>
    (\<exists>d' h. prepareRetry_body now gid token code d = Inr (True, d') \<and> h \<in> set (generations d') \<and> gen_id h = gid \<and>
       gen_status h = GS_QUEUED \<and> gen_errorCode h = Some code)"
proof (cases "count_where (owns_lease now gid token) (generations d) = 1")
  case True
  let ?F = "\<lambda>g. g\<lparr>gen_status := GS_QUEUED, gen_errorCode := Some code,
      gen_errorMessage := Some ''A temporary dependency error occurred; retrying'',
      gen_processingToken := None, gen_leaseExpiresAt := None\<rparr>"
  let ?d1 = "d\<lparr>generations := update_where (owns_lease now gid token) ?F (generations d)\<rparr>"
  obtain g where g: "gen_id g = gid" "find_generation gid ?d1 = Some (?F g)"
    by (rule found_after [OF sys_okD(2) [OF assms] True, where gid = gid and F = ?F]) (auto dest: owns_leaseD(1))
  from find_generation_Some [OF g(2)] have "?F g \<in> set (generations ?d1)" by blast
  with True g show ?thesis by (auto simp: prepareRetry_body_def Let_def)
qed (simp add: prepareRetry_body_def)

lemma failGeneration_end:
  assumes "sys_ok d"
  shows "failGeneration_body pc now now2 gid token code msg d = Inr (False, d) \<or>
    (\<exists>d'. failGeneration_body pc now now2 gid token code msg d = Inr (True, d') \<and> all_status gid (\<lambda>s. s = GS_FAILED) d')"
proof (cases "count_where (owns_lease now2 gid token) (generations d) = 1")
  case True
  let ?F = "\<lambda>g. g\<lparr>gen_status := GS_FAILED, gen_errorCode := Some code,
      gen_errorMessage := Some (take 300 msg), gen_completedAt := Some now,
      gen_processingToken := None, gen_leaseExpiresAt := None\<rparr>"
  let ?d1 = "d\<lparr>generations := update_where (owns_lease now2 gid token) ?F (generations d)\<rparr>"
  obtain g where g: "g \<in> set (generations d)" "owns_lease now2 gid token g" "gen_id g = gid" "find_generation gid ?d1 = Some (?F g)"
    by (rule found_after [OF sys_okD(2) [OF assms] True, where gid = gid and F = ?F]) (auto dest: owns_leaseD(1))
  obtain r0 where r0: "r0 \<in> set (reports d)" "rep_id r0 = gen_reportId g" using sys_ok_credit(5) [OF assms g(1)] by blast
  then obtain r where r: "find_report (gen_reportId g) ?d1 = Some r"
    using find_first_not_None [of r0 "reports d" "\<lambda>r. rep_id r = gen_reportId g"] by (auto simp: find_report_def)
  have "\<exists>d2 d3. update_report (gen_reportId g) f ?d1 = Inr d2 \<and> releaseInTransaction gid x d2 = Inr d3" for f x
  proof -
    obtain d2 where d2: "update_report (gen_reportId g) f ?d1 = Inr d2" "grants d2 = grants d" "creditTxs d2 = creditTxs d"
      using r0 by (auto simp: update_report_Inr_iff)
    have "ledger_ok d2" "live_ledger gid d2"
      using ledger_ok_cong [OF d2(2,3)] credit_view_cong [OF d2(3)] sys_okD(3) [OF assms] sys_ok_credit(1) [OF assms g(1)] g(3)
      by simp_all
    with d2(1) release_total show ?thesis by blast
  qed
  then obtain d2 d3 where "update_report (gen_reportId g)
      (apply_throttle (if exists_where (\<lambda>q. out_reportId q = gen_reportId g) (outputs ?d1) then RS_READY else RS_FAILED)
        (failure_throttle pc now r)) ?d1 = Inr d2"
    "releaseInTransaction gid (''Terminal failure: '' @ code) d2 = Inr d3" by meson
  then have "failGeneration_body pc now now2 gid token code msg d = Inr (True, d3)"
    using True g(4) r unfolding failGeneration_body_def by (simp add: Let_def del: exists_where_iff)
  then obtain d' where d': "failGeneration_body pc now now2 gid token code msg d = Inr (True, d')" by blast
  moreover from d' sys_okD(2) [OF assms] have "all_status gid (\<lambda>s. s = GS_FAILED) d'"
  proof (cases rule: failGeneration_cases)
    case (failed h r d1)
    have "generations d' = generations d1" by (rule credit_frameD(4) [OF credit_frames(3) [OF failed(6)]])
    then show ?thesis
      by (intro all_status_update [of ?F gid h _ d, OF _ _ _ sys_okD(2) [OF assms] failed(2)])
        (use failed(3,7) in \<open>auto dest: owns_leaseD(1)\<close>)
  qed simp
  ultimately show ?thesis by blast
qed (simp add: failGeneration_body_def)

lemma finalize_end:
  assumes "sys_ok d" "finalize_body now now2 gid rid u token key n d = Inr (v, d')"
  shows "all_status gid (\<lambda>s. s = GS_COMPLETED) d'"
  using assms(2) sys_okD(2) [OF assms(1)]
proof (cases rule: finalize_cases)
  case (1 h d1)
  let ?F = "\<lambda>g. g\<lparr>gen_status := GS_COMPLETED, gen_stage := STAGE_COMPLETED,
               gen_progress := progress_of STAGE_COMPLETED, gen_completedAt := Some now2,
               gen_processingToken := None, gen_leaseExpiresAt := None\<rparr>"
  have "generations d' = generations d1" by (rule credit_frameD(4) [OF credit_frames(2) [OF 1(4)]])
  then show ?thesis
    by (intro all_status_update [of ?F gid h _ d, OF _ _ _ sys_okD(2) [OF assms(1)] 1(1)])
      (use 1(2,5) in \<open>auto dest: owns_leaseD(1)\<close>)
qed

text \<open>From the states of \<open>P\<close>, a run that ends ends in \<open>Q\<close> of its result.\<close>

definition ends :: "(db \<Rightarrow> bool) \<Rightarrow> 'a job \<Rightarrow> ('a result \<Rightarrow> db \<Rightarrow> bool) \<Rightarrow> bool" where
  "ends P m Q \<longleftrightarrow> (\<forall>s. P (jdb s) \<longrightarrow> Q (fst (m s)) (jdb (snd (m s))))"

definition on_value :: "('a \<Rightarrow> db \<Rightarrow> bool) \<Rightarrow> 'a result \<Rightarrow> db \<Rightarrow> bool" where
  "on_value Q r d = (case r of Inl e \<Rightarrow> True | Inr x \<Rightarrow> Q x d)"

lemma stable_movesD: "stable S sc P \<Longrightarrow> moves S sc P m \<Longrightarrow> P (jdb s) \<Longrightarrow> P (jdb (snd (m s)))"
  unfolding stable_def moves_def by blast

lemma ends_bind_value:
  assumes "stable S sc P" "moves S sc P m" "\<And>x. ends P (f x) (on_value Q)"
  shows "ends P (bindJ m f) (on_value Q)"
  unfolding ends_def
proof (intro allI impI)
  fix s assume P: "P (jdb s)"
  obtain r s1 where m: "m s = (r, s1)" by fastforce
  from stable_movesD [OF assms(1,2) P] m have "P (jdb s1)" by simp
  with assms(3) m show "on_value Q (fst (bindJ m f s)) (jdb (snd (bindJ m f s)))"
    by (cases r) (simp_all add: bindJ_def ends_def, simp add: on_value_def)
qed

lemma ends_bind:
  assumes "ends P m R" "\<And>e d. R (Inl e) d \<Longrightarrow> Q (Inl e) d" "\<And>x. ends (R (Inr x)) (f x) Q"
  shows "ends P (bindJ m f) Q"
  unfolding ends_def
proof (intro allI impI)
  fix s assume P: "P (jdb s)"
  obtain r s1 where m: "m s = (r, s1)" by fastforce
  with assms(1) P have R: "R r (jdb s1)" by (auto simp: ends_def dest: spec [of _ s])
  show "Q (fst (bindJ m f s)) (jdb (snd (bindJ m f s)))"
    using m R assms(2,3) by (cases r) (auto simp: bindJ_def ends_def)
qed

lemma ends_db:
  assumes "others_step S sc" "stable S sc P" "\<And>c d. P d \<Longrightarrow> Q (fst (f c d)) (snd (f c d))"
  shows "ends P (dbJ S f) Q"
  unfolding ends_def
proof (intro allI impI)
  fix s assume "P (jdb s)"
  then have "P (wdb (sv_others S (js_step s) 0 (js_world s)))"
    using assms(1,2) unfolding others_step_def stable_def by blast
  from assms(3) [OF this] show "Q (fst (dbJ S f s)) (jdb (snd (dbJ S f s)))"
    by (simp add: dbJ_def awaitJ_def Let_def split: prod.split) (metis fst_conv snd_conv)
qed

lemma ends_ask:
  assumes "others_step S sc" "stable S sc P" "\<And>k w. P (wdb w) \<Longrightarrow> Q (f k w) (wdb w)"
  shows "ends P (askJ S f) Q"
  unfolding ends_def
proof (intro allI impI)
  fix s assume "P (jdb s)"
  then have "P (wdb (sv_others S (js_step s) 0 (js_world s)))"
    using assms(1,2) unfolding others_step_def stable_def by blast
  from assms(3) [OF this] show "Q (fst (askJ S f s)) (jdb (snd (askJ S f s)))"
    by (simp add: askJ_def awaitJ_def Let_def)
qed

abbreviation completed_end :: "string \<Rightarrow> unit result \<Rightarrow> db \<Rightarrow> bool" where
  "completed_end gid \<equiv> on_value (\<lambda>u. all_status gid (\<lambda>s. s = GS_COMPLETED))"

lemma ends_publish:
  assumes "others_step S sc"
  shows "ends sys_ok (publishJ S gid token deadline u rid b) (completed_end gid)"
proof -
  have fin: "ends sys_ok (dbJ S (\<lambda>c. run_tx (finalize_body (c 0) (c 1) gid rid u token (output_key u rid gid token) n)))
      (completed_end gid)" for n
    by (rule ends_db [OF assms stable_sys_ok])
      (auto simp: run_tx_def on_value_def finalize_end split: sum.split prod.split)
  have that_end: "ends sys_ok (bindJ (dbJ S (\<lambda>c. run_tx (finalize_body (c 0) (c 1) gid rid u token (output_key u rid gid token) n)))
      (\<lambda>_ s. (Inr (), s\<lparr>js_output := None\<rparr>))) (completed_end gid)" for n
    by (rule ends_bind [OF fin]) (simp_all add: ends_def on_value_def)
  show ?thesis unfolding publishJ_def
    by (intro ends_bind_value [OF stable_sys_ok [of S sc]] that_end moves_ownership moves_progress moves_deadline moves_upload stable_sys_ok assms)
qed

lemma ends_body:
  assumes "others_step S sc"
  shows "ends sys_ok (bodyJ S gid token deadline) (completed_end gid)"
  unfolding bodyJ_def Let_def
  by (intro ends_bind_value [OF stable_sys_ok [of S sc]] ends_publish [OF assms] moves_steps moves_moderation moves_result
      moves_imageInput moves_readImage stable_sys_ok assms)

text \<open>How a run may end.\<close>

fun run_end :: "string \<Rightarrow> nat \<Rightarrow> nat \<Rightarrow> process_result result \<Rightarrow> db \<Rightarrow> bool" where
  "run_end gid n m (Inr Completed) d = all_status gid (\<lambda>s. s \<noteq> GS_PROCESSING) d"
| "run_end gid n m (Inr (Deferred t)) d = (\<exists>h \<in> set (generations d). gen_id h = gid \<and> gen_status h = GS_PROCESSING \<and> claimable t gid h)"
| "run_end gid n m (Inl (AiProviderError code retryable msg q)) d =
     (retryable \<and> n < m \<and> code \<noteq> ''GENERATION_CLAIM_LOST'' \<and>
      (\<exists>h \<in> set (generations d). gen_id h = gid \<and> gen_status h = GS_QUEUED \<and> gen_errorCode h = Some code))"
| "run_end gid n m (Inl e) d = False"

lemma claim_loss_end:
  assumes "sys_ok d"
  shows "run_end gid n m (Inr (resultAfterClaimLoss now gid d)) d"
proof (cases "find_generation gid d")
  case None
  then have "\<forall>h \<in> set (generations d). gen_id h \<noteq> gid"
    using find_first_not_None [of _ "generations d" "\<lambda>g. gen_id g = gid"] by (auto simp: find_generation_def)
  with None show ?thesis by (simp add: resultAfterClaimLoss_def all_status_def)
next
  case (Some g)
  note g = find_generation_Some [OF this]
  show ?thesis
  proof (cases "gen_status g = GS_PROCESSING")
    case True
    have "lease_ok g" using sys_okD(6) [OF assms] g by (simp add: gen_ok_def)
    with True obtain t where "gen_leaseExpiresAt g = Some t" by (auto simp: lease_ok_def)
    with True Some g show ?thesis by (auto simp: resultAfterClaimLoss_def claimable_def Let_def intro!: bexI [of _ g])
  next
    case False
    have "h = g" if "h \<in> set (generations d)" "gen_id h = gid" for h
      using keyed_eq [OF sys_okD(2) [OF assms] that(1), of g] g that(2) by simp
    with False Some show ?thesis by (auto simp: resultAfterClaimLoss_def all_status_def)
  qed
qed

lemma ends_claimLoss: "others_step S sc \<Longrightarrow> ends sys_ok (claimLossJ S gid) (run_end gid n m)"
  unfolding claimLossJ_def by (rule ends_ask [OF _ stable_sys_ok]) (simp_all add: claim_loss_end)

lemma normalize_provider_exn:
  "normalizeError e = (code, retryable, msg) \<Longrightarrow> \<exists>q. provider_exn e = AiProviderError code retryable msg q"
  by (cases e) (auto simp: normalizeError_def provider_exn_def)

lemma ends_failure:
  assumes "others_step S sc"
  shows "ends sys_ok (failureJ S gid token n m e) (run_end gid n m)"
proof -
  obtain code retryable msg where e: "normalizeError e = (code, retryable, msg)" by (metis prod_cases3)
  then obtain q where pe: "provider_exn e = AiProviderError code retryable msg q" using normalize_provider_exn by blast
  note lost = ends_claimLoss [OF assms]
  have orphan: "ends sys_ok (orphanJ S) (\<lambda>r d. sys_ok d \<and> isl r = False)"
  proof -
    have "\<not> isl (fst (orphanJ S s))" for s
      by (auto simp: orphanJ_def bindJ_def awaitJ_def Let_def split: option.split)
    then show ?thesis using stable_movesD [OF stable_sys_ok moves_orphan [OF assms stable_sys_ok]] by (auto simp: ends_def)
  qed
  let ?R = "\<lambda>r d. sys_ok d \<and> (case r of Inl x \<Rightarrow> False | Inr b \<Rightarrow> b \<longrightarrow> (\<exists>h \<in> set (generations d). gen_id h = gid \<and>
      gen_status h = GS_QUEUED \<and> gen_errorCode h = Some code))"
  have retry: "ends sys_ok (dbJ S (\<lambda>c. run_tx (prepareRetry_body (c 0) gid token code))) ?R"
  proof (rule ends_db [OF assms stable_sys_ok])
    fix c :: "nat \<Rightarrow> int" and d assume ok: "sys_ok d"
    from prepareRetry_end [OF ok, of "c 0" gid token code]
    consider (lost) "prepareRetry_body (c 0) gid token code d = Inr (False, d)"
      | (ok) d' h where "prepareRetry_body (c 0) gid token code d = Inr (True, d')" "h \<in> set (generations d')"
          "gen_id h = gid" "gen_status h = GS_QUEUED" "gen_errorCode h = Some code" by blast
    then show "?R (fst (run_tx (prepareRetry_body (c 0) gid token code) d)) (snd (run_tx (prepareRetry_body (c 0) gid token code) d))"
    proof cases
      case lost
      with ok show ?thesis by (simp add: run_tx_def)
    next
      case (ok d' h)
      with sys_ok_prepareRetry [OF \<open>sys_ok d\<close> ok(1)] show ?thesis by (auto simp: run_tx_def)
    qed
  qed
  let ?F = "\<lambda>r d. sys_ok d \<and> (case r of Inl x \<Rightarrow> False | Inr b \<Rightarrow> b \<longrightarrow> all_status gid (\<lambda>s. s = GS_FAILED) d)"
  have fail: "ends sys_ok (dbJ S (\<lambda>c. run_tx (failGeneration_body (sv_config S) (c 0) (c 1) gid token code msg))) ?F"
  proof (rule ends_db [OF assms stable_sys_ok])
    fix c :: "nat \<Rightarrow> int" and d assume ok: "sys_ok d"
    from failGeneration_end [OF ok, of "sv_config S" "c 0" "c 1" gid token code msg]
    consider (lost) "failGeneration_body (sv_config S) (c 0) (c 1) gid token code msg d = Inr (False, d)"
      | (ok) d' where "failGeneration_body (sv_config S) (c 0) (c 1) gid token code msg d = Inr (True, d')"
          "all_status gid (\<lambda>s. s = GS_FAILED) d'" by blast
    then show "?F (fst (run_tx (failGeneration_body (sv_config S) (c 0) (c 1) gid token code msg) d))
        (snd (run_tx (failGeneration_body (sv_config S) (c 0) (c 1) gid token code msg) d))"
    proof cases
      case lost
      with ok show ?thesis by (simp add: run_tx_def)
    next
      case (ok d')
      with sys_ok_failGeneration [OF \<open>sys_ok d\<close> ok(1)] show ?thesis by (simp add: run_tx_def)
    qed
  qed
  have 1: "ends sys_ok (bindJ (dbJ S (\<lambda>c. run_tx (prepareRetry_body (c 0) gid token code)))
      (\<lambda>prepared. if prepared then throwJ (provider_exn e) else claimLossJ S gid)) (run_end gid n m)"
    if "retryable" "n < m" "code \<noteq> ''GENERATION_CLAIM_LOST''"
    by (rule ends_bind [OF retry]) (use lost that pe in \<open>auto simp: ends_def throwJ_def\<close>)
  have 2: "ends sys_ok (bindJ (dbJ S (\<lambda>c. run_tx (failGeneration_body (sv_config S) (c 0) (c 1) gid token code msg)))
      (\<lambda>failed. if \<not> failed then claimLossJ S gid else returnJ Completed)) (run_end gid n m)"
    by (rule ends_bind [OF fail]) (use lost in \<open>auto simp: ends_def returnJ_def all_status_def\<close>)
  show ?thesis unfolding failureJ_def e prod.case
    by (rule ends_bind [OF orphan]) (use lost 1 2 in \<open>auto simp: ends_def\<close>)
qed

lemma ends_guarded:
  assumes "others_step S sc"
  shows "ends sys_ok (guardedJ S gid token n m) (run_end gid n m)"
proof -
  let ?body = "\<lambda>t. bindJ (bodyJ S gid token t) (\<lambda>_. returnJ Completed)"
  have b: "ends sys_ok (?body t) (on_value (\<lambda>r d. r = Completed \<and> all_status gid (\<lambda>s. s = GS_COMPLETED) d))" for t
    by (rule ends_bind [OF ends_body [OF assms, of gid token t]]) (simp_all add: on_value_def ends_def returnJ_def)
  have "ends sys_ok (catchJ (?body t) (failureJ S gid token n m)) (run_end gid n m)" for t
    unfolding ends_def
  proof (intro allI impI)
    fix s assume ok: "sys_ok (jdb s)"
    have mv: "moves S sc sys_ok (?body t)" by (intro moves_bind moves_body moves_return stable_sys_ok assms)
    obtain r s1 where m: "?body t s = (r, s1)" by fastforce
    from stable_movesD [OF stable_sys_ok mv ok] m have ok1: "sys_ok (jdb s1)" by simp
    show "run_end gid n m (fst (catchJ (?body t) (failureJ S gid token n m) s)) (jdb (snd (catchJ (?body t) (failureJ S gid token n m) s)))"
    proof (cases r)
      case (Inl e)
      with m ends_failure [OF assms, of gid token n m e] ok1 show ?thesis by (simp add: catchJ_def ends_def)
    next
      case (Inr x)
      with b [of t] ok m have "x = Completed \<and> all_status gid (\<lambda>s. s = GS_COMPLETED) (jdb s1)"
        by (auto simp: ends_def on_value_def dest: spec [of _ s])
      with m Inr show ?thesis by (simp add: catchJ_def all_status_def)
    qed
  qed
  then show ?thesis unfolding guardedJ_def bindJ_def nowJ_def ends_def by simp
qed

lemma ends_process:
  assumes "others_step S sc"
  shows "ends sys_ok (process S gid token n m) (run_end gid n m)"
proof -
  have claim: "ends sys_ok (claimJ S gid token) (\<lambda>r d. sys_ok d \<and> isl r = False)"
    unfolding claimJ_def
  proof (rule ends_db [OF assms stable_sys_ok])
    fix c :: "nat \<Rightarrow> int" and d assume ok: "sys_ok d"
    show "sys_ok (snd (run_tx (claim_body (sv_config S) (c 0) gid token) d)) \<and>
        isl (fst (run_tx (claim_body (sv_config S) (c 0) gid token) d)) = False"
      using claim_total [OF ok] sys_ok_claim [OF ok] by (auto simp: run_tx_def split: sum.split prod.split)
  qed
  have "ends sys_ok (finallyJ (guardedJ S gid token n m)) (run_end gid n m)"
    using ends_guarded [OF assms] by (simp add: ends_def finallyJ_def split: prod.split) (metis fst_conv snd_conv)
  then show ?thesis unfolding process_def
    by (intro ends_bind [OF claim]) (use ends_claimLoss [OF assms] in \<open>auto simp: ends_def\<close>)
qed

end
