(* ===== verification/PipelineOutcomes.thy ===== *)
theory PipelineOutcomes
  imports PipelineProperties
begin

text \<open>
  The properties of a whole run of the worker: it is a run of the system, it ends as the queue expects, and
  the PDF it uploads is committed or accounted for.
\<close>

section \<open>The uploaded output\<close>

definition output_accounted :: "string \<Rightarrow> world \<Rightarrow> bool" where
  "output_accounted K w \<longleftrightarrow> objects w K = None \<or> K \<in> out_storageKey ` set (outputs (wdb w)) \<or> K \<in> pending_keys w"

abbreviation absent :: "string \<Rightarrow> job_state \<Rightarrow> bool" where
  "absent K s \<equiv> objects (js_world s) K = None"

text \<open>The others do not write the key, and leave it accounted for; a deletion is not answered by \<open>NotFound\<close>.\<close>

definition others_account :: "services \<Rightarrow> string \<Rightarrow> bool" where
  "others_account S K \<longleftrightarrow>
     (\<forall>k i w. objects w K = None \<longrightarrow> objects (sv_others S k i w) K = None) \<and>
     (\<forall>k i w. output_accounted K w \<longrightarrow> output_accounted K (sv_others S k i w)) \<and>
     (\<forall>k e. sv_deleteFault S k K = Some e \<longrightarrow> \<not> isNotFound e)"

text \<open>A part of a run that keeps a property of the bucket, as long as the others keep it.\<close>

definition others_keep :: "services \<Rightarrow> (bucket \<Rightarrow> bool) \<Rightarrow> bool" where
  "others_keep S P \<longleftrightarrow> (\<forall>k i w. P (objects w) \<longrightarrow> P (objects (sv_others S k i w)))"

definition keeps_objects :: "(bucket \<Rightarrow> bool) \<Rightarrow> 'a job \<Rightarrow> bool" where
  "keeps_objects P m \<longleftrightarrow> (\<forall>s. P (objects (js_world s)) \<longrightarrow> P (objects (js_world (snd (m s)))))"

abbreviation keeps_absent :: "string \<Rightarrow> 'a job \<Rightarrow> bool" where
  "keeps_absent K \<equiv> keeps_objects (\<lambda>bkt. bkt K = None)"

lemma objects_basic: "keeps_objects P (returnJ x)" "keeps_objects P (throwJ e)" "keeps_objects P (liftJ r)" "keeps_objects P (nowJ S)"
  by (simp_all add: keeps_objects_def returnJ_def throwJ_def liftJ_def nowJ_def)

lemma objects_bind: "keeps_objects P m \<Longrightarrow> (\<And>x. keeps_objects P (f x)) \<Longrightarrow> keeps_objects P (bindJ m f)"
  unfolding keeps_objects_def bindJ_def by (auto split: prod.split sum.split)

lemma objects_catch: "keeps_objects P m \<Longrightarrow> (\<And>e. keeps_objects P (h e)) \<Longrightarrow> keeps_objects P (catchJ m h)"
  unfolding keeps_objects_def catchJ_def by (auto split: prod.split sum.split)

lemma objects_if: "keeps_objects P m \<Longrightarrow> keeps_objects P n \<Longrightarrow> keeps_objects P (if c then m else n)"
  by simp

lemma objects_each: "(\<And>x. keeps_objects P (f x)) \<Longrightarrow> keeps_objects P (eachJ f xs)"
  by (induction xs) (simp_all add: objects_bind objects_basic)

lemma objects_await:
  assumes "others_keep S P" "\<And>k w. P (objects w) \<Longrightarrow> P (objects (snd (f k w)))"
  shows "keeps_objects P (awaitJ S f)"
  using assms unfolding keeps_objects_def awaitJ_def others_keep_def Let_def
  by (auto split: prod.split) (metis snd_conv)

lemma objects_db: "others_keep S P \<Longrightarrow> keeps_objects P (dbJ S f)"
  unfolding dbJ_def by (erule objects_await) (simp split: prod.split)

lemma objects_ask: "others_keep S P \<Longrightarrow> keeps_objects P (askJ S f)"
  unfolding askJ_def by (erule objects_await) simp

lemma objects_transcribe: "others_keep S P \<Longrightarrow> keeps_objects P (transcribeJ S gid token deadline l a)"
  unfolding transcribeJ_def by (erule objects_await) (simp split: prod.split)

lemma objects_deadline: "keeps_objects P (beforeDeadline S deadline)"
  unfolding beforeDeadline_def by (intro objects_bind objects_basic)

lemmas objects_steps = objects_basic objects_bind objects_catch objects_each objects_db objects_ask objects_transcribe objects_deadline

lemma objects_transcribeAll: "others_keep S P \<Longrightarrow> keeps_objects P (transcribeAll S gid token deadline l n index as)"
  by (induction as arbitrary: index) (simp_all add: objects_steps progressJ_def)

lemma objects_start: "others_keep S P \<Longrightarrow> keeps_objects P (startAttemptJ S gid token deadline op m)"
proof -
  assume a: "others_keep S P"
  have "keeps_objects P (bindJ (dbJ S (\<lambda>c. run_tx (start_attempt (sv_attempts S) i (c 0) gid op ''openai'' m token deadline None)))
      (\<lambda>(attemptId, n). returnJ attemptId))" for i
    by (auto intro!: objects_steps a)
  then show ?thesis by (simp add: keeps_objects_def startAttemptJ_def Let_def)
qed

lemma objects_moderation: "others_keep S P \<Longrightarrow> keeps_objects P (moderationJ S gid token deadline t urls)"
  unfolding moderationJ_def failAttemptJ_def by (auto intro!: objects_steps objects_start)

lemma objects_imageInput: "others_keep S P \<Longrightarrow> keeps_objects P (imageInputJ S a)"
  unfolding imageInputJ_def by (auto intro!: objects_steps)

lemma objects_uploadDocument: "others_keep S P \<Longrightarrow> keeps_objects P (uploadDocumentJ S deadline a)"
proof -
  have "keeps_objects P (\<lambda>s. (Inr x, s\<lparr>js_files := js_files s @ [f]\<rparr>))" for x f by (simp add: keeps_objects_def)
  then show "others_keep S P \<Longrightarrow> ?thesis" unfolding uploadDocumentJ_def by (auto intro!: objects_steps)
qed

lemma objects_generation: "others_keep S P \<Longrightarrow> keeps_objects P (generationJ S gid token deadline u t snapshot images)"
  unfolding generationJ_def failAttemptJ_def
  by (auto intro!: objects_steps objects_start objects_uploadDocument objects_imageInput)

lemma objects_result: "others_keep S P \<Longrightarrow> keeps_objects P (case x of Some r \<Rightarrow> liftJ (parseResult (sv_zod S) r)
            | None \<Rightarrow> generationJ S gid token deadline u t snapshot images)"
  by (cases x) (simp_all add: objects_generation objects_basic)

lemma account_keep: "others_account S K \<Longrightarrow> others_keep S (\<lambda>bkt. bkt K = None)"
  by (simp add: others_account_def others_keep_def)

text \<open>A run so far has uploaded nothing to the key or remembers it; at its end the key is accounted for.\<close>

definition remembered :: "string \<Rightarrow> job_state \<Rightarrow> bool" where
  "remembered K s \<longleftrightarrow> absent K s \<or> js_output s = Some K"

definition lands :: "string \<Rightarrow> 'a job \<Rightarrow> bool" where
  "lands K m \<longleftrightarrow> (\<forall>s. absent K s \<longrightarrow>
     (case m s of (Inl e, s') \<Rightarrow> remembered K s' | (Inr x, s') \<Rightarrow> output_accounted K (js_world s')))"

lemma lands_bind:
  assumes "keeps_absent K m" "\<And>x. lands K (f x)"
  shows "lands K (bindJ m f)"
  unfolding lands_def
proof (intro allI impI)
  fix s assume a: "absent K s"
  obtain r s1 where m: "m s = (r, s1)" by fastforce
  with assms(1) a have "absent K s1" by (auto simp: keeps_objects_def dest: spec [of _ s])
  with m assms(2) show "case bindJ m f s of (Inl e, s') \<Rightarrow> remembered K s' | (Inr x, s') \<Rightarrow> output_accounted K (js_world s')"
    by (cases r) (simp_all add: bindJ_def lands_def remembered_def)
qed

lemma dbJ_apply:
  "dbJ S f s =
     (fst (f (sv_clock S (js_step s)) (wdb (sv_others S (js_step s) 0 (js_world s)))),
      s\<lparr>js_world := (sv_others S (js_step s) 0 (js_world s))
           \<lparr>wdb := snd (f (sv_clock S (js_step s)) (wdb (sv_others S (js_step s) 0 (js_world s))))\<rparr>,
        js_step := js_step s + 1\<rparr>)"
  by (simp add: dbJ_def awaitJ_def Let_def split: prod.split)

lemma finalize_output:
  "finalize_body now now2 gid rid u token key n d = Inr (v, d') \<Longrightarrow> key \<in> out_storageKey ` set (outputs d')"
proof -
  assume f: "finalize_body now now2 gid rid u token key n d = Inr (v, d')"
  obtain d0 dm where s: "create_output \<lparr>out_reportId = rid, out_generationId = gid, out_storageKey = key,
      out_mimeType = ''application/pdf'', out_size = n, out_createdAt = now2\<rparr> d = Inr d0"
    "consumeInTransaction gid dm = Inr d'" "outputs dm = outputs d0"
    using f unfolding finalize_body_def Let_def by (elim bindE_InrE) auto
  from credit_frameD(5) [OF credit_frames(2) [OF s(2)]] s(1,3) show ?thesis
    by (auto simp: create_output_def split: if_splits)
qed

lemma lands_publish:
  assumes "others_account S K"
  shows "lands K (publishJ S gid token deadline u rid b)"
proof -
  let ?key = "output_key u rid gid token"
  have "lands K (bindJ (uploadJ S ?key b) (\<lambda>_.
     bindJ (dbJ S (\<lambda>c. run_tx (finalize_body (c 0) (c 1) gid rid u token ?key (int (length b))))) (\<lambda>_ s.
     (Inr (), s\<lparr>js_output := None\<rparr>))))"
    unfolding lands_def
  proof (intro allI impI)
    fix s assume a: "absent K s"
    obtain r s1 where up: "uploadJ S ?key b s = (r, s1)" by fastforce
    have s1: "js_output s1 = Some ?key" "K \<noteq> ?key \<Longrightarrow> absent K s1"
      using up a assms by (auto simp: uploadJ_def awaitJ_def Let_def uploadObject_def others_account_def
          split: prod.splits sum.splits option.splits if_splits)
    then have rem: "remembered K s1" by (auto simp: remembered_def)
    obtain r2 s2 where fin: "dbJ S (\<lambda>c. run_tx (finalize_body (c 0) (c 1) gid rid u token ?key (int (length b)))) s1 = (r2, s2)"
      by fastforce
    have s2: "js_output s2 = Some ?key" "K \<noteq> ?key \<Longrightarrow> absent K s2"
      using fin s1 objects_db [OF account_keep [OF assms], unfolded keeps_objects_def, rule_format, of s1] by (auto simp: dbJ_apply)
    have out: "?key \<in> out_storageKey ` set (outputs (jdb s2))" if "r2 = Inr v" for v
      using fin that finalize_output by (fastforce simp: dbJ_apply run_tx_def split: sum.splits)
    have acc: "output_accounted K (js_world s2)" if "r2 = Inr v" for v
      using out [OF that] s2(2) by (cases "K = ?key") (simp_all add: output_accounted_def)
    have rem2: "remembered K s2" using s2 by (auto simp: remembered_def)
    show "case bindJ (uploadJ S ?key b) (\<lambda>_.
     bindJ (dbJ S (\<lambda>c. run_tx (finalize_body (c 0) (c 1) gid rid u token ?key (int (length b))))) (\<lambda>_ s.
     (Inr (), s\<lparr>js_output := None\<rparr>))) s of (Inl e, s') \<Rightarrow> remembered K s' | (Inr x, s') \<Rightarrow> output_accounted K (js_world s')"
      using up fin rem rem2 acc by (cases r; cases r2) (simp_all add: bindJ_def)
  qed
  from lands_bind [OF objects_db [OF account_keep [OF assms]] lands_bind [OF objects_db [OF account_keep [OF assms]] lands_bind [OF objects_deadline this]]]
  show ?thesis unfolding publishJ_def progressJ_def .
qed

lemma lands_body:
  assumes "others_account S K"
  shows "lands K (bodyJ S gid token deadline)"
  unfolding bodyJ_def Let_def progressJ_def readImageJ_def
  by (intro lands_bind lands_publish objects_steps objects_transcribeAll objects_moderation objects_result
      objects_imageInput account_keep assms)

definition keeps_accounted :: "string \<Rightarrow> 'a job \<Rightarrow> bool" where
  "keeps_accounted K m \<longleftrightarrow> (\<forall>s. output_accounted K (js_world s) \<longrightarrow> output_accounted K (js_world (snd (m s))))"

lemma accounted_bind: "keeps_accounted K m \<Longrightarrow> (\<And>x. keeps_accounted K (f x)) \<Longrightarrow> keeps_accounted K (bindJ m f)"
  unfolding keeps_accounted_def bindJ_def by (auto split: prod.split sum.split)

lemma accounted_basic: "keeps_accounted K (returnJ x)" "keeps_accounted K (throwJ e)"
  by (simp_all add: keeps_accounted_def returnJ_def throwJ_def)

text \<open>A transaction that leaves the outputs and the clean-up tasks alone.\<close>

lemma accounted_db:
  assumes "others_account S K" "\<And>c d. outputs (snd (f c d)) = outputs d \<and> cleanupTasks (snd (f c d)) = cleanupTasks d"
  shows "keeps_accounted K (dbJ S f)"
  unfolding keeps_accounted_def
proof (intro allI impI)
  fix s :: job_state assume "output_accounted K (js_world s)"
  then have "output_accounted K (sv_others S (js_step s) 0 (js_world s))" using assms(1) by (simp add: others_account_def)
  then show "output_accounted K (js_world (snd (dbJ S f s)))"
    by (simp add: dbJ_apply output_accounted_def pending_keys_def assms(2))
qed

lemma accounted_claimLoss: "others_account S K \<Longrightarrow> keeps_accounted K (claimLossJ S gid)"
  unfolding keeps_accounted_def claimLossJ_def askJ_def awaitJ_def others_account_def Let_def by simp

lemma prepareRetry_frame:
  "prepareRetry_body now gid token code d = Inr (b, d') \<Longrightarrow> outputs d' = outputs d \<and> cleanupTasks d' = cleanupTasks d"
  by (auto simp: prepareRetry_body_def Let_def result_iffs split: if_splits)

lemma failGeneration_frame:
  assumes "failGeneration_body pc now now2 gid token code msg d = Inr (b, d')"
  shows "outputs d' = outputs d \<and> cleanupTasks d' = cleanupTasks d"
proof (cases "count_where (owns_lease now2 gid token) (generations d) = 1")
  case True
  obtain d1 f rid d2 x where "update_report rid f d1 = Inr d2" "releaseInTransaction gid x d2 = Inr d'"
    "outputs d1 = outputs d" "cleanupTasks d1 = cleanupTasks d"
    using assms True unfolding failGeneration_body_def Let_def by (simp del: exists_where_iff) (elim bindE_InrE, auto)
  then show ?thesis using credit_frameD(5,8) [OF credit_frames(3)] by (auto simp: update_report_Inr_iff)
next
  case False
  with assms show ?thesis by (simp add: failGeneration_body_def)
qed

lemma accounted_tx:
  assumes "others_account S K" "\<And>c d x d'. body c d = Inr (x, d') \<Longrightarrow> outputs d' = outputs d \<and> cleanupTasks d' = cleanupTasks d"
  shows "keeps_accounted K (dbJ S (\<lambda>c. run_tx (body c)))"
proof (rule accounted_db [OF assms(1)])
  fix c d
  show "outputs (snd (run_tx (body c) d)) = outputs d \<and> cleanupTasks (snd (run_tx (body c) d)) = cleanupTasks d"
    using assms(2) [of c d] by (cases "body c d") (auto simp: run_tx_def)
qed

text \<open>The clean-up of an orphan accounts for it, whether its deletion succeeds or not.\<close>

lemma orphan_accounted:
  assumes "\<And>e. faults K = Some e \<Longrightarrow> \<not> isNotFound e"
  shows "output_accounted K (scheduleOrphanCleanup bucket faults now K w)"
proof (cases "delete_fails bucket faults K")
  case True
  have "K \<in> pending_keys (w\<lparr>wdb := upsert_task now K ORPHAN_OUTPUT (wdb w)\<rparr>)"
    unfolding pending_keys_def upsert_task_def by (simp flip: set_map) auto
  then show ?thesis
    by (simp add: scheduleOrphanCleanup_def attemptMany_one attempt_fail [OF True] output_accounted_def)
      (simp add: pending_keys_def flip: set_map)
next
  case False
  have "bucket \<noteq> []" "faults K = None" using False assms by (auto simp: delete_fails_def split: option.splits)
  then show ?thesis
    by (simp add: scheduleOrphanCleanup_def attemptMany_one attempt_def deleteObject_def ensureConfigured_def output_accounted_def)
qed

lemma orphan_other:
  assumes "objects w K = None"
  shows "objects (scheduleOrphanCleanup bucket faults now k w) K = None"
  using assms by (auto simp: scheduleOrphanCleanup_def attemptMany_one attempt_def deleteObject_def
      split: prod.splits sum.splits option.splits if_splits)

lemma orphan_lands:
  assumes "others_account S K" "remembered K s"
  shows "output_accounted K (js_world (snd (orphanJ S s)))"
proof (cases "js_output s = Some K")
  case True
  then show ?thesis
    using orphan_accounted [of "sv_deleteFault S (js_step s)" K] assms(1)
    by (simp add: orphanJ_def bindJ_def awaitJ_def Let_def others_account_def)
next
  case False
  with assms have "absent K s" by (simp add: remembered_def)
  with assms(1) show ?thesis
    by (auto simp: orphanJ_def bindJ_def awaitJ_def Let_def others_account_def output_accounted_def orphan_other split: option.split)
qed

lemma failure_lands:
  assumes "others_account S K" "remembered K s"
  shows "output_accounted K (js_world (snd (failureJ S gid token n m e s)))"
proof -
  obtain code retryable msg where e: "normalizeError e = (code, retryable, msg)" by (metis prod_cases3)
  let ?rest = "if code = ''GENERATION_CLAIM_LOST'' then claimLossJ S gid
        else if retryable \<and> n < m then
          bindJ (dbJ S (\<lambda>c. run_tx (prepareRetry_body (c 0) gid token code))) (\<lambda>prepared.
          if prepared then throwJ (provider_exn e) else claimLossJ S gid)
        else
          bindJ (dbJ S (\<lambda>c. run_tx (failGeneration_body (sv_config S) (c 0) (c 1) gid token code msg))) (\<lambda>failed.
          if \<not> failed then claimLossJ S gid else returnJ Completed)"
  have "keeps_accounted K ?rest"
    by (auto intro!: accounted_bind accounted_claimLoss accounted_basic accounted_tx assms(1)
        dest: prepareRetry_frame failGeneration_frame)
  moreover obtain r s1 where o: "orphanJ S s = (r, s1)" by fastforce
  moreover have "\<not> isl r" using o by (auto simp: orphanJ_def bindJ_def awaitJ_def Let_def split: option.splits)
  ultimately show ?thesis
    using orphan_lands [OF assms] by (cases r) (simp_all add: failureJ_def e bindJ_def keeps_accounted_def)
qed

lemma process_lands:
  assumes "others_account S K" "absent K s"
  shows "output_accounted K (js_world (snd (process S gid token n m s)))"
proof -
  have body: "output_accounted K (js_world (snd (guardedJ S gid token n m s)))" if "absent K s" for s
  proof -
    define s1 where "s1 = s\<lparr>js_step := js_step s + 1\<rparr>"
    let ?t = "sv_clock S (js_step s) 0 + jobTimeoutMs (sv_config S)"
    obtain r s2 where b: "bodyJ S gid token ?t s1 = (r, s2)" by fastforce
    have "absent K s1" using that by (simp add: s1_def)
    with lands_body [OF assms(1), of gid token ?t] b have
      l: "case r of Inl e \<Rightarrow> remembered K s2 | Inr x \<Rightarrow> output_accounted K (js_world s2)"
      by (auto simp: lands_def dest: spec [of _ s1] split: sum.split)
    have "guardedJ S gid token n m s =
        catchJ (bindJ (bodyJ S gid token ?t) (\<lambda>_. returnJ Completed)) (failureJ S gid token n m) s1"
      by (simp add: guardedJ_def bindJ_def nowJ_def s1_def)
    with b l failure_lands [OF assms(1)] show ?thesis
      by (cases r) (simp_all add: catchJ_def bindJ_def returnJ_def)
  qed
  obtain r s1 where c: "claimJ S gid token s = (r, s1)" by fastforce
  have "absent K s1" using objects_db [OF account_keep [OF assms(1)]] assms(2) c unfolding claimJ_def keeps_objects_def by (metis snd_conv)
  moreover have "output_accounted K (js_world s1)" using calculation by (simp add: output_accounted_def)
  ultimately show ?thesis
    using c body [of s1] accounted_claimLoss [OF assms(1), of gid]
    by (cases r) (auto simp: process_def bindJ_def finallyJ_def keeps_accounted_def split: prod.splits)
qed

section \<open>An instance\<close>

text \<open>A worker that is stopped after its claim for longer than its lease.\<close>

definition demo_services :: services where
  "demo_services = \<lparr>sv_config = demo_pc,
     sv_attempts = \<lparr>transcriptionMaxAttemptsPerAsset = 3, maxProviderCallsPerGeneration = 3\<rparr>,
     sv_transcriptionModel = ''t'', sv_maxOutputTokens = 6000, sv_bucket = ''b'', sv_zod = sample_zod,
     sv_clock = (\<lambda>k i. if k < 3 then 30 else 700000), sv_others = (\<lambda>k i w. w), sv_newId = (\<lambda>k. ''a'' @ digits k),
     sv_transcribe = (\<lambda>k a l. Inl (PlainError ''x'')), sv_moderate = (\<lambda>k t urls. Inr (False, None)),
     sv_stream = (\<lambda>k key. Inr ()), sv_uploadDocument = (\<lambda>k n t. Inr ''f''),
     sv_generateReport = (\<lambda>k r. Inl (PlainError ''x'')), sv_presignedGet = (\<lambda>k key. Inl (PlainError ''x'')),
     sv_pdf = (\<lambda>k r imgs t l title tz. Inr [37, 80]), sv_headFault = (\<lambda>k key. None), sv_getFault = (\<lambda>k key. None),
     sv_putFault = (\<lambda>k key. None), sv_deleteFault = (\<lambda>k key. None)\<rparr>"

lemma demo_services_simps:
  "sv_config demo_services = demo_pc" "sv_others demo_services k i w = w"
  "sv_clock demo_services k i = (if k < 3 then 30 else 700000)"
  by (simp_all add: demo_services_def)

definition demo_job :: "process_result result \<times> job_state" where
  "demo_job = process demo_services ''g'' ''t'' 1 3 (begin_job \<lparr>wdb = demo2, objects = Map.empty\<rparr>)"

lemma demo_others: "others_step demo_services sc" "others_account demo_services K"
  by (simp_all add: others_step_def others_account_def demo_services_def)

lemma bindJ_Inr: "m s = (Inr x, s') \<Longrightarrow> bindJ m f s = f x s'"
  by (simp add: bindJ_def)

lemma bindJ_Inl: "m s = (Inl e, s') \<Longrightarrow> bindJ m f s = (Inl e, s')"
  by (simp add: bindJ_def)

lemma demo_result: "demo_job = (Inr (Deferred 701000),
    \<lparr>js_world = \<lparr>wdb = demo3, objects = Map.empty\<rparr>, js_step = 5, js_files = [], js_output = None, js_deleted = []\<rparr>)"
proof -
  let ?st = "\<lambda>k. \<lparr>js_world = \<lparr>wdb = demo3, objects = Map.empty\<rparr>, js_step = k, js_files = [], js_output = None, js_deleted = []\<rparr>"
  have "\<not> isl (claim_body demo_pc 30 ''g'' ''t'' demo2)"
    "(case claim_body demo_pc 30 ''g'' ''t'' demo2 of Inl e \<Rightarrow> False | Inr (b, d) \<Rightarrow> b)" by code_simp+
  then have "claim_body demo_pc 30 ''g'' ''t'' demo2 = Inr (True, demo3)"
    unfolding demo3_def by (auto simp: ok_state_def split: sum.splits)
  then have claim: "claimJ demo_services ''g'' ''t'' (begin_job \<lparr>wdb = demo2, objects = Map.empty\<rparr>) = (Inr True, ?st 1)"
    by (simp add: claimJ_def dbJ_apply demo_services_simps begin_job_def run_tx_def)
  have "(case find_generation ''g'' demo3 of None \<Rightarrow> False | Some g \<Rightarrow>
      (case parseSnapshot (gen_inputSnapshot g) of Inl e \<Rightarrow> False | Inr y \<Rightarrow> True))" by code_simp
  then obtain g y where g: "find_generation ''g'' demo3 = Some g" "parseSnapshot (gen_inputSnapshot g) = Inr y"
    by (auto split: option.splits sum.splits)
  have none: "count_where (owns_lease 700000 ''g'' ''t'') (generations demo3) = 0" by code_simp
  then have same: "update_where (owns_lease 700000 ''g'' ''t'') f (generations demo3) = generations demo3" for f
    by (intro update_where_no_match) (simp add: count_where_0_iff)
  have read: "askJ demo_services (\<lambda>k w. fromOption (PrismaError ''P2025'') (find_generation ''g'' (wdb w))) (?st 2) = (Inr g, ?st 3)"
    by (simp add: askJ_def awaitJ_def demo_services_simps g)
  have parse: "liftJ (parseSnapshot (gen_inputSnapshot g)) (?st 3) = (Inr y, ?st 3)" by (simp add: liftJ_def g)
  have lost: "progressJ demo_services ''g'' ''t'' TRANSCRIBING (progress_of TRANSCRIBING) (?st 3) = (Inl claimLost, ?st 4)"
    by (simp add: progressJ_def dbJ_apply demo_services_simps updateProgress_def none same)
  have body: "bodyJ demo_services ''g'' ''t'' till (?st 2) = (Inl claimLost, ?st 4)" for till
    unfolding bodyJ_def by (rule bindJ_Inr [THEN trans], rule read, rule bindJ_Inr [THEN trans], rule parse, rule bindJ_Inl, rule lost)
  have "resultAfterClaimLoss 700000 ''g'' demo3 = Deferred 701000" by code_simp
  then have loss: "claimLossJ demo_services ''g'' (?st 4) = (Inr (Deferred 701000), ?st 5)"
    by (simp add: claimLossJ_def askJ_def awaitJ_def demo_services_simps)
  have fail: "failureJ demo_services ''g'' ''t'' 1 3 claimLost (?st 4) = (Inr (Deferred 701000), ?st 5)"
    by (simp add: failureJ_def normalizeError_def claimLost_def orphanJ_def bindJ_def loss)
  have "guardedJ demo_services ''g'' ''t'' 1 3 (?st 1) = (Inr (Deferred 701000), ?st 5)"
    by (simp add: guardedJ_def nowJ_def catchJ_def bindJ_def body [unfolded numeral_2_eq_2] fail [unfolded One_nat_def])
  with claim show ?thesis by (simp add: demo_job_def process_def bindJ_def finallyJ_def)
qed

lemma jdb_begin: "jdb (begin_job w) = wdb w"
  by (simp add: begin_job_def)

section \<open>Properties\<close>

text \<open>
  C3. The worker is an implementation of the step relation: whatever other processes commit between its calls,
  as long as those are steps too, a run of \<open>process\<close>, with all its providers, errors and retries, moves
  the database along a sequence of steps, so every invariant of the reachable states holds after it.
\<close>

theorem worker_run_is_system_run:
  assumes "others_step S sc" "reachable (sv_config S) sc (wdb w)"
  shows "\<exists>as. steps (sv_config S) sc (wdb w) as (jdb (snd (process S gid token n m (begin_job w))))"
  using moves_process [OF assms(1), unfolded moves_def runs_def, rule_format, of "begin_job w"] reachable_sys_ok [OF assms(2)]
  by (simp add: jdb_begin)

theorem worker_run_is_system_run_witness:
  "fst demo_job = Inr (Deferred 701000) \<and> (\<exists>as. steps demo_pc demo_sc demo2 as (jdb (snd demo_job)))"
proof -
  have "reachable (sv_config demo_services) demo_sc demo2" using demo_reachable(2) by (simp add: demo_services_def)
  from worker_run_is_system_run [OF demo_others(1), of demo_sc "\<lparr>wdb = demo2, objects = Map.empty\<rparr>" "''g''" "''t''" 1 3] this
  have "\<exists>as. steps demo_pc demo_sc demo2 as (jdb (snd demo_job))" by (simp add: demo_job_def demo_services_def)
  then show ?thesis by (simp add: demo_result)
qed





end
