(* ===== verification/Pdf.thy ===== *)
theory Pdf
  imports Processor
begin

text \<open>
  \<open>src/report-generation/pdf-report.service.ts\<close>: the layout of a report. PDFKit is a parameter: where a text
  of a style ends that starts at a place, what \<open>moveDown\<close> adds, the size of an image it can open, and the
  stream it writes. The model keeps the place on the page and what has been drawn; lengths are points, computed
  exactly. \<open>Intl\<close> and the Unicode tables are parameters too.
\<close>

section \<open>Constants\<close>

definition PAGE_MARGIN_X :: rat where "PAGE_MARGIN_X = 56"
definition PAGE_MARGIN_TOP :: rat where "PAGE_MARGIN_TOP = 62"
definition PAGE_MARGIN_BOTTOM :: rat where "PAGE_MARGIN_BOTTOM = 66"
definition FOOTER_Y_OFFSET :: rat where "FOOTER_Y_OFFSET = 38"
definition GALLERY_GAP :: rat where "GALLERY_GAP = 12"
definition SINGLE_IMAGE_MAX_WIDTH :: rat where "SINGLE_IMAGE_MAX_WIDTH = 360"
definition SINGLE_IMAGE_MAX_HEIGHT :: rat where "SINGLE_IMAGE_MAX_HEIGHT = 300"
definition GRID_IMAGE_MAX_HEIGHT :: rat where "GRID_IMAGE_MAX_HEIGHT = 210"
definition MIN_TWO_COLUMN_IMAGE_WIDTH :: rat where "MIN_TWO_COLUMN_IMAGE_WIDTH = 84"
definition CLOSING_SECTIONS_MIN_HEIGHT :: rat where "CLOSING_SECTIONS_MIN_HEIGHT = 175"

lemmas layout_constants = PAGE_MARGIN_X_def PAGE_MARGIN_TOP_def PAGE_MARGIN_BOTTOM_def FOOTER_Y_OFFSET_def
  GALLERY_GAP_def SINGLE_IMAGE_MAX_WIDTH_def SINGLE_IMAGE_MAX_HEIGHT_def GRID_IMAGE_MAX_HEIGHT_def
  MIN_TWO_COLUMN_IMAGE_WIDTH_def CLOSING_SECTIONS_MIN_HEIGHT_def

definition summary_titles :: "utext list" where
  "summary_titles =
     [codes ''summary'',
      codes ''executive summary'',
      [1088, 1077, 1079, 1102, 1084, 1077],
      [1087, 1110, 1076, 1089, 1091, 1084, 1086, 1082],
      codes ''zusammenfassung'',
      [114, 233, 115, 117, 109, 233],
      codes ''resumen'',
      codes ''resumen ejecutivo'']"

definition conclusion_titles :: "utext list" where
  "conclusion_titles =
     [codes ''conclusion'',
      codes ''conclusions'',
      [1074, 1080, 1089, 1085, 1086, 1074, 1086, 1082],
      [1074, 1080, 1089, 1085, 1086, 1074, 1082, 1080],
      codes ''fazit'',
      codes ''schlussfolgerung'',
      codes ''schlussfolgerungen'',
      [99, 111, 110, 99, 108, 117, 115, 105, 243, 110],
      codes ''conclusiones'']"

definition recommendations_titles :: "utext list" where
  "recommendations_titles =
     [codes ''recommendation'',
      codes ''recommendations'',
      [1088, 1077, 1082, 1086, 1084, 1077, 1085, 1076, 1072, 1094, 1110, 1103],
      [1088, 1077, 1082, 1086, 1084, 1077, 1085, 1076, 1072, 1094, 1110, 1111],
      codes ''empfehlung'',
      codes ''empfehlungen'',
      codes ''recommandation'',
      codes ''recommandations'',
      [114, 101, 99, 111, 109, 101, 110, 100, 97, 99, 105, 243, 110],
      codes ''recomendaciones'']"

record report_labels =
  lb_generated :: utext
  lb_summary :: utext
  lb_conclusion :: utext
  lb_recommendations :: utext
  lb_photograph :: utext

definition labels :: "string \<Rightarrow> report_labels" where
  "labels language =
     (if language = ''uk'' then
         \<lparr>lb_generated = [1057, 1090, 1074, 1086, 1088, 1077, 1085, 1086], lb_summary = [1056, 1077, 1079, 1102, 1084, 1077],
          lb_conclusion = [1042, 1080, 1089, 1085, 1086, 1074, 1086, 1082], lb_recommendations = [1056, 1077, 1082, 1086, 1084, 1077, 1085, 1076, 1072, 1094, 1110, 1111],
          lb_photograph = [1092, 1086, 1090, 1086, 1075, 1088, 1072, 1092, 1110, 1103]\<rparr>
      else if language = ''de'' then
         \<lparr>lb_generated = codes ''Erstellt'', lb_summary = codes ''Zusammenfassung'',
          lb_conclusion = codes ''Fazit'', lb_recommendations = codes ''Empfehlungen'',
          lb_photograph = codes ''Foto''\<rparr>
      else if language = ''fr'' then
         \<lparr>lb_generated = [71, 233, 110, 233, 114, 233], lb_summary = [82, 233, 115, 117, 109, 233],
          lb_conclusion = codes ''Conclusion'', lb_recommendations = codes ''Recommandations'',
          lb_photograph = codes ''photographie''\<rparr>
      else if language = ''es'' then
         \<lparr>lb_generated = codes ''Generado'', lb_summary = codes ''Resumen ejecutivo'',
          lb_conclusion = [67, 111, 110, 99, 108, 117, 115, 105, 243, 110], lb_recommendations = codes ''Recomendaciones'',
          lb_photograph = [102, 111, 116, 111, 103, 114, 97, 102, 237, 97]\<rparr>
      else \<lparr>lb_generated = codes ''Generated'', lb_summary = codes ''Executive Summary'',
          lb_conclusion = codes ''Conclusion'', lb_recommendations = codes ''Recommendations'',
          lb_photograph = codes ''photograph''\<rparr>)"

section \<open>Texts\<close>

text \<open>\<open>intl locale timezone date\<close> is \<open>Intl.DateTimeFormat\<close>, \<open>None\<close> when it throws.\<close>

definition date_locale :: "string \<Rightarrow> string" where
  "date_locale language =
     (if language = ''uk'' then ''uk-UA'' else if language = ''de'' then ''de-DE''
      else if language = ''fr'' then ''fr-FR'' else if language = ''es'' then ''es-ES'' else ''en-GB'')"

definition formatReportDate ::
  "(string \<Rightarrow> string \<Rightarrow> int \<Rightarrow> utext option) \<Rightarrow> int \<Rightarrow> string \<Rightarrow> string option \<Rightarrow> utext result" where
  "formatReportDate intl date language timezone =
     (let zone = (case timezone of None \<Rightarrow> [] | Some t \<Rightarrow> strim t);
          utc = (case intl (date_locale language) ''UTC'' date of
                   None \<Rightarrow> Inl (PlainError ''RangeError'') | Some t \<Rightarrow> Inr (t @ codes '' UTC'')) in
      if zone = [] then utc
      else (case intl (date_locale language) zone date of Some t \<Rightarrow> Inr t | None \<Rightarrow> utc))"

text \<open>The Unicode tables: \<open>NFKC\<close>, lower case and the classes \<open>L\<close> and \<open>N\<close>.\<close>

record unicode =
  un_nfkc :: "utext \<Rightarrow> utext"
  un_lower :: "utext \<Rightarrow> utext"
  un_letter_or_number :: "nat \<Rightarrow> bool"

text \<open>Every maximal run of other characters becomes one separator.\<close>

fun separate :: "(nat \<Rightarrow> bool) \<Rightarrow> nat \<Rightarrow> utext \<Rightarrow> utext" where
  "separate keep sep [] = []"
| "separate keep sep (c # cs) =
     (if keep c then c # separate keep sep cs
      else case separate keep sep cs of
        [] \<Rightarrow> [sep]
      | d # ds \<Rightarrow> if \<not> keep (hd (cs @ [c])) then d # ds else sep # d # ds)"

datatype section_kind = Summary | Conclusion | Recommendations

definition dedicatedSectionKind :: "unicode \<Rightarrow> utext \<Rightarrow> section_kind option" where
  "dedicatedSectionKind U title =
     (let normalizedTitle = utrim (separate (un_letter_or_number U) 32 (un_lower U (utrim (un_nfkc U title)))) in
      if normalizedTitle \<in> set summary_titles then Some Summary
      else if normalizedTitle \<in> set conclusion_titles then Some Conclusion
      else if normalizedTitle \<in> set recommendations_titles then Some Recommendations
      else None)"

definition word_char :: "nat \<Rightarrow> bool" where
  "word_char c \<longleftrightarrow> (48 \<le> c \<and> c \<le> 57) \<or> (65 \<le> c \<and> c \<le> 90) \<or> c = 95 \<or> (97 \<le> c \<and> c \<le> 122)"

definition digit_char :: "nat \<Rightarrow> bool" where
  "digit_char c \<longleftrightarrow> 48 \<le> c \<and> c \<le> 57"

definition ascii_upper :: "nat \<Rightarrow> nat" where
  "ascii_upper c = (if 97 \<le> c \<and> c \<le> 122 then c - 32 else c)"

text \<open>
  \<open>/\bIMAGE_\d+\b/gi\<close> at a place that follows a boundary: the rest behind the match. The digits are
  followed by a boundary only when all of them are taken.
\<close>

definition match_alias :: "utext \<Rightarrow> utext option" where
  "match_alias s =
     (let rest = drop 6 s; after = dropWhile digit_char rest in
      if map ascii_upper (take 6 s) = codes ''IMAGE_'' \<and> rest \<noteq> after \<and> (after = [] \<or> \<not> word_char (hd after))
      then Some after else None)"

lemma match_alias_shorter: "match_alias s = Some r \<Longrightarrow> length r < length s"
proof -
  assume "match_alias s = Some r"
  then have r: "r = dropWhile digit_char (drop 6 s)" "drop 6 s \<noteq> r"
    by (auto simp: match_alias_def Let_def split: if_splits)
  then have "s \<noteq> []" by auto
  moreover have "length r \<le> length (drop 6 s)" unfolding r(1) by (rule length_dropWhile_le)
  ultimately show ?thesis by (cases s) auto
qed

function replace_aliases :: "utext \<Rightarrow> bool \<Rightarrow> utext \<Rightarrow> utext" where
  "replace_aliases label inWord s =
     (case s of
        [] \<Rightarrow> []
      | c # cs \<Rightarrow>
         (case (if inWord then None else match_alias s) of
            Some rest \<Rightarrow> label @ replace_aliases label True rest
          | None \<Rightarrow> c # replace_aliases label (word_char c) cs))"
  by pat_completeness auto
termination
  by (relation "measure (\<lambda>(label, inWord, s). length s)") (auto dest: match_alias_shorter split: if_splits)

text \<open>\<open>replaceAll\<close> with a string; an empty one matches between all characters.\<close>

function replace_all :: "utext \<Rightarrow> utext \<Rightarrow> utext \<Rightarrow> utext" where
  "replace_all pat rep s =
     (if pat = [] then rep @ concat (map (\<lambda>c. c # rep) s)
      else (case s of
        [] \<Rightarrow> []
      | c # cs \<Rightarrow>
         (if take (length pat) s = pat then rep @ replace_all pat rep (drop (length pat) s)
          else c # replace_all pat rep cs)))"
  by pat_completeness auto
termination
  by (relation "measure (\<lambda>(pat, rep, s). length s)") auto

declare replace_aliases.simps [simp del] replace_all.simps [simp del]

definition sanitizePdfText :: "string list \<Rightarrow> utext \<Rightarrow> utext \<Rightarrow> utext" where
  "sanitizePdfText hiddenAssetIds photographLabel value =
     fold (\<lambda>assetId s. replace_all (codes assetId) photographLabel s) hiddenAssetIds
       (replace_aliases photographLabel False value)"

section \<open>Images\<close>

text \<open>A quotient by zero is infinite and bounds nothing.\<close>

definition fitImageDimensions :: "rat \<Rightarrow> rat \<Rightarrow> rat \<Rightarrow> rat \<Rightarrow> rat \<times> rat" where
  "fitImageDimensions sourceWidth sourceHeight maximumWidth maximumHeight =
     (let bound = (\<lambda>m x. if x = 0 then 1 else m / x);
          scale = min (min (bound maximumWidth sourceWidth) (bound maximumHeight sourceHeight)) 1
      in (sourceWidth * scale, sourceHeight * scale))"

record image_source =
  im_width :: rat
  im_height :: rat
  im_orientation :: "nat option"

definition orientedImageDimensions :: "image_source \<Rightarrow> rat \<times> rat" where
  "orientedImageDimensions source =
     (case im_orientation source of
        Some n \<Rightarrow> (if n > 4 then (im_height source, im_width source) else (im_width source, im_height source))
      | None \<Rightarrow> (im_width source, im_height source))"

definition galleryColumnCount :: "nat \<Rightarrow> nat" where
  "galleryColumnCount imageCount = (if imageCount = 1 then 1 else 2)"

definition needsPageBreak :: "rat \<Rightarrow> rat \<Rightarrow> rat \<Rightarrow> bool" where
  "needsPageBreak currentY requiredHeight contentBottom \<longleftrightarrow> currentY + requiredHeight > contentBottom"

section \<open>The document\<close>

text \<open>A style is what the code sets before a text: its font, size, colour and options.\<close>

record style =
  st_bold :: bool
  st_size :: rat
  st_color :: string
  st_lineGap :: rat
  st_indent :: rat
  st_spacing :: rat

definition ACCENT :: string where "ACCENT = ''#176B73''"
definition INK :: string where "INK = ''#17252A''"
definition MUTED :: string where "MUTED = ''#66757A''"

definition brand_style :: style where
  "brand_style = \<lparr>st_bold = True, st_size = 10, st_color = ACCENT, st_lineGap = 0, st_indent = 0, st_spacing = 9/5\<rparr>"

definition title_style :: style where
  "title_style = \<lparr>st_bold = True, st_size = 26, st_color = INK, st_lineGap = 2, st_indent = 0, st_spacing = 0\<rparr>"

definition description_style :: style where
  "description_style = \<lparr>st_bold = False, st_size = 12, st_color = MUTED, st_lineGap = 2, st_indent = 0, st_spacing = 0\<rparr>"

definition stamp_style :: style where
  "stamp_style = \<lparr>st_bold = False, st_size = 19/2, st_color = MUTED, st_lineGap = 0, st_indent = 0, st_spacing = 0\<rparr>"

definition heading_style :: style where
  "heading_style = \<lparr>st_bold = True, st_size = 16, st_color = INK, st_lineGap = 1, st_indent = 0, st_spacing = 0\<rparr>"

definition body_style :: style where
  "body_style = \<lparr>st_bold = False, st_size = 21/2, st_color = INK, st_lineGap = 5/2, st_indent = 0, st_spacing = 0\<rparr>"

definition bullet_style :: style where
  "bullet_style = body_style\<lparr>st_indent := 12\<rparr>"

definition header_style :: style where
  "header_style = \<lparr>st_bold = False, st_size = 8, st_color = MUTED, st_lineGap = 0, st_indent = 0, st_spacing = 0\<rparr>"

definition footer_style :: "bool \<Rightarrow> style" where
  "footer_style bold = \<lparr>st_bold = bold, st_size = 17/2, st_color = MUTED, st_lineGap = 0, st_indent = 0, st_spacing = 0\<rparr>"

text \<open>What is drawn: a text from a place on a page, an image in a box, a line across the page.\<close>

datatype draw =
    DrawText nat rat style utext
  | DrawImage (image_id: string) (image_page: nat) (image_x: rat) (image_y: rat) (image_w: rat) (image_h: rat)
  | DrawRule nat rat

record canvas =
  cv_page :: nat
  cv_y :: rat
  cv_style :: style
  cv_ops :: "draw list"

record pdfkit =
  pk_width :: rat
  pk_height :: rat
  pk_flow :: "style \<Rightarrow> utext \<Rightarrow> nat \<times> rat \<Rightarrow> nat \<times> rat"
  pk_moveDown :: "style \<Rightarrow> rat \<Rightarrow> rat \<Rightarrow> rat"
  pk_heightOfString :: "style \<Rightarrow> rat \<Rightarrow> utext \<Rightarrow> rat"
  pk_openImage :: "bytes \<Rightarrow> image_source result"
  pk_stream :: "draw list \<Rightarrow> nat \<Rightarrow> bytes list \<times> bool"

definition contentWidth :: "pdfkit \<Rightarrow> rat" where
  "contentWidth pk = pk_width pk - PAGE_MARGIN_X * 2"

definition writeText :: "pdfkit \<Rightarrow> style \<Rightarrow> utext \<Rightarrow> canvas \<Rightarrow> canvas" where
  "writeText pk st s c =
     (case pk_flow pk st s (cv_page c, cv_y c) of
        (page, y) \<Rightarrow> c\<lparr>cv_page := page, cv_y := y, cv_style := st, cv_ops := cv_ops c @ [DrawText (cv_page c) (cv_y c) st s]\<rparr>)"

definition moveDown :: "pdfkit \<Rightarrow> rat \<Rightarrow> canvas \<Rightarrow> canvas" where
  "moveDown pk n c = c\<lparr>cv_y := pk_moveDown pk (cv_style c) n (cv_y c)\<rparr>"

definition drawRule :: "canvas \<Rightarrow> canvas" where
  "drawRule c = c\<lparr>cv_ops := cv_ops c @ [DrawRule (cv_page c) (cv_y c)]\<rparr>"

definition addPage :: "canvas \<Rightarrow> canvas" where
  "addPage c = c\<lparr>cv_page := cv_page c + 1, cv_y := PAGE_MARGIN_TOP\<rparr>"

definition ensureSpace :: "pdfkit \<Rightarrow> rat \<Rightarrow> canvas \<Rightarrow> canvas" where
  "ensureSpace pk points c =
     (let contentBottom = pk_height pk - PAGE_MARGIN_BOTTOM in
      if needsPageBreak (cv_y c) points contentBottom then addPage c else c)"

definition ensureSectionSpace :: "pdfkit \<Rightarrow> utext \<Rightarrow> canvas \<Rightarrow> canvas" where
  "ensureSectionSpace pk firstContent c =
     (let firstContentHeight = pk_heightOfString pk body_style (contentWidth pk) firstContent
      in ensureSpace pk (66 + min firstContentHeight 68) (c\<lparr>cv_style := body_style\<rparr>))"

definition renderCover :: "pdfkit \<Rightarrow> utext \<Rightarrow> utext option \<Rightarrow> utext \<Rightarrow> canvas \<Rightarrow> canvas" where
  "renderCover pk title description stamp c =
     (let c1 = writeText pk title_style title (moveDown pk (27/20) (writeText pk brand_style (codes ''FASTREP'') c));
          c2 = (case description of
                  Some (d # ds) \<Rightarrow> writeText pk description_style (d # ds) (moveDown pk (11/20) c1)
                | _ \<Rightarrow> c1);
          c3 = writeText pk stamp_style stamp (moveDown pk (27/20) c2)
      in moveDown pk (5/4) (drawRule (moveDown pk (5/4) c3)))"

definition renderSectionHeading :: "pdfkit \<Rightarrow> utext \<Rightarrow> canvas \<Rightarrow> canvas" where
  "renderSectionHeading pk title c =
     (let c1 = writeText pk heading_style title (moveDown pk (11/10) c);
          dividerY = cv_y c1 + 5
      in (drawRule (c1\<lparr>cv_y := dividerY\<rparr>))\<lparr>cv_y := dividerY + 4\<rparr>)"

definition renderNamedSection :: "pdfkit \<Rightarrow> utext \<Rightarrow> utext \<Rightarrow> canvas \<Rightarrow> canvas" where
  "renderNamedSection pk title s c =
     writeText pk body_style s (moveDown pk (1/2) (renderSectionHeading pk title (ensureSectionSpace pk s c)))"

definition bullet :: "utext \<Rightarrow> utext" where
  "bullet s = [8226, 32, 32] @ s"

definition renderBlock :: "pdfkit \<Rightarrow> (utext \<Rightarrow> utext) \<Rightarrow> report_block \<Rightarrow> canvas \<Rightarrow> canvas" where
  "renderBlock pk visibleText block c =
     (let c1 = (moveDown pk (9/20) c)\<lparr>cv_style := body_style\<rparr> in
      case block of
        Paragraph t \<Rightarrow> writeText pk body_style (visibleText t) c1
      | BulletList items \<Rightarrow> fold (\<lambda>item. writeText pk bullet_style (bullet (visibleText item))) items c1)"

section \<open>The gallery\<close>

fun openImages :: "pdfkit \<Rightarrow> (string \<times> bytes) list \<Rightarrow> (string \<times> (rat \<times> rat)) list result" where
  "openImages pk [] = Inr []"
| "openImages pk ((i, b) # images) =
     bindE (pk_openImage pk b) (\<lambda>source.
     bindE (openImages pk images) (\<lambda>rest. Inr ((i, orientedImageDimensions source) # rest)))"

fun gallery_rows :: "nat \<Rightarrow> 'a list \<Rightarrow> 'a list list" where
  "gallery_rows columns [] = []"
| "gallery_rows columns (x # xs) = (x # take (columns - 1) xs) # gallery_rows columns (drop (columns - 1) xs)"

text \<open>The images of a row, from number \<open>columnIndex\<close> on.\<close>

fun place_row ::
  "nat \<Rightarrow> rat \<Rightarrow> rat \<Rightarrow> rat \<Rightarrow> rat \<Rightarrow> nat \<Rightarrow> (string \<times> (rat \<times> rat)) list \<Rightarrow> draw list" where
  "place_row page rowLeft rowTop rowHeight cellWidth columnIndex [] = []"
| "place_row page rowLeft rowTop rowHeight cellWidth columnIndex ((i, (w, h)) # row) =
     (let cellLeft = rowLeft + of_nat columnIndex * (cellWidth + GALLERY_GAP) in
      DrawImage i page (cellLeft + (cellWidth - w) / 2) (rowTop + (rowHeight - h) / 2) w h
      # place_row page rowLeft rowTop rowHeight cellWidth (columnIndex + 1) row)"

definition row_height :: "(string \<times> (rat \<times> rat)) list \<Rightarrow> rat" where
  "row_height row = (case map (snd \<circ> snd) row of [] \<Rightarrow> 0 | h # hs \<Rightarrow> fold max hs h)"

definition renderRow :: "pdfkit \<Rightarrow> rat \<Rightarrow> rat \<Rightarrow> (string \<times> (rat \<times> rat)) list \<Rightarrow> canvas \<Rightarrow> canvas" where
  "renderRow pk cellWidth maximumHeight images c =
     (let row = map (\<lambda>(i, (w, h)). (i, fitImageDimensions w h cellWidth maximumHeight)) images;
          rowHeight = row_height row;
          c1 = ensureSpace pk (rowHeight + GALLERY_GAP) c;
          rowTop = cv_y c1;
          occupiedColumns = of_nat (length row);
          rowWidth = occupiedColumns * cellWidth + (occupiedColumns - 1) * GALLERY_GAP;
          rowLeft = PAGE_MARGIN_X + (contentWidth pk - rowWidth) / 2
      in c1\<lparr>cv_ops := cv_ops c1 @ place_row (cv_page c1) rowLeft rowTop rowHeight cellWidth 0 row,
            cv_y := rowTop + rowHeight + GALLERY_GAP\<rparr>)"

definition twoColumnCellWidth :: "pdfkit \<Rightarrow> rat" where
  "twoColumnCellWidth pk = (contentWidth pk - GALLERY_GAP) / 2"

definition gallery_columns :: "pdfkit \<Rightarrow> (string \<times> (rat \<times> rat)) list \<Rightarrow> nat" where
  "gallery_columns pk opened =
     (if length opened = 2 \<and>
         list_ex (\<lambda>(i, (w, h)). fst (fitImageDimensions w h (twoColumnCellWidth pk) GRID_IMAGE_MAX_HEIGHT)
           < MIN_TWO_COLUMN_IMAGE_WIDTH) opened
      then 1 else galleryColumnCount (length opened))"

definition renderGallery :: "pdfkit \<Rightarrow> (string \<times> bytes) list \<Rightarrow> canvas \<Rightarrow> canvas result" where
  "renderGallery pk images c =
     (if images = [] then Inr c
      else bindE (openImages pk images) (\<lambda>opened.
        let columns = gallery_columns pk opened;
            cellWidth = (if columns = 1 then min (contentWidth pk) SINGLE_IMAGE_MAX_WIDTH else twoColumnCellWidth pk);
            maximumHeight = (if columns = 1 then SINGLE_IMAGE_MAX_HEIGHT else GRID_IMAGE_MAX_HEIGHT)
        in Inr (fold (renderRow pk cellWidth maximumHeight) (gallery_rows columns opened) (moveDown pk (9/10) c))))"

section \<open>The report\<close>

definition nonempty :: "utext option \<Rightarrow> utext option" where
  "nonempty t = (case t of Some [] \<Rightarrow> None | _ \<Rightarrow> t)"

definition skipped_section :: "unicode \<Rightarrow> report_result \<Rightarrow> report_section \<Rightarrow> bool" where
  "skipped_section U r sec =
     (case dedicatedSectionKind U (sec_title sec) of
        None \<Rightarrow> False
      | Some Summary \<Rightarrow> True
      | Some Conclusion \<Rightarrow> nonempty (rr_conclusion r) \<noteq> None
      | Some Recommendations \<Rightarrow> rr_recommendations r \<noteq> [])"

definition firstBlockText :: "report_section \<Rightarrow> utext result" where
  "firstBlockText sec =
     (case sec_blocks sec of
        Paragraph t # bs \<Rightarrow> Inr t
      | BulletList (t # ts) # bs \<Rightarrow> Inr t
      | _ \<Rightarrow> Inl (PlainError ''TypeError''))"

text \<open>The images of a section that are loaded and have not been drawn; each once.\<close>

fun section_images :: "(string \<Rightarrow> bytes option) \<Rightarrow> string list \<Rightarrow> string list \<Rightarrow> (string \<times> bytes) list" where
  "section_images imageMap done' [] = []"
| "section_images imageMap done' (i # is) =
     (if i \<in> set done' then section_images imageMap done' is
      else case imageMap i of
        None \<Rightarrow> section_images imageMap done' is
      | Some b \<Rightarrow> (i, b) # section_images imageMap (i # done') is)"

definition renderSection ::
  "pdfkit \<Rightarrow> (utext \<Rightarrow> utext) \<Rightarrow> (string \<Rightarrow> bytes option) \<Rightarrow> string list \<Rightarrow> report_section \<Rightarrow> canvas \<Rightarrow> canvas result" where
  "renderSection pk visibleText imageMap done' sec c =
     bindE (firstBlockText sec) (\<lambda>t.
     let c1 = renderSectionHeading pk (visibleText (sec_title sec)) (ensureSectionSpace pk (visibleText t) c);
         c2 = fold (renderBlock pk visibleText) (sec_blocks sec) c1
     in renderGallery pk (section_images imageMap done' (sec_imageAssetIds sec)) c2)"

fun renderSections ::
  "pdfkit \<Rightarrow> (utext \<Rightarrow> utext) \<Rightarrow> (string \<Rightarrow> bytes option) \<Rightarrow> string list \<Rightarrow> report_section list \<Rightarrow> canvas \<Rightarrow> canvas result" where
  "renderSections pk visibleText imageMap done' [] c = Inr c"
| "renderSections pk visibleText imageMap done' (sec # secs) c =
     bindE (renderSection pk visibleText imageMap done' sec c) (\<lambda>c1.
     renderSections pk visibleText imageMap
       (map fst (section_images imageMap done' (sec_imageAssetIds sec)) @ done') secs c1)"

definition renderClosing :: "pdfkit \<Rightarrow> (utext \<Rightarrow> utext) \<Rightarrow> report_labels \<Rightarrow> report_result \<Rightarrow> canvas \<Rightarrow> canvas" where
  "renderClosing pk visibleText lb r c =
     (let c1 = (case nonempty (rr_conclusion r) of
                  None \<Rightarrow> c
                | Some t \<Rightarrow> renderNamedSection pk (lb_conclusion lb) (visibleText t)
                    (if rr_recommendations r \<noteq> [] then ensureSpace pk CLOSING_SECTIONS_MIN_HEIGHT c else c))
      in case rr_recommendations r of
           [] \<Rightarrow> c1
         | t # ts \<Rightarrow>
             fold (\<lambda>x. writeText pk bullet_style (bullet (visibleText x))) (t # ts)
               ((moveDown pk (9/20) (renderSectionHeading pk (lb_recommendations lb)
                   (ensureSectionSpace pk (visibleText t) c1)))\<lparr>cv_style := body_style\<rparr>))"

definition first_canvas :: canvas where
  "first_canvas = \<lparr>cv_page = 0, cv_y = PAGE_MARGIN_TOP, cv_style = footer_style False, cv_ops = []\<rparr>"

definition renderPageChrome :: "pdfkit \<Rightarrow> nat \<Rightarrow> utext \<Rightarrow> draw list" where
  "renderPageChrome pk pages reportTitle =
     (let footerY = pk_height pk - FOOTER_Y_OFFSET in
      concat (map (\<lambda>index.
        (if index > 0 then [DrawText index 28 header_style reportTitle] else []) @
        [DrawRule index (footerY - 8), DrawText index footerY (footer_style True) (codes ''FastRep''),
         DrawText index footerY (footer_style False) (codes (digits (index + 1) @ '' / '' @ digits pages))]) [0..<pages]))"

record pdf_settings =
  pf_maximumBytes :: int
  pf_maximumPages :: int
  pf_maximumImageBytes :: int
  pf_regularFontPath :: "string option"
  pf_boldFontPath :: "string option"

definition visible_text :: "(string \<times> bytes) list \<Rightarrow> string \<Rightarrow> utext \<Rightarrow> utext" where
  "visible_text images language =
     sanitizePdfText (rev (remdups (rev (map fst images)))) (lb_photograph (labels language))"

text \<open>Everything up to the numbering of the pages.\<close>

definition compose ::
  "pdfkit \<Rightarrow> unicode \<Rightarrow> report_result \<Rightarrow> (string \<times> bytes) list \<Rightarrow> string \<Rightarrow> utext \<Rightarrow> utext \<Rightarrow> canvas result" where
  "compose pk U r images language reportTitle stamp =
     (let visibleText = visible_text images language; lb = labels language;
          c1 = renderCover pk (visibleText reportTitle) (map_option visibleText (nonempty (rr_subtitle r))) stamp first_canvas;
          c2 = renderNamedSection pk (lb_summary lb) (visibleText (rr_summary r)) c1
      in bindE (renderSections pk visibleText (map_of (rev images)) []
                  (filter (\<lambda>sec. \<not> skipped_section U r sec) (rr_sections r)) c2)
           (\<lambda>c3. Inr (renderClosing pk visibleText lb r c3)))"

section \<open>The output\<close>

definition outputTooLarge :: exn where
  "outputTooLarge = AiProviderError ''REPORT_OUTPUT_TOO_LARGE'' False ''Generated PDF exceeds the configured size limit'' None"

definition invalidPdf :: exn where
  "invalidPdf = AiProviderError ''PDF_GENERATION_FAILED'' False ''Generated output is not a valid PDF'' None"

definition pdfFailed :: exn where
  "pdfFailed = AiProviderError ''PDF_GENERATION_FAILED'' False ''PDF generation failed'' None"

fun collect :: "int \<Rightarrow> bytes \<Rightarrow> bytes list \<Rightarrow> bytes result" where
  "collect maximumBytes chunks [] = Inr chunks"
| "collect maximumBytes chunks (chunk # rest) =
     (if int (length (chunks @ chunk)) > maximumBytes then Inl outputTooLarge
      else collect maximumBytes (chunks @ chunk) rest)"

definition completed :: "int \<Rightarrow> bytes list \<times> bool \<Rightarrow> bytes result" where
  "completed maximumBytes stream =
     bindE (collect maximumBytes [] (fst stream)) (\<lambda>b.
     if \<not> snd stream then Inl pdfFailed
     else if b = [] \<or> take 5 b \<noteq> codes ''%PDF-'' then Inl invalidPdf
     else Inr b)"

definition endDocument :: "pdf_settings \<Rightarrow> pdfkit \<Rightarrow> utext \<Rightarrow> canvas \<Rightarrow> bytes result" where
  "endDocument pf pk visibleTitle c =
     (let pages = cv_page c + 1 in
      if int pages > pf_maximumPages pf then
        bindE (completed (pf_maximumBytes pf) (pk_stream pk (cv_ops c) pages)) (\<lambda>_.
        Inl (AiProviderError ''REPORT_OUTPUT_TOO_MANY_PAGES'' False ''Generated PDF exceeds the configured page limit'' None))
      else completed (pf_maximumBytes pf) (pk_stream pk (cv_ops c @ renderPageChrome pk pages visibleTitle) pages))"

definition generate ::
  "pdf_settings \<Rightarrow> pdfkit \<Rightarrow> unicode \<Rightarrow> (string \<Rightarrow> string \<Rightarrow> int \<Rightarrow> utext option) \<Rightarrow> report_result \<Rightarrow>
     (string \<times> bytes) list \<Rightarrow> int \<Rightarrow> string \<Rightarrow> utext \<Rightarrow> string option \<Rightarrow> bytes result" where
  "generate pf pk U intl r images generatedAt language reportTitle timezone =
     bindE (guardE (pf_regularFontPath pf \<noteq> None \<and> pf_boldFontPath pf \<noteq> None)
       (AiProviderError ''PDF_FONT_MISSING'' False ''Required PDF fonts are unavailable'' None)) (\<lambda>_.
     bindE (guardE (int (sum_list (map (length \<circ> snd) images)) \<le> pf_maximumImageBytes pf)
       (AiProviderError ''PDF_IMAGE_INPUT_TOO_LARGE'' False ''PDF image input exceeds the configured memory limit'' None)) (\<lambda>_.
     bindE (formatReportDate intl generatedAt language timezone) (\<lambda>date.
     bindE (compose pk U r images language reportTitle (lb_generated (labels language) @ codes '': '' @ date)) (\<lambda>c.
     endDocument pf pk (visible_text images language reportTitle) c))))"

text \<open>The fonts: \<open>join\<close> is \<open>path.join\<close>, \<open>exists\<close> is \<open>existsSync\<close>.\<close>

definition fontPathCandidates :: "(string list \<Rightarrow> string) \<Rightarrow> string \<Rightarrow> string \<Rightarrow> string \<Rightarrow> string list" where
  "fontPathCandidates join runtimeDirectory workingDirectory fileName =
     [join [workingDirectory, ''assets/fonts'', fileName],
      join [runtimeDirectory, ''../../assets/fonts'', fileName],
      join [runtimeDirectory, ''../../../assets/fonts'', fileName]]"

definition resolveFont :: "(string list \<Rightarrow> string) \<Rightarrow> (string \<Rightarrow> bool) \<Rightarrow> string \<Rightarrow> string \<Rightarrow> string \<Rightarrow> string option" where
  "resolveFont join exists runtimeDirectory workingDirectory fileName =
     find_first exists (fontPathCandidates join runtimeDirectory workingDirectory fileName)"

end
