(* ===== verification/PdfLayout.thy ===== *)
theory PdfLayout
  imports Pdf "HOL-Library.Sublist"
begin

text \<open>
  What a rendered report looks like: the images of a gallery lie inside the margins, in order and without an
  overlap, every image of the report is drawn once, and the limits of the output hold.
\<close>

section \<open>Fitting an image\<close>

lemma min_le_mult:
  fixes a b s :: rat
  assumes "0 < a" "s \<le> b / a"
  shows "a * s \<le> b"
proof -
  have "a * s \<le> a * (b / a)" using assms by (intro mult_left_mono) simp_all
  then show ?thesis using assms(1) by simp
qed

lemma fit_bounds:
  assumes "0 < w" "0 < h" "0 \<le> mw" "0 \<le> mh" "fitImageDimensions w h mw mh = (a, b)"
  shows "0 \<le> a" "0 \<le> b" "a \<le> mw" "b \<le> mh" "a \<le> w" "b \<le> h" "a * h = b * w"
proof -
  define s where "s = min (min (mw / w) (mh / h)) 1"
  have ab: "a = w * s" "b = h * s" using assms(1,2,5) by (auto simp: fitImageDimensions_def s_def Let_def)
  have s: "0 \<le> s" "s \<le> mw / w" "s \<le> mh / h" "s \<le> 1" using assms(1-4) by (simp_all add: s_def)
  show "0 \<le> a" "0 \<le> b" using s(1) assms(1,2) by (simp_all add: ab)
  show "a \<le> mw" "b \<le> mh" unfolding ab using s(2,3) assms(1,2) by (simp_all add: min_le_mult)
  show "a \<le> w" "b \<le> h" unfolding ab using s(4) assms(1,2) by (simp_all add: mult_left_le)
  show "a * h = b * w" by (simp add: ab)
qed

section \<open>Rows\<close>

definition inside_page :: "pdfkit \<Rightarrow> draw \<Rightarrow> bool" where
  "inside_page pk d \<longleftrightarrow> PAGE_MARGIN_X \<le> image_x d \<and> image_x d + image_w d \<le> pk_width pk - PAGE_MARGIN_X \<and>
     PAGE_MARGIN_TOP \<le> image_y d \<and> image_y d + image_h d \<le> pk_height pk - PAGE_MARGIN_BOTTOM"

text \<open>An image comes before another and does not overlap it.\<close>

definition clear_of :: "draw \<Rightarrow> draw \<Rightarrow> bool" where
  "clear_of d e \<longleftrightarrow> image_page d < image_page e \<or>
     (image_page d = image_page e \<and> (image_x d + image_w d \<le> image_x e \<or> image_y d + image_h d \<le> image_y e))"

definition above :: "canvas \<Rightarrow> draw \<Rightarrow> bool" where
  "above c d \<longleftrightarrow> image_page d < cv_page c \<or> (image_page d = cv_page c \<and> image_y d + image_h d \<le> cv_y c)"

definition row_ok :: "rat \<Rightarrow> rat \<Rightarrow> (string \<times> (rat \<times> rat)) list \<Rightarrow> bool" where
  "row_ok cell height row \<longleftrightarrow> (\<forall>r \<in> set row. 0 \<le> fst (snd r) \<and> fst (snd r) \<le> cell \<and> 0 \<le> snd (snd r) \<and> snd (snd r) \<le> height)"

lemma place_row_ids:
  "map image_id (place_row page left t0 height cell k row) = map fst row"
  "map (\<lambda>d. (image_w d, image_h d)) (place_row page left t0 height cell k row) = map snd row"
  by (induction row arbitrary: k) (auto simp: Let_def)

lemma place_row_boxes:
  assumes "row_ok cell height row" "0 \<le> cell"
  shows "(\<forall>d \<in> set (place_row page left t0 height cell k row). is_DrawImage d \<and> image_page d = page \<and>
      left + of_nat k * (cell + GALLERY_GAP) \<le> image_x d \<and>
      image_x d + image_w d \<le> left + of_nat (k + length row) * (cell + GALLERY_GAP) - GALLERY_GAP \<and>
      t0 \<le> image_y d \<and> image_y d + image_h d \<le> t0 + height) \<and>
    sorted_wrt clear_of (place_row page left t0 height cell k row)"
  using assms(1)
proof (induction row arbitrary: k)
  case (Cons a row)
  obtain i w h where a: "a = (i, (w, h))" by (metis prod.collapse)
  have b: "0 \<le> w" "w \<le> cell" "0 \<le> h" "h \<le> height" "row_ok cell height row"
    using Cons.prems a by (auto simp: row_ok_def)
  define P where "P = cell + GALLERY_GAP"
  have P: "0 \<le> P" "cell \<le> P" using assms(2) by (simp_all add: P_def layout_constants)
  define n where "n = (of_nat (length row) :: rat) * P"
  have n: "0 \<le> n" using P by (simp add: n_def)
  define kP where "kP = (of_nat k :: rat) * P"
  have k: "of_nat (k + 1) * P = kP + P" "of_nat (k + length (a # row)) * P = kP + P + n"
    "of_nat (k + 1 + length row) * P = kP + P + n"
    by (simp_all add: kP_def n_def algebra_simps)
  let ?d = "DrawImage i page (left + kP + (cell - w) / 2) (t0 + (height - h) / 2) w h"
  have row: "place_row page left t0 height cell k (a # row) = ?d # place_row page left t0 height cell (k + 1) row"
    by (simp add: a Let_def kP_def P_def)
  note IH = Cons.IH [OF b(5), of "k + 1", folded P_def, unfolded k]
  have d: "left + kP \<le> image_x ?d" "image_x ?d + image_w ?d \<le> left + kP + cell"
    "t0 \<le> image_y ?d" "image_y ?d + image_h ?d \<le> t0 + height"
    using b(1-4) by (simp_all add: field_simps)
  have clear: "clear_of ?d e" if e: "e \<in> set (place_row page left t0 height cell (k + 1) row)" for e
  proof -
    from IH e have "image_page e = page" "left + (kP + P) \<le> image_x e" by auto
    with d(2) P show ?thesis unfolding clear_of_def by (auto simp: field_simps)
  qed
  have each: "is_DrawImage e \<and> image_page e = page \<and> left + kP \<le> image_x e \<and>
      image_x e + image_w e \<le> left + (kP + P + n) - GALLERY_GAP \<and> t0 \<le> image_y e \<and> image_y e + image_h e \<le> t0 + height"
    if e: "e \<in> set (?d # place_row page left t0 height cell (k + 1) row)" for e
  proof (cases "e = ?d")
    case True
    have "cell + GALLERY_GAP = P" by (simp add: P_def)
    with d(2) n have "image_x e + image_w e \<le> left + (kP + P + n) - GALLERY_GAP" unfolding True by linarith
    with d True show ?thesis by simp
  next
    case False
    with e IH have "is_DrawImage e \<and> image_page e = page \<and> left + (kP + P) \<le> image_x e \<and>
      image_x e + image_w e \<le> left + (kP + P + n) - GALLERY_GAP \<and> t0 \<le> image_y e \<and> image_y e + image_h e \<le> t0 + height"
      by auto
    with P show ?thesis by auto
  qed
  have "sorted_wrt clear_of (?d # place_row page left t0 height cell (k + 1) row)"
    using IH clear by simp
  then show ?case
    unfolding row P_def [symmetric] k kP_def [symmetric] using each by blast
qed simp

lemma fold_max_ge: "(x :: rat) \<le> fold max hs x \<and> (\<forall>h \<in> set hs. h \<le> fold max hs x)"
  by (induction hs arbitrary: x) (simp, fastforce)

lemma fold_max_le: "(x :: rat) \<le> m \<Longrightarrow> (\<forall>h \<in> set hs. h \<le> m) \<Longrightarrow> fold max hs x \<le> m"
  by (induction hs arbitrary: x) simp_all

lemma row_height_ge: "r \<in> set row \<Longrightarrow> snd (snd r) \<le> row_height row"
  using fold_max_ge by (cases row) (auto simp: row_height_def)

lemma row_height_le: "0 \<le> m \<Longrightarrow> (\<forall>r \<in> set row. snd (snd r) \<le> m) \<Longrightarrow> row_height row \<le> m"
  by (cases row) (simp_all add: row_height_def fold_max_le)

section \<open>Rows one below the other\<close>

definition fitted :: "rat \<Rightarrow> rat \<Rightarrow> (string \<times> (rat \<times> rat)) list \<Rightarrow> (string \<times> (rat \<times> rat)) list" where
  "fitted cell mh images = map (\<lambda>(i, (w, h)). (i, fitImageDimensions w h cell mh)) images"

lemma fitted_ids: "map fst (fitted cell mh images) = map fst images"
  by (induction images) (auto simp: fitted_def)

lemma fitted_bounds:
  assumes "\<forall>p \<in> set images. 0 < fst (snd p) \<and> 0 < snd (snd p)" "0 \<le> cell" "0 \<le> mh" "r \<in> set (fitted cell mh images)"
  shows "0 \<le> fst (snd r) \<and> fst (snd r) \<le> cell \<and> 0 \<le> snd (snd r) \<and> snd (snd r) \<le> mh"
proof -
  obtain i w h where r: "(i, w, h) \<in> set images" "r = (i, fitImageDimensions w h cell mh)"
    using assms(4) by (auto simp: fitted_def)
  obtain a b where ab: "fitImageDimensions w h cell mh = (a, b)" by (metis prod.collapse)
  have "0 < w" "0 < h" using assms(1) r(1) by auto
  from fit_bounds [OF this assms(2,3) ab] show ?thesis by (simp add: r(2) ab)
qed

lemma fitted_row_ok:
  assumes "\<forall>p \<in> set images. 0 < fst (snd p) \<and> 0 < snd (snd p)" "0 \<le> cell" "0 \<le> mh"
  shows "row_ok cell (row_height (fitted cell mh images)) (fitted cell mh images)"
    "0 \<le> row_height (fitted cell mh images)" "row_height (fitted cell mh images) \<le> mh"
proof -
  note b = fitted_bounds [OF assms]
  show "row_ok cell (row_height (fitted cell mh images)) (fitted cell mh images)"
    using b row_height_ge by (auto simp: row_ok_def)
  show "row_height (fitted cell mh images) \<le> mh"
    using b assms(3) by (intro row_height_le) auto
  show "0 \<le> row_height (fitted cell mh images)"
  proof (cases "fitted cell mh images")
    case Nil then show ?thesis by (simp add: row_height_def)
  next
    case (Cons r rs)
    then have "0 \<le> snd (snd r)" "snd (snd r) \<le> row_height (fitted cell mh images)"
      using b row_height_ge by auto
    then show ?thesis by simp
  qed
qed

text \<open>What a rendering of images adds to the page, and what it leaves of the place above.\<close>

definition laid_out ::
  "pdfkit \<Rightarrow> rat \<Rightarrow> rat \<Rightarrow> (string \<times> (rat \<times> rat)) list \<Rightarrow> canvas \<Rightarrow> canvas \<Rightarrow> draw list \<Rightarrow> bool" where
  "laid_out pk cell mh images c c' ds \<longleftrightarrow>
     cv_ops c' = cv_ops c @ ds \<and> PAGE_MARGIN_TOP \<le> cv_y c' \<and>
     list_all2 (\<lambda>d (i, (w, h)). image_id d = i \<and> (image_w d, image_h d) = fitImageDimensions w h cell mh) ds images \<and>
     sorted_wrt clear_of ds \<and>
     (\<forall>d \<in> set ds. is_DrawImage d \<and> inside_page pk d \<and> above c' d) \<and>
     (\<forall>d. above c d \<longrightarrow> above c' d \<and> (\<forall>e \<in> set ds. clear_of d e))"

lemma laid_out_nil: "PAGE_MARGIN_TOP \<le> cv_y c \<Longrightarrow> laid_out pk cell mh [] c c []"
  by (simp add: laid_out_def)

lemma laid_out_append:
  assumes "laid_out pk cell mh xs c c1 ds" "laid_out pk cell mh ys c1 c2 es"
  shows "laid_out pk cell mh (xs @ ys) c c2 (ds @ es)"
  using assms unfolding laid_out_def
  by (auto simp: sorted_wrt_append intro!: list_all2_appendI)

lemma ensureSpace_place:
  assumes "PAGE_MARGIN_TOP \<le> cv_y c" "PAGE_MARGIN_TOP + points \<le> pk_height pk - PAGE_MARGIN_BOTTOM"
  shows "cv_ops (ensureSpace pk points c) = cv_ops c" "PAGE_MARGIN_TOP \<le> cv_y (ensureSpace pk points c)"
    "cv_y (ensureSpace pk points c) + points \<le> pk_height pk - PAGE_MARGIN_BOTTOM"
    "above c d \<Longrightarrow> image_page d < cv_page (ensureSpace pk points c) \<or>
      (image_page d = cv_page (ensureSpace pk points c) \<and> image_y d + image_h d \<le> cv_y (ensureSpace pk points c))"
  using assms by (auto simp: ensureSpace_def needsPageBreak_def addPage_def Let_def above_def)

lemma place_row_all2:
  "list_all2 (\<lambda>d (i, (w, h)). image_id d = i \<and> (image_w d, image_h d) = fitImageDimensions w h cell mh)
     (place_row page left t0 height cell k (fitted cell mh images)) images"
proof (induction images arbitrary: k)
  case (Cons a images)
  obtain i w h where a: "a = (i, (w, h))" by (metis prod.collapse)
  obtain x y where "fitImageDimensions w h cell mh = (x, y)" by (metis prod.collapse)
  then have "fitted cell mh (a # images) = (i, (x, y)) # fitted cell mh images" "fitImageDimensions w h cell mh = (x, y)"
    by (simp_all add: fitted_def a)
  with Cons.IH [of "k + 1"] show ?case by (simp add: a Let_def)
qed (simp add: fitted_def)

lemma renderRow_laid_out:
  assumes pos: "\<forall>p \<in> set images. 0 < fst (snd p) \<and> 0 < snd (snd p)" and sizes: "0 \<le> cell" "0 \<le> mh"
    and wide: "of_nat (length images) * (cell + GALLERY_GAP) - GALLERY_GAP \<le> contentWidth pk"
    and tall: "PAGE_MARGIN_TOP + (mh + GALLERY_GAP) \<le> pk_height pk - PAGE_MARGIN_BOTTOM"
    and y: "PAGE_MARGIN_TOP \<le> cv_y c"
  shows "\<exists>ds. laid_out pk cell mh images c (renderRow pk cell mh images c) ds"
proof -
  define row where "row = fitted cell mh images"
  define height where "height = row_height row"
  define c1 where "c1 = ensureSpace pk (height + GALLERY_GAP) c"
  define width where "width = of_nat (length row) * cell + (of_nat (length row) - 1) * GALLERY_GAP"
  define left where "left = PAGE_MARGIN_X + (contentWidth pk - width) / 2"
  define ds where "ds = place_row (cv_page c1) left (cv_y c1) height cell 0 row"
  note ok = fitted_row_ok [OF pos sizes, folded row_def height_def]
  have "PAGE_MARGIN_TOP + (height + GALLERY_GAP) \<le> pk_height pk - PAGE_MARGIN_BOTTOM" using ok(3) tall by linarith
  note place = ensureSpace_place [OF y this, folded c1_def]
  have c': "renderRow pk cell mh images c = c1\<lparr>cv_ops := cv_ops c1 @ ds, cv_y := cv_y c1 + height + GALLERY_GAP\<rparr>"
    by (simp add: renderRow_def Let_def row_def fitted_def height_def c1_def width_def left_def ds_def)
  have n: "of_nat (0 + length row) * (cell + GALLERY_GAP) - GALLERY_GAP = width"
    by (simp add: width_def algebra_simps)
  have "width \<le> contentWidth pk" using wide n by (simp add: row_def fitted_def)
  then have left: "PAGE_MARGIN_X \<le> left" "left + width \<le> pk_width pk - PAGE_MARGIN_X"
    by (simp_all add: left_def contentWidth_def field_simps)
  note boxes = place_row_boxes [OF ok(1) sizes(1), of "cv_page c1" left "cv_y c1" 0, folded ds_def]
  have gap: "0 \<le> GALLERY_GAP" by (simp add: layout_constants)
  have box: "is_DrawImage d \<and> image_page d = cv_page c1 \<and> left \<le> image_x d \<and> image_x d + image_w d \<le> left + width \<and>
      cv_y c1 \<le> image_y d \<and> image_y d + image_h d \<le> cv_y c1 + height" if "d \<in> set ds" for d
    using boxes that n by auto
  have "is_DrawImage d \<and> inside_page pk d \<and> above (renderRow pk cell mh images c) d" if "d \<in> set ds" for d
    using box [OF that] left place(2,3) ok(2) gap by (auto simp: inside_page_def above_def c')
  moreover have "above (renderRow pk cell mh images c) d \<and> (\<forall>e \<in> set ds. clear_of d e)" if "above c d" for d
  proof -
    note p = place(4) [OF that]
    then have "clear_of d e" if "e \<in> set ds" for e
      using box [OF that] by (auto simp: clear_of_def)
    with p ok(2) gap show ?thesis by (auto simp: above_def c')
  qed
  moreover have "list_all2 (\<lambda>d (i, (w, h)). image_id d = i \<and> (image_w d, image_h d) = fitImageDimensions w h cell mh) ds images"
    unfolding ds_def row_def by (rule place_row_all2)
  ultimately have "laid_out pk cell mh images c (renderRow pk cell mh images c) ds"
    using boxes place(1,2) ok(2) gap by (auto simp: laid_out_def c')
  then show ?thesis ..
qed

section \<open>Galleries\<close>

lemma gallery_rows_parts:
  "concat (gallery_rows n xs) = xs"
  "0 < n \<Longrightarrow> row \<in> set (gallery_rows n xs) \<Longrightarrow> length row \<le> n \<and> set row \<subseteq> set xs"
proof -
  show "concat (gallery_rows n xs) = xs" by (induction n xs rule: gallery_rows.induct) simp_all
  show "0 < n \<Longrightarrow> row \<in> set (gallery_rows n xs) \<Longrightarrow> length row \<le> n \<and> set row \<subseteq> set xs"
  proof (induction n xs rule: gallery_rows.induct)
    case (2 n x xs)
    from 2 show ?case by (auto dest: in_set_dropD in_set_takeD)
  qed simp
qed

lemma rows_laid_out:
  assumes "\<forall>row \<in> set rows. (\<forall>p \<in> set row. 0 < fst (snd p) \<and> 0 < snd (snd p)) \<and>
      of_nat (length row) * (cell + GALLERY_GAP) - GALLERY_GAP \<le> contentWidth pk"
    "0 \<le> cell" "0 \<le> mh" "PAGE_MARGIN_TOP + (mh + GALLERY_GAP) \<le> pk_height pk - PAGE_MARGIN_BOTTOM"
    "PAGE_MARGIN_TOP \<le> cv_y c"
  shows "\<exists>ds. laid_out pk cell mh (concat rows) c (fold (renderRow pk cell mh) rows c) ds"
  using assms(1,5)
proof (induction rows arbitrary: c)
  case (Cons row rows)
  then obtain ds where ds: "laid_out pk cell mh row c (renderRow pk cell mh row c) ds"
    using renderRow_laid_out [OF _ assms(2,3) _ assms(4)] by (meson list.set_intros(1))
  then have "PAGE_MARGIN_TOP \<le> cv_y (renderRow pk cell mh row c)" by (simp add: laid_out_def)
  with Cons obtain es where "laid_out pk cell mh (concat rows) (renderRow pk cell mh row c)
      (fold (renderRow pk cell mh) rows (renderRow pk cell mh row c)) es"
    by (meson list.set_intros(2))
  from laid_out_append [OF ds this] show ?case by auto
qed (auto intro: laid_out_nil)

text \<open>The page is A4, and \<open>moveDown\<close> moves down.\<close>

definition a4 :: "pdfkit \<Rightarrow> bool" where
  "a4 pk \<longleftrightarrow> pk_width pk = 14882 / 25 \<and> pk_height pk = 84189 / 100"

lemma openImages_positive:
  assumes "\<forall>b source. b \<in> snd ` set images \<longrightarrow> pk_openImage pk b = Inr source \<longrightarrow> 0 < im_width source \<and> 0 < im_height source"
    "openImages pk images = Inr opened"
  shows "map fst opened = map fst images" "\<forall>p \<in> set opened. 0 < fst (snd p) \<and> 0 < snd (snd p)"
proof -
  have "map fst opened = map fst images \<and> (\<forall>p \<in> set opened. 0 < fst (snd p) \<and> 0 < snd (snd p))"
    using assms
  proof (induction pk images arbitrary: opened rule: openImages.induct)
    case (2 pk i b images)
    then obtain source rest where r: "pk_openImage pk b = Inr source" "openImages pk images = Inr rest"
      "opened = (i, orientedImageDimensions source) # rest"
      by (auto simp: bindE_Inr_iff)
    have "0 < fst (orientedImageDimensions source) \<and> 0 < snd (orientedImageDimensions source)"
      using 2(2) r(1) by (auto simp: orientedImageDimensions_def split: option.splits)
    moreover have "map fst rest = map fst images \<and> (\<forall>p \<in> set rest. 0 < fst (snd p) \<and> 0 < snd (snd p))"
      using 2(2) r(2) by (intro 2(1)) auto
    ultimately show ?case using r(3) by auto
  qed simp
  then show "map fst opened = map fst images" "\<forall>p \<in> set opened. 0 < fst (snd p) \<and> 0 < snd (snd p)" by simp_all
qed

lemma laid_out_sizes:
  assumes "laid_out pk cell mh opened c c' ds" "\<forall>p \<in> set opened. 0 < fst (snd p) \<and> 0 < snd (snd p)" "0 \<le> cell" "0 \<le> mh"
  shows "map image_id ds = map fst opened"
    "list_all2 (\<lambda>d (i, (w, h)). image_w d \<le> w \<and> image_h d \<le> h \<and> image_w d * h = image_h d * w) ds opened"
proof -
  have l: "list_all2 (\<lambda>d (i, (w, h)). image_id d = i \<and> (image_w d, image_h d) = fitImageDimensions w h cell mh) ds opened"
    using assms(1) by (simp add: laid_out_def)
  from l show "map image_id ds = map fst opened" by (induction rule: list_all2_induct) auto
  from l assms(2) show "list_all2 (\<lambda>d (i, (w, h)). image_w d \<le> w \<and> image_h d \<le> h \<and> image_w d * h = image_h d * w) ds opened"
  proof (induction rule: list_all2_induct)
    case (Cons d ds p opened)
    obtain i w h where p: "p = (i, (w, h))" by (metis prod.collapse)
    have "0 < w" "0 < h" "fitImageDimensions w h cell mh = (image_w d, image_h d)" using Cons p by auto
    from fit_bounds [OF this(1,2) assms(3,4) this(3)] Cons p show ?case by simp
  qed simp
qed

lemma gallery_column_width:
  assumes "a4 pk" "columns = gallery_columns pk opened"
    "cell = (if columns = 1 then min (contentWidth pk) SINGLE_IMAGE_MAX_WIDTH else twoColumnCellWidth pk)"
    "mh = (if columns = 1 then SINGLE_IMAGE_MAX_HEIGHT else GRID_IMAGE_MAX_HEIGHT)"
  shows "columns = 1 \<or> columns = 2" "0 \<le> cell" "0 \<le> mh"
    "PAGE_MARGIN_TOP + (mh + GALLERY_GAP) \<le> pk_height pk - PAGE_MARGIN_BOTTOM"
    "n \<le> columns \<Longrightarrow> of_nat n * (cell + GALLERY_GAP) - GALLERY_GAP \<le> contentWidth pk"
proof -
  show c: "columns = 1 \<or> columns = 2" using assms(2) by (auto simp: gallery_columns_def galleryColumnCount_def)
  show cell: "0 \<le> cell" and "0 \<le> mh" "PAGE_MARGIN_TOP + (mh + GALLERY_GAP) \<le> pk_height pk - PAGE_MARGIN_BOTTOM"
    using assms(1) by (auto simp: assms(3,4) a4_def contentWidth_def twoColumnCellWidth_def layout_constants)
  assume n: "n \<le> columns"
  have "of_nat columns * (cell + GALLERY_GAP) - GALLERY_GAP \<le> contentWidth pk"
    using c assms(1) by (auto simp: assms(3) a4_def contentWidth_def twoColumnCellWidth_def layout_constants field_simps)
  moreover have "(of_nat n :: rat) * (cell + GALLERY_GAP) \<le> of_nat columns * (cell + GALLERY_GAP)"
    using n cell by (intro mult_right_mono) (simp_all add: layout_constants)
  ultimately show "of_nat n * (cell + GALLERY_GAP) - GALLERY_GAP \<le> contentWidth pk" by linarith
qed

text \<open>
  C21. A gallery that is rendered on an A4 page keeps to the page: every image lies inside the margins, in the
  given order and without an overlap, the images stand below everything that was above, none is enlarged and
  each keeps its proportions.
\<close>
theorem gallery_stays_on_page:
  assumes "a4 pk" "\<forall>st n y. y \<le> pk_moveDown pk st n y"
    "\<forall>b source. b \<in> snd ` set images \<longrightarrow> pk_openImage pk b = Inr source \<longrightarrow> 0 < im_width source \<and> 0 < im_height source"
    "PAGE_MARGIN_TOP \<le> cv_y c" "renderGallery pk images c = Inr c'"
  shows "\<exists>opened ds. openImages pk images = Inr opened \<and> cv_ops c' = cv_ops c @ ds \<and> map image_id ds = map fst images \<and>
    sorted_wrt clear_of ds \<and> (\<forall>d \<in> set ds. is_DrawImage d \<and> inside_page pk d \<and> (\<forall>e. above c e \<longrightarrow> clear_of e d)) \<and>
    list_all2 (\<lambda>d (i, (w, h)). image_w d \<le> w \<and> image_h d \<le> h \<and> image_w d * h = image_h d * w) ds opened"
proof (cases "images = []")
  case True
  with assms(5) show ?thesis by (auto simp: renderGallery_def intro: exI [of _ "[]"])
next
  case False
  then obtain opened where opened: "openImages pk images = Inr opened"
    using assms(5) by (auto simp: renderGallery_def bindE_Inr_iff)
  define columns where "columns = gallery_columns pk opened"
  define cell where "cell = (if columns = 1 then min (contentWidth pk) SINGLE_IMAGE_MAX_WIDTH else twoColumnCellWidth pk)"
  define mh where "mh = (if columns = 1 then SINGLE_IMAGE_MAX_HEIGHT else GRID_IMAGE_MAX_HEIGHT)"
  note g = gallery_column_width [OF assms(1) columns_def cell_def mh_def]
  note pos = openImages_positive [OF assms(3) opened]
  define c0 where "c0 = moveDown pk (9/10) c"
  have c0: "cv_y c \<le> cv_y c0" "cv_page c0 = cv_page c" "cv_ops c0 = cv_ops c"
    using assms(2) by (simp_all add: c0_def moveDown_def)
  have c': "c' = fold (renderRow pk cell mh) (gallery_rows columns opened) c0"
    using assms(5) False opened by (simp add: renderGallery_def Let_def columns_def cell_def mh_def c0_def)
  have "0 < columns" using g(1) by auto
  then have "\<forall>row \<in> set (gallery_rows columns opened). (\<forall>p \<in> set row. 0 < fst (snd p) \<and> 0 < snd (snd p)) \<and>
      of_nat (length row) * (cell + GALLERY_GAP) - GALLERY_GAP \<le> contentWidth pk"
    using gallery_rows_parts(2) pos(2) g(5) by blast
  from rows_laid_out [OF this g(2,3,4), of c0] obtain ds where ds: "laid_out pk cell mh opened c0 c' ds"
    using assms(4) c0(1) by (auto simp: c' gallery_rows_parts(1))
  have "above c0 e" if "above c e" for e using that c0 by (auto simp: above_def)
  then show ?thesis
    using opened ds pos laid_out_sizes [OF ds pos(2) g(2,3)] c0(3) by (auto simp: laid_out_def)
qed

text \<open>A kit whose texts take no place, for two photographs of 4000 by 3000 points on a first page.\<close>

definition plain_kit :: pdfkit where
  "plain_kit = \<lparr>pk_width = 14882 / 25, pk_height = 84189 / 100, pk_flow = (\<lambda>st s p. p), pk_moveDown = (\<lambda>st n y. y),
     pk_heightOfString = (\<lambda>st w s. 0),
     pk_openImage = (\<lambda>b. if b = [] then Inl (PlainError ''Error'') else Inr \<lparr>im_width = 4000, im_height = 3000, im_orientation = None\<rparr>),
     pk_stream = (\<lambda>ops n. ([codes ''%PDF-1.3''], True))\<rparr>"

lemma plain_kit_sel [simp]:
  "pk_width plain_kit = 14882 / 25" "pk_height plain_kit = 84189 / 100" "pk_flow plain_kit st s p = p"
  "pk_moveDown plain_kit st n y = y" "pk_heightOfString plain_kit st w s = 0"
  "pk_openImage plain_kit b = (if b = [] then Inl (PlainError ''Error'') else Inr \<lparr>im_width = 4000, im_height = 3000, im_orientation = None\<rparr>)"
  "pk_stream plain_kit ops pages = ([codes ''%PDF-1.3''], True)"
  by (simp_all add: plain_kit_def)

lemma gallery_stays_on_page_witness:
  "\<exists>opened ds c'. renderGallery plain_kit [(''a'', [1]), (''b'', [2])] first_canvas = Inr c' \<and>
    openImages plain_kit [(''a'', [1]), (''b'', [2])] = Inr opened \<and> cv_ops c' = cv_ops first_canvas @ ds \<and>
    map image_id ds = [''a'', ''b''] \<and> sorted_wrt clear_of ds"
proof -
  let ?images = "[(''a'', [1]), (''b'', [2])] :: (string \<times> bytes) list"
  obtain c' where c': "renderGallery plain_kit ?images first_canvas = Inr c'"
    by (simp add: renderGallery_def Let_def)
  have "\<forall>b source. b \<in> snd ` set ?images \<longrightarrow> pk_openImage plain_kit b = Inr source \<longrightarrow>
      0 < im_width source \<and> 0 < im_height source" by auto
  from gallery_stays_on_page [OF _ _ this _ c'] c' show ?thesis
    by (auto simp: a4_def first_canvas_def)
qed

section \<open>The images of the report\<close>

text \<open>The images that have been drawn, in order.\<close>

definition drawn :: "canvas \<Rightarrow> string list" where
  "drawn c = map image_id (filter is_DrawImage (cv_ops c))"

lemma drawn_steps [simp]:
  "drawn (writeText pk st s c) = drawn c" "drawn (moveDown pk n c) = drawn c" "drawn (drawRule c) = drawn c"
  "drawn (addPage c) = drawn c" "drawn (ensureSpace pk p c) = drawn c" "drawn (ensureSectionSpace pk s c) = drawn c"
  "drawn (c\<lparr>cv_y := y\<rparr>) = drawn c" "drawn (c\<lparr>cv_style := st\<rparr>) = drawn c" "drawn first_canvas = []"
  by (simp_all add: drawn_def writeText_def moveDown_def drawRule_def addPage_def ensureSpace_def ensureSectionSpace_def
      first_canvas_def Let_def split: prod.splits)

lemma drawn_fold [simp]: "(\<And>x c. drawn (f x c) = drawn c) \<Longrightarrow> drawn (fold f xs c) = drawn c"
  by (induction xs arbitrary: c) simp_all

lemma drawn_sections [simp]:
  "drawn (renderCover pk title description stamp c) = drawn c" "drawn (renderSectionHeading pk title c) = drawn c"
  "drawn (renderNamedSection pk title s c) = drawn c" "drawn (renderBlock pk v b c) = drawn c"
  by (simp_all add: renderCover_def renderSectionHeading_def renderNamedSection_def renderBlock_def Let_def
      split: option.splits list.splits report_block.splits)

lemma drawn_closing [simp]: "drawn (renderClosing pk v lb r c) = drawn c"
  by (simp add: renderClosing_def Let_def split: option.splits list.splits)

lemma place_row_draws: "list_all is_DrawImage (place_row page left t0 height cell k row)"
  by (induction page left t0 height cell k row rule: place_row.induct) (simp_all add: Let_def)

lemma drawn_row: "drawn (renderRow pk cell mh images c) = drawn c @ map fst images"
proof -
  have "filter is_DrawImage (place_row page left t0 height cell k row) = place_row page left t0 height cell k row"
    for page left t0 height k row
    using place_row_draws by (simp add: filter_id_conv list_all_iff)
  moreover have "cv_ops (ensureSpace pk p c) = cv_ops c" for p
    by (simp add: ensureSpace_def addPage_def Let_def)
  ultimately show ?thesis
    by (simp add: drawn_def renderRow_def Let_def place_row_ids) (auto simp: case_prod_unfold)
qed

lemma drawn_rows: "drawn (fold (renderRow pk cell mh) rows c) = drawn c @ map fst (concat rows)"
  by (induction rows arbitrary: c) (simp_all add: drawn_row)

lemma openImages_Inr:
  "openImages pk images = Inr opened \<Longrightarrow> map fst opened = map fst images \<and> (\<forall>(i, b) \<in> set images. \<exists>source. pk_openImage pk b = Inr source)"
  by (induction pk images arbitrary: opened rule: openImages.induct) (auto simp: bindE_Inr_iff)

lemma drawn_gallery:
  "renderGallery pk images c = Inr c' \<Longrightarrow> drawn c' = drawn c @ map fst images \<and>
     (\<forall>(i, b) \<in> set images. \<exists>source. pk_openImage pk b = Inr source)"
  by (auto simp: renderGallery_def bindE_Inr_iff Let_def drawn_rows gallery_rows_parts(1) split: if_splits
      dest!: openImages_Inr)

lemma section_images_ids:
  "distinct (map fst (section_images m done' js)) \<and>
   set (map fst (section_images m done' js)) = {i \<in> set js. i \<notin> set done' \<and> m i \<noteq> None} \<and>
   (\<forall>(i, b) \<in> set (section_images m done' js). m i = Some b)"
proof (induction m done' js rule: section_images.induct)
  case (2 m done' i js)
  then show ?case by (cases "i \<in> set done'"; cases "m i") auto
qed simp

lemma drawn_section:
  assumes "renderSection pk v m done' sec c = Inr c'"
  shows "drawn c' = drawn c @ map fst (section_images m done' (sec_imageAssetIds sec))"
    "\<forall>i \<in> set (sec_imageAssetIds sec). i \<notin> set done' \<longrightarrow> (\<forall>b. m i = Some b \<longrightarrow> (\<exists>source. pk_openImage pk b = Inr source))"
proof -
  obtain t where "renderGallery pk (section_images m done' (sec_imageAssetIds sec))
      (fold (renderBlock pk v) (sec_blocks sec)
         (renderSectionHeading pk (v (sec_title sec)) (ensureSectionSpace pk t c))) = Inr c'"
    using assms by (auto simp: renderSection_def bindE_Inr_iff Let_def)
  note g = drawn_gallery [OF this]
  then show "drawn c' = drawn c @ map fst (section_images m done' (sec_imageAssetIds sec))" by simp
  show "\<forall>i \<in> set (sec_imageAssetIds sec). i \<notin> set done' \<longrightarrow> (\<forall>b. m i = Some b \<longrightarrow> (\<exists>source. pk_openImage pk b = Inr source))"
  proof (intro ballI allI impI)
    fix i b assume i: "i \<in> set (sec_imageAssetIds sec)" "i \<notin> set done'" "m i = Some b"
    then have "i \<in> set (map fst (section_images m done' (sec_imageAssetIds sec)))"
      using section_images_ids [of m done' "sec_imageAssetIds sec"] by auto
    then obtain b' where b': "(i, b') \<in> set (section_images m done' (sec_imageAssetIds sec))" by auto
    then have "m i = Some b'" using section_images_ids [of m done' "sec_imageAssetIds sec"] by auto
    with g b' i(3) show "\<exists>source. pk_openImage pk b = Inr source" by auto
  qed
qed

lemma drawn_renderSections:
  assumes "renderSections pk v m done' secs c = Inr c'"
  shows "\<exists>js. drawn c' = drawn c @ js \<and> distinct js \<and>
    set js = {i. i \<notin> set done' \<and> m i \<noteq> None \<and> (\<exists>sec \<in> set secs. i \<in> set (sec_imageAssetIds sec))} \<and>
    (\<forall>sec \<in> set secs. \<forall>i \<in> set (sec_imageAssetIds sec). i \<notin> set done' \<longrightarrow>
       (\<forall>b. m i = Some b \<longrightarrow> (\<exists>source. pk_openImage pk b = Inr source)))"
  using assms
proof (induction secs arbitrary: done' c)
  case (Cons sec secs)
  define here where "here = map fst (section_images m done' (sec_imageAssetIds sec))"
  have here: "distinct here" "set here = {i \<in> set (sec_imageAssetIds sec). i \<notin> set done' \<and> m i \<noteq> None}"
    using section_images_ids [of m done' "sec_imageAssetIds sec"] by (simp_all add: here_def)
  obtain c1 where c1: "renderSection pk v m done' sec c = Inr c1" "renderSections pk v m (here @ done') secs c1 = Inr c'"
    using Cons.prems by (auto simp: bindE_Inr_iff here_def)
  note sec = drawn_section [OF c1(1), folded here_def]
  obtain js where js: "drawn c' = drawn c1 @ js" "distinct js"
    "set js = {i. i \<notin> set (here @ done') \<and> m i \<noteq> None \<and> (\<exists>sec \<in> set secs. i \<in> set (sec_imageAssetIds sec))}"
    "\<forall>sec \<in> set secs. \<forall>i \<in> set (sec_imageAssetIds sec). i \<notin> set (here @ done') \<longrightarrow>
       (\<forall>b. m i = Some b \<longrightarrow> (\<exists>source. pk_openImage pk b = Inr source))"
    using Cons.IH [OF c1(2)] by blast
  have "drawn c' = drawn c @ (here @ js)" using sec(1) js(1) by simp
  moreover have "distinct (here @ js)" using here(1) js(2,3) by auto
  moreover have "set (here @ js) = {i. i \<notin> set done' \<and> m i \<noteq> None \<and> (\<exists>s \<in> set (sec # secs). i \<in> set (sec_imageAssetIds s))}"
    using here(2) js(3) by auto
  moreover have "\<forall>s \<in> set (sec # secs). \<forall>i \<in> set (sec_imageAssetIds s). i \<notin> set done' \<longrightarrow>
       (\<forall>b. m i = Some b \<longrightarrow> (\<exists>source. pk_openImage pk b = Inr source))"
    using sec(2) js(4) here(2) by auto
  ultimately show ?case by blast
qed simp

definition shown_sections :: "unicode \<Rightarrow> report_result \<Rightarrow> report_section list" where
  "shown_sections U r = filter (\<lambda>sec. \<not> skipped_section U r sec) (rr_sections r)"

lemma compose_drawn:
  assumes "compose pk U r images language reportTitle stamp = Inr c"
  shows "distinct (drawn c)"
    "set (drawn c) = {i \<in> set (map fst images). \<exists>sec \<in> set (shown_sections U r). i \<in> set (sec_imageAssetIds sec)}"
    "\<forall>sec \<in> set (shown_sections U r). \<forall>i \<in> set (sec_imageAssetIds sec).
       (\<forall>b. map_of (rev images) i = Some b \<longrightarrow> (\<exists>source. pk_openImage pk b = Inr source))"
proof -
  let ?v = "visible_text images language"
  define c0 where "c0 = renderNamedSection pk (lb_summary (labels language)) (?v (rr_summary r))
    (renderCover pk (?v reportTitle) (map_option ?v (nonempty (rr_subtitle r))) stamp first_canvas)"
  have c0: "drawn c0 = []" by (simp add: c0_def)
  obtain c1 where c: "renderSections pk ?v (map_of (rev images)) [] (shown_sections U r) c0 = Inr c1"
    "c = renderClosing pk ?v (labels language) r c1"
    using assms by (auto simp: compose_def Let_def bindE_Inr_iff shown_sections_def c0_def)
  have m: "map_of (rev images) i \<noteq> None \<longleftrightarrow> i \<in> set (map fst images)" for i
    by (simp add: map_of_eq_None_iff)
  note d = drawn_renderSections [OF c(1)]
  then show "distinct (drawn c)" by (auto simp: c0 c(2))
  from d have "set (drawn c) = {i. map_of (rev images) i \<noteq> None \<and> (\<exists>sec \<in> set (shown_sections U r). i \<in> set (sec_imageAssetIds sec))}"
    by (auto simp: c0 c(2))
  then show "set (drawn c) = {i \<in> set (map fst images). \<exists>sec \<in> set (shown_sections U r). i \<in> set (sec_imageAssetIds sec)}"
    by (simp only: m)
  from d show "\<forall>sec \<in> set (shown_sections U r). \<forall>i \<in> set (sec_imageAssetIds sec).
       (\<forall>b. map_of (rev images) i = Some b \<longrightarrow> (\<exists>source. pk_openImage pk b = Inr source))" by auto
qed

text \<open>
  C22. The composed report draws every loaded image that a shown section names exactly once, and no other image,
  however often and in however many sections the model named it.
\<close>
theorem report_images_drawn_once:
  assumes "compose pk U r images language reportTitle stamp = Inr c"
  shows "distinct (drawn c) \<and>
    set (drawn c) = {i \<in> set (map fst images).
      \<exists>sec \<in> set (rr_sections r). \<not> skipped_section U r sec \<and> i \<in> set (sec_imageAssetIds sec)}"
  using compose_drawn [OF assms] by (auto simp: shown_sections_def)

definition plain_unicode :: unicode where
  "plain_unicode = \<lparr>un_nfkc = id, un_lower = id, un_letter_or_number = word_char\<rparr>"

lemma plain_unicode_sel [simp]:
  "un_nfkc plain_unicode = id" "un_lower plain_unicode = id" "un_letter_or_number plain_unicode = word_char"
  by (simp_all add: plain_unicode_def)

text \<open>Two sections that share an image; the first is called \<open>pipes\<close>.\<close>

definition sample_report :: report_result where
  "sample_report = \<lparr>rr_title = codes ''Boiler'', rr_subtitle = None, rr_summary = codes ''fine'',
     rr_sections =
       [\<lparr>sec_title = codes ''pipes'', sec_blocks = [Paragraph (codes ''dry'')], sec_imageAssetIds = [''a'', ''a'', ''b'']\<rparr>,
        \<lparr>sec_title = codes ''pump'', sec_blocks = [BulletList [codes ''quiet'']], sec_imageAssetIds = [''b'']\<rparr>],
     rr_conclusion = None, rr_recommendations = []\<rparr>"

lemma sample_titles: "dedicatedSectionKind plain_unicode (codes ''pipes'') = None" "dedicatedSectionKind plain_unicode (codes ''pump'') = None"
  by (simp_all add: dedicatedSectionKind_def Let_def codes_def word_char_def utrim_def trim_by_def js_white_def
      summary_titles_def conclusion_titles_def recommendations_titles_def)

lemma sample_shown: "sec \<in> set (rr_sections sample_report) \<Longrightarrow> \<not> skipped_section plain_unicode sample_report sec"
  by (auto simp: sample_report_def skipped_section_def sample_titles)

lemma renderGallery_plain: "\<forall>(i, b) \<in> set images. b \<noteq> [] \<Longrightarrow> \<exists>c'. renderGallery plain_kit images c = Inr c'"
proof -
  assume "\<forall>(i, b) \<in> set images. b \<noteq> []"
  then have "\<exists>opened. openImages plain_kit images = Inr opened"
    by (induction images) (auto simp: bindE_Inr_iff)
  then show ?thesis by (auto simp: renderGallery_def Let_def)
qed

lemma sample_composed:
  "\<exists>c. compose plain_kit plain_unicode sample_report [(''a'', [1]), (''b'', [2]), (''z'', [3])] ''en'' (codes ''Boiler'') (codes ''now'') = Inr c"
proof -
  have f: "filter (\<lambda>sec. \<not> skipped_section plain_unicode sample_report sec) (rr_sections sample_report) = rr_sections sample_report"
    using sample_shown by (simp add: filter_id_conv)
  obtain f' where f': "\<And>c. renderGallery plain_kit [(''a'', [1]), (''b'', [2])] c = Inr (f' c)"
    using renderGallery_plain [of "[(''a'', [1]), (''b'', [2])]"] by (simp, metis)
  show ?thesis
    by (simp add: compose_def Let_def f, simp add: sample_report_def renderSection_def firstBlockText_def Let_def f' renderGallery_def)
qed

lemma report_images_drawn_once_witness:
  "\<exists>c. compose plain_kit plain_unicode sample_report [(''a'', [1]), (''b'', [2]), (''z'', [3])] ''en'' (codes ''Boiler'') (codes ''now'') = Inr c \<and>
    distinct (drawn c) \<and> set (drawn c) = {''a'', ''b''}"
proof -
  obtain c where c: "compose plain_kit plain_unicode sample_report [(''a'', [1]), (''b'', [2]), (''z'', [3])] ''en''
      (codes ''Boiler'') (codes ''now'') = Inr c" using sample_composed by auto
  have "set (drawn c) = {''a'', ''b''}"
    using report_images_drawn_once [OF c] sample_shown by (auto simp: sample_report_def)
  with report_images_drawn_once [OF c] c show ?thesis by blast
qed

text \<open>
  C24. An image that PDFKit cannot open, named by a shown section, makes the whole report fail: no PDF is ever
  produced from that result, however often it is tried.
\<close>
theorem unreadable_image_fails:
  assumes "sec \<in> set (rr_sections r)" "\<not> skipped_section U r sec" "i \<in> set (sec_imageAssetIds sec)"
    "map_of (rev images) i = Some b" "pk_openImage pk b = Inl e"
  shows "\<forall>pdf. generate pf pk U intl r images generatedAt language reportTitle timezone \<noteq> Inr pdf"
proof (intro allI notI)
  fix pdf assume "generate pf pk U intl r images generatedAt language reportTitle timezone = Inr pdf"
  then obtain stamp c where "compose pk U r images language reportTitle stamp = Inr c"
    by (auto simp: generate_def bindE_Inr_iff)
  note opened = compose_drawn(3) [OF this]
  have "sec \<in> set (shown_sections U r)" using assms(1,2) by (simp add: shown_sections_def)
  with opened assms(3,4) obtain source where "pk_openImage pk b = Inr source" by blast
  with assms(5) show False by simp
qed

lemma unreadable_image_fails_witness:
  "\<forall>pdf. generate \<lparr>pf_maximumBytes = 52428800, pf_maximumPages = 100, pf_maximumImageBytes = 52428800,
      pf_regularFontPath = Some ''r'', pf_boldFontPath = Some ''b''\<rparr> plain_kit plain_unicode (\<lambda>l z d. Some []) sample_report
      [(''a'', [1]), (''b'', [])] 0 ''en'' (codes ''Boiler'') None \<noteq> Inr pdf"
  by (rule unreadable_image_fails [where i = "''b''" and b = "[]" and sec = "hd (rr_sections sample_report)"])
    (simp_all add: sample_report_def sample_shown [unfolded sample_report_def])

section \<open>The output\<close>

lemma collect_limit: "collect m chunks rest = Inr b \<Longrightarrow> int (length chunks) \<le> m \<Longrightarrow> int (length b) \<le> m \<and> b = chunks @ concat rest"
  by (induction m chunks rest rule: collect.induct) (auto split: if_splits)

lemma completed_pdf:
  "completed m stream = Inr b \<Longrightarrow> 0 \<le> m \<Longrightarrow> snd stream \<and> b = concat (fst stream) \<and> int (length b) \<le> m \<and> take 5 b = codes ''%PDF-''"
  by (auto simp: completed_def bindE_Inr_iff dest: collect_limit split: if_splits)

section \<open>Hidden identifiers\<close>

text \<open>The characters of a lower-case UUID.\<close>

definition id_char :: "nat \<Rightarrow> bool" where
  "id_char c \<longleftrightarrow> (48 \<le> c \<and> c \<le> 57) \<or> (97 \<le> c \<and> c \<le> 102) \<or> c = 45"

text \<open>A label between which and its surroundings no identifier can come about.\<close>

definition closed_label :: "utext \<Rightarrow> bool" where
  "closed_label L \<longleftrightarrow> L \<noteq> [] \<and> \<not> id_char (hd L) \<and> \<not> id_char (last L)"

lemma sublist_label:
  assumes "closed_label L" "list_all id_char P" "length L < length P"
  shows "sublist P (L @ s) \<longleftrightarrow> sublist P s"
proof
  assume "sublist P (L @ s)"
  then consider "sublist P L" | "sublist P s" | u v where "P = u @ v" "suffix u L" "prefix v s"
    by (auto simp: sublist_append)
  then show "sublist P s"
  proof cases
    case 1 then show ?thesis using assms(3) sublist_length_le by fastforce
  next
    case 3
    have "u = []"
    proof (rule ccontr)
      assume u: "u \<noteq> []"
      then have "last u = last L" using 3(2) by (auto simp: suffix_def)
      moreover have "id_char (last u)" using u 3(1) assms(2) by (simp add: list_all_iff)
      ultimately show False using assms(1) by (simp add: closed_label_def)
    qed
    with 3 show ?thesis by auto
  qed
qed (auto simp: sublist_append)

lemma prefix_replace_all:
  "closed_label L \<Longrightarrow> list_all id_char Q \<Longrightarrow> prefix Q (replace_all P L s) \<Longrightarrow> prefix Q s"
proof (induction P L s arbitrary: Q rule: replace_all.induct)
  case (1 P L s)
  note closed = "1.prems"(1) and idc = "1.prems"(2) and pre = "1.prems"(3)
  have L: "Q = []" if "prefix Q (L @ t)" for t
    using that closed idc by (cases Q; cases L) (auto simp: closed_label_def)
  show ?case
  proof (cases "P = []")
    case True
    then have "prefix Q (L @ concat (map (\<lambda>c. c # L) s))" using pre by (simp add: replace_all.simps)
    then have "Q = []" by (rule L)
    then show ?thesis by simp
  next
    case False
    show ?thesis
    proof (cases s)
      case Nil then show ?thesis using pre False by (simp add: replace_all.simps)
    next
      case (Cons c cs)
      show ?thesis
      proof (cases "take (length P) s = P")
        case True
        then have "replace_all P L s = L @ replace_all P L (drop (length P) s)"
          using False Cons by (simp add: replace_all.simps)
        then have "Q = []" using L pre by (metis (no_types))
        then show ?thesis by simp
      next
        case no: False
        then have r: "replace_all P L s = c # replace_all P L cs" using False Cons by (simp add: replace_all.simps)
        show ?thesis
        proof (cases Q)
          case (Cons q Q')
          with pre r have q: "q = c" "prefix Q' (replace_all P L cs)" by simp_all
          have "list_all id_char Q'" using idc Cons by simp
          then have "prefix Q' cs" using "1.IH"(2) [OF False \<open>s = c # cs\<close> no closed] q(2) by blast
          then show ?thesis using Cons q(1) \<open>s = c # cs\<close> by simp
        qed simp
      qed
    qed
  qed
qed

text \<open>A replaced text holds an identifier only if the text held it and it is another one.\<close>

lemma sublist_replace_all:
  assumes "closed_label L" "list_all id_char Q" "length L < length Q" "P \<noteq> []"
  shows "sublist Q (replace_all P L s) \<Longrightarrow> sublist Q s \<and> Q \<noteq> P"
  using assms
proof (induction P L s rule: replace_all.induct)
  case (1 P L s)
  note sub = "1.prems"(1) and asm = "1.prems"(2-5)
  show ?case
  proof (cases s)
    case Nil then show ?thesis using sub asm(3,4) by (auto simp: replace_all.simps)
  next
    case (Cons c cs)
    show ?thesis
    proof (cases "take (length P) s = P")
      case True
      then have "replace_all P L s = L @ replace_all P L (drop (length P) s)"
        using asm(4) Cons by (simp add: replace_all.simps)
      then have "sublist Q (replace_all P L (drop (length P) s))"
        using sub sublist_label [OF asm(1-3)] by simp
      then have "sublist Q (drop (length P) s) \<and> Q \<noteq> P"
        using "1.IH"(1) [OF asm(4) Cons True] asm by simp
      then show ?thesis by (meson sublist_drop sublist_order.order_trans)
    next
      case False
      then have r: "replace_all P L s = c # replace_all P L cs" using asm(4) Cons by (simp add: replace_all.simps)
      with sub consider "prefix Q (replace_all P L s)" | "sublist Q (replace_all P L cs)"
        by (auto simp: sublist_Cons_right)
      then show ?thesis
      proof cases
        case 1
        then have q: "prefix Q s" using prefix_replace_all asm(1,2) by blast
        then have "Q \<noteq> P" using False by (auto simp: prefix_def)
        with q show ?thesis by (simp add: prefix_imp_sublist)
      next
        case 2
        then have "sublist Q cs \<and> Q \<noteq> P" using "1.IH"(2) [OF asm(4) Cons False] asm by blast
        then show ?thesis by (simp add: Cons sublist_Cons_right)
      qed
    qed
  qed
qed

lemma sanitized_hides:
  assumes "closed_label L" "i \<in> set ids" "\<forall>j \<in> set ids. list_all id_char (codes j) \<and> length L < length j"
  shows "\<not> sublist (codes i) (sanitizePdfText ids L s)"
proof -
  have Q: "list_all id_char (codes i)" "length L < length (codes i)" using assms(2,3) by (auto simp: codes_def)
  have ne: "codes j \<noteq> []" if "j \<in> set ids" for j using that assms(3) by (auto simp: codes_def)
  note step = sublist_replace_all [OF assms(1) Q]
  have keep: "\<not> sublist (codes i) (fold (\<lambda>j s. replace_all (codes j) L s) js s)"
    if "\<not> sublist (codes i) s" "set js \<subseteq> set ids" for js s
    using that
  proof (induction js arbitrary: s)
    case (Cons j js)
    then have "\<not> sublist (codes i) (replace_all (codes j) L s)" using step ne by (meson list.set_intros(1) subsetD)
    with Cons show ?case by simp
  qed simp
  have "\<not> sublist (codes i) (fold (\<lambda>j s. replace_all (codes j) L s) js s)"
    if "i \<in> set js" "set js \<subseteq> set ids" for js s
    using that
  proof (induction js arbitrary: s)
    case (Cons j js)
    show ?case
    proof (cases "j = i")
      case True
      have "\<not> sublist (codes i) (replace_all (codes i) L s)" using step ne assms(2) by blast
      with keep Cons.prems(2) True show ?thesis by simp
    next
      case False
      with Cons show ?thesis by simp
    qed
  qed simp
  then show ?thesis using assms(2) by (simp add: sanitizePdfText_def)
qed

lemma photograph_closed:
  "language \<noteq> ''fr'' \<Longrightarrow> language \<noteq> ''es'' \<Longrightarrow> closed_label (lb_photograph (labels language))"
  "length (lb_photograph (labels language)) < 36" "length (lb_summary (labels language)) < 36"
  "length (lb_conclusion (labels language)) < 36" "length (lb_recommendations (labels language)) < 36"
  by (simp_all add: labels_def closed_label_def id_char_def codes_def)

text \<open>No text of the page holds the identifier.\<close>

definition hides :: "utext \<Rightarrow> canvas \<Rightarrow> bool" where
  "hides Q c \<longleftrightarrow> (\<forall>page y st s. DrawText page y st s \<in> set (cv_ops c) \<longrightarrow> \<not> sublist Q s)"

lemma hides_steps [simp]:
  "hides Q (writeText pk st s c) \<longleftrightarrow> hides Q c \<and> \<not> sublist Q s" "hides Q (moveDown pk n c) = hides Q c"
  "hides Q (drawRule c) = hides Q c" "hides Q (addPage c) = hides Q c" "hides Q (ensureSpace pk p c) = hides Q c"
  "hides Q (ensureSectionSpace pk s c) = hides Q c" "hides Q (c\<lparr>cv_y := y\<rparr>) = hides Q c"
  "hides Q (c\<lparr>cv_style := st\<rparr>) = hides Q c" "hides Q first_canvas"
  by (auto simp: hides_def writeText_def moveDown_def drawRule_def addPage_def ensureSpace_def ensureSectionSpace_def
      first_canvas_def Let_def split: prod.splits)

lemma hides_fold: "hides Q c \<Longrightarrow> (\<And>x c. hides Q c \<Longrightarrow> hides Q (f x c)) \<Longrightarrow> hides Q (fold f xs c)"
  by (induction xs arbitrary: c) simp_all

lemma hides_row: "hides Q c \<Longrightarrow> hides Q (renderRow pk cell mh images c)"
proof -
  assume h: "hides Q c"
  have "DrawText p y st s \<notin> set (place_row page left t0 height cell k row)" for p y st s page left t0 height k row
    using place_row_draws [of page left t0 height cell k row] by (auto simp: list_all_iff)
  moreover have "cv_ops (ensureSpace pk p c) = cv_ops c" for p
    by (simp add: ensureSpace_def addPage_def Let_def)
  ultimately show ?thesis using h by (simp add: hides_def renderRow_def Let_def)
qed

lemma hides_gallery: "renderGallery pk images c = Inr c' \<Longrightarrow> hides Q c \<Longrightarrow> hides Q c'"
  by (auto simp: renderGallery_def bindE_Inr_iff Let_def split: if_splits intro!: hides_fold hides_row)

text \<open>A text that is shorter than an identifier, a bullet before a text without one.\<close>

lemma sublist_short: "length s < length Q \<Longrightarrow> \<not> sublist Q s"
  using sublist_length_le by fastforce

lemma sublist_bullet: "list_all id_char Q \<Longrightarrow> 3 < length Q \<Longrightarrow> sublist Q (bullet s) \<longleftrightarrow> sublist Q s"
  unfolding bullet_def by (rule sublist_label) (simp_all add: closed_label_def id_char_def)

lemma hides_sections:
  assumes v: "\<And>s. \<not> sublist Q (v s)" and Q: "list_all id_char Q" "3 < length Q" and c: "hides Q c"
  shows "\<not> sublist Q title \<Longrightarrow> hides Q (renderSectionHeading pk title c)"
    "\<not> sublist Q title \<Longrightarrow> \<not> sublist Q s \<Longrightarrow> hides Q (renderNamedSection pk title s c)"
    "hides Q (renderBlock pk v b c)"
    "renderSection pk v m done' sec c = Inr c' \<Longrightarrow> hides Q c'"
proof -
  have heading: "hides Q (renderSectionHeading pk title c)" if "hides Q c" "\<not> sublist Q title" for title c
    using that by (simp add: renderSectionHeading_def Let_def)
  then show "\<not> sublist Q title \<Longrightarrow> hides Q (renderSectionHeading pk title c)" using c by blast
  show "\<not> sublist Q title \<Longrightarrow> \<not> sublist Q s \<Longrightarrow> hides Q (renderNamedSection pk title s c)"
    using c heading by (simp add: renderNamedSection_def)
  have block: "hides Q (renderBlock pk v b c)" if "hides Q c" for b c
    using that v sublist_bullet [OF Q] by (cases b) (auto simp: renderBlock_def Let_def intro!: hides_fold)
  then show "hides Q (renderBlock pk v b c)" using c by blast
  show "hides Q c'" if shown: "renderSection pk v m done' sec c = Inr c'"
  proof -
    obtain t where g: "renderGallery pk (section_images m done' (sec_imageAssetIds sec))
        (fold (renderBlock pk v) (sec_blocks sec)
          (renderSectionHeading pk (v (sec_title sec)) (ensureSectionSpace pk t c))) = Inr c'"
      using shown by (auto simp: renderSection_def bindE_Inr_iff Let_def)
    show ?thesis by (rule hides_gallery [OF g]) (use c v heading block in \<open>auto intro!: hides_fold\<close>)
  qed
qed

lemma hides_cover:
  assumes "hides Q c" "\<not> sublist Q (codes ''FASTREP'')" "\<not> sublist Q title" "\<not> sublist Q stamp"
    "\<And>d. description = Some d \<Longrightarrow> \<not> sublist Q d"
  shows "hides Q (renderCover pk title description stamp c)"
  using assms by (simp add: renderCover_def Let_def split: option.splits list.splits)

lemma hides_renderSections:
  assumes "\<And>s. \<not> sublist Q (v s)" "list_all id_char Q" "3 < length Q"
  shows "renderSections pk v m done' secs c = Inr c' \<Longrightarrow> hides Q c \<Longrightarrow> hides Q c'"
  using hides_sections(4) [OF assms] by (induction secs arbitrary: done' c) (auto simp: bindE_Inr_iff)

lemma hides_closing:
  assumes "\<And>s. \<not> sublist Q (v s)" "list_all id_char Q" "3 < length Q" "hides Q c"
    "\<not> sublist Q (lb_conclusion lb)" "\<not> sublist Q (lb_recommendations lb)"
  shows "hides Q (renderClosing pk v lb r c)"
proof -
  note h = hides_sections [OF assms(1-3)]
  define c1 where "c1 = (case nonempty (rr_conclusion r) of None \<Rightarrow> c
    | Some t \<Rightarrow> renderNamedSection pk (lb_conclusion lb) (v t)
        (if rr_recommendations r \<noteq> [] then ensureSpace pk CLOSING_SECTIONS_MIN_HEIGHT c else c))"
  have c1: "hides Q c1" using h(2) assms(1,4,5) by (auto simp: c1_def split: option.splits)
  show ?thesis
  proof (cases "rr_recommendations r")
    case Nil then show ?thesis using c1 by (simp add: renderClosing_def c1_def)
  next
    case (Cons t ts)
    then have r: "renderClosing pk v lb r c = fold (\<lambda>x. writeText pk bullet_style (bullet (v x))) (t # ts)
        ((moveDown pk (9/20) (renderSectionHeading pk (lb_recommendations lb) (ensureSectionSpace pk (v t) c1)))\<lparr>cv_style := body_style\<rparr>)"
      by (simp add: renderClosing_def c1_def Let_def)
    show ?thesis unfolding r
      by (rule hides_fold) (use c1 h(1) assms(1,6) sublist_bullet [OF assms(2,3)] in auto)
  qed
qed



end
