(* ===== verification/Worker.thy ===== *)
theory Worker
  imports PipelineOutcomes PdfLayout
begin

text \<open>
  \<open>report-generation-worker.service.ts\<close>, which runs the job of \<open>Pipeline\<close> for the queue, and the composition of
  that job with the PDF of \<open>Pdf\<close>: what the bucket holds under the key of an output is a PDF within the limits.
  A job of BullMQ is its name, its data and its counters; \<open>moveToDelayed\<close> may fail.
\<close>

section \<open>The worker\<close>

definition REPORT_GENERATION_JOB_NAME :: string where
  "REPORT_GENERATION_JOB_NAME = ''generate-report''"

record queue_job =
  qj_name :: string
  qj_generationId :: string
  qj_attemptsMade :: nat
  qj_attempts :: "nat option"
  qj_delayedUntil :: "int option"

definition delayed_error :: exn where
  "delayed_error = PlainError ''DelayedError''"

definition handle :: "services \<Rightarrow> string \<Rightarrow> exn option \<Rightarrow> queue_job \<Rightarrow> job_state \<Rightarrow> unit result \<times> queue_job \<times> job_state" where
  "handle S token moveFault job s =
     (if qj_name job \<noteq> REPORT_GENERATION_JOB_NAME then (Inr (), job, s)
      else case process S (qj_generationId job) token (qj_attemptsMade job + 1)
                  (case qj_attempts job of None \<Rightarrow> 1 | Some n \<Rightarrow> n) s of
        (Inl e, s') \<Rightarrow> (Inl e, job, s')
      | (Inr Completed, s') \<Rightarrow> (Inr (), job, s')
      | (Inr (Deferred retryAt), s') \<Rightarrow>
          (case moveFault of
             Some e \<Rightarrow> (Inl e, job, s')
           | None \<Rightarrow> (Inl delayed_error, job\<lparr>qj_delayedUntil := Some retryAt\<rparr>, s')))"

section \<open>The stored PDF\<close>

definition valid_pdf :: "int \<Rightarrow> bytes \<Rightarrow> bool" where
  "valid_pdf maximumBytes b \<longleftrightarrow> int (length b) \<le> maximumBytes \<and> take 5 b = codes ''%PDF-''"

text \<open>What the bucket holds at the key, if anything, is a PDF within the limit.\<close>

definition pdf_at :: "string \<Rightarrow> int \<Rightarrow> bucket \<Rightarrow> bool" where
  "pdf_at K maximumBytes bkt \<longleftrightarrow> (\<forall>b. bkt K = Some b \<longrightarrow> valid_pdf maximumBytes b)"

lemma generate_valid:
  "generate pf pk U intl r images now l title tz = Inr b \<Longrightarrow> 0 \<le> pf_maximumBytes pf \<Longrightarrow> valid_pdf (pf_maximumBytes pf) b"
  by (auto simp: generate_def endDocument_def bindE_Inr_iff Let_def valid_pdf_def dest!: completed_pdf split: if_splits)

lemma objects_ask_bind:
  assumes "others_keep S P" "\<And>k w x. f k w = Inr x \<Longrightarrow> keeps_objects P (g x)"
  shows "keeps_objects P (bindJ (askJ S f) g)"
  unfolding keeps_objects_def
proof (intro allI impI)
  fix s :: job_state assume "P (objects (js_world s))"
  then have "P (objects (js_world (snd (askJ S f s))))"
    using objects_ask [OF assms(1), of f] by (simp add: keeps_objects_def)
  then show "P (objects (js_world (snd (bindJ (askJ S f) g s))))"
    using assms(2) by (auto simp: bindJ_def askJ_def awaitJ_def Let_def keeps_objects_def split: sum.split)
qed

lemma objects_publish:
  assumes "others_keep S (pdf_at K maximumBytes)" "valid_pdf maximumBytes b"
  shows "keeps_objects (pdf_at K maximumBytes) (publishJ S gid token deadline u rid b)"
proof -
  let ?P = "pdf_at K maximumBytes"
  have up: "keeps_objects ?P (uploadJ S key b)" for key
  proof -
    have "keeps_objects ?P (awaitJ S (\<lambda>k w. case uploadObject (sv_bucket S) (sv_putFault S k key) (sv_headFault S k key) key b (objects w) of
         (r, bkt) \<Rightarrow> (r, w\<lparr>objects := bkt\<rparr>)))"
      by (rule objects_await [OF assms(1)])
        (use assms(2) in \<open>auto simp: uploadObject_def pdf_at_def Let_def split: prod.splits sum.splits option.splits if_splits\<close>)
    then show ?thesis by (simp add: keeps_objects_def uploadJ_def)
  qed
  have "keeps_objects ?P (\<lambda>s. (Inr x, s\<lparr>js_output := k\<rparr>))" for x k by (simp add: keeps_objects_def)
  then show ?thesis
    unfolding publishJ_def progressJ_def by (intro objects_steps up assms(1))
qed

lemma objects_body:
  assumes "others_keep S (pdf_at K maximumBytes)"
    and pdf: "\<And>k r images t l title tz b. sv_pdf S k r images t l title tz = Inr b \<Longrightarrow> valid_pdf maximumBytes b"
  shows "keeps_objects (pdf_at K maximumBytes) (bodyJ S gid token deadline)"
proof -
  have last: "keeps_objects (pdf_at K maximumBytes) (bindJ (askJ S (\<lambda>k w. sv_pdf S k r images t l title tz))
      (\<lambda>b. publishJ S gid token deadline u rid b))" for r images t l title tz u rid
    by (rule objects_ask_bind [OF assms(1)]) (blast intro: objects_publish assms(1) dest: pdf)
  show ?thesis
    unfolding bodyJ_def Let_def progressJ_def readImageJ_def
    by (intro last objects_steps objects_transcribeAll objects_moderation objects_result objects_imageInput assms(1))
qed

lemma orphan_keeps:
  assumes "others_keep S (pdf_at K maximumBytes)"
  shows "keeps_objects (pdf_at K maximumBytes) (orphanJ S)"
proof -
  have step: "pdf_at K maximumBytes (objects (scheduleOrphanCleanup bucket faults now k w))"
    if "pdf_at K maximumBytes (objects w)" for bucket faults now k w
    using that by (auto simp: scheduleOrphanCleanup_def attemptMany_one attempt_def deleteObject_def pdf_at_def
        split: prod.splits sum.splits option.splits if_splits)
  show ?thesis
    unfolding keeps_objects_def
    using step assms by (auto simp: orphanJ_def bindJ_def awaitJ_def Let_def others_keep_def split: option.split)
qed

lemma process_keeps_pdf:
  assumes o: "others_keep S (pdf_at K maximumBytes)"
    and pdf: "\<And>k r images t l title tz b. sv_pdf S k r images t l title tz = Inr b \<Longrightarrow> valid_pdf maximumBytes b"
  shows "keeps_objects (pdf_at K maximumBytes) (process S gid token n m)"
proof -
  let ?P = "pdf_at K maximumBytes"
  have loss: "keeps_objects ?P (claimLossJ S gid)" unfolding claimLossJ_def by (intro objects_steps o)
  have failure: "keeps_objects ?P (failureJ S gid token n m e)" for e
    unfolding failureJ_def
    by (cases "normalizeError e") (auto intro!: objects_steps orphan_keeps loss o)
  have guarded: "keeps_objects ?P (guardedJ S gid token n m)"
    unfolding guardedJ_def by (intro objects_steps failure objects_body [OF o] pdf)
  then have "keeps_objects ?P (finallyJ (guardedJ S gid token n m))"
    by (simp add: keeps_objects_def finallyJ_def split: prod.split) (metis snd_conv)
  then show ?thesis unfolding process_def claimJ_def by (auto intro!: objects_steps loss o)
qed

section \<open>Properties\<close>

text \<open>
  C6. The bucket never holds anything but a PDF of at most the configured size under the key of an output: with
  the rendering of \<open>Pdf\<close>, a run of the worker keeps this, however it ends, as long as the others keep it.
\<close>
theorem stored_output_is_a_pdf:
  assumes "sv_pdf S = (\<lambda>k. generate pf pk U intl)" "0 \<le> pf_maximumBytes pf"
    "\<forall>k i w. pdf_at K (pf_maximumBytes pf) (objects w) \<longrightarrow> pdf_at K (pf_maximumBytes pf) (objects (sv_others S k i w))"
    "objects w K = None" "objects (js_world (snd (process S gid token n m (begin_job w)))) K = Some b"
  shows "int (length b) \<le> pf_maximumBytes pf \<and> take 5 b = codes ''%PDF-''"
proof -
  have o: "others_keep S (pdf_at K (pf_maximumBytes pf))" using assms(3) by (simp add: others_keep_def)
  have "keeps_objects (pdf_at K (pf_maximumBytes pf)) (process S gid token n m)"
    by (rule process_keeps_pdf [OF o]) (use assms(1) generate_valid [OF _ assms(2)] in auto)
  moreover have "pdf_at K (pf_maximumBytes pf) (objects (js_world (begin_job w)))" using assms(4) by (simp add: pdf_at_def begin_job_def)
  ultimately have "pdf_at K (pf_maximumBytes pf) (objects (js_world (snd (process S gid token n m (begin_job w)))))"
    unfolding keeps_objects_def by blast
  with assms(5) show ?thesis by (simp add: pdf_at_def valid_pdf_def)
qed

text \<open>
  The worker uses the attempts of the queue as the queue counts them: it fails a job for another attempt only
  while attempts are left, with the generation queued again; it delays a job only to a time at which its
  generation, processed elsewhere, can be claimed; a job it reports done is not being processed any more. The
  last attempt of a job never asks for another.
\<close>
lemma worker_keeps_the_queue_in_step:
  assumes "others_step S sc" "reachable (sv_config S) sc (wdb w)" "qj_name job = REPORT_GENERATION_JOB_NAME"
    "handle S token None job (begin_job w) = (r, job', s)"
  shows "case r of
      Inr u \<Rightarrow> job' = job \<and> (\<forall>h \<in> set (generations (jdb s)). gen_id h = qj_generationId job \<longrightarrow> gen_status h \<noteq> GS_PROCESSING)
    | Inl e \<Rightarrow>
        (e = delayed_error \<and> (\<exists>t. job' = job\<lparr>qj_delayedUntil := Some t\<rparr> \<and>
           (\<exists>h \<in> set (generations (jdb s)). claimable t (qj_generationId job) h))) \<or>
        (job' = job \<and> qj_attemptsMade job + 1 < (case qj_attempts job of None \<Rightarrow> 1 | Some n \<Rightarrow> n) \<and>
           (\<exists>h \<in> set (generations (jdb s)). gen_id h = qj_generationId job \<and> gen_status h = GS_QUEUED \<and> gen_errorCode h \<noteq> None))"
proof -
  let ?n = "qj_attemptsMade job + 1" and ?m = "case qj_attempts job of None \<Rightarrow> 1 | Some n \<Rightarrow> n" and ?gid = "qj_generationId job"
  obtain r0 s0 where p: "process S ?gid token ?n ?m (begin_job w) = (r0, s0)" by fastforce
  have "run_end ?gid ?n ?m r0 (jdb s0)"
    using ends_process [OF assms(1), of ?gid token ?n ?m, unfolded ends_def, rule_format, of "begin_job w", unfolded p fst_conv snd_conv jdb_begin]
      reachable_sys_ok [OF assms(2)] .
  with assms(3,4) p show ?thesis
    by (cases "(?gid, ?n, ?m, r0, jdb s0)" rule: run_end.cases) (auto simp: handle_def all_status_def)
qed

section \<open>A complete run\<close>

text \<open>A worker whose providers all answer, and a report of one section whose content was generated in an earlier attempt.\<close>

definition text_report :: report_result where
  "text_report = \<lparr>rr_title = codes ''Boiler'', rr_subtitle = None, rr_summary = codes ''fine'',
     rr_sections = [\<lparr>sec_title = codes ''pipes'', sec_blocks = [Paragraph (codes ''dry'')], sec_imageAssetIds = []\<rparr>],
     rr_conclusion = None, rr_recommendations = []\<rparr>"

definition demo_pf :: pdf_settings where
  "demo_pf = \<lparr>pf_maximumBytes = 52428800, pf_maximumPages = 100, pf_maximumImageBytes = 52428800,
     pf_regularFontPath = Some ''r'', pf_boldFontPath = Some ''b''\<rparr>"

lemma text_report_pdf:
  "generate demo_pf plain_kit plain_unicode (\<lambda>l z d. Some []) text_report [] now l title tz = Inr (codes ''%PDF-1.3'')"
proof -
  have f: "filter (\<lambda>sec. \<not> skipped_section plain_unicode text_report sec) (rr_sections text_report) = rr_sections text_report"
    by (simp add: text_report_def skipped_section_def sample_titles)
  have d: "formatReportDate (\<lambda>l z d. Some []) now l tz = Inr [] \<or> formatReportDate (\<lambda>l z d. Some []) now l tz = Inr (codes '' UTC'')"
    by (auto simp: formatReportDate_def Let_def split: option.split)
  have c: "\<exists>c. compose plain_kit plain_unicode text_report [] l title stamp = Inr c \<and> cv_page c = 0" for stamp
    by (simp add: compose_def Let_def f, simp add: text_report_def renderSection_def firstBlockText_def Let_def renderGallery_def
        renderClosing_def nonempty_def renderBlock_def renderSectionHeading_def renderNamedSection_def renderCover_def
        ensureSectionSpace_def ensureSpace_def needsPageBreak_def writeText_def moveDown_def drawRule_def first_canvas_def layout_constants)
  have e: "endDocument demo_pf plain_kit t c = Inr (codes ''%PDF-1.3'')" if "cv_page c = 0" for t c
    using that by (simp add: endDocument_def demo_pf_def completed_def codes_def Let_def)
  from c [of "lb_generated (labels l) @ codes '': ''"] c [of "lb_generated (labels l) @ codes '': '' @ codes '' UTC''"] d e
  show ?thesis by (auto simp: generate_def demo_pf_def)
qed

definition full_services :: services where
  "full_services = \<lparr>sv_config = demo_pc,
     sv_attempts = \<lparr>transcriptionMaxAttemptsPerAsset = 3, maxProviderCallsPerGeneration = 3\<rparr>,
     sv_transcriptionModel = ''t'', sv_maxOutputTokens = 6000, sv_bucket = ''b'',
     sv_zod = \<lparr>zd_uuid = (\<lambda>i. True), zd_result = Some, zd_response = (\<lambda>aliases j. None)\<rparr>,
     sv_clock = (\<lambda>k i. 30), sv_others = (\<lambda>k i w. w), sv_newId = (\<lambda>k. ''at''),
     sv_transcribe = (\<lambda>k a l. Inl (PlainError ''x'')), sv_moderate = (\<lambda>k t urls. Inr (False, None)),
     sv_stream = (\<lambda>k key. Inr ()), sv_uploadDocument = (\<lambda>k n t. Inr ''f''),
     sv_generateReport = (\<lambda>k r. Inl (PlainError ''x'')), sv_presignedGet = (\<lambda>k key. Inr (''url'', 99)),
     sv_pdf = (\<lambda>k. generate demo_pf plain_kit plain_unicode (\<lambda>l z d. Some [])),
     sv_headFault = (\<lambda>k key. None), sv_getFault = (\<lambda>k key. None),
     sv_putFault = (\<lambda>k key. None), sv_deleteFault = (\<lambda>k key. None)\<rparr>"

lemma full_sel:
  "sv_config full_services = demo_pc"
  "sv_attempts full_services = \<lparr>transcriptionMaxAttemptsPerAsset = 3, maxProviderCallsPerGeneration = 3\<rparr>"
  "sv_bucket full_services = ''b''" "zd_result (sv_zod full_services) = Some"
  "sv_clock full_services k i = 30" "sv_others full_services k i w = w" "sv_newId full_services k = ''at''"
  "sv_moderate full_services k t urls = Inr (False, None)" "sv_presignedGet full_services k key = Inr (''url'', 99)"
  "sv_pdf full_services k = generate demo_pf plain_kit plain_unicode (\<lambda>l z d. Some [])"
  "sv_headFault full_services k key = None" "sv_getFault full_services k key = None" "sv_putFault full_services k key = None"
  by (simp_all add: full_services_def)

text \<open>The database before the run, and after each of its transactions.\<close>

definition full0 :: db where
  "full0 = demo2\<lparr>generations := map (\<lambda>g. g\<lparr>gen_structuredResult := Some text_report\<rparr>) (generations demo2)\<rparr>"

definition full1 :: db where "full1 = ok_state (claim_body demo_pc 30 ''g'' ''t'' full0)"

definition progressed :: "generation_stage \<Rightarrow> db \<Rightarrow> db" where
  "progressed stage d = snd (updateProgress demo_pc 30 30 ''g'' stage (progress_of stage) ''t'' d)"

abbreviation moderation_usage :: attempt_usage where
  "moderation_usage \<equiv> \<lparr>us_providerRequestId = None, us_inputTokens = None, us_outputTokens = None, us_audioDurationSeconds = None\<rparr>"

definition full2 :: db where "full2 = progressed ANALYZING (progressed TRANSCRIBING full1)"

definition full3 :: db where
  "full3 = ok_state (start_attempt \<lparr>transcriptionMaxAttemptsPerAsset = 3, maxProviderCallsPerGeneration = 3\<rparr> ''at'' 30 ''g''
     MODERATION ''openai'' ''omni-moderation-latest'' ''t'' 600030 None full2)"

definition full4 :: db where "full4 = ok_state (completeOwned 30 30 30 ''g'' ''at'' ''t'' moderation_usage full3)"

definition full5 :: db where
  "full5 = progressed UPLOADING_OUTPUT (snd (assertOwnership demo_pc 30 30 ''g'' ''t''
     (progressed GENERATING_PDF (progressed GENERATING_CONTENT full4))))"

definition full_key :: string where "full_key = output_key ''u'' ''r'' ''g'' ''t''"

definition full6 :: db where "full6 = ok_state (finalize_body 30 30 ''g'' ''r'' ''u'' ''t'' full_key 8 full5)"

definition has_lease :: "db \<Rightarrow> bool" where
  "has_lease d \<longleftrightarrow> count_where (owns_lease 30 ''g'' ''t'') (generations d) = 1"

lemma full_leases:
  "has_lease full1" "has_lease (progressed TRANSCRIBING full1)" "has_lease full4" "has_lease (progressed GENERATING_CONTENT full4)"
  "has_lease (snd (assertOwnership demo_pc 30 30 ''g'' ''t'' (progressed GENERATING_PDF (progressed GENERATING_CONTENT full4))))"
  by code_simp+

lemma full_tx:
  "claim_body demo_pc 30 ''g'' ''t'' full0 = Inr (True, full1)"
  "start_attempt \<lparr>transcriptionMaxAttemptsPerAsset = 3, maxProviderCallsPerGeneration = 3\<rparr> ''at'' 30 ''g''
     MODERATION ''openai'' ''omni-moderation-latest'' ''t'' 600030 None full2 = Inr ((''at'', 1), full3)"
  "completeOwned 30 30 30 ''g'' ''at'' ''t'' moderation_usage full3 = Inr ((), full4)"
  "finalize_body 30 30 ''g'' ''r'' ''u'' ''t'' full_key 8 full5 = Inr ((), full6)"
proof -
  have s: "\<not> isl r \<and> fst (projr r) = x \<Longrightarrow> r = Inr (x, ok_state r)" for r :: "exn + ('z \<times> db)" and x
    by (cases r) (auto simp: ok_state_def)
  show "claim_body demo_pc 30 ''g'' ''t'' full0 = Inr (True, full1)"
    unfolding full1_def by (rule s) code_simp
  show "start_attempt \<lparr>transcriptionMaxAttemptsPerAsset = 3, maxProviderCallsPerGeneration = 3\<rparr> ''at'' 30 ''g''
     MODERATION ''openai'' ''omni-moderation-latest'' ''t'' 600030 None full2 = Inr ((''at'', 1), full3)"
    unfolding full3_def by (rule s) code_simp
  show "completeOwned 30 30 30 ''g'' ''at'' ''t'' moderation_usage full3 = Inr ((), full4)"
    unfolding full4_def by (rule s) code_simp
  show "finalize_body 30 30 ''g'' ''r'' ''u'' ''t'' full_key 8 full5 = Inr ((), full6)"
    unfolding full6_def by (rule s) code_simp
qed

definition full_row :: generation_row where
  "full_row = the (find_generation ''g'' full1)"

lemma full_row:
  "find_generation ''g'' full1 = Some full_row" "gen_structuredResult full_row = Some text_report"
  "gen_userId full_row = ''u''" "gen_reportId full_row = ''r''"
  "\<exists>sn a. gen_inputSnapshot full_row = Some sn \<and> sn_version sn = 1 \<and> sn_assets sn = [a] \<and> sa_type a = IMAGE \<and>
     sa_verifiedMimeType a = ''image/png''"
  "hasCompleted ''g'' MODERATION None full2 = False" "count_where (owns_lease 30 ''g'' ''t'') (generations full4) = 1"
proof -
  have "find_generation ''g'' full1 \<noteq> None" by code_simp
  then show "find_generation ''g'' full1 = Some full_row" by (auto simp: full_row_def)
  show "gen_structuredResult full_row = Some text_report" "gen_userId full_row = ''u''" "gen_reportId full_row = ''r''"
    "hasCompleted ''g'' MODERATION None full2 = False" "count_where (owns_lease 30 ''g'' ''t'') (generations full4) = 1"
    by code_simp+
  have "(case gen_inputSnapshot full_row of None \<Rightarrow> False | Some sn \<Rightarrow> sn_version sn = 1 \<and>
     (case sn_assets sn of [a] \<Rightarrow> sa_type a = IMAGE \<and> sa_verifiedMimeType a = ''image/png'' | _ \<Rightarrow> False))" by code_simp
  then show "\<exists>sn a. gen_inputSnapshot full_row = Some sn \<and> sn_version sn = 1 \<and> sn_assets sn = [a] \<and> sa_type a = IMAGE \<and>
     sa_verifiedMimeType a = ''image/png''"
    by (auto split: option.splits list.splits)
qed

text \<open>The state between two steps.\<close>

definition at_step :: "nat \<Rightarrow> db \<Rightarrow> job_state" where
  "at_step k d = \<lparr>js_world = \<lparr>wdb = d, objects = Map.empty\<rparr>, js_step = k, js_files = [], js_output = None, js_deleted = []\<rparr>"

lemma full_steps:
  "dbJ full_services f (at_step k d) = (fst (f (\<lambda>i. 30) d), at_step (k + 1) (snd (f (\<lambda>i. 30) d)))"
  "askJ full_services h (at_step k d) = (h k \<lparr>wdb = d, objects = Map.empty\<rparr>, at_step (k + 1) d)"
  "nowJ full_services (at_step k d) = (Inr 30, at_step (k + 1) d)"
  "beforeDeadline full_services 600030 (at_step k d) = (Inr (), at_step (k + 1) d)"
proof -
  have c: "sv_clock full_services k = (\<lambda>i. 30)" for k by (simp add: full_services_def)
  show "dbJ full_services f (at_step k d) = (fst (f (\<lambda>i. 30) d), at_step (k + 1) (snd (f (\<lambda>i. 30) d)))"
    by (simp add: dbJ_apply at_step_def full_sel c)
  show "askJ full_services h (at_step k d) = (h k \<lparr>wdb = d, objects = Map.empty\<rparr>, at_step (k + 1) d)"
    by (simp add: askJ_def awaitJ_def Let_def at_step_def full_sel)
  show now: "nowJ full_services (at_step k d) = (Inr 30, at_step (k + 1) d)"
    by (simp add: nowJ_def at_step_def full_sel)
  show "beforeDeadline full_services 600030 (at_step k d) = (Inr (), at_step (k + 1) d)"
    by (simp add: beforeDeadline_def bindJ_def now liftJ_def assertBeforeDeadline_def)
qed

lemma full_progress:
  "has_lease d \<Longrightarrow> progressJ full_services ''g'' ''t'' stage (progress_of stage) (at_step k d) = (Inr (), at_step (k + 1) (progressed stage d))"
  by (simp add: progressJ_def full_steps full_sel updateProgress_def has_lease_def progressed_def)

lemma full_moderation:
  "moderationJ full_services ''g'' ''t'' 600030 t urls (at_step 7 full2) = (Inr (), at_step 12 full4)"
  by (simp add: moderationJ_def bindJ_def full_steps full_row(6) startAttemptJ_def Let_def full_sel run_tx_def full_tx(2,3)
      returnJ_def catchJ_def)

lemma full_publish:
  "publishJ full_services ''g'' ''t'' 600030 ''u'' ''r'' (codes ''%PDF-1.3'') (at_step 17 (progressed GENERATING_PDF (progressed GENERATING_CONTENT full4))) =
     (Inr (), (at_step 22 full6)\<lparr>js_world := \<lparr>wdb = full6, objects = [full_key \<mapsto> codes ''%PDF-1.3'']\<rparr>\<rparr>)"
proof -
  let ?d = "progressed GENERATING_PDF (progressed GENERATING_CONTENT full4)"
  have own: "fst (assertOwnership demo_pc 30 30 ''g'' ''t'' ?d) = Inr ()" by code_simp
  have upload: "uploadJ full_services full_key (codes ''%PDF-1.3'') (at_step k d) =
      (Inr 8, \<lparr>js_world = \<lparr>wdb = d, objects = [full_key \<mapsto> codes ''%PDF-1.3'']\<rparr>, js_step = k + 1, js_files = [],
               js_output = Some full_key, js_deleted = []\<rparr>)" for k d
    by (simp add: uploadJ_def awaitJ_def Let_def at_step_def full_sel uploadObject_def ensureConfigured_def headObject_def codes_def)
  have 1: "dbJ full_services (\<lambda>c. assertOwnership (sv_config full_services) (c 0) (c 1) ''g'' ''t'') (at_step 17 ?d) =
      (Inr (), at_step 18 (snd (assertOwnership demo_pc 30 30 ''g'' ''t'' ?d)))"
    by (simp add: full_steps full_sel own)
  have 2: "progressJ full_services ''g'' ''t'' UPLOADING_OUTPUT (progress_of UPLOADING_OUTPUT)
      (at_step 18 (snd (assertOwnership demo_pc 30 30 ''g'' ''t'' ?d))) = (Inr (), at_step 19 full5)"
    by (simp add: full_progress full_leases full5_def)
  have 3: "dbJ full_services (\<lambda>c. run_tx (finalize_body (c 0) (c 1) ''g'' ''r'' ''u'' ''t'' full_key (int (length (codes ''%PDF-1.3'')))))
      \<lparr>js_world = \<lparr>wdb = full5, objects = [full_key \<mapsto> codes ''%PDF-1.3'']\<rparr>, js_step = 19 + 1 + 1, js_files = [],
        js_output = Some full_key, js_deleted = []\<rparr> =
      (Inr (), \<lparr>js_world = \<lparr>wdb = full6, objects = [full_key \<mapsto> codes ''%PDF-1.3'']\<rparr>, js_step = 22, js_files = [],
        js_output = Some full_key, js_deleted = []\<rparr>)"
    by (simp add: dbJ_apply full_sel run_tx_def codes_def full_tx(4))
  show ?thesis
    unfolding publishJ_def full_key_def [symmetric]
    by (rule bindJ_Inr [THEN trans], rule 1, rule bindJ_Inr [THEN trans], rule 2, rule bindJ_Inr [THEN trans], rule full_steps(4),
      rule bindJ_Inr [THEN trans], rule upload, rule bindJ_Inr [THEN trans], rule 3, simp add: at_step_def)
qed

lemma full_body:
  "bodyJ full_services ''g'' ''t'' 600030 (at_step 2 full1) =
     (Inr (), (at_step 22 full6)\<lparr>js_world := \<lparr>wdb = full6, objects = [full_key \<mapsto> codes ''%PDF-1.3'']\<rparr>\<rparr>)"
proof -
  obtain sn a where sn: "gen_inputSnapshot full_row = Some sn" "sn_version sn = 1" "sn_assets sn = [a]" "sa_type a = IMAGE"
    "sa_verifiedMimeType a = ''image/png''" using full_row(5) by blast
  have valid: "validateImageReferences text_report [a] = Inr ()" "selected_images text_report [a] = []"
    by (simp_all add: validateImageReferences_def selected_images_def referenced_ids_def text_report_def)
  have d2: "full2 = progressed ANALYZING (progressed TRANSCRIBING full1)" by (rule full2_def)
  show ?thesis
    by (simp add: bodyJ_def Let_def bindJ_def full_steps full_row(1-4) sn parseSnapshot_def liftJ_def full_progress full_leases
        returnJ_def full_sel d2 [symmetric] imageInputJ_def full_moderation assertSupportedImageMimeTypes_def SUPPORTED_IMAGE_MIME_TYPES_def
        parseResult_def valid text_report_pdf full_publish)
qed

lemma full_run:
  "process full_services ''g'' ''t'' 1 3 (begin_job \<lparr>wdb = full0, objects = Map.empty\<rparr>) =
     (Inr Completed, (at_step 22 full6)\<lparr>js_world := \<lparr>wdb = full6, objects = [full_key \<mapsto> codes ''%PDF-1.3'']\<rparr>\<rparr>)"
proof -
  have start: "begin_job \<lparr>wdb = full0, objects = Map.empty\<rparr> = at_step 0 full0" by (simp add: begin_job_def at_step_def)
  have claim: "claimJ full_services ''g'' ''t'' (at_step 0 full0) = (Inr True, at_step 1 full1)"
    by (simp add: claimJ_def full_steps full_sel run_tx_def full_tx(1))
  have "guardedJ full_services ''g'' ''t'' 1 3 (at_step 1 full1) =
      (Inr Completed, (at_step 22 full6)\<lparr>js_world := \<lparr>wdb = full6, objects = [full_key \<mapsto> codes ''%PDF-1.3'']\<rparr>\<rparr>)"
    by (simp add: guardedJ_def bindJ_def full_steps full_sel demo_pc_def catchJ_def full_body [unfolded numeral_2_eq_2] returnJ_def)
  with start claim show ?thesis by (simp add: process_def bindJ_def finallyJ_def at_step_def)
qed

lemma stored_output_is_a_pdf_witness:
  "fst (process full_services ''g'' ''t'' 1 3 (begin_job \<lparr>wdb = full0, objects = Map.empty\<rparr>)) = Inr Completed \<and>
   (\<exists>b. objects (js_world (snd (process full_services ''g'' ''t'' 1 3 (begin_job \<lparr>wdb = full0, objects = Map.empty\<rparr>)))) full_key = Some b \<and>
     int (length b) \<le> 52428800 \<and> take 5 b = codes ''%PDF-'')"
proof -
  let ?w = "\<lparr>wdb = full0, objects = Map.empty\<rparr> :: world"
  have b: "objects (js_world (snd (process full_services ''g'' ''t'' 1 3 (begin_job ?w)))) full_key = Some (codes ''%PDF-1.3'')"
    by (simp add: full_run [unfolded One_nat_def])
  have "int (length (codes ''%PDF-1.3'')) \<le> pf_maximumBytes demo_pf \<and> take 5 (codes ''%PDF-1.3'') = codes ''%PDF-''"
    by (rule stored_output_is_a_pdf [OF _ _ _ _ b]) (auto simp: full_services_def demo_pf_def)
  with b show ?thesis by (simp add: full_run [unfolded One_nat_def] demo_pf_def)
qed

text \<open>The stopped worker of \<open>PipelineOutcomes\<close> as a job of the queue: it is delayed.\<close>

definition demo_queue_job :: queue_job where
  "demo_queue_job = \<lparr>qj_name = REPORT_GENERATION_JOB_NAME, qj_generationId = ''g'', qj_attemptsMade = 0, qj_attempts = Some 3,
     qj_delayedUntil = None\<rparr>"

lemma worker_keeps_the_queue_in_step_witness:
  "\<exists>s. handle demo_services ''t'' None demo_queue_job (begin_job \<lparr>wdb = demo2, objects = Map.empty\<rparr>)
      = (Inl delayed_error, demo_queue_job\<lparr>qj_delayedUntil := Some 701000\<rparr>, s) \<and>
    (\<exists>h \<in> set (generations (jdb s)). \<exists>t. claimable t ''g'' h)"
proof -
  obtain s where s: "process demo_services ''g'' ''t'' 1 3 (begin_job \<lparr>wdb = demo2, objects = Map.empty\<rparr>) = (Inr (Deferred 701000), s)"
    using demo_result by (simp add: demo_job_def)
  then have h: "handle demo_services ''t'' None demo_queue_job (begin_job \<lparr>wdb = demo2, objects = Map.empty\<rparr>)
      = (Inl delayed_error, demo_queue_job\<lparr>qj_delayedUntil := Some 701000\<rparr>, s)"
    by (simp add: handle_def demo_queue_job_def)
  have "reachable (sv_config demo_services) demo_sc (wdb \<lparr>wdb = demo2, objects = Map.empty\<rparr>)"
    using demo_reachable(2) by (simp add: demo_services_def)
  from worker_keeps_the_queue_in_step [OF demo_others(1) this _ h]
  have "\<exists>h \<in> set (generations (jdb s)). \<exists>t. claimable t ''g'' h"
    by (auto simp: demo_queue_job_def)
  with h show ?thesis by blast
qed

end
