(* ===== verification/Outputs.thy ===== *)
theory Outputs
  imports PdfLayout
begin

text \<open>
  \<open>report-outputs.service.ts\<close> and the presigned URLs of \<open>object-storage.service.ts\<close>: what a user gets of a
  finished report. The signing of a URL is a parameter, which answers with an error or the URL; the classes of
  Unicode are those of \<open>Pdf\<close>.
\<close>

section \<open>Presigned URLs\<close>

text \<open>A policy of a POST: what S3 demands of the fields of the form and of the length of the object.\<close>

datatype upload_condition =
    Eq string string
  | ContentLengthRange int int

record upload_contract =
  uc_url :: string
  uc_fields :: "(string \<times> string) list"
  uc_expiresAt :: int

record download_contract =
  dc_url :: string
  dc_expiresAt :: int

definition createPresignedUpload ::
  "string \<Rightarrow> int \<Rightarrow> (string \<Rightarrow> (string \<times> string) list \<Rightarrow> upload_condition list \<Rightarrow> int \<Rightarrow> (string \<times> (string \<times> string) list) result) \<Rightarrow>
     int \<Rightarrow> string \<Rightarrow> string \<Rightarrow> int \<Rightarrow> upload_contract result" where
  "createPresignedUpload bucketName uploadUrlTtlSeconds sign now storageKey mimeType maximumBytes =
     bindE (ensureConfigured bucketName) (\<lambda>_.
     bindE (sign storageKey [(''key'', storageKey), (''Content-Type'', mimeType)]
              [Eq ''$key'' storageKey, Eq ''$Content-Type'' mimeType, ContentLengthRange 1 maximumBytes]
              uploadUrlTtlSeconds) (\<lambda>(url, fields).
     Inr \<lparr>uc_url = url, uc_fields = fields, uc_expiresAt = now + uploadUrlTtlSeconds * 1000\<rparr>))"

text \<open>The request that is signed: a GET of the key, with the headers of the reply.\<close>

record get_request =
  gq_bucket :: string
  gq_key :: string
  gq_disposition :: "utext option"
  gq_contentType :: "string option"

definition createPresignedDownload ::
  "string \<Rightarrow> int \<Rightarrow> (get_request \<Rightarrow> int \<Rightarrow> string result) \<Rightarrow> (utext \<Rightarrow> utext) \<Rightarrow> (utext \<Rightarrow> utext) \<Rightarrow> int \<Rightarrow>
     string \<Rightarrow> utext \<Rightarrow> download_contract result" where
  "createPresignedDownload bucketName downloadUrlTtlSeconds sign nfkc nfkd now storageKey fileName =
     bindE (ensureConfigured bucketName) (\<lambda>_.
     bindE (contentDisposition nfkc nfkd fileName) (\<lambda>disposition.
     bindE (sign \<lparr>gq_bucket = bucketName, gq_key = storageKey, gq_disposition = Some disposition,
                  gq_contentType = Some ''application/pdf''\<rparr> downloadUrlTtlSeconds) (\<lambda>url.
     Inr \<lparr>dc_url = url, dc_expiresAt = now + downloadUrlTtlSeconds * 1000\<rparr>)))"

definition createPresignedGet ::
  "string \<Rightarrow> int \<Rightarrow> (get_request \<Rightarrow> int \<Rightarrow> string result) \<Rightarrow> int \<Rightarrow> string \<Rightarrow> download_contract result" where
  "createPresignedGet bucketName downloadUrlTtlSeconds sign now storageKey =
     bindE (ensureConfigured bucketName) (\<lambda>_.
     bindE (sign \<lparr>gq_bucket = bucketName, gq_key = storageKey, gq_disposition = None, gq_contentType = None\<rparr>
              downloadUrlTtlSeconds) (\<lambda>url.
     Inr \<lparr>dc_url = url, dc_expiresAt = now + downloadUrlTtlSeconds * 1000\<rparr>))"

section \<open>The date of a download\<close>

text \<open>\<open>toISOString\<close> up to the day: the Gregorian date of a number of milliseconds since 1970.\<close>

definition civil_date :: "int \<Rightarrow> int \<times> int \<times> int" where
  "civil_date ms =
     (let z = ms div 86400000 + 719468;
          era = z div 146097; doe = z mod 146097;
          yoe = (doe - doe div 1460 + doe div 36524 - doe div 146096) div 365;
          doy = doe - (365 * yoe + yoe div 4 - yoe div 100);
          mp = (5 * doy + 2) div 153;
          day = doy - (153 * mp + 2) div 5 + 1;
          month = (if mp < 10 then mp + 3 else mp - 9)
      in (yoe + era * 400 + (if month \<le> 2 then 1 else 0), month, day))"

definition padded :: "nat \<Rightarrow> int \<Rightarrow> string" where
  "padded n x = (let s = digits (nat x) in replicate (n - length s) (CHR ''0'') @ s)"

definition iso_year :: "int \<Rightarrow> string" where
  "iso_year y = (if 0 \<le> y \<and> y \<le> 9999 then padded 4 y else (if y < 0 then ''-'' else ''+'') @ padded 6 \<bar>y\<bar>)"

definition iso_day :: "int \<Rightarrow> string" where
  "iso_day ms = (case civil_date ms of (y, m, d) \<Rightarrow> take 10 (iso_year y @ ''-'' @ padded 2 m @ ''-'' @ padded 2 d))"

section \<open>The name of a download\<close>

definition strip_last :: "utext \<Rightarrow> utext" where
  "strip_last s = rev (dropWhile (\<lambda>c. c = 95) (rev s))"

definition strip_both :: "utext \<Rightarrow> utext" where
  "strip_both s = strip_last (dropWhile (\<lambda>c. c = 95) s)"

definition download_title :: "unicode \<Rightarrow> utext \<Rightarrow> utext" where
  "download_title U reportTitle =
     (let normalizedTitle = strip_both (separate (un_letter_or_number U) 95 (un_nfkc U reportTitle));
          safeTitle = strip_last (take 72 normalizedTitle)
      in if safeTitle = [] then codes ''FastRep_Report'' else safeTitle)"

definition reportDownloadFileName :: "unicode \<Rightarrow> utext \<Rightarrow> int \<Rightarrow> utext" where
  "reportDownloadFileName U reportTitle generatedAt =
     download_title U reportTitle @ [95] @ codes (iso_day generatedAt) @ codes ''.pdf''"

section \<open>The service\<close>

text \<open>The output of a READY report of the user.\<close>

definition ready_output :: "string \<Rightarrow> string \<Rightarrow> db \<Rightarrow> (report_row \<times> output_row) option" where
  "ready_output userId reportId d =
     (case find_first (\<lambda>r. rep_id r = reportId \<and> rep_userId r = userId \<and> rep_status r = RS_READY) (reports d) of
        None \<Rightarrow> None
      | Some r \<Rightarrow> map_option (\<lambda>q. (r, q)) (find_first (\<lambda>q. out_reportId q = rep_id r) (outputs d)))"

definition report_output_not_found :: exn where
  "report_output_not_found = notFound ''REPORT_OUTPUT_NOT_FOUND'' ''Report output not found''"

record output_metadata =
  om_generationId :: string
  om_mimeType :: string
  om_size :: int
  om_createdAt :: int

definition getMetadata :: "string \<Rightarrow> string \<Rightarrow> db \<Rightarrow> output_metadata result" where
  "getMetadata userId reportId d =
     (case ready_output userId reportId d of
        None \<Rightarrow> Inl report_output_not_found
      | Some (r, q) \<Rightarrow> Inr \<lparr>om_generationId = out_generationId q, om_mimeType = out_mimeType q, om_size = out_size q,
                              om_createdAt = out_createdAt q\<rparr>)"

definition output_download_url ::
  "unicode \<Rightarrow> (string \<Rightarrow> utext \<Rightarrow> download_contract result) \<Rightarrow> string \<Rightarrow> string \<Rightarrow> db \<Rightarrow> download_contract result" where
  "output_download_url U createPresignedDownload' userId reportId d =
     (case ready_output userId reportId d of
        None \<Rightarrow> Inl report_output_not_found
      | Some (r, q) \<Rightarrow>
         (case createPresignedDownload' (out_storageKey q) (reportDownloadFileName U (rep_title r) (out_createdAt q)) of
            Inl e \<Rightarrow> Inl (unavailable ''OUTPUT_STORAGE_UNAVAILABLE'' ''Report download is temporarily unavailable'')
          | Inr contract \<Rightarrow> Inr contract))"

section \<open>Every title gives a name\<close>

lemma iso_day_examples: "iso_day 0 = ''1970-01-01''" "iso_day 1709210096789 = ''2024-02-29''" "iso_day (- 1) = ''1969-12-31''"
  by code_simp+

definition scalar :: "nat \<Rightarrow> bool" where
  "scalar c \<longleftrightarrow> c < 1114112 \<and> \<not> (55296 \<le> c \<and> c < 57344)"

lemma separate_chars: "c \<in> set (separate keep sep s) \<Longrightarrow> keep c \<or> c = sep"
  by (induction keep sep s rule: separate.induct) (auto split: if_splits list.splits)

lemma set_strip: "set (strip_last s) \<subseteq> set s" "set (strip_both s) \<subseteq> set s"
proof -
  show last: "set (strip_last s) \<subseteq> set s" for s by (auto simp: strip_last_def dest: set_dropWhileD)
  show "set (strip_both s) \<subseteq> set s" using last by (auto simp: strip_both_def dest: set_dropWhileD)
qed

lemma strip_last_end: "strip_last s \<noteq> [] \<Longrightarrow> last (strip_last s) \<noteq> 95"
proof -
  assume ne: "strip_last s \<noteq> []"
  then have "dropWhile (\<lambda>c. c = 95) (rev s) \<noteq> []" unfolding strip_last_def by (metis rev.simps(1))
  from hd_dropWhile [OF this] show ?thesis using ne unfolding strip_last_def by (simp only: last_rev not_False_eq_True)
qed

lemma strip_last_prefix: "\<exists>t. s = strip_last s @ t"
  unfolding strip_last_def by (metis rev_append rev_rev_ident takeWhile_dropWhile_id)

lemma strip_both_start: "strip_both s \<noteq> [] \<Longrightarrow> hd (strip_both s) \<noteq> 95"
proof -
  assume ne: "strip_both s \<noteq> []"
  obtain t where t: "dropWhile (\<lambda>c. c = 95) s = strip_both s @ t"
    using strip_last_prefix [of "dropWhile (\<lambda>c. c = 95) s"] by (auto simp: strip_both_def)
  with ne have "hd (strip_both s) = hd (dropWhile (\<lambda>c. c = 95) s)" "dropWhile (\<lambda>c. c = 95) s \<noteq> []" by simp_all
  then show ?thesis using hd_dropWhile [of "\<lambda>c. c = 95" s] by simp
qed

definition title_char :: "unicode \<Rightarrow> nat \<Rightarrow> bool" where
  "title_char U c \<longleftrightarrow> un_letter_or_number U c \<or> ascii_alnum c \<or> c = 95"

lemma download_title_shape:
  "download_title U s \<noteq> []" "length (download_title U s) \<le> 72" "list_all (title_char U) (download_title U s)"
  "hd (download_title U s) \<noteq> 95" "last (download_title U s) \<noteq> 95"
proof -
  define n where "n = strip_both (separate (un_letter_or_number U) 95 (un_nfkc U s))"
  define t where "t = strip_last (take 72 n)"
  have d: "download_title U s = (if t = [] then codes ''FastRep_Report'' else t)"
    by (simp add: download_title_def Let_def n_def t_def)
  obtain r where r: "take 72 n = t @ r" using strip_last_prefix [of "take 72 n"] by (auto simp: t_def)
  then obtain r' where n: "n = t @ r'" by (metis append_assoc append_take_drop_id)
  have len: "length t \<le> 72" using r by (metis length_append length_take le_add1 min.bounded_iff order_trans min.cobounded2)
  have chars: "c \<in> set n \<Longrightarrow> un_letter_or_number U c \<or> c = 95" for c
    using set_strip(2) separate_chars unfolding n_def by blast
  show "download_title U s \<noteq> []" by (simp add: d codes_def)
  show "length (download_title U s) \<le> 72" using len by (simp add: d codes_def)
  show "list_all (title_char U) (download_title U s)"
    using chars n by (auto simp: d codes_def title_char_def ascii_alnum_def list_all_iff)
  show "last (download_title U s) \<noteq> 95"
    using strip_last_end [of "take 72 n"] by (simp add: d codes_def t_def)
  have "hd t \<noteq> 95" if "t \<noteq> []"
    using that n strip_both_start [of "separate (un_letter_or_number U) 95 (un_nfkc U s)"] by (simp add: n_def [symmetric])
  then show "hd (download_title U s) \<noteq> 95" by (simp add: d codes_def)
qed

lemma utf8_encode_scalar: "scalar c \<Longrightarrow> utf8_encode c \<noteq> None"
  by (auto simp: utf8_encode_def scalar_def)

lemma encodeURIComponent_scalar: "list_all scalar s \<Longrightarrow> encodeURIComponent s \<noteq> None"
  using utf8_encode_scalar by (induction s) (auto split: option.splits)

lemma contentDisposition_scalar:
  assumes "list_all scalar (nfkc s)"
  shows "\<exists>header. contentDisposition nfkc nfkd s = Inr header"
proof -
  have "list_all scalar (sanitizeContentDispositionFileName nfkc s)"
    using assms by (auto simp: sanitizeContentDispositionFileName_def list_all_iff scalar_def)
  from encodeURIComponent_scalar [OF this] show ?thesis
    by (auto simp: contentDisposition_def encodedFileName_def Let_def)
qed

lemma download_name_scalar:
  assumes "\<forall>c. un_letter_or_number U c \<longrightarrow> scalar c"
  shows "list_all scalar (reportDownloadFileName U s ms)"
proof -
  have "scalar (of_char c)" for c :: char
    unfolding scalar_def using nat_of_char_less_256 [of c] by linarith
  then show ?thesis
    using download_title_shape(3) [of U s] assms
    by (auto simp: reportDownloadFileName_def list_all_iff title_char_def ascii_alnum_def scalar_def codes_def)
qed


text \<open>A title without a letter falls back to the name of the service.\<close>

definition demo_ready :: report_row where
  "demo_ready = \<lparr>rep_id = ''r'', rep_userId = ''u'', rep_title = [33, 34], rep_notes = None, rep_status = RS_READY,
     rep_lockedUntil = None, rep_windowStartedAt = None, rep_failureCount = 0, rep_createdAt = 0\<rparr>"

definition demo_output :: output_row where
  "demo_output = \<lparr>out_reportId = ''r'', out_generationId = ''g'', out_storageKey = ''k'', out_mimeType = ''application/pdf'',
     out_size = 9, out_createdAt = 0\<rparr>"


end
