(* ===== verification/Environment.thy ===== *)
theory Environment
  imports Prelude
begin

text \<open>
  \<open>src/config/environment.ts\<close>: the validation of the process environment, which both processes and the
  administrative command run before anything else. The environment is a map from names to values; it is
  mutated by the code and returned here. \<open>Number\<close> of a string is written out for decimal, hexadecimal,
  octal and binary literals, exactly where the engine rounds to a double (the same below \<open>2 ^ 53\<close>).
\<close>

section \<open>Values and numbers\<close>

text \<open>
  A missing name is \<open>None\<close> (\<open>undefined\<close>). \<open>ENumber\<close> is an integer below \<open>10 ^ 21\<close>, whose \<open>String\<close> is its
  decimal digits; \<open>EOther\<close> is a value that is neither null, a string nor such a number.
\<close>

datatype env_value = EString string | ENumber int | ENull | EOther

type_synonym environment = "string \<Rightarrow> env_value option"

fun dec :: "nat \<Rightarrow> string" where
  "dec n = (if n < 10 then [char_of (48 + n)] else dec (n div 10) @ [char_of (48 + n mod 10)])"

declare dec.simps [simp del]

definition js_String :: "int \<Rightarrow> string" where
  "js_String n = (if n < 0 then CHR ''-'' # dec (nat (- n)) else dec (nat n))"

definition digit_value :: "char \<Rightarrow> nat option" where
  "digit_value c = (let n = of_char c in
     if 48 \<le> n \<and> n \<le> 57 then Some (n - 48)
     else if 97 \<le> n \<and> n \<le> 102 then Some (n - 87)
     else if 65 \<le> n \<and> n \<le> 70 then Some (n - 55) else None)"

fun read_digits :: "nat \<Rightarrow> nat \<Rightarrow> string \<Rightarrow> nat option" where
  "read_digits r acc [] = Some acc"
| "read_digits r acc (c # cs) =
     (case digit_value c of
        Some d \<Rightarrow> (if d < r then read_digits r (acc * r + d) cs else None)
      | None \<Rightarrow> None)"

definition digits :: "nat \<Rightarrow> string \<Rightarrow> nat option" where
  "digits r s = (if s = [] then None else read_digits r 0 s)"

fun signed :: "(string \<Rightarrow> int option) \<Rightarrow> string \<Rightarrow> int option" where
  "signed p [] = p []"
| "signed p (c # cs) =
     (if c = CHR ''-'' then map_option uminus (p cs) else if c = CHR ''+'' then p cs else p (c # cs))"

definition double_bound :: int where
  "double_bound = 2 ^ 1024"

definition finite_number :: "int \<Rightarrow> int option" where
  "finite_number n = (if n < double_bound then Some n else None)"

text \<open>An unsigned decimal literal, when its value is a finite integer: digits, a fraction, an exponent.\<close>

definition decimal_integer :: "string \<Rightarrow> int option" where
  "decimal_integer s =
     (let mantissa = takeWhile (\<lambda>c. c \<noteq> CHR ''e'' \<and> c \<noteq> CHR ''E'') s;
          rest = drop (length mantissa) s;
          whole = takeWhile (\<lambda>c. c \<noteq> CHR ''.'') mantissa;
          fraction = drop (length whole + 1) mantissa
      in case (digits 10 (whole @ fraction),
               if rest = [] then Some 0 else signed (\<lambda>t. map_option int (digits 10 t)) (tl rest)) of
           (Some m, Some x) \<Rightarrow>
             (let e = x - int (length fraction) in
              if 0 \<le> e then finite_number (int m * 10 ^ nat e)
              else if int m mod 10 ^ nat (- e) = 0 then finite_number (int m div 10 ^ nat (- e)) else None)
         | _ \<Rightarrow> None)"

text \<open>\<open>Number(s)\<close> when \<open>Number.isInteger\<close> holds of it.\<close>

definition js_integer :: "string \<Rightarrow> int option" where
  "js_integer s =
     (let t = strim s; prefix = take 2 t in
      if t = [] then Some 0
      else if prefix = ''0x'' \<or> prefix = ''0X'' then Option.bind (digits 16 (drop 2 t)) (\<lambda>n. finite_number (int n))
      else if prefix = ''0o'' \<or> prefix = ''0O'' then Option.bind (digits 8 (drop 2 t)) (\<lambda>n. finite_number (int n))
      else if prefix = ''0b'' \<or> prefix = ''0B'' then Option.bind (digits 2 (drop 2 t)) (\<lambda>n. finite_number (int n))
      else signed decimal_integer t)"

text \<open>\<open>Number(environment[key])\<close>, when it is an integer.\<close>

definition env_integer :: "environment \<Rightarrow> string \<Rightarrow> int option" where
  "env_integer env key =
     (case env key of
        Some (EString s) \<Rightarrow> js_integer s
      | Some (ENumber n) \<Rightarrow> (if \<bar>n\<bar> < 10 ^ 21 then Some n else None)
      | Some ENull \<Rightarrow> Some 0
      | _ \<Rightarrow> None)"

section \<open>The checks\<close>

type_synonym env_step = "environment \<Rightarrow> environment result"

definition requireString :: "environment \<Rightarrow> string \<Rightarrow> string result" where
  "requireString env key =
     (case env key of
        Some (EString s) \<Rightarrow> (if strim s = [] then Inl (PlainError (key @ '' is required'')) else Inr s)
      | _ \<Rightarrow> Inl (PlainError (key @ '' is required'')))"

text \<open>\<open>environment[key] ?? default\<close>.\<close>

definition nullish :: "environment \<Rightarrow> string \<Rightarrow> env_value \<Rightarrow> env_value" where
  "nullish env key d = (case env key of None \<Rightarrow> d | Some ENull \<Rightarrow> d | Some v \<Rightarrow> v)"

definition stringWithDefault :: "string \<Rightarrow> string \<Rightarrow> env_step" where
  "stringWithDefault key d env =
     (case nullish env key (EString d) of
        EString s \<Rightarrow> (if strim s = [] then Inl (PlainError (key @ '' must be a non-empty string''))
                      else Inr (env(key \<mapsto> EString s)))
      | _ \<Rightarrow> Inl (PlainError (key @ '' must be a non-empty string'')))"

definition positiveIntegerWithDefault :: "string \<Rightarrow> int \<Rightarrow> env_step" where
  "positiveIntegerWithDefault key d env =
     (let e = Inl (PlainError (key @ '' must be a positive integer'')) in
      case nullish env key (EString (js_String d)) of
        EString s \<Rightarrow> (case js_integer s of Some n \<Rightarrow> if n \<le> 0 then e else Inr (env(key \<mapsto> EString s)) | None \<Rightarrow> e)
      | ENumber n \<Rightarrow> (if \<bar>n\<bar> < 10 ^ 21 \<and> \<not> n \<le> 0 then Inr (env(key \<mapsto> EString (js_String n))) else e)
      | _ \<Rightarrow> e)"

definition nonNegativeIntegerWithDefault :: "string \<Rightarrow> int \<Rightarrow> env_step" where
  "nonNegativeIntegerWithDefault key d env =
     (let e = Inl (PlainError (key @ '' must be a non-negative integer'')) in
      case nullish env key (EString (js_String d)) of
        EString s \<Rightarrow> (case js_integer s of Some n \<Rightarrow> if n < 0 then e else Inr (env(key \<mapsto> EString s)) | None \<Rightarrow> e)
      | ENumber n \<Rightarrow> (if \<bar>n\<bar> < 10 ^ 21 \<and> \<not> n < 0 then Inr (env(key \<mapsto> EString (js_String n))) else e)
      | _ \<Rightarrow> e)"

definition booleanWithDefault :: "string \<Rightarrow> bool \<Rightarrow> env_step" where
  "booleanWithDefault key d env =
     (let v = nullish env key (EString (if d then ''true'' else ''false'')) in
      if v = EString ''true'' \<or> v = EString ''false'' then Inr (env(key \<mapsto> v))
      else Inl (PlainError (key @ '' must be either true or false'')))"

definition assertIntegerRange :: "string \<Rightarrow> int \<Rightarrow> int \<Rightarrow> env_step" where
  "assertIntegerRange key minimum maximum env =
     (let e = Inl (PlainError (key @ '' must be between '' @ js_String minimum @ '' and '' @ js_String maximum)) in
      case env_integer env key of
        None \<Rightarrow> e
      | Some value \<Rightarrow> (if value < minimum \<or> value > maximum then e else Inr env))"

fun run_steps :: "env_step list \<Rightarrow> env_step" where
  "run_steps [] env = Inr env"
| "run_steps (s # ss) env = bindE (s env) (run_steps ss)"

section \<open>validateEnvironment\<close>

text \<open>The names and defaults in the order of the calls, split where calls of other checks stand between.\<close>

definition service_defaults :: "(string \<times> int) list" where
  "service_defaults =
     [(''PASSWORD_RESET_CODE_TTL_MINUTES'', 15),
      (''PASSWORD_RESET_MAX_ATTEMPTS'', 5),
      (''PASSWORD_RESET_RESEND_COOLDOWN_SECONDS'', 60),
      (''REGISTRATION_CODE_TTL_MINUTES'', 15),
      (''REGISTRATION_MAX_ATTEMPTS'', 5),
      (''REGISTRATION_RESEND_COOLDOWN_SECONDS'', 60),
      (''PENDING_REGISTRATION_TTL_HOURS'', 24),
      (''IMAGE_MAX_BYTES'', 10485760),
      (''AUDIO_MAX_BYTES'', 52428800),
      (''DOCUMENT_MAX_BYTES'', 26214400),
      (''REPORT_MAX_TOTAL_ASSET_BYTES'', 157286400),
      (''REPORT_MAX_IMAGES'', 20),
      (''REPORT_MAX_AUDIO_FILES'', 5),
      (''REPORT_MAX_DOCUMENTS'', 10),
      (''IMAGE_MAX_WIDTH'', 4096),
      (''IMAGE_MAX_HEIGHT'', 4096),
      (''AUDIO_MAX_DURATION_SECONDS'', 1200),
      (''UPLOAD_URL_TTL_SECONDS'', 600),
      (''PENDING_UPLOAD_TTL_MINUTES'', 30),
      (''S3_REQUEST_TIMEOUT_MS'', 60000),
      (''OPENAI_REQUEST_TIMEOUT_MS'', 180000)]"

definition generation_defaults :: "(string \<times> int) list" where
  "generation_defaults =
     [(''OPENAI_FILE_TTL_SECONDS'', 3600),
      (''REPORT_GENERATION_JOB_ATTEMPTS'', 2),
      (''REPORT_GENERATION_JOB_TIMEOUT_MS'', 900000),
      (''REPORT_GENERATION_BACKOFF_MS'', 30000),
      (''REPORT_GENERATION_CONCURRENCY'', 1),
      (''AI_MAX_PROVIDER_CALLS_PER_GENERATION'', 2),
      (''TRANSCRIPTION_MAX_ATTEMPTS_PER_ASSET'', 2),
      (''AI_MAX_OUTPUT_TOKENS'', 6000),
      (''GENERATION_START_RATE_LIMIT'', 5),
      (''GENERATION_START_RATE_WINDOW_SECONDS'', 3600),
      (''GENERATION_DAILY_SAFETY_LIMIT'', 20),
      (''REPORT_FAILED_RETRY_WINDOW_MINUTES'', 3),
      (''REPORT_FAILED_RETRY_LIMIT'', 5),
      (''REPORT_FAILED_LOCK_MINUTES'', 60),
      (''AI_GLOBAL_DAILY_GENERATION_LIMIT'', 500),
      (''REPORT_OUTPUT_MAX_BYTES'', 52428800),
      (''REPORT_PDF_MAX_PAGES'', 100),
      (''REPORT_PDF_MAX_IMAGE_BYTES'', 52428800),
      (''DOWNLOAD_URL_TTL_SECONDS'', 600)]"

definition default_steps :: "env_step list" where
  "default_steps =
     map (\<lambda>(k, d). positiveIntegerWithDefault k d) service_defaults @
     [stringWithDefault ''OPENAI_REPORT_MODEL'' ''gpt-5-mini'',
      stringWithDefault ''OPENAI_TRANSCRIPTION_MODEL'' ''gpt-4o-mini-transcribe'',
      stringWithDefault ''REPORT_GENERATION_QUEUE_NAME'' ''report-generation'',
      nonNegativeIntegerWithDefault ''OPENAI_MAX_RETRIES'' 0] @
     map (\<lambda>(k, d). positiveIntegerWithDefault k d) generation_defaults @
     [booleanWithDefault ''AI_GENERATION_ENABLED'' True,
      booleanWithDefault ''ENABLE_DEV_CREDIT_GRANTS'' False,
      booleanWithDefault ''S3_FORCE_PATH_STYLE'' False]"

text \<open>\<open>Number\<close> of the three settings compared below is an integer, which \<open>default_steps\<close> has checked.\<close>

definition check_file_ttl :: env_step where
  "check_file_ttl env =
     (case env_integer env ''OPENAI_FILE_TTL_SECONDS'' of
        Some n \<Rightarrow> (if n < 3600 \<or> n > 2592000
                   then Inl (PlainError ''OPENAI_FILE_TTL_SECONDS must be between 3600 and 2592000'') else Inr env)
      | None \<Rightarrow> Inr env)"

definition check_max_retries :: env_step where
  "check_max_retries env =
     (if env_integer env ''OPENAI_MAX_RETRIES'' \<noteq> Some 0 then Inl (PlainError ''OPENAI_MAX_RETRIES must be 0'')
      else Inr env)"

definition check_url_covers_request :: env_step where
  "check_url_covers_request env =
     (case (env_integer env ''DOWNLOAD_URL_TTL_SECONDS'', env_integer env ''OPENAI_REQUEST_TIMEOUT_MS'') of
        (Some ttl, Some timeout) \<Rightarrow>
          (if ttl * 1000 < timeout
           then Inl (PlainError ''DOWNLOAD_URL_TTL_SECONDS must cover OPENAI_REQUEST_TIMEOUT_MS'') else Inr env)
      | _ \<Rightarrow> Inr env)"

definition request_ranges :: "(string \<times> int \<times> int) list" where
  "request_ranges =
     [(''OPENAI_REQUEST_TIMEOUT_MS'', 1000, 600000),
      (''REPORT_GENERATION_JOB_TIMEOUT_MS'', 60000, 3600000),
      (''REPORT_GENERATION_JOB_ATTEMPTS'', 1, 5),
      (''REPORT_GENERATION_CONCURRENCY'', 1, 20),
      (''AI_MAX_PROVIDER_CALLS_PER_GENERATION'', 2, 10),
      (''TRANSCRIPTION_MAX_ATTEMPTS_PER_ASSET'', 2, 10),
      (''AI_MAX_OUTPUT_TOKENS'', 256, 100000),
      (''GENERATION_START_RATE_WINDOW_SECONDS'', 60, 86400),
      (''DOWNLOAD_URL_TTL_SECONDS'', 60, 3600)]"

definition limit_ranges :: "(string \<times> int \<times> int) list" where
  "limit_ranges =
     [(''REPORT_PDF_MAX_PAGES'', 1, 250),
      (''REPORT_PDF_MAX_IMAGE_BYTES'', 1048576, 157286400),
      (''REPORT_GENERATION_BACKOFF_MS'', 1000, 600000),
      (''GENERATION_START_RATE_LIMIT'', 1, 1000),
      (''GENERATION_DAILY_SAFETY_LIMIT'', 1, 10000),
      (''REPORT_FAILED_RETRY_WINDOW_MINUTES'', 1, 1440),
      (''REPORT_FAILED_RETRY_LIMIT'', 1, 100),
      (''REPORT_FAILED_LOCK_MINUTES'', 1, 10080),
      (''AI_GLOBAL_DAILY_GENERATION_LIMIT'', 1, 1000000),
      (''REPORT_OUTPUT_MAX_BYTES'', 1048576, 157286400)]"

definition range_steps :: "env_step list" where
  "range_steps =
     [check_file_ttl, check_max_retries] @
     map (\<lambda>(k, lo, hi). assertIntegerRange k lo hi) request_ranges @
     [check_url_covers_request] @
     map (\<lambda>(k, lo, hi). assertIntegerRange k lo hi) limit_ranges"

fun requireStrings :: "environment \<Rightarrow> string list \<Rightarrow> unit result" where
  "requireStrings env [] = Inr ()"
| "requireStrings env (k # ks) = bindE (requireString env k) (\<lambda>_. requireStrings env ks)"

text \<open>The part for production: the two flags are taken before the defaults are filled in.\<close>

definition production_checks :: "string \<Rightarrow> bool \<Rightarrow> bool \<Rightarrow> environment \<Rightarrow> unit result" where
  "production_checks processRole generationEnabledWasExplicit queueNameWasExplicit env =
     (let generates = (processRole = ''worker'' \<or> env ''AI_GENERATION_ENABLED'' = Some (EString ''true'')) in
      bindE (guardE generationEnabledWasExplicit
        (PlainError ''AI_GENERATION_ENABLED must be explicit in production'')) (\<lambda>_.
      bindE (guardE (\<not> (generates \<and> \<not> queueNameWasExplicit))
        (PlainError ''REPORT_GENERATION_QUEUE_NAME is required'')) (\<lambda>_.
      bindE (requireStrings env [''S3_ENDPOINT'', ''S3_REGION'', ''S3_BUCKET'', ''S3_ACCESS_KEY_ID'',
        ''S3_SECRET_ACCESS_KEY'', ''REPORT_GENERATION_QUEUE_NAME'']) (\<lambda>_.
      bindE (if generates
             then requireStrings env [''REDIS_URL'', ''OPENAI_API_KEY'', ''OPENAI_REPORT_MODEL'', ''OPENAI_TRANSCRIPTION_MODEL'']
             else Inr ()) (\<lambda>_.
      if processRole = ''api'' then
        bindE (requireStrings env [''RESEND_API_KEY'', ''EMAIL_FROM'']) (\<lambda>_.
        bindE (requireString env ''PORT'') (\<lambda>port.
        bindE (requireString env ''SWAGGER_ENABLED'') (\<lambda>swaggerEnabled.
        bindE (guardE (case js_integer port of Some n \<Rightarrow> 0 < n | None \<Rightarrow> False)
          (PlainError ''PORT must be a positive integer'')) (\<lambda>_.
        bindE (guardE (swaggerEnabled \<in> {''true'', ''false''})
          (PlainError ''SWAGGER_ENABLED must be either true or false'')) (\<lambda>_.
        guardE (case env_integer env ''REGISTRATION_RESEND_COOLDOWN_SECONDS'' of Some n \<Rightarrow> \<not> n < 60 | None \<Rightarrow> True)
          (PlainError ''REGISTRATION_RESEND_COOLDOWN_SECONDS must be at least 60 in production''))))))
      else Inr ())))))"

text \<open>Everything after the role of the process is known.\<close>

definition validate_settings :: "string \<Rightarrow> string \<Rightarrow> env_step" where
  "validate_settings nodeEnvironment role env0 =
     (let generationEnabledWasExplicit = (env0 ''AI_GENERATION_ENABLED'' \<noteq> None);
          queueNameWasExplicit = (case env0 ''REPORT_GENERATION_QUEUE_NAME'' of
            Some (EString s) \<Rightarrow> strim s \<noteq> [] | _ \<Rightarrow> False)
      in bindE (if role = ''api'' then requireStrings env0 [''JWT_ACCESS_SECRET'', ''JWT_REFRESH_SECRET'']
                else Inr ()) (\<lambda>_.
         bindE (run_steps default_steps env0) (\<lambda>env1.
         bindE (run_steps range_steps env1) (\<lambda>env2.
         bindE (if nodeEnvironment = ''production''
                then production_checks role generationEnabledWasExplicit queueNameWasExplicit env2
                else Inr ()) (\<lambda>_.
         Inr env2)))))"

definition validateEnvironment :: env_step where
  "validateEnvironment env =
     bindE (requireString env ''DATABASE_URL'') (\<lambda>_.
     bindE (requireString env ''NODE_ENV'') (\<lambda>nodeEnvironment.
     (case nullish env ''FASTREP_PROCESS_ROLE'' (EString ''api'') of
        EString processRole \<Rightarrow>
          (if processRole \<noteq> ''api'' \<and> processRole \<noteq> ''worker''
           then Inl (PlainError ''FASTREP_PROCESS_ROLE must be either api or worker'')
           else validate_settings nodeEnvironment processRole (env(''FASTREP_PROCESS_ROLE'' \<mapsto> EString processRole)))
      | _ \<Rightarrow> Inl (PlainError ''FASTREP_PROCESS_ROLE must be either api or worker''))))"

section \<open>Numbers and their digits\<close>

lemma digit_value_digit: "d < 10 \<Longrightarrow> digit_value (char_of (48 + d :: nat)) = Some d"
  by (simp add: digit_value_def)

lemma read_digits_append: "read_digits r a (xs @ ys) = Option.bind (read_digits r a xs) (\<lambda>b. read_digits r b ys)"
  by (induction xs arbitrary: a) (auto split: option.splits)

lemma read_dec: "read_digits 10 0 (dec n) = Some n"
proof (induction n rule: dec.induct)
  case (1 n)
  show ?case
  proof (cases "n < 10")
    case True
    then show ?thesis by (simp add: dec.simps digit_value_digit)
  next
    case False
    then show ?thesis using 1 by (subst dec.simps) (simp add: read_digits_append digit_value_digit)
  qed
qed

definition is_digit :: "char \<Rightarrow> bool" where
  "is_digit c \<longleftrightarrow> (48 :: nat) \<le> of_char c \<and> (of_char c :: nat) \<le> 57"

lemma is_digit_of: "d < 10 \<Longrightarrow> is_digit (char_of (48 + d :: nat))"
  by (simp add: is_digit_def)

lemma dec_digits: "c \<in> set (dec n) \<Longrightarrow> is_digit c"
proof (induction n rule: dec.induct)
  case (1 n)
  then show ?case by (cases "n < 10") (auto simp: dec.simps [of n] is_digit_of)
qed

lemma dec_not_Nil: "dec n \<noteq> []"
  by (subst dec.simps) simp

lemma is_digit_not: "is_digit c \<Longrightarrow> c \<noteq> CHR ''e'' \<and> c \<noteq> CHR ''E'' \<and> c \<noteq> CHR ''.'' \<and> c \<noteq> CHR ''-'' \<and>
    c \<noteq> CHR ''+'' \<and> c \<notin> {CHR ''x'', CHR ''X'', CHR ''o'', CHR ''O'', CHR ''b'', CHR ''B''} \<and> \<not> js_white (of_char c)"
  by (auto simp: is_digit_def js_white_def)

lemma decimal_of_digits:
  assumes "\<And>c. c \<in> set t \<Longrightarrow> is_digit c" "t \<noteq> []"
  shows "decimal_integer t = Option.bind (digits 10 t) (\<lambda>n. finite_number (int n))"
proof -
  have t: "takeWhile (\<lambda>c. c \<noteq> CHR ''e'' \<and> c \<noteq> CHR ''E'') t = t" "takeWhile (\<lambda>c. c \<noteq> CHR ''.'') t = t"
    unfolding takeWhile_eq_all_conv using assms(1) is_digit_not by blast+
  show ?thesis by (cases "digits 10 t") (simp_all add: decimal_integer_def Let_def t)
qed

lemma js_integer_String:
  assumes "0 \<le> n" "n < double_bound"
  shows "js_integer (js_String n) = Some n"
proof -
  let ?t = "dec (nat n)"
  have d: "is_digit c" if "c \<in> set ?t" for c using dec_digits that by blast
  have trim: "strim ?t = ?t" unfolding strim_def by (rule trim_by_all) (use d is_digit_not in blast)
  have no_letter: "take 2 ?t \<noteq> [CHR ''0'', x]" if "x \<in> {CHR ''x'', CHR ''X'', CHR ''o'', CHR ''O'', CHR ''b'', CHR ''B''}" for x
  proof
    assume "take 2 ?t = [CHR ''0'', x]"
    then have "x \<in> set ?t" by (metis in_set_takeD list.set_intros(1,2))
    from is_digit_not [OF d [OF this]] that show False by simp
  qed
  have not_prefix: "(take 2 ?t = ''0x'' \<or> take 2 ?t = ''0X'') = False" "(take 2 ?t = ''0o'' \<or> take 2 ?t = ''0O'') = False"
    "(take 2 ?t = ''0b'' \<or> take 2 ?t = ''0B'') = False"
    using no_letter [of "CHR ''x''"] no_letter [of "CHR ''X''"] no_letter [of "CHR ''o''"] no_letter [of "CHR ''O''"]
      no_letter [of "CHR ''b''"] no_letter [of "CHR ''B''"] by simp_all
  have "signed decimal_integer (c # cs) = decimal_integer (c # cs)" if "is_digit c" for c cs
    using is_digit_not [OF that] by simp
  moreover obtain c cs where "?t = c # cs" using dec_not_Nil by (cases ?t) auto
  ultimately have "signed decimal_integer ?t = decimal_integer ?t" using d by (metis list.set_intros(1))
  moreover have "decimal_integer ?t = Some n"
    using decimal_of_digits [OF d dec_not_Nil] read_dec [of "nat n"] assms
    by (simp add: digits_def dec_not_Nil finite_number_def)
  ultimately have "js_integer ?t = Some n"
    using not_prefix unfolding js_integer_def Let_def trim by (simp only: dec_not_Nil if_False)
  with assms(1) show ?thesis by (simp add: js_String_def)
qed

section \<open>The steps settle what they check\<close>

text \<open>\<open>keeps e f\<close>: the strings of \<open>e\<close> are still there in \<open>f\<close>.\<close>

definition keeps :: "environment \<Rightarrow> environment \<Rightarrow> bool" where
  "keeps e f \<longleftrightarrow> (\<forall>k v. e k = Some (EString v) \<longrightarrow> f k = Some (EString v))"

lemma keeps_refl [simp]: "keeps e e"
  by (simp add: keeps_def)

lemma keeps_trans: "keeps e f \<Longrightarrow> keeps f g \<Longrightarrow> keeps e g"
  by (simp add: keeps_def)

lemma keepsD: "keeps e f \<Longrightarrow> e k = Some (EString v) \<Longrightarrow> f k = Some (EString v)"
  by (simp add: keeps_def)

locale setting_step =
  fixes s :: env_step
  assumes extends: "s e = Inr f \<Longrightarrow> keeps e f"
    and settles: "s e = Inr f \<Longrightarrow> keeps f g \<Longrightarrow> s g = Inr g"
begin

lemma again: "s e = Inr f \<Longrightarrow> s f = Inr f"
  using settles by simp

end

lemma run_setting_steps:
  assumes "\<And>s. s \<in> set ss \<Longrightarrow> setting_step s" "run_steps ss e = Inr f"
  shows "keeps e f \<and> (\<forall>s \<in> set ss. \<forall>g. keeps f g \<longrightarrow> s g = Inr g)"
  using assms
proof (induction ss arbitrary: e)
  case (Cons s ss)
  then obtain e1 where e1: "s e = Inr e1" "run_steps ss e1 = Inr f" by (auto elim: bindE_InrE)
  have st: "setting_step s" using Cons.prems by simp
  have ih: "keeps e1 f" "\<forall>s \<in> set ss. \<forall>g. keeps f g \<longrightarrow> s g = Inr g" using Cons.IH [OF _ e1(2)] Cons.prems(1) by auto
  have "keeps e f" using setting_step.extends [OF st e1(1)] ih(1) by (rule keeps_trans)
  moreover have "s g = Inr g" if "keeps f g" for g
    using setting_step.settles [OF st e1(1)] keeps_trans [OF ih(1) that] by blast
  ultimately show ?case using ih(2) by simp
qed simp

lemma run_steps_id: "(\<And>s. s \<in> set ss \<Longrightarrow> s e = Inr e) \<Longrightarrow> run_steps ss e = Inr e"
proof (induction ss)
  case (Cons s ss)
  have "s e = Inr e" "run_steps ss e = Inr e" using Cons.prems Cons.IH by simp_all
  then show ?case by simp
qed simp

lemma nullish_string: "env k = Some (EString v) \<Longrightarrow> nullish env k d = EString v"
  by (simp add: nullish_def)

lemma nullish_keeps: "nullish e k d = v \<Longrightarrow> (case v of EString w \<Rightarrow> keeps e (e(k \<mapsto> EString w)) | _ \<Rightarrow> \<forall>w. e k \<noteq> Some (EString w))"
  by (cases "e k"; cases "the (e k)") (auto simp: nullish_def keeps_def split: env_value.splits)

lemma fun_upd_triv_Some: "g k = Some v \<Longrightarrow> g(k \<mapsto> v) = g"
  by auto

text \<open>A step that puts the string \<open>v\<close> for \<open>k\<close> and leaves a string that it would put.\<close>

lemma setting_stepI:
  assumes "\<And>e f. s e = Inr f \<Longrightarrow> \<exists>v. f = e(k \<mapsto> EString v) \<and> (\<forall>w. e k = Some (EString w) \<longrightarrow> w = v) \<and>
      (\<forall>g. g k = Some (EString v) \<longrightarrow> s g = Inr g)"
  shows "setting_step s"
proof
  fix e f g assume "s e = Inr f"
  from assms [OF this] obtain v where v: "f = e(k \<mapsto> EString v)" "\<And>w. e k = Some (EString w) \<Longrightarrow> w = v"
    "\<And>g. g k = Some (EString v) \<Longrightarrow> s g = Inr g" by blast
  show "keeps e f" using v(1,2) by (auto simp: keeps_def)
  show "s g = Inr g" if "keeps f g" using v(3) keepsD [OF that, of k v] v(1) by simp
qed

lemma stringWithDefault_setting: "setting_step (stringWithDefault k d)"
  by (rule setting_stepI [of _ k])
    (auto simp: stringWithDefault_def nullish_def fun_upd_triv_Some split: env_value.splits option.splits if_splits)

lemma text_cases:
  assumes "stringWithDefault k d e = Inr f"
  obtains v where "f = e(k \<mapsto> EString v)" "strim v \<noteq> []"
  using assms by (auto simp: stringWithDefault_def split: env_value.splits if_splits)

interpretation text_setting: setting_step "stringWithDefault k d" for k d
  by (rule stringWithDefault_setting)

lemma js_integer_String_21: "\<bar>n\<bar> < 10 ^ 21 \<Longrightarrow> 0 \<le> n \<Longrightarrow> js_integer (js_String n) = Some n"
proof (rule js_integer_String)
  assume n: "\<bar>n\<bar> < 10 ^ 21" "0 \<le> n"
  have "(10 :: int) ^ 21 < 2 ^ 70" by simp
  also have "(2 :: int) ^ 70 \<le> 2 ^ 1024" by (rule power_increasing) simp_all
  finally show "n < double_bound" unfolding double_bound_def using n by linarith
qed

lemma positiveInteger_cases:
  assumes "positiveIntegerWithDefault k d e = Inr f"
  obtains v n where "f = e(k \<mapsto> EString v)" "js_integer v = Some n" "0 < n"
    "\<And>w. e k = Some (EString w) \<Longrightarrow> w = v"
  using assms
  by (auto simp: positiveIntegerWithDefault_def Let_def nullish_def js_integer_String_21
      split: env_value.splits option.splits if_splits)

lemma positiveInteger_fixed:
  "g k = Some (EString v) \<Longrightarrow> js_integer v = Some n \<Longrightarrow> 0 < n \<Longrightarrow> positiveIntegerWithDefault k d g = Inr g"
  by (simp add: positiveIntegerWithDefault_def nullish_string fun_upd_triv_Some)

interpretation positive_setting: setting_step "positiveIntegerWithDefault k d" for k d
  by (rule setting_stepI [of _ k]) (metis positiveInteger_cases positiveInteger_fixed)

lemma nonNegativeInteger_cases:
  assumes "nonNegativeIntegerWithDefault k d e = Inr f"
  obtains v n where "f = e(k \<mapsto> EString v)" "js_integer v = Some n" "0 \<le> n"
    "\<And>w. e k = Some (EString w) \<Longrightarrow> w = v"
  using assms
  by (auto simp: nonNegativeIntegerWithDefault_def Let_def nullish_def js_integer_String_21
      split: env_value.splits option.splits if_splits)

lemma nonNegativeInteger_fixed:
  "g k = Some (EString v) \<Longrightarrow> js_integer v = Some n \<Longrightarrow> 0 \<le> n \<Longrightarrow> nonNegativeIntegerWithDefault k d g = Inr g"
  by (simp add: nonNegativeIntegerWithDefault_def nullish_string fun_upd_triv_Some)

interpretation non_negative_setting: setting_step "nonNegativeIntegerWithDefault k d" for k d
  by (rule setting_stepI [of _ k]) (metis nonNegativeInteger_cases nonNegativeInteger_fixed)

definition bool_string :: "string \<Rightarrow> bool" where
  "bool_string v \<longleftrightarrow> v = ''true'' \<or> v = ''false''"

lemma boolean_cases:
  assumes "booleanWithDefault k d e = Inr f"
  obtains v where "f = e(k \<mapsto> EString v)" "bool_string v" "\<And>w. e k = Some (EString w) \<Longrightarrow> w = v"
  using assms by (auto simp: bool_string_def booleanWithDefault_def Let_def nullish_def split: env_value.splits option.splits if_splits)

lemma boolean_fixed: "g k = Some (EString v) \<Longrightarrow> bool_string v \<Longrightarrow> booleanWithDefault k d g = Inr g"
  by (auto simp: bool_string_def booleanWithDefault_def nullish_string fun_upd_triv_Some)

interpretation boolean_setting: setting_step "booleanWithDefault k d" for k d
  by (rule setting_stepI [of _ k]) (metis boolean_cases boolean_fixed)

lemma positive_settings: "s \<in> set (map (\<lambda>(k, d). positiveIntegerWithDefault k d) kds) \<Longrightarrow> setting_step s"
proof -
  assume "s \<in> set (map (\<lambda>(k, d). positiveIntegerWithDefault k d) kds)"
  then obtain k d where "s = positiveIntegerWithDefault k d" unfolding set_map by (elim imageE) (simp split: prod.splits)
  then show "setting_step s" by (simp only: positive_setting.setting_step_axioms)
qed

lemma default_steps_settings:
  assumes "s \<in> set default_steps"
  shows "setting_step s"
proof -
  let ?positive = "\<lambda>kds. s \<in> set (map (\<lambda>(k, d). positiveIntegerWithDefault k d) kds)"
  have "?positive service_defaults \<or> ?positive generation_defaults \<or>
      s \<in> {stringWithDefault ''OPENAI_REPORT_MODEL'' ''gpt-5-mini'',
        stringWithDefault ''OPENAI_TRANSCRIPTION_MODEL'' ''gpt-4o-mini-transcribe'',
        stringWithDefault ''REPORT_GENERATION_QUEUE_NAME'' ''report-generation'',
        nonNegativeIntegerWithDefault ''OPENAI_MAX_RETRIES'' 0, booleanWithDefault ''AI_GENERATION_ENABLED'' True,
        booleanWithDefault ''ENABLE_DEV_CREDIT_GRANTS'' False, booleanWithDefault ''S3_FORCE_PATH_STYLE'' False}"
    using assms unfolding default_steps_def set_append list.set Un_iff insert_iff empty_iff by argo
  then show ?thesis
    by (elim disjE insertE emptyE)
      (simp_all only: positive_settings text_setting.setting_step_axioms non_negative_setting.setting_step_axioms
        boolean_setting.setting_step_axioms)
qed

lemma defaults_settled:
  assumes "run_steps default_steps e = Inr f"
  shows "keeps e f" "s \<in> set default_steps \<Longrightarrow> s f = Inr f"
  using run_setting_steps [OF default_steps_settings assms] by auto

section \<open>The checks change nothing\<close>

lemma assertIntegerRange_ok:
  "assertIntegerRange k lo hi e = Inr f \<longleftrightarrow> f = e \<and> (\<exists>n. env_integer e k = Some n \<and> lo \<le> n \<and> n \<le> hi)"
  by (auto simp: assertIntegerRange_def Let_def split: option.splits)

lemma range_steps_check:
  assumes "s \<in> set range_steps" "s e = Inr f"
  shows "f = e"
proof -
  let ?range = "\<lambda>ks. s \<in> set (map (\<lambda>(k, lo, hi). assertIntegerRange k lo hi) ks)"
  have "s = check_file_ttl \<or> s = check_max_retries \<or> s = check_url_covers_request \<or> ?range request_ranges \<or> ?range limit_ranges"
    using assms(1) unfolding range_steps_def set_append list.set Un_iff insert_iff empty_iff by blast
  moreover have range: "f = e" if "?range ks" for ks using that assms(2) by (auto simp: assertIntegerRange_ok)
  ultimately show ?thesis
    using assms(2) by (elim disjE range) (auto simp: check_file_ttl_def check_max_retries_def check_url_covers_request_def
        split: option.splits if_splits)
qed

lemma checks_only:
  assumes "\<forall>s \<in> set ss. \<forall>e f. s e = Inr f \<longrightarrow> f = e" "run_steps ss e = Inr f"
  shows "f = e \<and> (\<forall>s \<in> set ss. s e = Inr e)"
  using assms
proof (induction ss)
  case (Cons s ss)
  then obtain e1 where e1: "s e = Inr e1" "run_steps ss e1 = Inr f" by (auto elim: bindE_InrE)
  have "e1 = e" using Cons.prems(1) e1(1) by simp
  with e1 Cons show ?case by simp
qed simp

lemma ranges_settled:
  assumes "run_steps range_steps e = Inr f"
  shows "f = e" "s \<in> set range_steps \<Longrightarrow> s e = Inr e"
proof -
  have "\<forall>s \<in> set range_steps. \<forall>e f. s e = Inr f \<longrightarrow> f = e" using range_steps_check by blast
  from checks_only [OF this assms] show "f = e" "s \<in> set range_steps \<Longrightarrow> s e = Inr e" by blast+
qed

lemma requireString_ok: "requireString e k = Inr s \<longleftrightarrow> e k = Some (EString s) \<and> strim s \<noteq> []"
  by (auto simp: requireString_def split: option.splits env_value.splits if_splits)

lemma requireStrings_ok: "requireStrings e ks = Inr u \<longleftrightarrow> (\<forall>k \<in> set ks. \<exists>s. e k = Some (EString s) \<and> strim s \<noteq> [])"
  by (induction ks) (auto simp: bindE_Inr_iff requireString_ok)

lemma validate_cases:
  assumes "validateEnvironment env = Inr f"
  obtains node role where "env ''NODE_ENV'' = Some (EString node)" "strim node \<noteq> []" "role = ''api'' \<or> role = ''worker''"
    "\<exists>s. env ''DATABASE_URL'' = Some (EString s) \<and> strim s \<noteq> []"
    "nullish env ''FASTREP_PROCESS_ROLE'' (EString ''api'') = EString role"
    "validate_settings node role (env(''FASTREP_PROCESS_ROLE'' \<mapsto> EString role)) = Inr f"
  using assms unfolding validateEnvironment_def
  by (elim bindE_InrE) (auto simp: requireString_ok split: env_value.splits if_splits)

lemma validate_settings_cases:
  assumes "validate_settings node role env = Inr f"
  shows "role = ''api'' \<Longrightarrow> requireStrings env [''JWT_ACCESS_SECRET'', ''JWT_REFRESH_SECRET''] = Inr ()"
    "run_steps default_steps env = Inr f" "run_steps range_steps f = Inr f"
    "node = ''production'' \<Longrightarrow> production_checks role (env ''AI_GENERATION_ENABLED'' \<noteq> None)
       (case env ''REPORT_GENERATION_QUEUE_NAME'' of Some (EString s) \<Rightarrow> strim s \<noteq> [] | _ \<Rightarrow> False) f = Inr ()"
proof -
  obtain env1 env2 u v where r: "(if role = ''api'' then requireStrings env [''JWT_ACCESS_SECRET'', ''JWT_REFRESH_SECRET''] else Inr ()) = Inr u"
    "run_steps default_steps env = Inr env1" "run_steps range_steps env1 = Inr env2"
    "(if node = ''production'' then production_checks role (env ''AI_GENERATION_ENABLED'' \<noteq> None)
          (case env ''REPORT_GENERATION_QUEUE_NAME'' of Some (EString s) \<Rightarrow> strim s \<noteq> [] | _ \<Rightarrow> False) env2
        else Inr ()) = Inr v" "f = env2"
    using assms unfolding validate_settings_def Let_def by (elim bindE_InrE) (simp only: sum.inject)
  have "env2 = env1" using ranges_settled(1) [OF r(3)] .
  moreover have "u = ()" "v = ()" by (rule unit_eq)+
  ultimately show "role = ''api'' \<Longrightarrow> requireStrings env [''JWT_ACCESS_SECRET'', ''JWT_REFRESH_SECRET''] = Inr ()"
    "run_steps default_steps env = Inr f" "run_steps range_steps f = Inr f"
    "node = ''production'' \<Longrightarrow> production_checks role (env ''AI_GENERATION_ENABLED'' \<noteq> None)
       (case env ''REPORT_GENERATION_QUEUE_NAME'' of Some (EString s) \<Rightarrow> strim s \<noteq> [] | _ \<Rightarrow> False) f = Inr ()"
    using r by (simp_all only: if_True simp_thms)
qed

lemma positive_settled:
  assumes "run_steps default_steps e = Inr f" "(k, d) \<in> set service_defaults \<union> set generation_defaults"
  shows "\<exists>n. env_integer f k = Some n \<and> 0 < n"
proof -
  have "positiveIntegerWithDefault k d \<in> set (map (\<lambda>(k, d). positiveIntegerWithDefault k d) service_defaults) \<union>
      set (map (\<lambda>(k, d). positiveIntegerWithDefault k d) generation_defaults)"
    using assms(2) image_eqI [of "positiveIntegerWithDefault k d" "\<lambda>(k, d). positiveIntegerWithDefault k d" "(k, d)"]
    unfolding set_map by blast
  then have "positiveIntegerWithDefault k d \<in> set default_steps" unfolding default_steps_def set_append by blast
  from defaults_settled(2) [OF assms(1) this]
  obtain v n where v: "f = f(k \<mapsto> EString v)" "js_integer v = Some n" "0 < n" by (rule positiveInteger_cases)
  have "f k = Some (EString v)" using fun_cong [OF v(1), of k] by simp
  with v(2,3) show ?thesis by (simp add: env_integer_def)
qed

lemma boolean_settled:
  assumes "run_steps default_steps e = Inr f" "booleanWithDefault k d \<in> set default_steps"
  shows "\<exists>v. f k = Some (EString v) \<and> bool_string v"
proof -
  obtain v where v: "f = f(k \<mapsto> EString v)" "bool_string v"
    using boolean_cases [OF defaults_settled(2) [OF assms]] .
  have "f k = Some (EString v)" using fun_cong [OF v(1), of k] by simp
  with v(2) show ?thesis by blast
qed

lemma range_settled:
  assumes "run_steps range_steps f = Inr f" "(k, lo, hi) \<in> set request_ranges \<union> set limit_ranges"
  shows "\<exists>n. env_integer f k = Some n \<and> lo \<le> n \<and> n \<le> hi"
proof -
  let ?check = "\<lambda>(k, lo, hi). assertIntegerRange k lo hi"
  have "assertIntegerRange k lo hi \<in> set (map ?check request_ranges) \<union> set (map ?check limit_ranges)"
    using assms(2) image_eqI [of "assertIntegerRange k lo hi" ?check "(k, lo, hi)"] unfolding set_map prod.case by blast
  then have "assertIntegerRange k lo hi \<in> set range_steps" unfolding range_steps_def set_append by blast
  from ranges_settled(2) [OF assms(1) this] show ?thesis by (simp add: assertIntegerRange_ok)
qed

section \<open>The defaults are a configuration\<close>

lemma run_steps_append: "run_steps (xs @ ys) e = bindE (run_steps xs e) (run_steps ys)"
proof (induction xs arbitrary: e)
  case (Cons x xs)
  then show ?case by (cases "x e") simp_all
qed simp

lemma positive_default:
  "e k = None \<Longrightarrow> 0 < d \<Longrightarrow> d < 10 ^ 21 \<Longrightarrow> positiveIntegerWithDefault k d e = Inr (e(k \<mapsto> EString (js_String d)))"
  by (simp add: positiveIntegerWithDefault_def nullish_def js_integer_String_21)

lemma run_positive:
  assumes "list_all (\<lambda>(k, d). 0 < d \<and> d < 10 ^ 21) kds" "distinct (map fst kds)" "\<forall>k \<in> fst ` set kds. e k = None"
  shows "\<exists>f. run_steps (map (\<lambda>(k, d). positiveIntegerWithDefault k d) kds) e = Inr f \<and>
    (\<forall>(k, d) \<in> set kds. f k = Some (EString (js_String d))) \<and> (\<forall>k. k \<notin> fst ` set kds \<longrightarrow> f k = e k)"
  using assms
proof (induction kds arbitrary: e)
  case (Cons kd kds)
  obtain k d where kd: "kd = (k, d)" by (cases kd)
  let ?e = "e(k \<mapsto> EString (js_String d))"
  have "positiveIntegerWithDefault k d e = Inr ?e" using Cons.prems by (intro positive_default) (simp_all add: kd)
  moreover have tail: "list_all (\<lambda>(k, d). 0 < d \<and> d < 10 ^ 21) kds" "distinct (map fst kds)" "\<forall>k \<in> fst ` set kds. ?e k = None"
    using Cons.prems by (auto simp: kd)
  moreover obtain f where f: "run_steps (map (\<lambda>(k, d). positiveIntegerWithDefault k d) kds) ?e = Inr f"
    "\<forall>(k, d) \<in> set kds. f k = Some (EString (js_String d))" "\<forall>k. k \<notin> fst ` set kds \<longrightarrow> f k = ?e k"
    using Cons.IH [of ?e] tail by blast
  moreover have "k \<notin> fst ` set kds" using Cons.prems(2) by (simp add: kd)
  ultimately show ?case by (intro exI [of _ f]) (auto simp: kd)
qed simp

definition text_defaults :: "(string \<times> string) list" where
  "text_defaults = [(''OPENAI_REPORT_MODEL'', ''gpt-5-mini''), (''OPENAI_TRANSCRIPTION_MODEL'', ''gpt-4o-mini-transcribe''),
     (''REPORT_GENERATION_QUEUE_NAME'', ''report-generation'')]"

definition setting_names :: "string list" where
  "setting_names = map fst service_defaults @ map fst text_defaults @ [''OPENAI_MAX_RETRIES''] @ map fst generation_defaults @
     [''AI_GENERATION_ENABLED'', ''ENABLE_DEV_CREDIT_GRANTS'', ''S3_FORCE_PATH_STYLE'']"

lemma setting_names_distinct: "distinct setting_names"
  unfolding setting_names_def service_defaults_def generation_defaults_def text_defaults_def by simp

lemma defaults_positive: "list_all (\<lambda>(k, d). 0 < d \<and> d < 10 ^ 21) service_defaults"
  "list_all (\<lambda>(k, d). 0 < d \<and> d < 10 ^ 21) generation_defaults"
  unfolding service_defaults_def generation_defaults_def by simp_all

lemma defaults_in_range:
  "list_all (\<lambda>(k, lo, hi). case map_of (service_defaults @ generation_defaults) k of
     Some d \<Rightarrow> lo \<le> d \<and> d \<le> hi | None \<Rightarrow> False) (request_ranges @ limit_ranges)"
  by code_simp

lemma js_String_0: "js_String 0 = ''0''"
  by code_simp

lemma text_default: "e k = None \<Longrightarrow> strim d \<noteq> [] \<Longrightarrow> stringWithDefault k d e = Inr (e(k \<mapsto> EString d))"
  by (simp add: stringWithDefault_def nullish_def)

lemma text_defaults_not_blank: "strim ''gpt-5-mini'' \<noteq> []" "strim ''gpt-4o-mini-transcribe'' \<noteq> []" "strim ''report-generation'' \<noteq> []"
  by (simp_all add: strim_def trim_by_def js_white_def)

lemma boolean_default: "e k = None \<or> e k = Some (EString ''false'') \<Longrightarrow> \<exists>v. booleanWithDefault k d e = Inr (e(k \<mapsto> v))"
  by (cases d) (auto simp: booleanWithDefault_def nullish_def)

lemma retries_default:
  "e k = None \<Longrightarrow> nonNegativeIntegerWithDefault k 0 e = Inr (e(k \<mapsto> EString ''0''))"
  using js_integer_String_21 [of 0] by (simp add: nonNegativeIntegerWithDefault_def nullish_def js_String_0)

lemma default_steps_run:
  assumes "\<forall>k \<in> set setting_names - {''AI_GENERATION_ENABLED''}. e k = None"
    "e ''AI_GENERATION_ENABLED'' = None \<or> e ''AI_GENERATION_ENABLED'' = Some (EString ''false'')"
  shows "\<exists>f. run_steps default_steps e = Inr f \<and> f ''OPENAI_MAX_RETRIES'' = Some (EString ''0'') \<and>
    (\<forall>(k, d) \<in> set (service_defaults @ generation_defaults). f k = Some (EString (js_String d)))"
proof -
  let ?pos = "map (\<lambda>(k, d). positiveIntegerWithDefault k d)"
  define S where "S = fst ` set service_defaults"
  define G where "G = fst ` set generation_defaults"
  define T where "T = {''OPENAI_REPORT_MODEL'', ''OPENAI_TRANSCRIPTION_MODEL'', ''REPORT_GENERATION_QUEUE_NAME'', ''OPENAI_MAX_RETRIES''}"
  define B where "B = {''AI_GENERATION_ENABLED'', ''ENABLE_DEV_CREDIT_GRANTS'', ''S3_FORCE_PATH_STYLE''}"
  have names: "set setting_names = S \<union> T \<union> G \<union> B"
    unfolding setting_names_def text_defaults_def set_append set_map S_def G_def T_def B_def by auto
  have disj: "distinct (map fst service_defaults)" "distinct (map fst generation_defaults)"
    "S \<inter> (T \<union> G \<union> B) = {}" "G \<inter> (T \<union> B) = {}" "T \<inter> B = {}"
    using setting_names_distinct
    unfolding setting_names_def text_defaults_def distinct_append set_append set_map S_def G_def T_def B_def by auto
  have kill: "''AI_GENERATION_ENABLED'' \<in> B" by (simp add: B_def)
  have none0: "\<forall>k \<in> S. e k = None" using assms(1) kill disj(3) unfolding names by blast
  obtain f1 where f1: "run_steps (?pos service_defaults) e = Inr f1"
    "\<forall>(k, d) \<in> set service_defaults. f1 k = Some (EString (js_String d))" "\<forall>k. k \<notin> S \<longrightarrow> f1 k = e k"
    using run_positive [OF defaults_positive(1) disj(1), of e] none0 unfolding S_def by blast
  have from_e: "f1 k = e k" if "k \<in> T \<union> G \<union> B" for k
  proof -
    have "k \<notin> S" using that disj(3) by blast
    with f1(3) show ?thesis by simp
  qed
  have none1: "f1 k = None" if "k \<in> T \<union> G" for k
  proof -
    have "k \<in> set setting_names - {''AI_GENERATION_ENABLED''}" using that kill disj(4,5) unfolding names by blast
    moreover have "f1 k = e k" using that by (intro from_e) blast
    ultimately show ?thesis using assms(1) by simp
  qed
  let ?f2 = "f1(''OPENAI_REPORT_MODEL'' \<mapsto> EString ''gpt-5-mini'', ''OPENAI_TRANSCRIPTION_MODEL'' \<mapsto> EString ''gpt-4o-mini-transcribe'',
    ''REPORT_GENERATION_QUEUE_NAME'' \<mapsto> EString ''report-generation'', ''OPENAI_MAX_RETRIES'' \<mapsto> EString ''0'')"
  have f2: "run_steps [stringWithDefault ''OPENAI_REPORT_MODEL'' ''gpt-5-mini'',
      stringWithDefault ''OPENAI_TRANSCRIPTION_MODEL'' ''gpt-4o-mini-transcribe'',
      stringWithDefault ''REPORT_GENERATION_QUEUE_NAME'' ''report-generation'',
      nonNegativeIntegerWithDefault ''OPENAI_MAX_RETRIES'' 0] f1 = Inr ?f2"
    using none1 [of "''OPENAI_REPORT_MODEL''"] none1 [of "''OPENAI_TRANSCRIPTION_MODEL''"]
      none1 [of "''REPORT_GENERATION_QUEUE_NAME''"] none1 [of "''OPENAI_MAX_RETRIES''"]
    by (simp add: T_def text_default text_defaults_not_blank retries_default)
  have none2: "\<forall>k \<in> G. ?f2 k = None"
  proof
    fix k assume "k \<in> G"
    then have "k \<notin> T" "f1 k = None" using disj(4) none1 by blast+
    then show "?f2 k = None" by (simp add: T_def)
  qed
  obtain f3 where f3: "run_steps (?pos generation_defaults) ?f2 = Inr f3"
    "\<forall>(k, d) \<in> set generation_defaults. f3 k = Some (EString (js_String d))" "\<forall>k. k \<notin> G \<longrightarrow> f3 k = ?f2 k"
    using run_positive [OF defaults_positive(2) disj(2), of ?f2] none2 unfolding G_def by blast
  have same3: "f3 k = e k" if "k \<in> B" for k
  proof -
    have "k \<notin> G" "k \<notin> T" using that disj(4,5) by blast+
    then show ?thesis using f3(3) from_e [of k] that by (simp add: T_def)
  qed
  obtain v1 v2 v3 where f4: "run_steps [booleanWithDefault ''AI_GENERATION_ENABLED'' True, booleanWithDefault ''ENABLE_DEV_CREDIT_GRANTS'' False,
      booleanWithDefault ''S3_FORCE_PATH_STYLE'' False] f3 =
      Inr (f3(''AI_GENERATION_ENABLED'' \<mapsto> v1, ''ENABLE_DEV_CREDIT_GRANTS'' \<mapsto> v2, ''S3_FORCE_PATH_STYLE'' \<mapsto> v3))"
  proof -
    have "''ENABLE_DEV_CREDIT_GRANTS'' \<in> B" "''S3_FORCE_PATH_STYLE'' \<in> B" by (simp_all add: B_def)
    with same3 assms kill names
    have none: "f3 ''AI_GENERATION_ENABLED'' = None \<or> f3 ''AI_GENERATION_ENABLED'' = Some (EString ''false'')"
      "f3 ''ENABLE_DEV_CREDIT_GRANTS'' = None" "f3 ''S3_FORCE_PATH_STYLE'' = None"
      by simp_all
    obtain v1 where v1: "booleanWithDefault ''AI_GENERATION_ENABLED'' True f3 = Inr (f3(''AI_GENERATION_ENABLED'' \<mapsto> v1))"
      using boolean_default [of f3 "''AI_GENERATION_ENABLED''"] none(1) by auto
    let ?f = "f3(''AI_GENERATION_ENABLED'' \<mapsto> v1)"
    obtain v2 where v2: "booleanWithDefault ''ENABLE_DEV_CREDIT_GRANTS'' False ?f = Inr (?f(''ENABLE_DEV_CREDIT_GRANTS'' \<mapsto> v2))"
      using boolean_default [of ?f "''ENABLE_DEV_CREDIT_GRANTS''"] none(2) by auto
    let ?f = "?f(''ENABLE_DEV_CREDIT_GRANTS'' \<mapsto> v2)"
    obtain v3 where v3: "booleanWithDefault ''S3_FORCE_PATH_STYLE'' False ?f = Inr (?f(''S3_FORCE_PATH_STYLE'' \<mapsto> v3))"
      using boolean_default [of ?f "''S3_FORCE_PATH_STYLE''"] none(3) by auto
    show thesis by (rule that [of v1 v2 v3]) (simp only: run_steps.simps v1 v2 v3 bindE_simps)
  qed
  let ?f = "f3(''AI_GENERATION_ENABLED'' \<mapsto> v1, ''ENABLE_DEV_CREDIT_GRANTS'' \<mapsto> v2, ''S3_FORCE_PATH_STYLE'' \<mapsto> v3)"
  have run: "run_steps default_steps e = Inr ?f"
    unfolding default_steps_def run_steps_append f1(1) bindE_simps f2 f3(1) f4 by (rule refl)
  have same: "?f k = f3 k" if "k \<notin> B" for k using that by (simp add: B_def)
  have "?f k = Some (EString (js_String d))" if "(k, d) \<in> set generation_defaults" for k d
  proof -
    have "k \<in> G" unfolding G_def using that by force
    then have "k \<notin> B" using disj(4) by blast
    from same [OF this] show ?thesis using f3(2) that by auto
  qed
  moreover have "?f k = Some (EString (js_String d))" if "(k, d) \<in> set service_defaults" for k d
  proof -
    have "k \<in> S" unfolding S_def using that by force
    then have "k \<notin> B" "k \<notin> G" "k \<notin> T" using disj(3) by blast+
    with same [OF this(1)] f3(3) have "?f k = f1 k" by (simp add: T_def)
    then show ?thesis using f1(2) that by auto
  qed
  moreover have "?f ''OPENAI_MAX_RETRIES'' = Some (EString ''0'')"
  proof -
    have "''OPENAI_MAX_RETRIES'' \<in> T" by (simp add: T_def)
    then have "''OPENAI_MAX_RETRIES'' \<notin> G" "''OPENAI_MAX_RETRIES'' \<notin> B" using disj(4,5) by blast+
    with same f3(3) show ?thesis by simp
  qed
  ultimately show ?thesis using run by auto
qed

lemma range_steps_run:
  assumes "\<forall>(k, d) \<in> set (service_defaults @ generation_defaults). f k = Some (EString (js_String d))"
    "f ''OPENAI_MAX_RETRIES'' = Some (EString ''0'')"
  shows "run_steps range_steps f = Inr f"
proof (rule run_steps_id)
  have val: "env_integer f k = Some d" if kd: "(k, d) \<in> set (service_defaults @ generation_defaults)" for k d
  proof -
    have "0 < d" "d < 10 ^ 21" using kd defaults_positive unfolding list_all_iff by auto
    moreover have "f k = Some (EString (js_String d))" using assms(1) kd by blast
    ultimately show ?thesis by (simp add: env_integer_def js_integer_String_21)
  qed
  have range: "assertIntegerRange k lo hi f = Inr f" if mem: "(k, lo, hi) \<in> set (request_ranges @ limit_ranges)" for k lo hi
  proof -
    obtain d where "map_of (service_defaults @ generation_defaults) k = Some d" "lo \<le> d" "d \<le> hi"
      using bspec [OF defaults_in_range [unfolded list_all_iff] mem]
      by (cases "map_of (service_defaults @ generation_defaults) k") (simp_all del: map_of_append)
    then show ?thesis using val [OF map_of_SomeD [of "service_defaults @ generation_defaults" k d]] by (simp add: assertIntegerRange_ok)
  qed
  have "(''OPENAI_FILE_TTL_SECONDS'', 3600) \<in> set generation_defaults" "(''DOWNLOAD_URL_TTL_SECONDS'', 600) \<in> set generation_defaults"
    "(''OPENAI_REQUEST_TIMEOUT_MS'', 180000) \<in> set service_defaults"
    unfolding generation_defaults_def service_defaults_def by simp_all
  then have v: "env_integer f ''OPENAI_FILE_TTL_SECONDS'' = Some 3600" "env_integer f ''DOWNLOAD_URL_TTL_SECONDS'' = Some 600"
    "env_integer f ''OPENAI_REQUEST_TIMEOUT_MS'' = Some 180000" using val by simp_all
  have "env_integer f ''OPENAI_MAX_RETRIES'' = Some 0"
    using js_integer_String_21 [of 0] by (simp add: env_integer_def assms(2) js_String_0)
  with v have checks: "check_file_ttl f = Inr f" "check_max_retries f = Inr f" "check_url_covers_request f = Inr f"
    by (simp_all add: check_file_ttl_def check_max_retries_def check_url_covers_request_def)
  fix s assume "s \<in> set range_steps"
  then have "s = check_file_ttl \<or> s = check_max_retries \<or> s = check_url_covers_request \<or>
      s \<in> (\<lambda>(k, lo, hi). assertIntegerRange k lo hi) ` set (request_ranges @ limit_ranges)"
    unfolding range_steps_def set_append list.set set_map image_Un Un_iff insert_iff empty_iff by argo
  then show "s f = Inr f"
  proof (elim disjE imageE)
    fix x assume "s = (\<lambda>(k, lo, hi). assertIntegerRange k lo hi) x" "x \<in> set (request_ranges @ limit_ranges)"
    then show ?thesis using range [of "fst x" "fst (snd x)" "snd (snd x)"] by (simp split: prod.splits)
  qed (simp_all only: checks)
qed

section \<open>The production checks\<close>

definition present :: "environment \<Rightarrow> string \<Rightarrow> bool" where
  "present f k \<longleftrightarrow> (\<exists>s. f k = Some (EString s) \<and> strim s \<noteq> [])"

definition generates :: "string \<Rightarrow> environment \<Rightarrow> bool" where
  "generates role f \<longleftrightarrow> role = ''worker'' \<or> f ''AI_GENERATION_ENABLED'' = Some (EString ''true'')"

definition all_present :: "environment \<Rightarrow> string list \<Rightarrow> bool" where
  "all_present f ks = list_all (present f) ks"

lemma requireStrings_present: "requireStrings e ks = Inr u \<longleftrightarrow> all_present e ks"
  by (simp add: requireStrings_ok list_all_iff present_def all_present_def)

lemma production_ok:
  "production_checks role g q f = Inr u \<longleftrightarrow>
     g \<and> (generates role f \<longrightarrow> q) \<and>
     all_present f [''S3_ENDPOINT'', ''S3_REGION'', ''S3_BUCKET'', ''S3_ACCESS_KEY_ID'',
        ''S3_SECRET_ACCESS_KEY'', ''REPORT_GENERATION_QUEUE_NAME''] \<and>
     (generates role f \<longrightarrow>
        all_present f [''REDIS_URL'', ''OPENAI_API_KEY'', ''OPENAI_REPORT_MODEL'', ''OPENAI_TRANSCRIPTION_MODEL'']) \<and>
     (role = ''api'' \<longrightarrow> all_present f [''RESEND_API_KEY'', ''EMAIL_FROM''] \<and>
        (\<exists>port n. f ''PORT'' = Some (EString port) \<and> strim port \<noteq> [] \<and> js_integer port = Some n \<and> 0 < n) \<and>
        (\<exists>v. f ''SWAGGER_ENABLED'' = Some (EString v) \<and> strim v \<noteq> [] \<and> v \<in> {''true'', ''false''}) \<and>
        (\<forall>n. env_integer f ''REGISTRATION_RESEND_COOLDOWN_SECONDS'' = Some n \<longrightarrow> 60 \<le> n))"
proof -
  have g: "(if generates role f then requireStrings f ks else Inr ()) = Inr x \<longleftrightarrow> (generates role f \<longrightarrow> all_present f ks)" for ks x
    by (simp add: requireStrings_present)
  have c: "(case env_integer f k of Some n \<Rightarrow> \<not> n < 60 | None \<Rightarrow> True) \<longleftrightarrow> (\<forall>n. env_integer f k = Some n \<longrightarrow> 60 \<le> n)" for k
    by (auto split: option.splits)
  have p: "(case js_integer t of Some n \<Rightarrow> 0 < n | None \<Rightarrow> False) \<longleftrightarrow> (\<exists>n. js_integer t = Some n \<and> 0 < n)" for t
    by (cases "js_integer t") simp_all
  show ?thesis
    unfolding production_checks_def Let_def generates_def [symmetric] c p
    by (cases "role = ''api''") (auto simp add: result_iffs g requireStrings_present requireString_ok simp del: requireStrings.simps)
qed

lemma production_again:
  assumes "production_checks role g q f = Inr ()"
  shows "production_checks role True
      (case f ''REPORT_GENERATION_QUEUE_NAME'' of Some (EString s) \<Rightarrow> strim s \<noteq> [] | _ \<Rightarrow> False) f = Inr ()"
proof -
  have "present f ''REPORT_GENERATION_QUEUE_NAME''" using assms unfolding production_ok all_present_def by simp
  then have "(case f ''REPORT_GENERATION_QUEUE_NAME'' of Some (EString s) \<Rightarrow> strim s \<noteq> [] | _ \<Rightarrow> False) = True"
    by (auto simp: present_def)
  with assms show ?thesis unfolding production_ok by simp
qed

text \<open>The required names and nothing else: every setting takes its default.\<close>

lemma defaults_valid:
  assumes "env ''DATABASE_URL'' = Some (EString db)" "strim db \<noteq> []" "env ''NODE_ENV'' = Some (EString node)"
    "strim node \<noteq> []" "env ''FASTREP_PROCESS_ROLE'' = Some (EString role)" "role = ''api'' \<or> role = ''worker''"
    "role = ''api'' \<Longrightarrow> all_present env [''JWT_ACCESS_SECRET'', ''JWT_REFRESH_SECRET'']"
    "\<forall>k \<in> set setting_names - {''AI_GENERATION_ENABLED''}. env k = None"
    "env ''AI_GENERATION_ENABLED'' = None \<or> env ''AI_GENERATION_ENABLED'' = Some (EString ''false'')"
    "node = ''production'' \<Longrightarrow> role = ''api'' \<and> env ''AI_GENERATION_ENABLED'' = Some (EString ''false'') \<and>
       all_present env [''S3_ENDPOINT'', ''S3_REGION'', ''S3_BUCKET'', ''S3_ACCESS_KEY_ID'', ''S3_SECRET_ACCESS_KEY'',
         ''RESEND_API_KEY'', ''EMAIL_FROM''] \<and> env ''PORT'' = Some (EString (js_String 3000)) \<and>
       env ''SWAGGER_ENABLED'' = Some (EString ''false'')"
  shows "\<exists>f. validateEnvironment env = Inr f"
proof -
  have e: "env(''FASTREP_PROCESS_ROLE'' \<mapsto> EString role) = env" using assms(5) by auto
  obtain f where f: "run_steps default_steps env = Inr f" "run_steps range_steps f = Inr f"
    "\<forall>(k, d) \<in> set (service_defaults @ generation_defaults). f k = Some (EString (js_String d))"
    using default_steps_run [OF assms(8,9)] range_steps_run by blast
  have keep: "present f k" if "present env k" for k
    using that keepsD [OF defaults_settled(1) [OF f(1)]] by (auto simp: present_def)
  have "stringWithDefault ''REPORT_GENERATION_QUEUE_NAME'' ''report-generation'' f = Inr f"
    by (rule defaults_settled(2) [OF f(1)]) (simp add: default_steps_def)
  then obtain v where v: "f = f(''REPORT_GENERATION_QUEUE_NAME'' \<mapsto> EString v)" "strim v \<noteq> []" by (rule text_cases)
  have queue: "present f ''REPORT_GENERATION_QUEUE_NAME''"
    using v(2) fun_cong [OF v(1), of "''REPORT_GENERATION_QUEUE_NAME''"] by (simp add: present_def)
  have "(''REGISTRATION_RESEND_COOLDOWN_SECONDS'', 60) \<in> set (service_defaults @ generation_defaults)"
    unfolding service_defaults_def by simp
  with f(3) have "f ''REGISTRATION_RESEND_COOLDOWN_SECONDS'' = Some (EString (js_String 60))" by blast
  then have cooldown: "env_integer f ''REGISTRATION_RESEND_COOLDOWN_SECONDS'' = Some 60"
    by (simp add: env_integer_def js_integer_String_21)
  have production: "production_checks role True q f = Inr ()" if p: "node = ''production''" for q
  proof -
    note p = assms(10) [OF p]
    note k = keepsD [OF defaults_settled(1) [OF f(1)]]
    have "strim (js_String 3000) \<noteq> []" "strim ''false'' \<noteq> []"
      by (simp_all add: strim_def trim_by_def js_white_def js_String_def dec.simps)
    moreover have "\<not> generates role f" using p k [of "''AI_GENERATION_ENABLED''"] by (simp add: generates_def)
    ultimately show ?thesis
      using p k [of "''PORT''"] k [of "''SWAGGER_ENABLED''"] keep queue cooldown js_integer_String_21 [of 3000]
      unfolding production_ok all_present_def by simp
  qed
  have secrets: "role = ''api'' \<Longrightarrow> requireStrings env [''JWT_ACCESS_SECRET'', ''JWT_REFRESH_SECRET''] = Inr ()"
    using assms(7) unfolding requireStrings_present .
  have "validate_settings node role env = Inr f"
  proof (cases "node = ''production''")
    case True
    with assms(10) have "env ''AI_GENERATION_ENABLED'' \<noteq> None" by simp
    with True production secrets f(1,2) show ?thesis by (simp add: validate_settings_def Let_def)
  next
    case False
    with secrets f(1,2) show ?thesis by (simp add: validate_settings_def Let_def)
  qed
  with assms(1-6) e show ?thesis
    by (auto simp: validateEnvironment_def requireString_def nullish_def)
qed

definition demo_env :: "string \<Rightarrow> environment" where
  "demo_env node = map_of [(''DATABASE_URL'', EString ''db''), (''NODE_ENV'', EString node), (''FASTREP_PROCESS_ROLE'', EString ''api''),
     (''JWT_ACCESS_SECRET'', EString ''a''), (''JWT_REFRESH_SECRET'', EString ''b''), (''AI_GENERATION_ENABLED'', EString ''false''),
     (''S3_ENDPOINT'', EString ''e''), (''S3_REGION'', EString ''r''), (''S3_BUCKET'', EString ''b''),
     (''S3_ACCESS_KEY_ID'', EString ''k''), (''S3_SECRET_ACCESS_KEY'', EString ''s''), (''RESEND_API_KEY'', EString ''k''),
     (''EMAIL_FROM'', EString ''f''), (''PORT'', EString (js_String 3000)), (''SWAGGER_ENABLED'', EString ''false'')]"

lemma demo_env_valid: "\<exists>f. validateEnvironment (demo_env ''production'') = Inr f"
proof (rule defaults_valid [where db = "''db''" and node = "''production''" and role = "''api''"])
  have "list_all (\<lambda>k. k = ''AI_GENERATION_ENABLED'' \<or> demo_env ''production'' k = None) setting_names"
    unfolding demo_env_def setting_names_def service_defaults_def generation_defaults_def text_defaults_def by simp
  then show "\<forall>k \<in> set setting_names - {''AI_GENERATION_ENABLED''}. demo_env ''production'' k = None"
    unfolding list_all_iff by auto
qed (simp_all add: all_present_def demo_env_def present_def strim_def trim_by_def js_white_def)

section \<open>Properties\<close>

definition positive_setting_of :: "environment \<Rightarrow> string \<Rightarrow> bool" where
  "positive_setting_of f k \<longleftrightarrow> (\<exists>n. env_integer f k = Some n \<and> 0 < n)"

definition switch_of :: "environment \<Rightarrow> string \<Rightarrow> bool" where
  "switch_of f k \<longleftrightarrow> f k = Some (EString ''true'') \<or> f k = Some (EString ''false'')"

text \<open>
  A validated environment is well typed: all forty limits are positive integers and the three switches
  are \<open>true\<close> or \<open>false\<close>, whatever the process was started with.
\<close>

lemma validated_settings_well_typed:
  assumes "validateEnvironment env = Inr f"
  shows "list_all (positive_setting_of f) (map fst (service_defaults @ generation_defaults)) \<and>
    list_all (switch_of f) [''AI_GENERATION_ENABLED'', ''ENABLE_DEV_CREDIT_GRANTS'', ''S3_FORCE_PATH_STYLE'']"
proof -
  obtain node role where "validate_settings node role (env(''FASTREP_PROCESS_ROLE'' \<mapsto> EString role)) = Inr f"
    using assms by (rule validate_cases)
  note d = validate_settings_cases(2) [OF this]
  have "positive_setting_of f (fst kd)" if "kd \<in> set (service_defaults @ generation_defaults)" for kd
    using positive_settled [OF d, of "fst kd" "snd kd"] that by (auto simp: positive_setting_of_def)
  then have "\<forall>k \<in> set (map fst (service_defaults @ generation_defaults)). positive_setting_of f k"
    unfolding set_map by blast
  moreover have "switch_of f k" if "booleanWithDefault k x \<in> set default_steps" for k x
    using boolean_settled [OF d that] by (auto simp: switch_of_def bool_string_def)
  moreover have "booleanWithDefault ''AI_GENERATION_ENABLED'' True \<in> set default_steps"
    "booleanWithDefault ''ENABLE_DEV_CREDIT_GRANTS'' False \<in> set default_steps"
    "booleanWithDefault ''S3_FORCE_PATH_STYLE'' False \<in> set default_steps"
    unfolding default_steps_def by simp_all
  ultimately show ?thesis unfolding list_all_iff list.set by blast
qed

lemma validated_settings_well_typed_witness:
  "\<exists>f. validateEnvironment (demo_env ''production'') = Inr f \<and>
    list_all (positive_setting_of f) (map fst (service_defaults @ generation_defaults))"
  using demo_env_valid validated_settings_well_typed by blast



text \<open>
  Validation is idempotent: what it returns passes again unchanged, so the API, the worker and the
  administrative command may each validate an environment another of them has filled in.
\<close>

lemma validation_is_idempotent:
  assumes "validateEnvironment env = Inr f"
  shows "validateEnvironment f = Inr f"
proof -
  obtain node role where v: "env ''NODE_ENV'' = Some (EString node)" "strim node \<noteq> []" "role = ''api'' \<or> role = ''worker''"
    "\<exists>s. env ''DATABASE_URL'' = Some (EString s) \<and> strim s \<noteq> []"
    "validate_settings node role (env(''FASTREP_PROCESS_ROLE'' \<mapsto> EString role)) = Inr f"
    "nullish env ''FASTREP_PROCESS_ROLE'' (EString ''api'') = EString role"
    using assms by (rule validate_cases)
  let ?env0 = "env(''FASTREP_PROCESS_ROLE'' \<mapsto> EString role)"
  note s = validate_settings_cases [OF v(5)]
  have k0: "keeps ?env0 f" by (rule defaults_settled(1) [OF s(2)])
  have role: "f ''FASTREP_PROCESS_ROLE'' = Some (EString role)" by (rule keepsD [OF k0]) simp
  have node: "f ''NODE_ENV'' = Some (EString node)" by (rule keepsD [OF k0]) (simp add: v(1))
  obtain db where db: "f ''DATABASE_URL'' = Some (EString db)" "strim db \<noteq> []"
    using v(4) keepsD [OF k0, of "''DATABASE_URL''"] by auto
  have again: "run_steps default_steps f = Inr f" by (rule run_steps_id) (rule defaults_settled(2) [OF s(2)])
  have secrets: "requireStrings f [''JWT_ACCESS_SECRET'', ''JWT_REFRESH_SECRET''] = Inr ()" if "role = ''api''"
    using s(1) [OF that] keepsD [OF k0] unfolding requireStrings_ok by blast
  have on: "booleanWithDefault ''AI_GENERATION_ENABLED'' True \<in> set default_steps" unfolding default_steps_def by simp
  have explicit: "f ''AI_GENERATION_ENABLED'' \<noteq> None" using boolean_settled [OF s(2) on] by auto
  have production: "production_checks role True
      (case f ''REPORT_GENERATION_QUEUE_NAME'' of Some (EString s) \<Rightarrow> strim s \<noteq> [] | _ \<Rightarrow> False) f = Inr ()"
    if "node = ''production''"
    using production_again [OF s(4) [OF that]] .
  have "validate_settings node role f = Inr f"
    using secrets production explicit by (simp add: validate_settings_def Let_def again s(3))
  moreover have "f(''FASTREP_PROCESS_ROLE'' \<mapsto> EString role) = f" using role by auto
  ultimately show ?thesis
    using role node db v(2,3) by (auto simp: validateEnvironment_def requireString_def nullish_def)
qed

lemma validation_is_idempotent_witness:
  "\<exists>f. validateEnvironment (demo_env ''production'') = Inr f \<and> validateEnvironment f = Inr f"
  using demo_env_valid validation_is_idempotent by blast

text \<open>
  A production API never starts without what it needs: signing secrets, the storage and mail settings, a
  real port, a registration cooldown of a minute, and, when it may start generations, the explicit queue, Redis
  and provider settings.
\<close>

lemma production_api_is_configured:
  assumes "validateEnvironment env = Inr f" "env ''NODE_ENV'' = Some (EString ''production'')"
    "nullish env ''FASTREP_PROCESS_ROLE'' (EString ''api'') = EString ''api''"
  shows "list_all (present f) [''JWT_ACCESS_SECRET'', ''JWT_REFRESH_SECRET'', ''S3_ENDPOINT'', ''S3_REGION'', ''S3_BUCKET'',
      ''S3_ACCESS_KEY_ID'', ''S3_SECRET_ACCESS_KEY'', ''RESEND_API_KEY'', ''EMAIL_FROM''] \<and>
    (\<exists>n. env_integer f ''PORT'' = Some n \<and> 0 < n) \<and>
    (\<exists>n. env_integer f ''REGISTRATION_RESEND_COOLDOWN_SECONDS'' = Some n \<and> 60 \<le> n) \<and>
    (f ''AI_GENERATION_ENABLED'' = Some (EString ''true'') \<longrightarrow>
       list_all (present f) [''REDIS_URL'', ''OPENAI_API_KEY'', ''OPENAI_REPORT_MODEL'', ''OPENAI_TRANSCRIPTION_MODEL''])"
proof -
  obtain node role where v: "env ''NODE_ENV'' = Some (EString node)" "nullish env ''FASTREP_PROCESS_ROLE'' (EString ''api'') = EString role"
    "validate_settings node role (env(''FASTREP_PROCESS_ROLE'' \<mapsto> EString role)) = Inr f"
    using assms(1) by (rule validate_cases)
  have r: "node = ''production''" "role = ''api''" using v(1,2) assms(2,3) by simp_all
  note s = validate_settings_cases [OF v(3)]
  have k: "keeps (env(''FASTREP_PROCESS_ROLE'' \<mapsto> EString role)) f" by (rule defaults_settled(1) [OF s(2)])
  have secrets: "list_all (present f) [''JWT_ACCESS_SECRET'', ''JWT_REFRESH_SECRET'']"
    using s(1) [OF r(2)] keepsD [OF k] unfolding requireStrings_present all_present_def list_all_iff present_def by blast
  have "(''REGISTRATION_RESEND_COOLDOWN_SECONDS'', 60) \<in> set service_defaults \<union> set generation_defaults"
    unfolding service_defaults_def by simp
  from positive_settled [OF s(2) this]
  obtain n where n: "env_integer f ''REGISTRATION_RESEND_COOLDOWN_SECONDS'' = Some n" by blast
  note p = s(4) [OF r(1), unfolded r(2) production_ok all_present_def]
  have "\<exists>n. env_integer f ''PORT'' = Some n \<and> 0 < n" using p by (auto simp: env_integer_def)
  then show ?thesis using p secrets n by (simp add: generates_def)
qed

lemma production_api_is_configured_witness:
  "\<exists>f. validateEnvironment (demo_env ''production'') = Inr f \<and> (\<exists>n. env_integer f ''PORT'' = Some n \<and> 0 < n)"
  using demo_env_valid production_api_is_configured [of "demo_env ''production''"] by (auto simp: demo_env_def nullish_def)

end
