(* ===== verification/Auth.thy ===== *)
theory Auth
  imports Schema Entitlements Environment Storage
begin

text \<open>
  \<open>src/auth/auth.service.ts\<close>, \<open>src/auth/access-token.guard.ts\<close> and \<open>src/users/users.service.ts\<close>:
  registration with a code sent by mail, sessions with rotating refresh tokens, and the reset of a password.
  Argon2 and the JWT library are a parameter, the record \<open>crypto\<close>. \<open>env n\<close> is what other requests commit
  before the \<open>n\<close>th awaited call of a handler; PostgreSQL's default isolation shows it to the statements that
  follow. A transaction that raises leaves what \<open>env\<close> committed and nothing of its own; \<open>fault\<close> is an error
  the database raises for the whole transaction. The hash functions themselves do not fail here.
\<close>

section \<open>Cryptography and randomness\<close>

text \<open>The payload of a token; a claim that is absent or no string is \<open>None\<close>.\<close>

record claims =
  jc_sub :: "string option"
  jc_jti :: "string option"
  jc_type :: "string option"

record token_options =
  to_secret :: string
  to_issuer :: string
  to_audience :: string

text \<open>
  \<open>cr_hash salt v\<close> and \<open>cr_verify\<close> are \<open>argon2.hash\<close> and \<open>argon2.verify\<close> (\<open>None\<close> when it throws), \<open>cr_sign\<close> is
  \<open>signAsync\<close> with the lifetime in seconds and the time of signing, \<open>cr_verifyToken\<close> is \<open>verifyAsync\<close> at a time;
  the last two are \<open>None\<close> when they reject.
\<close>

record crypto =
  cr_hash :: "string \<Rightarrow> utext \<Rightarrow> string"
  cr_verify :: "string \<Rightarrow> utext \<Rightarrow> bool option"
  cr_sign :: "token_options \<Rightarrow> int \<Rightarrow> int \<Rightarrow> claims \<Rightarrow> string option"
  cr_verifyToken :: "token_options \<Rightarrow> int \<Rightarrow> string \<Rightarrow> claims option"

text \<open>What a request draws: identifiers (\<open>randomUUID\<close> or a column default), a number below a million, salts.\<close>

record draws =
  dr_userId :: string
  dr_tokenId :: string
  dr_rowId :: string
  dr_code :: nat
  dr_salt1 :: string
  dr_salt2 :: string

text \<open>\<open>ar_later\<close> is the clock at the end of the request, \<open>ar_mailFails\<close> whether the mail service throws.\<close>

record auth_request =
  ar_config :: environment
  ar_now :: int
  ar_later :: int
  ar_mailFails :: bool

definition ACCESS_TOKEN_TTL_SECONDS :: int where
  "ACCESS_TOKEN_TTL_SECONDS = 15 * 60"

definition REFRESH_TOKEN_TTL_SECONDS :: int where
  "REFRESH_TOKEN_TTL_SECONDS = 30 * 24 * 60 * 60"

definition JWT_ISSUER :: string where "JWT_ISSUER = ''fastrep-api''"

definition JWT_AUDIENCE :: string where "JWT_AUDIENCE = ''fastrep-mobile''"

definition verifyHash :: "crypto \<Rightarrow> string \<Rightarrow> utext \<Rightarrow> bool" where
  "verifyHash C hash v = (case cr_verify C hash v of None \<Rightarrow> False | Some b \<Rightarrow> b)"

definition generateSixDigitCode :: "nat \<Rightarrow> string" where
  "generateSixDigitCode n = (let s = dec n in replicate (6 - length s) (CHR ''0'') @ s)"

text \<open>\<open>configService.get\<close> on a validated environment; \<open>getOrThrow\<close> throws when the name is missing.\<close>

definition getPositiveInteger :: "environment \<Rightarrow> string \<Rightarrow> int \<Rightarrow> int" where
  "getPositiveInteger config key fallback =
     (case nullish config key (ENumber fallback) of
        EString s \<Rightarrow> (case js_integer s of Some n \<Rightarrow> if n > 0 then n else fallback | None \<Rightarrow> fallback)
      | ENumber n \<Rightarrow> if n > 0 then n else fallback
      | _ \<Rightarrow> fallback)"

definition getOrThrow :: "environment \<Rightarrow> string \<Rightarrow> string result" where
  "getOrThrow config key =
     (case config key of
        Some (EString s) \<Rightarrow> Inr s
      | _ \<Rightarrow> Inl (PlainError (''Configuration key \"'' @ key @ ''\" does not exist'')))"

record registration_policy =
  po_codeTtlMinutes :: int
  po_maxAttempts :: int
  po_resendCooldownSeconds :: int
  po_pendingTtlHours :: int

definition getRegistrationPolicy :: "environment \<Rightarrow> registration_policy" where
  "getRegistrationPolicy config =
     \<lparr>po_codeTtlMinutes = getPositiveInteger config ''REGISTRATION_CODE_TTL_MINUTES'' 15,
      po_maxAttempts = getPositiveInteger config ''REGISTRATION_MAX_ATTEMPTS'' 5,
      po_resendCooldownSeconds = getPositiveInteger config ''REGISTRATION_RESEND_COOLDOWN_SECONDS'' 60,
      po_pendingTtlHours = getPositiveInteger config ''PENDING_REGISTRATION_TTL_HOURS'' 24\<rparr>"

definition addMinutes :: "int \<Rightarrow> int \<Rightarrow> int" where
  "addMinutes date minutes = date + minutes * 60000"

definition addHours :: "int \<Rightarrow> int \<Rightarrow> int" where
  "addHours date hours = date + hours * 60 * 60000"

definition getRefreshExpiration :: "int \<Rightarrow> int" where
  "getRefreshExpiration now = now + REFRESH_TOKEN_TTL_SECONDS * 1000"

section \<open>Errors\<close>

definition user_exists :: exn where
  "user_exists = HttpError 409 [] ''A user with this email already exists'' []"

definition user_not_found :: exn where
  "user_not_found = HttpError 404 [] ''User not found'' []"

definition invalid_registration_code :: exn where
  "invalid_registration_code = HttpError 400 [] ''Invalid or expired registration verification code'' []"

definition invalid_reset_code :: exn where
  "invalid_reset_code = HttpError 400 [] ''Invalid or expired password reset code'' []"

definition registration_unavailable :: exn where
  "registration_unavailable = HttpError 503 [] ''Registration is temporarily unavailable'' []"

definition registration_mail_unavailable :: exn where
  "registration_mail_unavailable = HttpError 503 [] ''Registration email is temporarily unavailable'' []"

definition reset_unavailable :: exn where
  "reset_unavailable = HttpError 503 [] ''Password reset is temporarily unavailable'' []"

definition reset_cooldown :: exn where
  "reset_cooldown = HttpError 429 [] ''Please wait before requesting another code'' []"

definition unauthorized :: "string \<Rightarrow> exn" where
  "unauthorized message = HttpError 401 [] message []"

definition registrationCooldownException :: "int \<Rightarrow> exn" where
  "registrationCooldownException retryAfterSeconds =
     HttpError 429 ''REGISTRATION_CODE_COOLDOWN'' ''Please wait before requesting another registration code''
       [(''retryAfterSeconds'', retryAfterSeconds)]"

fun has_status :: "nat \<Rightarrow> exn \<Rightarrow> bool" where
  "has_status s (HttpError t _ _ _) = (t = s)"
| "has_status s _ = False"

fun isWriteConflict :: "exn \<Rightarrow> bool" where
  "isWriteConflict (PrismaError code) = (code \<in> {''P2002'', ''P2034''})"
| "isWriteConflict _ = False"

section \<open>Cooldown\<close>

text \<open>\<open>Math.ceil(x / 1000)\<close>.\<close>

definition ceil_thousand :: "int \<Rightarrow> int" where
  "ceil_thousand x = - ((- x) div 1000)"

definition registrationResendAvailableInSeconds :: "int \<Rightarrow> int \<Rightarrow> int \<Rightarrow> int" where
  "registrationResendAvailableInSeconds lastSentAt now cooldownSeconds =
     max 0 (ceil_thousand (lastSentAt + cooldownSeconds * 1000 - now))"

definition enforceRegistrationCooldown :: "int \<Rightarrow> int \<Rightarrow> int \<Rightarrow> unit result" where
  "enforceRegistrationCooldown lastSentAt now cooldownSeconds =
     (let retryAfterSeconds = registrationResendAvailableInSeconds lastSentAt now cooldownSeconds
      in guardE (\<not> retryAfterSeconds > 0) (registrationCooldownException retryAfterSeconds))"

record pending_result =
  pe_email :: string
  pe_verificationRequired :: bool
  pe_resendAvailableInSeconds :: int

definition registrationPendingResult :: "string \<Rightarrow> int \<Rightarrow> int \<Rightarrow> int \<Rightarrow> pending_result" where
  "registrationPendingResult email lastSentAt now cooldownSeconds =
     \<lparr>pe_email = email, pe_verificationRequired = True,
      pe_resendAvailableInSeconds = registrationResendAvailableInSeconds lastSentAt now cooldownSeconds\<rparr>"

section \<open>Users and rows\<close>

record public_user =
  pu_id :: string
  pu_fullName :: utext
  pu_email :: string
  pu_language :: string
  pu_timezone :: "string option"
  pu_photoUrl :: "string option"
  pu_isPremium :: bool
  pu_createdAt :: int

definition publicUserSelect :: "user_row \<Rightarrow> public_user" where
  "publicUserSelect u =
     \<lparr>pu_id = usr_id u, pu_fullName = usr_fullName u, pu_email = usr_email u, pu_language = usr_language u,
      pu_timezone = usr_timezone u, pu_photoUrl = usr_photoUrl u, pu_isPremium = usr_isPremium u,
      pu_createdAt = usr_createdAt u\<rparr>"

definition findByEmail :: "string \<Rightarrow> db \<Rightarrow> user_row option" where
  "findByEmail email d = find_first (\<lambda>u. usr_email u = email) (users d)"

definition findById :: "string \<Rightarrow> db \<Rightarrow> public_user option" where
  "findById i d = map_option publicUserSelect (find_first (\<lambda>u. usr_id u = i) (users d))"

definition create_user :: "user_row \<Rightarrow> db \<Rightarrow> exn + db" where
  "create_user u d =
     (if exists_where (\<lambda>v. usr_id v = usr_id u \<or> usr_email v = usr_email u) (users d)
      then Inl (PrismaError ''P2002'') else Inr (d\<lparr>users := users d @ [u]\<rparr>))"

text \<open>\<open>user.update\<close> by id; the columns it changes here are in no unique index.\<close>

definition update_user :: "string \<Rightarrow> (user_row \<Rightarrow> user_row) \<Rightarrow> db \<Rightarrow> exn + db" where
  "update_user i f d =
     (if exists_where (\<lambda>u. usr_id u = i) (users d)
      then Inr (d\<lparr>users := update_where (\<lambda>u. usr_id u = i) f (users d)\<rparr>)
      else Inl (PrismaError ''P2025''))"

definition create_refresh :: "refresh_row \<Rightarrow> db \<Rightarrow> exn + db" where
  "create_refresh t d =
     (if exists_where (\<lambda>s. rt_id s = rt_id t) (refreshTokens d) then Inl (PrismaError ''P2002'')
      else if \<not> exists_where (\<lambda>u. usr_id u = rt_userId t) (users d) then Inl (PrismaError ''P2003'')
      else Inr (d\<lparr>refreshTokens := refreshTokens d @ [t]\<rparr>))"

definition create_pending :: "pending_row \<Rightarrow> db \<Rightarrow> exn + db" where
  "create_pending p d =
     (if exists_where (\<lambda>q. pr_id q = pr_id p \<or> pr_email q = pr_email p) (pendingRegistrations d)
      then Inl (PrismaError ''P2002'')
      else Inr (d\<lparr>pendingRegistrations := pendingRegistrations d @ [p]\<rparr>))"

text \<open>The partial unique index: one unused request for each user.\<close>

definition create_reset :: "reset_row \<Rightarrow> db \<Rightarrow> exn + db" where
  "create_reset r d =
     (if exists_where (\<lambda>s. pw_id s = pw_id r \<or>
           (pw_userId s = pw_userId r \<and> pw_usedAt s = None \<and> pw_usedAt r = None)) (resetRequests d)
      then Inl (PrismaError ''P2002'')
      else if \<not> exists_where (\<lambda>u. usr_id u = pw_userId r) (users d) then Inl (PrismaError ''P2003'')
      else Inr (d\<lparr>resetRequests := resetRequests d @ [r]\<rparr>))"

lemmas account_creates = create_user_def create_refresh_def create_pending_def create_reset_def

definition find_pending :: "string \<Rightarrow> db \<Rightarrow> pending_row option" where
  "find_pending email d = find_first (\<lambda>p. pr_email p = email) (pendingRegistrations d)"

definition find_token :: "string \<Rightarrow> db \<Rightarrow> refresh_row option" where
  "find_token i d = find_first (\<lambda>t. rt_id t = i) (refreshTokens d)"

text \<open>The request of the user created last; of equal times the database may return any.\<close>

definition latest_request :: "string \<Rightarrow> db \<Rightarrow> reset_row option" where
  "latest_request i d =
     (case sort_key (\<lambda>r. - pw_createdAt r) (filter (\<lambda>r. pw_userId r = i) (resetRequests d)) of
        [] \<Rightarrow> None | r # _ \<Rightarrow> Some r)"

text \<open>\<open>update\<close> with a profile: \<open>None\<close> is a field that is absent, \<open>Some None\<close> is null.\<close>

definition update_profile :: "string \<Rightarrow> string option option \<Rightarrow> db \<Rightarrow> public_user result \<times> db" where
  "update_profile i timezone d =
     (case update_user i (\<lambda>u. case timezone of None \<Rightarrow> u | Some z \<Rightarrow> u\<lparr>usr_timezone := z\<rparr>) d of
        Inl e \<Rightarrow> (Inl (if e = PrismaError ''P2025'' then user_not_found
                       else if e = PrismaError ''P2002'' then user_exists else e), d)
      | Inr d' \<Rightarrow> (fromOption user_not_found (findById i d'), d'))"

definition getUser :: "string \<Rightarrow> db \<Rightarrow> public_user result" where
  "getUser userId d = fromOption (unauthorized ''Invalid session'') (findById userId d)"

section \<open>Tokens\<close>

record token_pair =
  tp_accessToken :: string
  tp_refreshToken :: string

definition token_options_for :: "string \<Rightarrow> token_options" where
  "token_options_for secret = \<lparr>to_secret = secret, to_issuer = JWT_ISSUER, to_audience = JWT_AUDIENCE\<rparr>"

definition sign_token :: "crypto \<Rightarrow> environment \<Rightarrow> string \<Rightarrow> int \<Rightarrow> int \<Rightarrow> claims \<Rightarrow> string result" where
  "sign_token C config secretKey expiresIn now payload =
     bindE (getOrThrow config secretKey) (\<lambda>secret.
     fromOption (PlainError ''signing failed'') (cr_sign C (token_options_for secret) expiresIn now payload))"

definition signTokenPair :: "crypto \<Rightarrow> environment \<Rightarrow> int \<Rightarrow> string \<Rightarrow> string \<Rightarrow> token_pair result" where
  "signTokenPair C config now userId refreshTokenId =
     bindE (sign_token C config ''JWT_ACCESS_SECRET'' ACCESS_TOKEN_TTL_SECONDS now
       \<lparr>jc_sub = Some userId, jc_jti = None, jc_type = Some ''access''\<rparr>) (\<lambda>accessToken.
     bindE (sign_token C config ''JWT_REFRESH_SECRET'' REFRESH_TOKEN_TTL_SECONDS now
       \<lparr>jc_sub = Some userId, jc_jti = Some refreshTokenId, jc_type = Some ''refresh''\<rparr>) (\<lambda>refreshToken.
     Inr \<lparr>tp_accessToken = accessToken, tp_refreshToken = refreshToken\<rparr>))"

text \<open>The pair and the row that lets its refresh token be used.\<close>

definition prepareTokenPair ::
  "crypto \<Rightarrow> auth_request \<Rightarrow> draws \<Rightarrow> string \<Rightarrow> (token_pair \<times> refresh_row) result" where
  "prepareTokenPair C ar dr userId =
     bindE (signTokenPair C (ar_config ar) (ar_now ar) userId (dr_tokenId dr)) (\<lambda>tokens.
     Inr (tokens,
       \<lparr>rt_id = dr_tokenId dr, rt_userId = userId,
        rt_tokenHash = cr_hash C (dr_salt1 dr) (codes (tp_refreshToken tokens)),
        rt_expiresAt = getRefreshExpiration (ar_later ar)\<rparr>))"

definition createTokenPair ::
  "crypto \<Rightarrow> auth_request \<Rightarrow> draws \<Rightarrow> string \<Rightarrow> db \<Rightarrow> token_pair result \<times> db" where
  "createTokenPair C ar dr userId d =
     (case prepareTokenPair C ar dr userId of
        Inl e \<Rightarrow> (Inl e, d)
      | Inr (tokens, row) \<Rightarrow> (case create_refresh row d of Inl e \<Rightarrow> (Inl e, d) | Inr d' \<Rightarrow> (Inr tokens, d')))"

text \<open>The user and the identifier a refresh token names.\<close>

definition verifyRefreshToken :: "crypto \<Rightarrow> environment \<Rightarrow> int \<Rightarrow> string \<Rightarrow> (string \<times> string) result" where
  "verifyRefreshToken C config now refreshToken =
     (let e = Inl (unauthorized ''Invalid or expired refresh token'') in
      case getOrThrow config ''JWT_REFRESH_SECRET'' of
        Inl _ \<Rightarrow> e
      | Inr secret \<Rightarrow>
         (case cr_verifyToken C (token_options_for secret) now refreshToken of
            None \<Rightarrow> e
          | Some payload \<Rightarrow>
             (if jc_type payload \<noteq> Some ''refresh'' then e
              else case (jc_sub payload, jc_jti payload) of
                (Some sub, Some jti) \<Rightarrow> Inr (sub, jti)
              | _ \<Rightarrow> e)))"

text \<open>\<open>AccessTokenGuard\<close>: \<open>authorization\<close> is the header; the result is the user of the request.\<close>

fun split_space :: "string \<Rightarrow> string \<Rightarrow> string list" where
  "split_space acc [] = [rev acc]"
| "split_space acc (c # cs) = (if c = CHR '' '' then rev acc # split_space [] cs else split_space (c # acc) cs)"

definition extractBearerToken :: "string option \<Rightarrow> string option" where
  "extractBearerToken authorization =
     (case authorization of
        None \<Rightarrow> None
      | Some h \<Rightarrow> (case split_space [] h of t # token # _ \<Rightarrow> if t = ''Bearer'' then Some token else None | _ \<Rightarrow> None))"

definition canActivate :: "crypto \<Rightarrow> environment \<Rightarrow> int \<Rightarrow> string option \<Rightarrow> string result" where
  "canActivate C config now authorization =
     (case extractBearerToken authorization of
        None \<Rightarrow> Inl (unauthorized ''Access token is required'')
      | Some token \<Rightarrow>
         (if token = [] then Inl (unauthorized ''Access token is required'')
          else
           (let e = Inl (unauthorized ''Invalid or expired access token'') in
            case getOrThrow config ''JWT_ACCESS_SECRET'' of
              Inl _ \<Rightarrow> e
            | Inr secret \<Rightarrow>
               (case cr_verifyToken C (token_options_for secret) now token of
                  None \<Rightarrow> e
                | Some payload \<Rightarrow>
                   (if jc_type payload \<noteq> Some ''access'' then e
                    else case jc_sub payload of Some sub \<Rightarrow> Inr sub | None \<Rightarrow> e)))))"

section \<open>Registration\<close>

record register_dto =
  rd_fullName :: utext
  rd_email :: string
  rd_password :: utext
  rd_language :: "string option"

datatype registration_start =
    DontSend int
  | Send string string string string

definition pending_of :: "crypto \<Rightarrow> registration_policy \<Rightarrow> int \<Rightarrow> draws \<Rightarrow> string \<Rightarrow> register_dto \<Rightarrow> pending_row" where
  "pending_of C policy now dr email dto =
     \<lparr>pr_id = dr_rowId dr, pr_email = email, pr_passwordHash = cr_hash C (dr_salt1 dr) (rd_password dto),
      pr_fullName = rd_fullName dto,
      pr_language = (case rd_language dto of None \<Rightarrow> ''en'' | Some l \<Rightarrow> l),
      pr_codeHash = cr_hash C (dr_salt2 dr) (codes (generateSixDigitCode (dr_code dr))),
      pr_expiresAt = addMinutes now (po_codeTtlMinutes policy), pr_attemptCount = 0, pr_lastSentAt = now,
      pr_pendingExpiresAt = addHours now (po_pendingTtlHours policy)\<rparr>"

text \<open>The insertion; when it raises, the deletion before it is undone too, and \<open>base\<close> is left.\<close>

definition start_pending ::
  "crypto \<Rightarrow> registration_policy \<Rightarrow> int \<Rightarrow> draws \<Rightarrow> string \<Rightarrow> register_dto \<Rightarrow> db \<Rightarrow> db \<Rightarrow> registration_start result \<times> db" where
  "start_pending C policy now dr email dto base d =
     (let row = pending_of C policy now dr email dto in
      case create_pending row d of
        Inl e \<Rightarrow> (Inl e, base)
      | Inr d' \<Rightarrow> (Inr (Send (pr_id row) (generateSixDigitCode (dr_code dr)) (pr_codeHash row) (pr_language row)), d'))"

definition expired_pending :: "string \<Rightarrow> int \<Rightarrow> pending_row \<Rightarrow> bool" where
  "expired_pending i now p \<longleftrightarrow> pr_id p = i \<and> pr_pendingExpiresAt p \<le> now"

definition delete_pending :: "(pending_row \<Rightarrow> bool) \<Rightarrow> db \<Rightarrow> db" where
  "delete_pending p d = d\<lparr>pendingRegistrations := delete_where p (pendingRegistrations d)\<rparr>"

definition register_tx ::
  "crypto \<Rightarrow> registration_policy \<Rightarrow> int \<Rightarrow> draws \<Rightarrow> (db \<Rightarrow> db) \<Rightarrow> string \<Rightarrow> register_dto \<Rightarrow> db \<Rightarrow>
     registration_start result \<times> db" where
  "register_tx C policy now dr mid email dto d =
     (if findByEmail email d \<noteq> None then (Inl user_exists, d)
      else case find_pending email d of
        None \<Rightarrow> start_pending C policy now dr email dto (mid d) (mid d)
      | Some pending \<Rightarrow>
         (if pr_pendingExpiresAt pending \<le> now
          then
           (let d1 = mid d;
                d2 = delete_pending (expired_pending (pr_id pending) now) d1
            in if count_where (expired_pending (pr_id pending) now) (pendingRegistrations d1) \<noteq> 1
               then (case find_pending email d2 of
                       Some currentPending \<Rightarrow>
                         (if pr_pendingExpiresAt currentPending > now
                          then (Inr (DontSend (pr_lastSentAt currentPending)), d2)
                          else start_pending C policy now dr email dto d1 d2)
                     | None \<Rightarrow> start_pending C policy now dr email dto d1 d2)
               else start_pending C policy now dr email dto d1 d2)
          else (Inr (DontSend (pr_lastSentAt pending)), d)))"

definition invalidatePendingRegistrationCode :: "string \<Rightarrow> string \<Rightarrow> int \<Rightarrow> int \<Rightarrow> db \<Rightarrow> db" where
  "invalidatePendingRegistrationCode i codeHash maxAttempts invalidatedAt d =
     d\<lparr>pendingRegistrations := update_where (\<lambda>p. pr_id p = i \<and> pr_codeHash p = codeHash)
         (\<lambda>p. p\<lparr>pr_expiresAt := invalidatedAt, pr_attemptCount := maxAttempts\<rparr>) (pendingRegistrations d)\<rparr>"

text \<open>The \<open>catch\<close> of the registration's transaction.\<close>

definition register_failed ::
  "registration_policy \<Rightarrow> int \<Rightarrow> (nat \<Rightarrow> db \<Rightarrow> db) \<Rightarrow> string \<Rightarrow> exn \<Rightarrow> db \<Rightarrow> pending_result result \<times> db" where
  "register_failed policy later env email e d =
     (if has_status 409 e then (Inl e, d)
      else if isWriteConflict e
      then let d1 = env 3 d in
        (if findByEmail email d1 \<noteq> None then (Inl user_exists, d1)
         else let d2 = env 4 d1 in
           (case find_pending email d2 of
              Some p \<Rightarrow>
                (if pr_pendingExpiresAt p > later
                 then (Inr (registrationPendingResult email (pr_lastSentAt p) later (po_resendCooldownSeconds policy)), d2)
                 else (Inl registration_unavailable, d2))
            | None \<Rightarrow> (Inl registration_unavailable, d2)))
      else (Inl registration_unavailable, d))"

text \<open>The code that is mailed is the last component, \<open>None\<close> when no mail is sent.\<close>

definition register ::
  "crypto \<Rightarrow> auth_request \<Rightarrow> draws \<Rightarrow> (nat \<Rightarrow> db \<Rightarrow> db) \<Rightarrow> exn option \<Rightarrow> register_dto \<Rightarrow> db \<Rightarrow>
     pending_result result \<times> db \<times> string option" where
  "register C ar dr env fault dto d =
     (let email = normalizeEmail (rd_email dto); policy = getRegistrationPolicy (ar_config ar); now = ar_now ar in
      if findByEmail email d \<noteq> None then (Inl user_exists, d, None)
      else
       (let d0 = env 1 d in
        case (case fault of Some e \<Rightarrow> (Inl e, d0) | None \<Rightarrow> register_tx C policy now dr (env 2) email dto d0) of
          (Inl e, d1) \<Rightarrow> (let (r, d2) = register_failed policy (ar_later ar) env email e d1 in (r, d2, None))
        | (Inr (DontSend lastSentAt), d1) \<Rightarrow>
            (Inr (registrationPendingResult email lastSentAt now (po_resendCooldownSeconds policy)), d1, None)
        | (Inr (Send i code codeHash language), d1) \<Rightarrow>
            (if ar_mailFails ar
             then (Inl registration_mail_unavailable,
                   invalidatePendingRegistrationCode i codeHash (po_maxAttempts policy) (ar_later ar) (env 5 d1), None)
             else (Inr (registrationPendingResult email now now (po_resendCooldownSeconds policy)), d1, Some code))))"

text \<open>A wrong code: counted once if the row is still as it was read; the last one ends the code.\<close>

definition recordFailedRegistrationAttempt :: "string \<Rightarrow> string \<Rightarrow> int \<Rightarrow> int \<Rightarrow> int \<Rightarrow> db \<Rightarrow> db" where
  "recordFailedRegistrationAttempt i codeHash attemptCount maxAttempts attemptedAt d =
     (let p = (\<lambda>p. pr_id p = i \<and> pr_codeHash p = codeHash \<and> pr_expiresAt p > attemptedAt \<and>
                 pr_pendingExpiresAt p > attemptedAt \<and> pr_attemptCount p = attemptCount);
          rows = update_where p (\<lambda>p. p\<lparr>pr_attemptCount := pr_attemptCount p + 1\<rparr>) (pendingRegistrations d);
          rows' = (if count_where p (pendingRegistrations d) = 1 \<and> attemptCount + 1 \<ge> maxAttempts
                   then update_where (\<lambda>p. pr_id p = i \<and> pr_codeHash p = codeHash \<and> pr_attemptCount p \<ge> maxAttempts)
                          (\<lambda>p. p\<lparr>pr_expiresAt := attemptedAt\<rparr>) rows
                   else rows)
      in d\<lparr>pendingRegistrations := rows'\<rparr>)"

definition user_of :: "draws \<Rightarrow> int \<Rightarrow> string \<Rightarrow> pending_row \<Rightarrow> user_row" where
  "user_of dr now email pending =
     \<lparr>usr_id = dr_userId dr, usr_fullName = pr_fullName pending, usr_email = email,
      usr_passwordHash = pr_passwordHash pending, usr_language = pr_language pending, usr_timezone = None,
      usr_photoUrl = None, usr_isPremium = False, usr_emailVerifiedAt = Some now, usr_createdAt = now\<rparr>"

definition pending_claimable :: "registration_policy \<Rightarrow> int \<Rightarrow> string \<Rightarrow> pending_row \<Rightarrow> pending_row \<Rightarrow> bool" where
  "pending_claimable policy now email pending p \<longleftrightarrow> pr_id p = pr_id pending \<and> pr_email p = email \<and>
     pr_codeHash p = pr_codeHash pending \<and> pr_expiresAt p > now \<and> pr_pendingExpiresAt p > now \<and>
     pr_attemptCount p < po_maxAttempts policy"

text \<open>The writes of the transaction, on the state after the interference.\<close>

definition claim_registration ::
  "registration_policy \<Rightarrow> int \<Rightarrow> draws \<Rightarrow> refresh_row \<Rightarrow> string \<Rightarrow> pending_row \<Rightarrow> (db, public_user) tx" where
  "claim_registration policy now dr row email pending d =
     (if count_where (pending_claimable policy now email pending) (pendingRegistrations d) \<noteq> 1
      then Inl invalid_registration_code
      else bindE (create_user (user_of dr now email pending) (delete_pending (pending_claimable policy now email pending) d)) (\<lambda>d1.
           bindE (create_refresh row d1) (\<lambda>d2.
           Inr (publicUserSelect (user_of dr now email pending), d2))))"

definition verify_failed :: "exn \<Rightarrow> exn" where
  "verify_failed e =
     (if has_status 400 e \<or> has_status 409 e then e
      else if e = PrismaError ''P2002'' then user_exists
      else if e = PrismaError ''P2034'' then invalid_registration_code
      else e)"

definition verifyRegistration ::
  "crypto \<Rightarrow> auth_request \<Rightarrow> draws \<Rightarrow> (nat \<Rightarrow> db \<Rightarrow> db) \<Rightarrow> exn option \<Rightarrow> string \<Rightarrow> string \<Rightarrow> db \<Rightarrow>
     (public_user \<times> token_pair) result \<times> db" where
  "verifyRegistration C ar dr env fault dtoEmail code d =
     (let email = normalizeEmail dtoEmail; policy = getRegistrationPolicy (ar_config ar); now = ar_now ar in
      case find_pending email d of
        None \<Rightarrow> (Inl invalid_registration_code, d)
      | Some pending \<Rightarrow>
         (if pr_pendingExpiresAt pending \<le> now
          then (Inl invalid_registration_code, delete_pending (expired_pending (pr_id pending) now) (env 1 d))
          else if pr_expiresAt pending \<le> now \<or> pr_attemptCount pending \<ge> po_maxAttempts policy
          then (Inl invalid_registration_code, d)
          else if \<not> verifyHash C (pr_codeHash pending) (codes code)
          then (Inl invalid_registration_code,
                recordFailedRegistrationAttempt (pr_id pending) (pr_codeHash pending) (pr_attemptCount pending)
                  (po_maxAttempts policy) now (env 1 d))
          else
           (case prepareTokenPair C ar dr (dr_userId dr) of
              Inl e \<Rightarrow> (Inl e, d)
            | Inr (tokens, row) \<Rightarrow>
               (let d1 = env 1 d in
                case fault of
                  Some e \<Rightarrow> (Inl (verify_failed e), d1)
                | None \<Rightarrow>
                   (if findByEmail email d1 \<noteq> None then (Inl user_exists, d1)
                    else case run_tx (claim_registration policy now dr row email pending) (env 2 d1) of
                        (Inl e, d2) \<Rightarrow> (Inl (verify_failed e), d2)
                      | (Inr user, d2) \<Rightarrow> (Inr (user, tokens), d2))))))"

datatype resend_start = SkipResend | Resend string string

definition resend_tx ::
  "registration_policy \<Rightarrow> int \<Rightarrow> string \<Rightarrow> (db \<Rightarrow> db) \<Rightarrow> string \<Rightarrow> db \<Rightarrow> resend_start result \<times> db" where
  "resend_tx policy now codeHash mid email d =
     (if findByEmail email d \<noteq> None then (Inr SkipResend, d)
      else case find_pending email d of
        None \<Rightarrow> (Inr SkipResend, d)
      | Some pending \<Rightarrow>
         (if pr_pendingExpiresAt pending \<le> now
          then (Inr SkipResend, delete_pending (expired_pending (pr_id pending) now) (mid d))
          else case enforceRegistrationCooldown (pr_lastSentAt pending) now (po_resendCooldownSeconds policy) of
              Inl e \<Rightarrow> (Inl e, d)
            | Inr _ \<Rightarrow>
               (let d1 = mid d;
                    p = (\<lambda>p. pr_id p = pr_id pending \<and> pr_email p = email \<and> pr_lastSentAt p = pr_lastSentAt pending \<and>
                           pr_pendingExpiresAt p > now)
                in if count_where p (pendingRegistrations d1) \<noteq> 1
                   then (Inl (registrationCooldownException (po_resendCooldownSeconds policy)), d1)
                   else (Inr (Resend (pr_id pending) (pr_language pending)),
                         d1\<lparr>pendingRegistrations := update_where p
                             (\<lambda>p. p\<lparr>pr_codeHash := codeHash, pr_expiresAt := addMinutes now (po_codeTtlMinutes policy),
                                   pr_attemptCount := 0, pr_lastSentAt := now\<rparr>) (pendingRegistrations d1)\<rparr>))))"

definition resendRegistrationCode ::
  "crypto \<Rightarrow> auth_request \<Rightarrow> draws \<Rightarrow> (nat \<Rightarrow> db \<Rightarrow> db) \<Rightarrow> exn option \<Rightarrow> string \<Rightarrow> db \<Rightarrow>
     unit result \<times> db \<times> string option" where
  "resendRegistrationCode C ar dr env fault dtoEmail d =
     (let email = normalizeEmail dtoEmail; policy = getRegistrationPolicy (ar_config ar); now = ar_now ar;
          code = generateSixDigitCode (dr_code dr); codeHash = cr_hash C (dr_salt2 dr) (codes code) in
      if findByEmail email d \<noteq> None then (Inr (), d, None)
      else
       (let d0 = env 1 d in
        case (case fault of Some e \<Rightarrow> (Inl e, d0) | None \<Rightarrow> resend_tx policy now codeHash (env 2) email d0) of
          (Inl e, d1) \<Rightarrow>
            (Inl (if has_status 429 e then e
                  else if isWriteConflict e then registrationCooldownException (po_resendCooldownSeconds policy)
                  else registration_unavailable), d1, None)
        | (Inr SkipResend, d1) \<Rightarrow> (Inr (), d1, None)
        | (Inr (Resend i language), d1) \<Rightarrow>
            (if ar_mailFails ar
             then (Inl registration_mail_unavailable,
                   invalidatePendingRegistrationCode i codeHash (po_maxAttempts policy) (ar_later ar) (env 3 d1), None)
             else (Inr (), d1, Some code))))"

section \<open>Sessions\<close>

definition login ::
  "crypto \<Rightarrow> auth_request \<Rightarrow> draws \<Rightarrow> (nat \<Rightarrow> db \<Rightarrow> db) \<Rightarrow> string \<Rightarrow> utext \<Rightarrow> db \<Rightarrow>
     (public_user \<times> token_pair) result \<times> db" where
  "login C ar dr env dtoEmail password d =
     (case findByEmail (normalizeEmail dtoEmail) d of
        None \<Rightarrow> (Inl (unauthorized ''Invalid email or password''), d)
      | Some user \<Rightarrow>
         (if \<not> verifyHash C (usr_passwordHash user) password
          then (Inl (unauthorized ''Invalid email or password''), d)
          else let d1 = env 1 d in
           (case getUser (usr_id user) d1 of
              Inl e \<Rightarrow> (Inl e, d1)
            | Inr found \<Rightarrow>
               (case createTokenPair C ar dr (usr_id user) (env 2 d1) of
                  (Inl e, d2) \<Rightarrow> (Inl e, d2)
                | (Inr tokens, d2) \<Rightarrow> (Inr (found, tokens), d2)))))"

definition token_owned :: "string \<Rightarrow> string \<Rightarrow> refresh_row \<Rightarrow> bool" where
  "token_owned i userId t \<longleftrightarrow> rt_id t = i \<and> rt_userId t = userId"

definition delete_tokens :: "(refresh_row \<Rightarrow> bool) \<Rightarrow> db \<Rightarrow> db" where
  "delete_tokens p d = d\<lparr>refreshTokens := delete_where p (refreshTokens d)\<rparr>"

definition rotate_token :: "string \<Rightarrow> string \<Rightarrow> refresh_row \<Rightarrow> (db, unit) tx" where
  "rotate_token i userId row d =
     (if count_where (token_owned i userId) (refreshTokens d) \<noteq> 1
      then Inl (unauthorized ''Refresh token has already been used'')
      else bindE (create_refresh row (delete_tokens (token_owned i userId) d)) (\<lambda>d1. Inr ((), d1)))"

definition refresh ::
  "crypto \<Rightarrow> auth_request \<Rightarrow> draws \<Rightarrow> (nat \<Rightarrow> db \<Rightarrow> db) \<Rightarrow> exn option \<Rightarrow> string \<Rightarrow> db \<Rightarrow> token_pair result \<times> db" where
  "refresh C ar dr env fault refreshToken d =
     (case verifyRefreshToken C (ar_config ar) (ar_now ar) refreshToken of
        Inl e \<Rightarrow> (Inl e, d)
      | Inr (sub, jti) \<Rightarrow>
         (case find_token jti d of
            None \<Rightarrow> (Inl (unauthorized ''Invalid or expired refresh token''), d)
          | Some storedToken \<Rightarrow>
             (if rt_userId storedToken \<noteq> sub \<or> rt_expiresAt storedToken \<le> ar_now ar \<or>
                 \<not> verifyHash C (rt_tokenHash storedToken) (codes refreshToken)
              then (Inl (unauthorized ''Invalid or expired refresh token''), d)
              else
               (case prepareTokenPair C ar dr sub of
                  Inl e \<Rightarrow> (Inl e, d)
                | Inr (tokens, row) \<Rightarrow>
                   (let d1 = env 1 d in
                    case (case fault of Some e \<Rightarrow> (Inl e, d1) | None \<Rightarrow> run_tx (rotate_token (rt_id storedToken) sub row) d1) of
                      (Inl e, d2) \<Rightarrow> (Inl e, d2)
                    | (Inr _, d2) \<Rightarrow> (Inr tokens, d2))))))"

definition logout ::
  "crypto \<Rightarrow> auth_request \<Rightarrow> (nat \<Rightarrow> db \<Rightarrow> db) \<Rightarrow> string \<Rightarrow> db \<Rightarrow> unit result \<times> db" where
  "logout C ar env refreshToken d =
     (case verifyRefreshToken C (ar_config ar) (ar_now ar) refreshToken of
        Inl e \<Rightarrow> (Inl e, d)
      | Inr (sub, jti) \<Rightarrow>
         (case find_token jti d of
            None \<Rightarrow> (Inr (), d)
          | Some storedToken \<Rightarrow>
             (if rt_userId storedToken \<noteq> sub \<or> \<not> verifyHash C (rt_tokenHash storedToken) (codes refreshToken)
              then (Inl (unauthorized ''Invalid refresh token''), d)
              else (Inr (), delete_tokens (token_owned (rt_id storedToken) sub) (env 1 d)))))"

section \<open>Password reset\<close>

definition use_requests :: "(reset_row \<Rightarrow> bool) \<Rightarrow> int \<Rightarrow> db \<Rightarrow> db" where
  "use_requests p now d =
     d\<lparr>resetRequests := update_where (\<lambda>r. p r \<and> pw_usedAt r = None) (\<lambda>r. r\<lparr>pw_usedAt := Some now\<rparr>) (resetRequests d)\<rparr>"

text \<open>The transaction: \<open>mid\<close> is committed between its first read and its first write.\<close>

definition forgot_tx ::
  "int \<Rightarrow> int \<Rightarrow> int \<Rightarrow> string \<Rightarrow> string \<Rightarrow> (db \<Rightarrow> db) \<Rightarrow> string \<Rightarrow> db \<Rightarrow> string result \<times> db" where
  "forgot_tx now ttlMinutes cooldownSeconds rowId codeHash mid userId d =
     (let cooldownStartedAt = now - cooldownSeconds * 1000 in
      if (case latest_request userId d of None \<Rightarrow> False | Some r \<Rightarrow> pw_createdAt r > cooldownStartedAt)
      then (Inl reset_cooldown, d)
      else run_tx (\<lambda>d1. bindE (create_reset
             \<lparr>pw_id = rowId, pw_userId = userId, pw_codeHash = codeHash, pw_expiresAt = now + ttlMinutes * 60000,
              pw_attemptCount = 0, pw_usedAt = None, pw_createdAt = now\<rparr>
             (use_requests (\<lambda>r. pw_userId r = userId) now d1)) (\<lambda>d2. Inr (rowId, d2))) (mid d))"

definition forgotPassword ::
  "crypto \<Rightarrow> auth_request \<Rightarrow> draws \<Rightarrow> (nat \<Rightarrow> db \<Rightarrow> db) \<Rightarrow> exn option \<Rightarrow> string \<Rightarrow> db \<Rightarrow>
     unit result \<times> db \<times> string option" where
  "forgotPassword C ar dr env fault dtoEmail d =
     (case findByEmail (normalizeEmail dtoEmail) d of
        None \<Rightarrow> (Inr (), d, None)
      | Some user \<Rightarrow>
         (let now = ar_now ar;
              ttlMinutes = getPositiveInteger (ar_config ar) ''PASSWORD_RESET_CODE_TTL_MINUTES'' 15;
              cooldownSeconds = getPositiveInteger (ar_config ar) ''PASSWORD_RESET_RESEND_COOLDOWN_SECONDS'' 60;
              code = generateSixDigitCode (dr_code dr); codeHash = cr_hash C (dr_salt2 dr) (codes code);
              d0 = env 1 d in
          case (case fault of Some e \<Rightarrow> (Inl e, d0)
                | None \<Rightarrow> forgot_tx now ttlMinutes cooldownSeconds (dr_rowId dr) codeHash (env 2) (usr_id user) d0) of
            (Inl e, d1) \<Rightarrow>
              (Inl (if has_status 429 e then e else if isWriteConflict e then reset_cooldown else reset_unavailable), d1, None)
          | (Inr requestId, d1) \<Rightarrow>
              (if ar_mailFails ar
               then (Inl reset_unavailable, use_requests (\<lambda>r. pw_id r = requestId) (ar_later ar) (env 3 d1), None)
               else (Inr (), d1, Some code))))"

definition recordFailedResetAttempt :: "string \<Rightarrow> int \<Rightarrow> int \<Rightarrow> int \<Rightarrow> db \<Rightarrow> db" where
  "recordFailedResetAttempt requestId attemptCount maxAttempts attemptedAt d =
     (let p = (\<lambda>r. pw_id r = requestId \<and> pw_usedAt r = None \<and> pw_expiresAt r > attemptedAt \<and> pw_attemptCount r = attemptCount);
          d1 = d\<lparr>resetRequests := update_where p (\<lambda>r. r\<lparr>pw_attemptCount := pw_attemptCount r + 1\<rparr>) (resetRequests d)\<rparr>
      in if count_where p (resetRequests d) = 1 \<and> attemptCount + 1 \<ge> maxAttempts
         then use_requests (\<lambda>r. pw_id r = requestId \<and> pw_attemptCount r \<ge> maxAttempts) attemptedAt d1
         else d1)"

definition resettable :: "int \<Rightarrow> int \<Rightarrow> string \<Rightarrow> string \<Rightarrow> reset_row \<Rightarrow> bool" where
  "resettable maxAttempts now requestId userId r \<longleftrightarrow> pw_id r = requestId \<and> pw_userId r = userId \<and>
     pw_usedAt r = None \<and> pw_expiresAt r > now \<and> pw_attemptCount r < maxAttempts"

definition claim_reset :: "int \<Rightarrow> int \<Rightarrow> string \<Rightarrow> string \<Rightarrow> string \<Rightarrow> (db, unit) tx" where
  "claim_reset maxAttempts now requestId userId passwordHash d =
     (if count_where (resettable maxAttempts now requestId userId) (resetRequests d) \<noteq> 1 then Inl invalid_reset_code
      else bindE (update_user userId (\<lambda>u. u\<lparr>usr_passwordHash := passwordHash\<rparr>)
             (use_requests (resettable maxAttempts now requestId userId) now d)) (\<lambda>d1.
           Inr ((), delete_tokens (\<lambda>t. rt_userId t = userId)
             (use_requests (\<lambda>r. pw_userId r = userId \<and> pw_id r \<noteq> requestId) now d1))))"

definition resetPassword ::
  "crypto \<Rightarrow> auth_request \<Rightarrow> draws \<Rightarrow> (nat \<Rightarrow> db \<Rightarrow> db) \<Rightarrow> exn option \<Rightarrow> string \<Rightarrow> string \<Rightarrow> utext \<Rightarrow> db \<Rightarrow>
     unit result \<times> db" where
  "resetPassword C ar dr env fault dtoEmail code newPassword d =
     (case findByEmail (normalizeEmail dtoEmail) d of
        None \<Rightarrow> (Inl invalid_reset_code, d)
      | Some user \<Rightarrow>
         (let d0 = env 1 d; now = ar_now ar;
              maxAttempts = getPositiveInteger (ar_config ar) ''PASSWORD_RESET_MAX_ATTEMPTS'' 5 in
          case latest_request (usr_id user) d0 of
            None \<Rightarrow> (Inl invalid_reset_code, d0)
          | Some request \<Rightarrow>
             (if pw_usedAt request \<noteq> None \<or> pw_expiresAt request \<le> now \<or> pw_attemptCount request \<ge> maxAttempts
              then (Inl invalid_reset_code, d0)
              else if \<not> verifyHash C (pw_codeHash request) (codes code)
              then (Inl invalid_reset_code,
                    recordFailedResetAttempt (pw_id request) (pw_attemptCount request) maxAttempts now (env 2 d0))
              else
               (let d1 = env 2 d0; passwordHash = cr_hash C (dr_salt1 dr) newPassword in
                case fault of
                  Some e \<Rightarrow> (Inl e, d1)
                | None \<Rightarrow> run_tx (claim_reset maxAttempts now (pw_id request) (usr_id user) passwordHash) d1))))"

definition getMe :: "string \<Rightarrow> db \<Rightarrow> public_user result" where
  "getMe userId d = getUser userId d"

definition updateMe :: "string \<Rightarrow> string option option \<Rightarrow> db \<Rightarrow> public_user result \<times> db" where
  "updateMe userId timezone d = update_profile userId timezone d"

end
