(* ===== verification/Mail.thy ===== *)
theory Mail
  imports Auth Processor "HOL-Library.Sublist"
begin

text \<open>
  \<open>src/mail\<close>: the two mails of the service, with their texts in every language, and their sending. The client of
  Resend is a parameter, which accepts a message, rejects it or throws.
\<close>

section \<open>Messages\<close>

record mail_message =
  mm_to :: string
  mm_subject :: utext
  mm_html :: utext
  mm_text :: utext

definition para :: "utext \<Rightarrow> utext" where
  "para s = codes ''<p>'' @ s @ codes ''</p>''"

definition big_para :: "utext \<Rightarrow> utext" where
  "big_para s =
     codes ''<p style='' @ [34] @ codes ''font-size: 28px; font-weight: 700; letter-spacing: 6px;'' @ [34] @ codes ''>'' @ s @ codes ''</p>''"

fun lines_of :: "utext list \<Rightarrow> utext" where
  "lines_of [] = []"
| "lines_of [s] = s"
| "lines_of (s # t # ts) = s @ [10] @ lines_of (t # ts)"

definition minutes_text :: "int \<Rightarrow> utext" where
  "minutes_text n = codes (if n < 0 then CHR ''-'' # digits (nat (- n)) else digits (nat n))"

definition createPasswordResetEmail :: "string \<Rightarrow> int \<Rightarrow> utext \<times> utext \<times> utext" where
  "createPasswordResetEmail code expiresInMinutes =
     (codes ''Reset your FastRep password'',
      concat
        [codes ''<h1>FastRep password reset</h1>'',
         codes ''<p>Use this six-digit code to reset your FastRep password:</p>'',
         big_para (codes code),
         codes ''<p>This code expires in '' @ minutes_text expiresInMinutes @ codes '' minutes.</p>'',
         codes ''<p>Do not share this code with anyone.</p>'',
         codes ''<p>If you did not request a password reset, you can ignore this message.</p>''],
      lines_of
        [codes ''FastRep password reset'',
         [],
         codes ''Your six-digit code is: '' @ codes code,
         codes ''This code expires in '' @ minutes_text expiresInMinutes @ codes '' minutes.'',
         codes ''Do not share this code with anyone.'',
         codes ''If you did not request a password reset, you can ignore this message.''])"

section \<open>The texts of the verification\<close>

record verification_copy =
  vc_subject :: utext
  vc_heading :: utext
  vc_instruction :: utext
  vc_expires :: "utext \<Rightarrow> utext"
  vc_warning :: utext
  vc_ignore :: utext

definition copy_en :: verification_copy where
  "copy_en = \<lparr>
     vc_subject = codes ''Verify your FastRep email'',
     vc_heading = codes ''FastRep email verification'',
     vc_instruction = codes ''Use this six-digit code to finish creating your account:'',
     vc_expires = (\<lambda>minutes. codes ''This code expires in '' @ minutes @ codes '' minutes.''),
     vc_warning = codes ''Do not share this code with anyone.'',
     vc_ignore = codes ''If you did not request this account, you can ignore this message.''\<rparr>"

definition copy_fr :: verification_copy where
  "copy_fr = \<lparr>
     vc_subject = codes ''V'' @ [233] @ codes ''rifiez votre adresse e-mail FastRep'',
     vc_heading = codes ''V'' @ [233] @ codes ''rification de l'' @ [39] @ codes ''adresse e-mail FastRep'',
     vc_instruction = codes ''Utilisez ce code '' @ [224] @ codes '' six chiffres pour terminer la cr'' @ [233] @
       codes ''ation de votre compte :'',
     vc_expires = (\<lambda>minutes. codes ''Ce code expire dans '' @ minutes @ codes '' minutes.''),
     vc_warning = codes ''Ne partagez ce code avec personne.'',
     vc_ignore = codes ''Si vous n'' @ [39] @ codes ''avez pas demand'' @ [233] @
       codes '' ce compte, vous pouvez ignorer ce message.''\<rparr>"

definition copy_es :: verification_copy where
  "copy_es = \<lparr>
     vc_subject = codes ''Verifica tu correo de FastRep'',
     vc_heading = codes ''Verificaci'' @ [243] @ codes ''n de correo de FastRep'',
     vc_instruction = codes ''Usa este c'' @ [243] @ codes ''digo de seis d'' @ [237] @
       codes ''gitos para terminar de crear tu cuenta:'',
     vc_expires = (\<lambda>minutes. codes ''Este c'' @ [243] @ codes ''digo caduca en '' @ minutes @
       codes '' minutos.''),
     vc_warning = codes ''No compartas este c'' @ [243] @ codes ''digo con nadie.'',
     vc_ignore = codes ''Si no solicitaste esta cuenta, puedes ignorar este mensaje.''\<rparr>"

definition copy_uk :: verification_copy where
  "copy_uk = \<lparr>
     vc_subject = [1055, 1110, 1076, 1090, 1074, 1077, 1088, 1076, 1100, 1090, 1077, 32, 1077, 1083, 1077, 1082, 1090, 1088, 1086, 1085, 1085, 1091, 32, 1087, 1086, 1096, 1090, 1091, 32, 70, 97, 115, 116, 82, 101, 112],
     vc_heading = [1055, 1110, 1076, 1090, 1074, 1077, 1088, 1076, 1078, 1077, 1085, 1085, 1103, 32, 1077, 1083, 1077, 1082, 1090, 1088, 1086, 1085, 1085, 1086, 1111, 32, 1087, 1086, 1096, 1090, 1080, 32, 70, 97, 115, 116, 82,
       101, 112],
     vc_instruction = [1042, 1080, 1082, 1086, 1088, 1080, 1089, 1090, 1072, 1081, 1090, 1077, 32, 1094, 1077, 1081,
       32, 1096, 1077, 1089, 1090, 1080, 1079, 1085, 1072, 1095, 1085, 1080, 1081, 32, 1082, 1086, 1076, 44, 32, 1097,
       1086, 1073, 32, 1079, 1072, 1074, 1077, 1088, 1096, 1080, 1090, 1080, 32, 1089, 1090, 1074, 1086, 1088, 1077,
       1085, 1085, 1103, 32, 1086, 1073, 1083, 1110, 1082, 1086, 1074, 1086, 1075, 1086, 32, 1079, 1072, 1087, 1080,
       1089, 1091, 58],
     vc_expires = (\<lambda>minutes. [1058, 1077, 1088, 1084, 1110, 1085, 32, 1076, 1110, 1111, 32, 1082, 1086, 1076, 1091, 32, 8212, 32] @ minutes @ [32, 1093, 1074, 46]),
     vc_warning = [1053, 1110, 1082, 1086, 1084, 1091, 32, 1085, 1077, 32, 1087, 1086, 1074, 1110, 1076, 1086, 1084,
       1083, 1103, 1081, 1090, 1077, 32, 1094, 1077, 1081, 32, 1082, 1086, 1076, 46],
     vc_ignore = [1071, 1082, 1097, 1086, 32, 1074, 1080, 32, 1085, 1077, 32, 1089, 1090, 1074, 1086, 1088, 1102,
       1074, 1072, 1083, 1080, 32, 1094, 1077, 1081, 32, 1086, 1073, 1083, 1110, 1082, 1086, 1074, 1080, 1081, 32, 1079, 1072, 1087, 1080, 1089, 44, 32, 1087, 1088, 1086, 1110, 1075, 1085, 1086, 1088, 1091, 1081, 1090, 1077, 32,
       1087, 1086, 1074, 1110, 1076, 1086, 1084, 1083, 1077, 1085, 1085, 1103, 46]\<rparr>"

definition copy_de :: verification_copy where
  "copy_de = \<lparr>
     vc_subject = codes ''Best'' @ [228] @ codes ''tige deine FastRep-E-Mail-Adresse'',
     vc_heading = codes ''FastRep-E-Mail-Best'' @ [228] @ codes ''tigung'',
     vc_instruction = codes ''Verwende diesen sechsstelligen Code, um dein Konto fertigzustellen:'',
     vc_expires = (\<lambda>minutes. codes ''Dieser Code l'' @ [228] @ codes ''uft in '' @ minutes @
       codes '' Minuten ab.''),
     vc_warning = codes ''Teile diesen Code mit niemandem.'',
     vc_ignore = codes ''Wenn du dieses Konto nicht angefordert hast, kannst du diese Nachricht ignorieren.''\<rparr>"

definition verification_copy_of :: "string \<Rightarrow> verification_copy" where
  "verification_copy_of language =
     (if language = ''fr'' then copy_fr else if language = ''es'' then copy_es
      else if language = ''uk'' then copy_uk else if language = ''de'' then copy_de else copy_en)"

definition createRegistrationVerificationEmail :: "string \<Rightarrow> int \<Rightarrow> string \<Rightarrow> utext \<times> utext \<times> utext" where
  "createRegistrationVerificationEmail code expiresInMinutes language =
     (let copy = verification_copy_of language in
      (vc_subject copy,
       concat
         [codes ''<h1>'' @ vc_heading copy @ codes ''</h1>'',
          para (vc_instruction copy),
          big_para (codes code),
          para (vc_expires copy (minutes_text expiresInMinutes)),
          para (vc_warning copy),
          para (vc_ignore copy)],
       lines_of
         [vc_heading copy,
          [],
          vc_instruction copy,
          codes code,
          vc_expires copy (minutes_text expiresInMinutes),
          vc_warning copy,
          vc_ignore copy]))"

section \<open>Sending\<close>

text \<open>An answer of Resend: accepted, with an error, or no answer at all.\<close>

datatype resend_answer = Accepted | Rejected | Unreachable

definition email_unavailable :: exn where
  "email_unavailable = HttpError 503 [] ''Email service is unavailable'' []"

definition send_mail :: "(string \<Rightarrow> string option) \<Rightarrow> (string \<Rightarrow> mail_message \<Rightarrow> resend_answer) \<Rightarrow> mail_message \<Rightarrow> unit result" where
  "send_mail config resend message =
     (case (config ''EMAIL_FROM'', config ''RESEND_API_KEY'') of
        (Some (c # from'), Some (k # key)) \<Rightarrow>
          (case resend (c # from') message of Accepted \<Rightarrow> Inr () | _ \<Rightarrow> Inl email_unavailable)
      | _ \<Rightarrow> Inl email_unavailable)"

definition message_to :: "string \<Rightarrow> utext \<times> utext \<times> utext \<Rightarrow> mail_message" where
  "message_to recipient email =
     (case email of (subject, html, body) \<Rightarrow> \<lparr>mm_to = recipient, mm_subject = subject, mm_html = html, mm_text = body\<rparr>)"

definition sendPasswordResetCode ::
  "(mail_message \<Rightarrow> unit result) \<Rightarrow> string \<Rightarrow> string \<Rightarrow> int \<Rightarrow> unit result" where
  "sendPasswordResetCode send recipient code expiresInMinutes =
     send (message_to recipient (createPasswordResetEmail code expiresInMinutes))"

definition sendRegistrationVerificationCode ::
  "(mail_message \<Rightarrow> unit result) \<Rightarrow> string \<Rightarrow> string \<Rightarrow> int \<Rightarrow> string \<Rightarrow> unit result" where
  "sendRegistrationVerificationCode send recipient code expiresInMinutes language =
     send (message_to recipient (createRegistrationVerificationEmail code expiresInMinutes language))"

text \<open>Both bodies of a mail hold its code, and its subject does not depend on it.\<close>

lemma sublist_within: "sublist s t \<Longrightarrow> sublist s (a @ t @ b)"
  using sublist_appendI [of t a b] sublist_order.order_trans by blast

lemma lines_of_sublist: "s \<in> set ss \<Longrightarrow> sublist s (lines_of ss)"
proof (induction ss rule: lines_of.induct)
  case (3 s' t ts)
  then show ?case
    using sublist_within [of s "lines_of (t # ts)" "s' @ [10]" "[]"] sublist_within [of s s "[]" "[10] @ lines_of (t # ts)"] by auto
qed simp_all

lemma concat_sublist: "s \<in> set ss \<Longrightarrow> sublist s (concat ss)"
proof (induction ss)
  case (Cons t ss)
  then show ?case using sublist_within [of s "concat ss" t "[]"] sublist_within [of s s "[]" "concat ss"] by auto
qed simp

lemma mails_carry_the_code:
  "sublist (codes code) (fst (snd (createRegistrationVerificationEmail code n language)))"
  "sublist (codes code) (snd (snd (createRegistrationVerificationEmail code n language)))"
  "sublist (codes code) (fst (snd (createPasswordResetEmail code n)))"
  "sublist (codes code) (snd (snd (createPasswordResetEmail code n)))"
proof -
  have big: "sublist (codes code) (big_para (codes code))"
    unfolding big_para_def append_assoc [symmetric] by (subst append_assoc) (rule sublist_within, simp)
  have 1: "sublist (codes code) (concat ss)" if "big_para (codes code) \<in> set ss" for ss
    using concat_sublist [OF that] big sublist_order.order_trans by blast
  show "sublist (codes code) (fst (snd (createRegistrationVerificationEmail code n language)))"
    unfolding createRegistrationVerificationEmail_def Let_def fst_conv snd_conv by (rule 1) simp
  show "sublist (codes code) (snd (snd (createRegistrationVerificationEmail code n language)))"
    unfolding createRegistrationVerificationEmail_def Let_def fst_conv snd_conv by (rule lines_of_sublist) simp
  show "sublist (codes code) (fst (snd (createPasswordResetEmail code n)))"
    unfolding createPasswordResetEmail_def fst_conv snd_conv by (rule 1) simp
  have "sublist (codes code) (codes ''Your six-digit code is: '' @ codes code)"
    using sublist_within [of "codes code" "codes code" "codes ''Your six-digit code is: ''" "[]"] by simp
  then show "sublist (codes code) (snd (snd (createPasswordResetEmail code n)))"
    unfolding createPasswordResetEmail_def fst_conv snd_conv
    by (rule sublist_order.order_trans) (rule lines_of_sublist, simp)
qed

end
