(* ===== verification/Inspector.thy ===== *)
theory Inspector
  imports Storage "HOL-Library.Word"
begin

text \<open>
  \<open>src/report-assets/asset-file-inspector.ts\<close>: the type and the dimensions of an uploaded file from its
  first bytes. A \<open>Uint8Array\<close> is a list of bytes; JavaScript's bit operators work on 32-bit words, read
  unsigned after \<open>>>> 0\<close>. A duration is the exact quotient where the code computes a double.
\<close>

unbundle bit_operations_syntax

type_synonym byte = "8 word"

section \<open>Reading numbers and text\<close>

text \<open>\<open>bytes[offset] ?? 0\<close> as an operand of a bit operator.\<close>

definition byte_at :: "byte list \<Rightarrow> nat \<Rightarrow> 32 word" where
  "byte_at bs i = (if i < length bs then ucast (bs ! i) else 0)"

definition readUint16Be :: "byte list \<Rightarrow> nat \<Rightarrow> nat" where
  "readUint16Be bs off = unat (push_bit 8 (byte_at bs off) OR byte_at bs (off + 1))"

definition readUint16Le :: "byte list \<Rightarrow> nat \<Rightarrow> nat" where
  "readUint16Le bs off = unat (byte_at bs off OR push_bit 8 (byte_at bs (off + 1)))"

definition readUint24Le :: "byte list \<Rightarrow> nat \<Rightarrow> nat" where
  "readUint24Le bs off = unat (byte_at bs off OR push_bit 8 (byte_at bs (off + 1)) OR push_bit 16 (byte_at bs (off + 2)))"

text \<open>The big-endian reader multiplies by \<open>2 ** 24\<close> and adds; \<open>>>> 0\<close> reduces modulo \<open>2 ** 32\<close>.\<close>

definition readUint32Be :: "byte list \<Rightarrow> nat \<Rightarrow> nat" where
  "readUint32Be bs off =
     (unat (byte_at bs off) * 2 ^ 24 + unat (push_bit 16 (byte_at bs (off + 1))) +
      unat (push_bit 8 (byte_at bs (off + 2))) + unat (byte_at bs (off + 3))) mod 2 ^ 32"

definition readUint32Le :: "byte list \<Rightarrow> nat \<Rightarrow> nat" where
  "readUint32Le bs off =
     unat (byte_at bs off OR push_bit 8 (byte_at bs (off + 1)) OR push_bit 16 (byte_at bs (off + 2)) OR
           push_bit 24 (byte_at bs (off + 3)))"

definition readSynchsafe :: "byte list \<Rightarrow> nat \<Rightarrow> nat" where
  "readSynchsafe bs off =
     unat (push_bit 21 (byte_at bs off) OR push_bit 14 (byte_at bs (off + 1)) OR
           push_bit 7 (byte_at bs (off + 2)) OR byte_at bs (off + 3))"

definition hasPrefix :: "byte list \<Rightarrow> byte list \<Rightarrow> bool" where
  "hasPrefix bs pre = list_all (\<lambda>(i, b). i < length bs \<and> bs ! i = b) (zip [0..<length pre] pre)"

definition ascii :: "byte list \<Rightarrow> nat \<Rightarrow> nat \<Rightarrow> string" where
  "ascii bs off n = map (\<lambda>b. char_of (unat b)) (take n (drop off bs))"

text \<open>\<open>indexOf\<close> in the text of a one-byte encoding: positions are byte positions.\<close>

fun index_of :: "string \<Rightarrow> byte list \<Rightarrow> nat option" where
  "index_of s [] = (if s = [] then Some 0 else None)"
| "index_of s (b # bs) =
     (if ascii (b # bs) 0 (length s) = s then Some 0 else map_option Suc (index_of s bs))"

definition findAscii :: "byte list \<Rightarrow> string \<Rightarrow> nat option" where
  "findAscii bs s = index_of s bs"

section \<open>Images\<close>

type_synonym dimensions = "nat option \<times> nat option"

definition sof_marker :: "byte \<Rightarrow> bool" where
  "sof_marker m \<longleftrightarrow> (0xc0 \<le> m \<and> m \<le> 0xc3) \<or> (0xc5 \<le> m \<and> m \<le> 0xc7) \<or>
     (0xc9 \<le> m \<and> m \<le> 0xcb) \<or> (0xcd \<le> m \<and> m \<le> 0xcf)"

function jpeg_scan :: "byte list \<Rightarrow> nat \<Rightarrow> (nat \<times> nat) option" where
  "jpeg_scan bs off =
     (if \<not> off + 8 < length bs then None
      else if bs ! off \<noteq> 0xff then jpeg_scan bs (off + 1)
      else let marker = bs ! (off + 1) in
        if marker = 0xd8 \<or> marker = 0xd9 then jpeg_scan bs (off + 2)
        else let len = readUint16Be bs (off + 2) in
          if len < 2 \<or> off + len + 2 > length bs then None
          else if sof_marker marker then Some (readUint16Be bs (off + 7), readUint16Be bs (off + 5))
          else jpeg_scan bs (off + len + 2))"
  by pat_completeness auto
termination by (relation "measure (\<lambda>(bs, off). length bs - off)") auto

declare jpeg_scan.simps [simp del]

text \<open>The pair of width and height.\<close>

definition readJpegDimensions :: "byte list \<Rightarrow> dimensions" where
  "readJpegDimensions bs = (case jpeg_scan bs 2 of None \<Rightarrow> (None, None) | Some (w, h) \<Rightarrow> (Some w, Some h))"

definition readWebpDimensions :: "byte list \<Rightarrow> dimensions" where
  "readWebpDimensions bs =
     (let chunk = ascii bs 12 4 in
      if chunk = ''VP8X'' \<and> length bs \<ge> 30
      then (Some (1 + readUint24Le bs 24), Some (1 + readUint24Le bs 27))
      else if chunk = ''VP8L'' \<and> length bs \<ge> 25 \<and> bs ! 20 = 0x2f
      then let packed = (of_nat (readUint32Le bs 21) :: 32 word) in
           (Some (unat (packed AND 0x3fff) + 1), Some (unat (drop_bit 14 packed AND 0x3fff) + 1))
      else if chunk = ''VP8 '' \<and> length bs \<ge> 30 \<and> bs ! 23 = 0x9d \<and> bs ! 24 = 0x01 \<and> bs ! 25 = 0x2a
      then (Some (unat ((of_nat (readUint16Le bs 26) :: 32 word) AND 0x3fff)),
            Some (unat ((of_nat (readUint16Le bs 28) :: 32 word) AND 0x3fff)))
      else (None, None))"

section \<open>Audio\<close>

text \<open>The walk over the chunks of a RIFF file: the byte rate and the size of the data chunk.\<close>

function wav_scan :: "byte list \<Rightarrow> int \<Rightarrow> nat \<Rightarrow> nat option \<Rightarrow> nat option \<times> int option" where
  "wav_scan bs objectSize off byteRate =
     (if \<not> off + 8 \<le> length bs then (byteRate, None)
      else let chunkId = ascii bs off 4; chunkSize = readUint32Le bs (off + 4) in
        if chunkId = ''fmt '' \<and> off + 16 \<le> length bs
        then wav_scan bs objectSize (off + 8 + chunkSize + chunkSize mod 2) (Some (readUint32Le bs (off + 12)))
        else if chunkId = ''data'' then (byteRate, Some (min (int chunkSize) (objectSize - int off - 8)))
        else wav_scan bs objectSize (off + 8 + chunkSize + chunkSize mod 2) byteRate)"
  by pat_completeness auto
termination by (relation "measure (\<lambda>(bs, n, off, r). length bs - off)") auto

declare wav_scan.simps [simp del]

definition readWavDuration :: "byte list \<Rightarrow> int \<Rightarrow> rat option" where
  "readWavDuration bs objectSize =
     (case wav_scan bs objectSize 12 None of
        (Some byteRate, Some dataSize) \<Rightarrow>
          (if byteRate \<noteq> 0 then Some (of_int dataSize / of_nat byteRate) else None)
      | _ \<Rightarrow> None)"

definition isMp3 :: "byte list \<Rightarrow> bool" where
  "isMp3 bs \<longleftrightarrow> ascii bs 0 3 = ''ID3'' \<or>
     (length bs \<ge> 2 \<and> bs ! 0 = 0xff \<and> bs ! 1 AND 0xe0 = 0xe0)"

definition mp3_bitrates :: "bool \<Rightarrow> nat list" where
  "mp3_bitrates v1l3 =
     (if v1l3 then [0, 32, 40, 48, 56, 64, 80, 96, 112, 128, 160, 192, 224, 256, 320]
      else [0, 8, 16, 24, 32, 40, 48, 56, 64, 80, 96, 112, 128, 144, 160])"

function mp3_scan :: "byte list \<Rightarrow> nat \<Rightarrow> nat option" where
  "mp3_scan bs off =
     (if \<not> off + 4 \<le> length bs then None
      else if bs ! off = 0xff \<and> bs ! (off + 1) AND 0xe0 = 0xe0
      then let version = drop_bit 3 (bs ! (off + 1)) AND 3;
               layer = drop_bit 1 (bs ! (off + 1)) AND 3;
               bitrateIndex = unat (drop_bit 4 (bs ! (off + 2)) AND 0x0f);
               bitrates = mp3_bitrates (version = 3 \<and> layer = 1)
           in if bitrateIndex < length bitrates \<and> bitrates ! bitrateIndex \<noteq> 0
              then Some (bitrates ! bitrateIndex) else None
      else mp3_scan bs (off + 1))"
  by pat_completeness auto
termination by (relation "measure (\<lambda>(bs, off). length bs - off)") auto

declare mp3_scan.simps [simp del]

definition readMp3Duration :: "byte list \<Rightarrow> int \<Rightarrow> rat option" where
  "readMp3Duration bs objectSize =
     (let off = (if ascii bs 0 3 = ''ID3'' then 10 + readSynchsafe bs 6 else 0) in
      map_option (\<lambda>kbps. of_int (objectSize * 8) / of_nat (kbps * 1000)) (mp3_scan bs off))"

definition audio_brand :: "string \<Rightarrow> bool" where
  "audio_brand s \<longleftrightarrow> s = ''M4A '' \<or> s = ''M4B '' \<or> s = ''M4P ''"

definition isM4a :: "byte list \<Rightarrow> bool" where
  "isM4a bs \<longleftrightarrow> length bs \<ge> 16 \<and> ascii bs 4 4 = ''ftyp'' \<and>
     (let boxSize = min (readUint32Be bs 0) (length bs) in
      audio_brand (ascii bs 8 4) \<or>
      list_ex (\<lambda>k. 16 + 4 * k + 4 \<le> boxSize \<and> audio_brand (ascii bs (16 + 4 * k) 4)) [0..<boxSize div 4])"

definition readMp4Duration :: "byte list \<Rightarrow> rat option" where
  "readMp4Duration bs =
     (case findAscii bs ''mvhd'' of
        None \<Rightarrow> None
      | Some marker \<Rightarrow>
         (if marker + 24 \<ge> length bs then None
          else let version = bs ! (marker + 4);
                   timescaleOffset = (if version = 1 then marker + 24 else marker + 16);
                   durationOffset = (if version = 1 then marker + 28 else marker + 20);
                   timescale = readUint32Be bs timescaleOffset
               in if timescale = 0 then None
                  else if version = 1
                  then Some (of_nat (readUint32Be bs durationOffset * 2 ^ 32 + readUint32Be bs (durationOffset + 4)) / of_nat timescale)
                  else Some (of_nat (readUint32Be bs durationOffset) / of_nat timescale)))"

section \<open>Text\<close>

text \<open>
  \<open>TextDecoder('utf-8', fatal)\<close>: a sequence that is not UTF-8 throws (overlong forms, surrogates and
  values beyond U+10FFFF included), and a leading byte order mark is dropped.
\<close>

definition cont :: "nat \<Rightarrow> bool" where
  "cont b \<longleftrightarrow> 128 \<le> b \<and> b < 192"

fun utf8_decode :: "nat list \<Rightarrow> nat list option" where
  "utf8_decode [] = Some []"
| "utf8_decode (a # bs) =
     (if a < 128 then map_option ((#) a) (utf8_decode bs)
      else if a < 194 then None
      else if a < 224 then
        (case bs of b # rest \<Rightarrow>
           if cont b then map_option ((#) ((a - 192) * 64 + (b - 128))) (utf8_decode rest) else None
         | _ \<Rightarrow> None)
      else if a < 240 then
        (case bs of b # c # rest \<Rightarrow>
           let code = (a - 224) * 4096 + (b - 128) * 64 + (c - 128) in
           if cont b \<and> cont c \<and> 2048 \<le> code \<and> \<not> (55296 \<le> code \<and> code < 57344)
           then map_option ((#) code) (utf8_decode rest) else None
         | _ \<Rightarrow> None)
      else if a < 245 then
        (case bs of b # c # e # rest \<Rightarrow>
           let code = (a - 240) * 262144 + (b - 128) * 4096 + (c - 128) * 64 + (e - 128) in
           if cont b \<and> cont c \<and> cont e \<and> 65536 \<le> code \<and> code < 1114112
           then map_option ((#) code) (utf8_decode rest) else None
         | _ \<Rightarrow> None)
      else None)"

definition decode_text :: "byte list \<Rightarrow> utext option" where
  "decode_text bs =
     (let ns = map unat bs in
      utf8_decode (if take 3 ns = [239, 187, 191] then drop 3 ns else ns))"

text \<open>\<open>split(/\r?\n/u)\<close>: \<open>acc\<close> is the current line, reversed.\<close>

fun split_lines :: "utext \<Rightarrow> utext \<Rightarrow> utext list" where
  "split_lines acc [] = [rev acc]"
| "split_lines acc (c # cs) =
     (if c = 10 then rev acc # split_lines [] cs
      else case cs of
        d # ds \<Rightarrow> (if c = 13 \<and> d = 10 then rev acc # split_lines [] ds else split_lines (c # acc) cs)
      | [] \<Rightarrow> split_lines (c # acc) cs)"

record inspection =
  ins_mimeType :: string
  ins_type :: asset_type
  ins_width :: "nat option"
  ins_height :: "nat option"
  ins_durationSeconds :: "rat option"

definition document :: "string \<Rightarrow> inspection" where
  "document m = \<lparr>ins_mimeType = m, ins_type = DOCUMENT, ins_width = None, ins_height = None, ins_durationSeconds = None\<rparr>"

definition image_of :: "string \<Rightarrow> dimensions \<Rightarrow> inspection" where
  "image_of m d = \<lparr>ins_mimeType = m, ins_type = IMAGE, ins_width = fst d, ins_height = snd d, ins_durationSeconds = None\<rparr>"

definition audio_of :: "string \<Rightarrow> rat option \<Rightarrow> inspection" where
  "audio_of m t = \<lparr>ins_mimeType = m, ins_type = AUDIO, ins_width = None, ins_height = None, ins_durationSeconds = t\<rparr>"

definition inspectText :: "byte list \<Rightarrow> inspection option" where
  "inspectText bs =
     (if bs = [] \<or> 0 \<in> set bs then None
      else case decode_text bs of
        None \<Rightarrow> None
      | Some text \<Rightarrow>
         (if list_ex (\<lambda>c. c < 32 \<and> c \<noteq> 9 \<and> c \<noteq> 10 \<and> c \<noteq> 13) text then None
          else let nonEmptyLines = filter (\<lambda>l. l \<noteq> []) (map utrim (split_lines [] text));
                   csv = (nonEmptyLines \<noteq> [] \<and> list_all (\<lambda>l. 44 \<in> set l) nonEmptyLines)
               in Some (document (if csv then ''text/csv'' else ''text/plain''))))"

section \<open>The inspection\<close>

definition DOCX_MIME :: string where
  "DOCX_MIME = ''application/vnd.openxmlformats-officedocument.wordprocessingml.document''"

definition XLSX_MIME :: string where
  "XLSX_MIME = ''application/vnd.openxmlformats-officedocument.spreadsheetml.sheet''"

definition inspectAssetBytes :: "byte list \<Rightarrow> int \<Rightarrow> inspection option" where
  "inspectAssetBytes bs objectSize =
     (if hasPrefix bs [0xff, 0xd8, 0xff] then Some (image_of ''image/jpeg'' (readJpegDimensions bs))
      else if hasPrefix bs [0x89, 0x50, 0x4e, 0x47, 0x0d, 0x0a, 0x1a, 0x0a]
      then Some (image_of ''image/png'' (Some (readUint32Be bs 16), Some (readUint32Be bs 20)))
      else if ascii bs 0 4 = ''RIFF'' \<and> ascii bs 8 4 = ''WEBP''
      then Some (image_of ''image/webp'' (readWebpDimensions bs))
      else if ascii bs 0 4 = ''RIFF'' \<and> ascii bs 8 4 = ''WAVE''
      then Some (audio_of ''audio/wav'' (readWavDuration bs objectSize))
      else if isMp3 bs then Some (audio_of ''audio/mpeg'' (readMp3Duration bs objectSize))
      else if isM4a bs then Some (audio_of ''audio/x-m4a'' (readMp4Duration bs))
      else if ascii bs 0 5 = ''%PDF-'' then Some (document ''application/pdf'')
      else if hasPrefix bs [0x50, 0x4b, 0x03, 0x04] \<or> hasPrefix bs [0x50, 0x4b, 0x05, 0x06]
      then (if findAscii bs ''word/'' \<noteq> None then Some (document DOCX_MIME)
            else if findAscii bs ''xl/'' \<noteq> None then Some (document XLSX_MIME)
            else None)
      else inspectText bs)"

text \<open>\<open>src/report-assets/report-asset.constants.ts\<close>.\<close>

fun ALLOWED_MIME_TYPES :: "asset_type \<Rightarrow> string list" where
  "ALLOWED_MIME_TYPES IMAGE = [''image/jpeg'', ''image/png'', ''image/webp'']"
| "ALLOWED_MIME_TYPES AUDIO = [''audio/mpeg'', ''audio/x-m4a'', ''audio/wav'']"
| "ALLOWED_MIME_TYPES DOCUMENT = [''application/pdf'', ''text/plain'', ''text/csv'', DOCX_MIME, XLSX_MIME]"

section \<open>Numbers\<close>

text \<open>The value of a byte, 0 past the end.\<close>

definition val :: "byte list \<Rightarrow> nat \<Rightarrow> nat" where
  "val bs i = (if i < length bs then unat (bs ! i) else 0)"

lemma unat_byte_at: "unat (byte_at bs i) = val bs i"
  using unsigned_less [of "bs ! i", where ?'a = nat]
  by (auto simp: byte_at_def val_def unsigned_ucast_eq take_bit_nat_eq_self)

lemma val_less: "val bs i < 256"
  using unsigned_less [of "bs ! i", where ?'a = nat] by (simp add: val_def)

lemma or_digit:
  fixes lo hi :: nat
  assumes "lo < 2 ^ k"
  shows "push_bit k hi OR lo = hi * 2 ^ k + lo"
proof -
  have "\<not> bit lo n" if "n \<ge> k" for n
    using assms that by (metis bit_take_bit_iff linorder_not_less take_bit_nat_eq_self)
  then have "\<not> bit (push_bit k hi) n \<or> \<not> bit lo n" for n
    by (cases "n < k") (auto simp: bit_push_bit_iff)
  then have "push_bit k hi + lo = push_bit k hi OR lo" by (intro disjunctive_add) blast
  then show ?thesis by (simp add: push_bit_eq_mult)
qed

lemma unat_push_byte:
  assumes "k \<le> 24"
  shows "unat (push_bit k (byte_at bs i)) = push_bit k (val bs i)"
proof -
  have "val bs i * 2 ^ k < 2 ^ 8 * 2 ^ 24"
    using val_less [of bs i] power_increasing [OF assms, of "2 :: nat"] by (intro mult_less_le_imp_less) simp_all
  then have "push_bit k (val bs i) < 2 ^ 32" by (simp add: push_bit_eq_mult)
  then show ?thesis by (simp add: unsigned_push_bit_eq unat_byte_at take_bit_nat_eq_self)
qed

lemma read_values:
  "readUint16Be bs off = val bs off * 2 ^ 8 + val bs (off + 1)"
  "readUint16Le bs off = val bs (off + 1) * 2 ^ 8 + val bs off"
  "readUint24Le bs off = val bs (off + 2) * 2 ^ 16 + val bs (off + 1) * 2 ^ 8 + val bs off"
  "readUint32Le bs off = val bs (off + 3) * 2 ^ 24 + val bs (off + 2) * 2 ^ 16 + val bs (off + 1) * 2 ^ 8 + val bs off"
  "readUint32Be bs off = val bs off * 2 ^ 24 + val bs (off + 1) * 2 ^ 16 + val bs (off + 2) * 2 ^ 8 + val bs (off + 3)"
proof -
  have v: "val bs i < 2 ^ 8" for i using val_less [of bs i] by simp
  have two: "push_bit 8 (val bs j) OR val bs i = val bs j * 2 ^ 8 + val bs i" for i j by (rule or_digit [OF v])
  show "readUint16Be bs off = val bs off * 2 ^ 8 + val bs (off + 1)"
    by (simp only: readUint16Be_def unsigned_or_eq unat_push_byte [of 8, simplified] unat_byte_at two)
  show "readUint16Le bs off = val bs (off + 1) * 2 ^ 8 + val bs off"
    by (simp only: readUint16Le_def unsigned_or_eq unat_push_byte [of 8, simplified] unat_byte_at two or.commute [of "val bs off"])
  have "val bs j * 2 ^ 8 + val bs i < 2 ^ 16" for i j using v [of i] v [of j] by simp
  then have three: "push_bit 16 (val bs k) OR (val bs j * 2 ^ 8 + val bs i) = val bs k * 2 ^ 16 + val bs j * 2 ^ 8 + val bs i" for i j k
    by (subst or_digit) simp_all
  have rev3: "a OR b OR c = c OR (b OR a)" for a b c :: nat by (simp add: ac_simps)
  show "readUint24Le bs off = val bs (off + 2) * 2 ^ 16 + val bs (off + 1) * 2 ^ 8 + val bs off"
    by (simp only: readUint24Le_def unsigned_or_eq unat_push_byte [of 8, simplified] unat_push_byte [of 16, simplified]
        unat_byte_at) (subst rev3, simp only: two three)
  have "val bs k * 2 ^ 16 + val bs j * 2 ^ 8 + val bs i < 2 ^ 24" for i j k using v [of i] v [of j] v [of k] by simp
  then have four: "push_bit 24 (val bs l) OR (val bs k * 2 ^ 16 + val bs j * 2 ^ 8 + val bs i) =
      val bs l * 2 ^ 24 + val bs k * 2 ^ 16 + val bs j * 2 ^ 8 + val bs i" for i j k l
    by (subst or_digit) simp_all
  have rev4: "a OR b OR c OR d = d OR (c OR (b OR a))" for a b c d :: nat by (simp add: ac_simps)
  show "readUint32Le bs off = val bs (off + 3) * 2 ^ 24 + val bs (off + 2) * 2 ^ 16 + val bs (off + 1) * 2 ^ 8 + val bs off"
    by (simp only: readUint32Le_def unsigned_or_eq unat_push_byte [of 8, simplified] unat_push_byte [of 16, simplified]
        unat_push_byte [of 24, simplified] unat_byte_at) (subst rev4, simp only: two three four)
  show "readUint32Be bs off = val bs off * 2 ^ 24 + val bs (off + 1) * 2 ^ 16 + val bs (off + 2) * 2 ^ 8 + val bs (off + 3)"
    using v [of off] v [of "off + 1"] v [of "off + 2"] v [of "off + 3"]
    by (simp only: readUint32Be_def unat_push_byte [of 8, simplified] unat_push_byte [of 16, simplified]
        unat_byte_at) (simp add: push_bit_eq_mult)
qed

section \<open>UTF-8\<close>

definition scalar :: "nat \<Rightarrow> bool" where
  "scalar c \<longleftrightarrow> c < 55296 \<or> (57344 \<le> c \<and> c < 1114112)"

definition enc :: "nat \<Rightarrow> nat list" where
  "enc c = (case utf8_encode c of None \<Rightarrow> [] | Some bs \<Rightarrow> bs)"

lemma enc_simps:
  "c < 128 \<Longrightarrow> enc c = [c]"
  "128 \<le> c \<Longrightarrow> c < 2048 \<Longrightarrow> enc c = [192 + c div 64, 128 + c mod 64]"
  "2048 \<le> c \<Longrightarrow> c < 65536 \<Longrightarrow> scalar c \<Longrightarrow> enc c = [224 + c div 4096, 128 + c div 64 mod 64, 128 + c mod 64]"
  "65536 \<le> c \<Longrightarrow> c < 1114112 \<Longrightarrow>
     enc c = [240 + c div 262144, 128 + c div 4096 mod 64, 128 + c div 64 mod 64, 128 + c mod 64]"
  by (auto simp: enc_def utf8_encode_def scalar_def)

lemma scalar_cases:
  assumes "scalar c"
  obtains "c < 128" | "128 \<le> c" "c < 2048" | "2048 \<le> c" "c < 65536" | "65536 \<le> c" "c < 1114112"
  using assms unfolding scalar_def by linarith

lemma digits64:
  fixes c :: nat
  shows "c div 4096 * 4096 + c div 64 mod 64 * 64 + c mod 64 = c"
    "c div 262144 * 262144 + c div 4096 mod 64 * 4096 + c div 64 mod 64 * 64 + c mod 64 = c"
proof -
  have d: "m div 64 * 64 + m mod 64 = m" for m :: nat by (rule div_mult_mod_eq)
  have q: "c div 4096 = c div 64 div 64" "c div 262144 = c div 64 div 64 div 64" by (simp_all flip: div_mult2_eq)
  have e: "n * 4096 + x * 64 + y = (n * 64 + x) * 64 + y"
    "n * 262144 + x * 4096 + y * 64 + z = ((n * 64 + x) * 64 + y) * 64 + z" for n x y z :: nat by simp_all
  show "c div 4096 * 4096 + c div 64 mod 64 * 64 + c mod 64 = c"
    "c div 262144 * 262144 + c div 4096 mod 64 * 4096 + c div 64 mod 64 * 64 + c mod 64 = c"
    unfolding q e d by (rule refl)+
qed

lemma digit64:
  fixes n :: nat
  assumes "x < 64"
  shows "(n * 64 + x) div 64 = n" "(n * 64 + x) mod 64 = x"
  using assms by simp_all

lemma digit64s:
  fixes n :: nat
  assumes "x < 64" "y < 64" "z < 64"
  shows "(n * 4096 + x * 64 + y) div 4096 = n" "(n * 4096 + x * 64 + y) div 64 mod 64 = x"
    "(n * 4096 + x * 64 + y) mod 64 = y"
    "(n * 262144 + x * 4096 + y * 64 + z) div 262144 = n" "(n * 262144 + x * 4096 + y * 64 + z) div 4096 mod 64 = x"
    "(n * 262144 + x * 4096 + y * 64 + z) div 64 mod 64 = y" "(n * 262144 + x * 4096 + y * 64 + z) mod 64 = z"
proof -
  have e: "n * 4096 + x * 64 + y = (n * 64 + x) * 64 + y"
    "n * 262144 + x * 4096 + y * 64 + z = ((n * 64 + x) * 64 + y) * 64 + z" by simp_all
  have q: "c div 4096 = c div 64 div 64" "c div 262144 = c div 64 div 64 div 64" for c :: nat
    by (simp_all flip: div_mult2_eq)
  show "(n * 4096 + x * 64 + y) div 4096 = n" "(n * 4096 + x * 64 + y) div 64 mod 64 = x"
    "(n * 4096 + x * 64 + y) mod 64 = y"
    "(n * 262144 + x * 4096 + y * 64 + z) div 262144 = n" "(n * 262144 + x * 4096 + y * 64 + z) div 4096 mod 64 = x"
    "(n * 262144 + x * 4096 + y * 64 + z) div 64 mod 64 = y" "(n * 262144 + x * 4096 + y * 64 + z) mod 64 = z"
    unfolding q e using assms by (simp_all only: digit64)
qed

lemma decode_enc:
  assumes "scalar c"
  shows "utf8_decode (enc c @ bs) = map_option ((#) c) (utf8_decode bs)"
  using assms
proof (cases rule: scalar_cases)
  case 1
  then show ?thesis by (simp add: enc_simps)
next
  case 2
  then have "c div 64 < 32" "2 \<le> c div 64" by auto
  then show ?thesis using 2 by (simp add: enc_simps cont_def)
next
  case 3
  have b: "c div 4096 < 16" using 3 by auto
  have e: "c div 4096 * 4096 + c div 64 mod 64 * 64 + c mod 64 = c" by (rule digits64)
  show ?thesis using 3 assms b by (auto simp: enc_simps cont_def Let_def e scalar_def)
next
  case 4
  have b: "c div 262144 < 5" using 4 by auto
  have e: "c div 262144 * 262144 + c div 4096 mod 64 * 4096 + c div 64 mod 64 * 64 + c mod 64 = c" by (rule digits64)
  show ?thesis using 4 b by (auto simp: enc_simps cont_def Let_def e)
qed

lemma decode_concat_enc: "(\<And>c. c \<in> set cs \<Longrightarrow> scalar c) \<Longrightarrow> utf8_decode (concat (map enc cs)) = Some cs"
  by (induction cs) (simp_all add: decode_enc)

lemma joined64:
  fixes a b c e :: nat
  assumes "128 \<le> b" "b < 192" "128 \<le> c" "c < 192" "128 \<le> e" "e < 192"
  shows "((a - 192) * 64 + (b - 128)) div 64 = a - 192" "((a - 192) * 64 + (b - 128)) mod 64 = b - 128"
    "((a - 224) * 4096 + (b - 128) * 64 + (c - 128)) div 4096 = a - 224"
    "((a - 224) * 4096 + (b - 128) * 64 + (c - 128)) div 64 mod 64 = b - 128"
    "((a - 224) * 4096 + (b - 128) * 64 + (c - 128)) mod 64 = c - 128"
    "((a - 240) * 262144 + (b - 128) * 4096 + (c - 128) * 64 + (e - 128)) div 262144 = a - 240"
    "((a - 240) * 262144 + (b - 128) * 4096 + (c - 128) * 64 + (e - 128)) div 4096 mod 64 = b - 128"
    "((a - 240) * 262144 + (b - 128) * 4096 + (c - 128) * 64 + (e - 128)) div 64 mod 64 = c - 128"
    "((a - 240) * 262144 + (b - 128) * 4096 + (c - 128) * 64 + (e - 128)) mod 64 = e - 128"
proof -
  have "b - 128 < 64" "c - 128 < 64" "e - 128 < 64" using assms by auto
  from digit64 [OF this(1), of "a - 192"] digit64s(1-3) [OF this(1,2,3), of "a - 224"] digit64s(4-7) [OF this, of "a - 240"]
  show "((a - 192) * 64 + (b - 128)) div 64 = a - 192" "((a - 192) * 64 + (b - 128)) mod 64 = b - 128"
    "((a - 224) * 4096 + (b - 128) * 64 + (c - 128)) div 4096 = a - 224"
    "((a - 224) * 4096 + (b - 128) * 64 + (c - 128)) div 64 mod 64 = b - 128"
    "((a - 224) * 4096 + (b - 128) * 64 + (c - 128)) mod 64 = c - 128"
    "((a - 240) * 262144 + (b - 128) * 4096 + (c - 128) * 64 + (e - 128)) div 262144 = a - 240"
    "((a - 240) * 262144 + (b - 128) * 4096 + (c - 128) * 64 + (e - 128)) div 4096 mod 64 = b - 128"
    "((a - 240) * 262144 + (b - 128) * 4096 + (c - 128) * 64 + (e - 128)) div 64 mod 64 = c - 128"
    "((a - 240) * 262144 + (b - 128) * 4096 + (c - 128) * 64 + (e - 128)) mod 64 = e - 128"
    by blast+
qed

lemma decode_three:
  assumes "utf8_decode (a # as) = Some cs" "224 \<le> a" "a < 240"
  obtains b c rest ds where "as = b # c # rest" "cont b" "cont c" "scalar ((a - 224) * 4096 + (b - 128) * 64 + (c - 128))"
    "2048 \<le> (a - 224) * 4096 + (b - 128) * 64 + (c - 128)" "utf8_decode rest = Some ds"
    "cs = ((a - 224) * 4096 + (b - 128) * 64 + (c - 128)) # ds"
proof -
  obtain b as' where as: "as = b # as'" using assms by (cases as) simp_all
  obtain c rest where as': "as' = c # rest" using assms by (cases as') (simp_all add: as)
  define n where "n = (a - 224) * 4096 + (b - 128) * 64 + (c - 128)"
  have u: "utf8_decode (a # as) = (if cont b \<and> cont c \<and> 2048 \<le> n \<and> \<not> (55296 \<le> n \<and> n < 57344)
      then map_option ((#) n) (utf8_decode rest) else None)"
    using assms(2,3) by (simp add: as as' n_def Let_def) blast
  then have ok: "cont b" "cont c" "2048 \<le> n" "\<not> (55296 \<le> n \<and> n < 57344)"
    using assms(1) by (metis option.distinct(1))+
  with u assms(1) obtain ds where "utf8_decode rest = Some ds" "cs = n # ds" by auto
  moreover have "n < 65536" using assms(3) ok(1,2) by (auto simp: cont_def n_def)
  moreover have "scalar n" using ok(4) \<open>n < 65536\<close> unfolding scalar_def by linarith
  ultimately show thesis using ok that [of b c rest ds] by (simp add: as as' n_def)
qed

lemma decode_four:
  assumes "utf8_decode (a # as) = Some cs" "240 \<le> a" "a < 245"
  obtains b c e rest ds where "as = b # c # e # rest" "cont b" "cont c" "cont e"
    "65536 \<le> (a - 240) * 262144 + (b - 128) * 4096 + (c - 128) * 64 + (e - 128)"
    "(a - 240) * 262144 + (b - 128) * 4096 + (c - 128) * 64 + (e - 128) < 1114112" "utf8_decode rest = Some ds"
    "cs = ((a - 240) * 262144 + (b - 128) * 4096 + (c - 128) * 64 + (e - 128)) # ds"
proof -
  obtain b as' where as: "as = b # as'" using assms by (cases as) simp_all
  obtain c as'' where as': "as' = c # as''" using assms by (cases as') (simp_all add: as)
  obtain e rest where as'': "as'' = e # rest" using assms by (cases as'') (simp_all add: as as')
  define n where "n = (a - 240) * 262144 + (b - 128) * 4096 + (c - 128) * 64 + (e - 128)"
  have u: "utf8_decode (a # as) = (if cont b \<and> cont c \<and> cont e \<and> 65536 \<le> n \<and> n < 1114112
      then map_option ((#) n) (utf8_decode rest) else None)"
    using assms(2,3) by (simp add: as as' as'' n_def Let_def)
  then have ok: "cont b" "cont c" "cont e" "65536 \<le> n" "n < 1114112"
    using assms(1) by (simp_all only: option.distinct split: if_split_asm)
  with u assms(1) obtain ds where "utf8_decode rest = Some ds" "cs = n # ds" by auto
  with ok show thesis using that [of b c e rest ds] by (simp add: as as' as'' n_def)
qed

lemma decode_only_enc:
  "utf8_decode bs = Some cs \<Longrightarrow> (\<forall>c \<in> set cs. scalar c) \<and> bs = concat (map enc cs)"
proof (induction "length bs" arbitrary: bs cs rule: less_induct)
  case less
  show ?case
  proof (cases bs)
    case Nil
    with less.prems show ?thesis by simp
  next
    case (Cons a as)
    note prem = less.prems [unfolded Cons]
    have step: ?thesis
      if "as = pre @ rest" "utf8_decode rest = Some ds" "cs = c # ds" "scalar c" "enc c = a # pre" for pre rest ds c
    proof -
      have "length rest < length bs" using that(1) Cons by simp
      from less.hyps [OF this that(2)] that show ?thesis by (simp add: Cons)
    qed
    consider "a < 128" | "194 \<le> a" "a < 224" | "224 \<le> a" "a < 240" | "240 \<le> a" "a < 245"
      using prem by (force split: if_splits)
    then show ?thesis
    proof cases
      case 1
      then obtain ds where "utf8_decode as = Some ds" "cs = a # ds" using prem by auto
      with 1 show ?thesis by (intro step [of "[]" as ds a]) (simp_all add: enc_simps scalar_def)
    next
      case 2
      then obtain b rest where bs: "as = b # rest" "cont b" using prem by (auto split: list.splits if_splits)
      let ?c = "(a - 192) * 64 + (b - 128)"
      obtain ds where ds: "utf8_decode rest = Some ds" "cs = ?c # ds" using 2 bs prem by auto
      have c: "128 \<le> ?c" "?c < 2048" using 2 bs by (auto simp: cont_def)
      have "enc ?c = [a, b]"
        using enc_simps(2) [OF c] joined64(1,2) [of b b b a] 2 bs(2) by (simp add: cont_def)
      with c ds bs show ?thesis by (intro step [of "[b]" rest ds ?c]) (simp_all add: scalar_def)
    next
      case 3
      obtain b c rest ds where ds: "as = b # c # rest" "cont b" "cont c" "scalar ((a - 224) * 4096 + (b - 128) * 64 + (c - 128))"
        "2048 \<le> (a - 224) * 4096 + (b - 128) * 64 + (c - 128)" "utf8_decode rest = Some ds"
        "cs = ((a - 224) * 4096 + (b - 128) * 64 + (c - 128)) # ds"
        by (rule decode_three [OF prem 3])
      define n where "n = (a - 224) * 4096 + (b - 128) * 64 + (c - 128)"
      have n: "scalar n" "2048 \<le> n" "cs = n # ds" using ds(4,5,7) by (simp_all add: n_def)
      have c: "n < 65536" using 3 ds(2,3) by (auto simp: cont_def n_def)
      have byte: "128 \<le> b" "b < 192" "128 \<le> c" "c < 192" using ds(2,3) by (simp_all add: cont_def)
      have "enc n = [a, b, c]"
        using 3 byte by (simp add: enc_simps(3) [OF n(2) c n(1)] joined64(3-5) [OF byte byte(3,4), of a, folded n_def])
      with n ds show ?thesis by (intro step [of "[b, c]" rest ds n]) simp_all
    next
      case 4
      obtain b c e rest ds where ds: "as = b # c # e # rest" "cont b" "cont c" "cont e"
        "65536 \<le> (a - 240) * 262144 + (b - 128) * 4096 + (c - 128) * 64 + (e - 128)"
        "(a - 240) * 262144 + (b - 128) * 4096 + (c - 128) * 64 + (e - 128) < 1114112" "utf8_decode rest = Some ds"
        "cs = ((a - 240) * 262144 + (b - 128) * 4096 + (c - 128) * 64 + (e - 128)) # ds"
        by (rule decode_four [OF prem 4])
      define n where "n = (a - 240) * 262144 + (b - 128) * 4096 + (c - 128) * 64 + (e - 128)"
      have n: "65536 \<le> n" "n < 1114112" "cs = n # ds" using ds(5,6,8) by (simp_all add: n_def)
      have byte: "128 \<le> b" "b < 192" "128 \<le> c" "c < 192" "128 \<le> e" "e < 192" using ds(2-4) by (simp_all add: cont_def)
      have "enc n = [a, b, c, e]"
        using 4 byte by (simp add: enc_simps(4) [OF n(1,2)] joined64(6-9) [OF byte, of a, folded n_def])
      with n ds show ?thesis by (intro step [of "[b, c, e]" rest ds n]) (simp_all add: scalar_def)
    qed
  qed
qed

section \<open>The result is an allowed type\<close>

lemma inspectText_cases:
  "inspectText bs = Some r \<Longrightarrow> r = document ''text/csv'' \<or> r = document ''text/plain''"
  by (auto simp: inspectText_def Let_def split: if_splits option.splits)

lemma if_SomeE: "(if b then x else y) = Some r \<Longrightarrow> (x = Some r \<Longrightarrow> P) \<Longrightarrow> (y = Some r \<Longrightarrow> P) \<Longrightarrow> P"
  by (cases b) simp_all

lemma inspect_cases:
  assumes "inspectAssetBytes bs n = Some r"
  shows "(\<exists>m d. r = image_of m d \<and> m \<in> set (ALLOWED_MIME_TYPES IMAGE)) \<or>
    (\<exists>m t. r = audio_of m t \<and> m \<in> set (ALLOWED_MIME_TYPES AUDIO)) \<or>
    (\<exists>m. r = document m \<and> m \<in> set (ALLOWED_MIME_TYPES DOCUMENT))"
proof -
  have "(\<exists>m d. r = image_of m d \<and> m \<in> {''image/jpeg'', ''image/png'', ''image/webp''}) \<or>
    (\<exists>m t. r = audio_of m t \<and> m \<in> {''audio/wav'', ''audio/mpeg'', ''audio/x-m4a''}) \<or>
    (\<exists>m. r = document m \<and> m \<in> {''application/pdf'', DOCX_MIME, XLSX_MIME}) \<or> inspectText bs = Some r"
    using assms unfolding inspectAssetBytes_def by (elim if_SomeE) (simp_all only: option.inject option.distinct, blast+)
  then show ?thesis using inspectText_cases [of bs r] by auto
qed

section \<open>JPEG segments\<close>

text \<open>A marker segment: its marker and its payload; the length field counts itself.\<close>

definition be16 :: "nat \<Rightarrow> byte list" where
  "be16 n = [word_of_nat (n div 256), word_of_nat (n mod 256)]"

definition segment :: "byte \<times> byte list \<Rightarrow> byte list" where
  "segment s = [0xff, fst s] @ be16 (length (snd s) + 2) @ snd s"

definition skipped :: "byte \<times> byte list \<Rightarrow> bool" where
  "skipped s \<longleftrightarrow> \<not> sof_marker (fst s) \<and> fst s \<noteq> 0xd8 \<and> fst s \<noteq> 0xd9 \<and> length (snd s) + 2 < 65536"

lemma val_append: "val (xs @ ys) (length xs + i) = val ys i"
  by (simp add: val_def nth_append)

lemma read16_append: "readUint16Be (xs @ ys) (length xs + i) = readUint16Be ys i"
  unfolding read_values(1) using val_append [of xs ys i] val_append [of xs ys "i + 1"] by (simp add: add.assoc)

lemma unat_byte: "n < 256 \<Longrightarrow> unat (word_of_nat n :: byte) = n"
  by (simp add: unat_of_nat)

lemma read16_be16:
  assumes "n < 65536"
  shows "readUint16Be (be16 n @ rest) 0 = n"
proof -
  have "n div 256 < 256" "n mod 256 < 256" using assms by auto
  then show ?thesis by (simp add: read_values(1) val_def be16_def unat_byte)
qed

lemma read16_at: "length pre = k \<Longrightarrow> n < 65536 \<Longrightarrow> readUint16Be (pre @ be16 n @ rest) k = n"
  using read16_append [of pre "be16 n @ rest" 0] read16_be16 [of n rest] by simp

lemma jpeg_scan_marker:
  assumes "off + 8 < length bs" "bs ! off = 0xff" "bs ! (off + 1) = m" "m \<noteq> 0xd8" "m \<noteq> 0xd9"
    "readUint16Be bs (off + 2) = n" "2 \<le> n" "off + n + 2 \<le> length bs"
  shows "jpeg_scan bs off =
    (if sof_marker m then Some (readUint16Be bs (off + 7), readUint16Be bs (off + 5)) else jpeg_scan bs (off + n + 2))"
proof -
  have "\<not> (n < 2 \<or> off + n + 2 > length bs)" using assms(7,8) by simp
  with assms(1-6) show ?thesis
    by (subst jpeg_scan.simps) (simp only: Let_def if_True if_False not_True_eq_False not_False_eq_True simp_thms)
qed

lemma jpeg_scan_skip:
  assumes "skipped s" "length rest \<ge> 9"
  shows "jpeg_scan (pre @ segment s @ rest) (length pre) = jpeg_scan (pre @ segment s @ rest) (length pre + length (segment s))"
proof -
  let ?bs = "pre @ segment s @ rest"
  have seg: "segment s = 0xff # fst s # be16 (length (snd s) + 2) @ snd s" by (simp add: segment_def)
  have len: "length (segment s) = length (snd s) + 4" by (simp add: seg be16_def)
  have b: "?bs ! length pre = 0xff" "?bs ! (length pre + 1) = fst s" by (simp_all add: seg nth_append)
  have n: "readUint16Be ?bs (length pre + 2) = length (snd s) + 2"
  proof -
    have "?bs = (pre @ [0xff, fst s]) @ be16 (length (snd s) + 2) @ snd s @ rest" by (simp add: seg)
    with read16_append [of "pre @ [0xff, fst s]" "be16 (length (snd s) + 2) @ snd s @ rest" 0]
      read16_be16 [of "length (snd s) + 2" "snd s @ rest"] assms(1)
    show ?thesis by (simp add: skipped_def)
  qed
  have m: "\<not> sof_marker (fst s)" "fst s \<noteq> 0xd8" "fst s \<noteq> 0xd9" using assms(1) by (simp_all add: skipped_def)
  have long: "length pre + 8 < length ?bs" "length pre + (length (snd s) + 2) + 2 \<le> length ?bs"
    using len assms(2) by simp_all
  have "length pre + (length (snd s) + 2) + 2 = length pre + length (segment s)" using len by simp
  with jpeg_scan_marker [OF long(1) b m(2,3) n _ long(2)] m(1) show ?thesis by (simp only: if_False le_add2)
qed

lemma jpeg_scan_segments:
  assumes "\<And>s. s \<in> set segs \<Longrightarrow> skipped s" "length rest \<ge> 9"
  shows "jpeg_scan (pre @ concat (map segment segs) @ rest) (length pre) =
    jpeg_scan (pre @ concat (map segment segs) @ rest) (length (pre @ concat (map segment segs)))"
  using assms(1)
proof (induction segs arbitrary: pre)
  case (Cons s segs)
  let ?rest = "concat (map segment segs) @ rest"
  have "skipped s" "length ?rest \<ge> 9" using Cons.prems assms(2) by simp_all
  from jpeg_scan_skip [OF this, of pre]
  have "jpeg_scan (pre @ concat (map segment (s # segs)) @ rest) (length pre) =
      jpeg_scan ((pre @ segment s) @ ?rest) (length (pre @ segment s))" by simp
  also have "\<dots> = jpeg_scan ((pre @ segment s) @ ?rest) (length ((pre @ segment s) @ concat (map segment segs)))"
    by (rule Cons.IH) (use Cons.prems in simp)
  finally show ?case by simp
qed simp

lemma jpeg_scan_frame:
  assumes "sof_marker m" "w < 65536" "h < 65536" "length rest' + 7 < 65536" "length rest \<ge> 10"
  shows "jpeg_scan (pre @ segment (m, p # be16 h @ be16 w @ rest') @ rest) (length pre) = Some (w, h)"
proof -
  let ?sof = "segment (m, p # be16 h @ be16 w @ rest')"
  let ?bs = "pre @ ?sof @ rest"
  have "length (p # be16 h @ be16 w @ rest') + 2 = length rest' + 7" by (simp add: be16_def)
  then have sof: "?sof = [0xff, m] @ be16 (length rest' + 7) @ [p] @ be16 h @ be16 w @ rest'"
    unfolding segment_def fst_conv snd_conv by (simp only: append_Cons append_Nil)
  have len: "length ?sof = length rest' + 9" unfolding sof by (simp add: be16_def)
  have at: "readUint16Be ?bs (length pre + k) = readUint16Be (?sof @ rest) k" for k by (rule read16_append)
  have b16: "length (be16 k) = 2" for k by (simp add: be16_def)
  have rd2: "readUint16Be (?sof @ rest) 2 = length rest' + 7"
    using read16_at [of "[0xff, m]" 2 "length rest' + 7" "[p] @ be16 h @ be16 w @ rest' @ rest", OF _ assms(4)]
    by (simp add: sof)
  have rd5: "readUint16Be (?sof @ rest) 5 = h"
    using read16_at [of "[0xff, m] @ be16 (length rest' + 7) @ [p]" 5 h "be16 w @ rest' @ rest", OF _ assms(3)]
    by (simp add: sof b16)
  have rd7: "readUint16Be (?sof @ rest) 7 = w"
    using read16_at [of "[0xff, m] @ be16 (length rest' + 7) @ [p] @ be16 h" 7 w "rest' @ rest", OF _ assms(2)]
    by (simp add: sof b16)
  have marker: "m \<noteq> 0xd8" "m \<noteq> 0xd9" using assms(1) by (auto simp: sof_marker_def)
  have b: "?bs ! length pre = 0xff" "?bs ! (length pre + 1) = m" by (simp_all add: sof nth_append)
  have long: "length pre + 8 < length ?bs" "length pre + (length rest' + 7) + 2 \<le> length ?bs"
    using len assms(5) by simp_all
  have n: "readUint16Be ?bs (length pre + 2) = length rest' + 7" using at [of 2] rd2 by simp
  from jpeg_scan_marker [OF long(1) b marker n _ long(2)] assms(1) at rd5 rd7 show ?thesis by simp
qed

section \<open>A text and its first bytes\<close>

definition letters :: "nat \<Rightarrow> byte list" where
  "letters n = replicate n 0x61"

lemma map_letters: "map unat (letters n) = replicate n 97"
  by (simp add: letters_def)

lemma utf8_decode_letters:
  "utf8_decode (replicate n 97 @ bs) = map_option (\<lambda>cs. replicate n 97 @ cs) (utf8_decode bs)"
  by (induction n) (simp_all add: option.map_comp comp_def option.map_ident)

lemma split_lines_one: "10 \<notin> set cs \<Longrightarrow> split_lines acc cs = [rev acc @ cs]"
proof (induction cs arbitrary: acc)
  case (Cons c cs)
  then show ?case by (cases cs) auto
qed simp

text \<open>Sixteen letters exclude every signature, so such a file is a text or nothing.\<close>

lemma letters_inspected:
  assumes "n \<ge> 16"
  shows "inspectAssetBytes (letters n @ bs) m = inspectText (letters n @ bs)"
proof -
  have "letters n = letters 16 @ letters (n - 16)"
    using assms by (simp add: letters_def flip: replicate_add)
  also have "letters 16 = [0x61, 0x61, 0x61, 0x61, 0x61, 0x61, 0x61, 0x61, 0x61, 0x61, 0x61, 0x61, 0x61, 0x61, 0x61, 0x61]"
    by (simp add: letters_def numeral_eq_Suc)
  finally obtain cs where l: "letters n @ bs =
      [0x61, 0x61, 0x61, 0x61, 0x61, 0x61, 0x61, 0x61, 0x61, 0x61, 0x61, 0x61] @ cs" by simp
  have a: "char_of (97 :: nat) = CHR ''a''" by code_simp
  show ?thesis
    unfolding inspectAssetBytes_def isMp3_def isM4a_def l by (simp add: hasPrefix_def ascii_def a)
qed

section \<open>Properties\<close>

text \<open>
  The byte readers: out of range reads as 0, the four-byte readers return the little- and big-endian
  value as an unsigned number although JavaScript's operators are signed, and every result has its width.
\<close>

lemma readers_agree_with_byte_order:
  "readUint16Be bs i = val bs i * 2 ^ 8 + val bs (i + 1) \<and>
   readUint16Le bs i = val bs (i + 1) * 2 ^ 8 + val bs i \<and>
   readUint24Le bs i = val bs (i + 2) * 2 ^ 16 + val bs (i + 1) * 2 ^ 8 + val bs i \<and>
   readUint32Le bs i = val bs (i + 3) * 2 ^ 24 + val bs (i + 2) * 2 ^ 16 + val bs (i + 1) * 2 ^ 8 + val bs i \<and>
   readUint32Be bs i = val bs i * 2 ^ 24 + val bs (i + 1) * 2 ^ 16 + val bs (i + 2) * 2 ^ 8 + val bs (i + 3) \<and>
   readUint16Be bs i < 2 ^ 16 \<and> readUint24Le bs i < 2 ^ 24 \<and> readUint32Le bs i < 2 ^ 32 \<and> readUint32Be bs i < 2 ^ 32"
  using val_less [of bs i] val_less [of bs "i + 1"] val_less [of bs "i + 2"] val_less [of bs "i + 3"]
  by (simp add: read_values)

text \<open>
  What the inspector recognises is a type the API accepts: the MIME type belongs to the category it
  reports, only images have dimensions and only recordings have a duration.
\<close>

lemma inspection_is_allowed:
  assumes "inspectAssetBytes bs n = Some r"
  shows "ins_mimeType r \<in> set (ALLOWED_MIME_TYPES (ins_type r)) \<and>
    (ins_type r \<noteq> IMAGE \<longrightarrow> ins_width r = None \<and> ins_height r = None) \<and>
    (ins_type r \<noteq> AUDIO \<longrightarrow> ins_durationSeconds r = None)"
  using inspect_cases [OF assms] by (elim disjE exE conjE) (simp_all add: image_of_def audio_of_def document_def)

definition ascii_bytes :: "string \<Rightarrow> byte list" where
  "ascii_bytes s = map (\<lambda>c. word_of_nat (of_char c)) s"

lemma inspection_is_allowed_witness:
  "\<exists>r. inspectAssetBytes [0x25, 0x50, 0x44, 0x46, 0x2d, 0x31] 6 = Some r \<and> ins_mimeType r = ''application/pdf'' \<and>
     ins_mimeType r \<in> set (ALLOWED_MIME_TYPES (ins_type r))"
proof -
  have i: "inspectAssetBytes [0x25, 0x50, 0x44, 0x46, 0x2d, 0x31] 6 = Some (document ''application/pdf'')"
    by code_simp
  from inspection_is_allowed [OF i] i show ?thesis by (simp add: document_def)
qed

text \<open>The characters a text file may hold.\<close>

definition text_char :: "nat \<Rightarrow> bool" where
  "text_char c \<longleftrightarrow> scalar c \<and> (32 \<le> c \<or> c \<in> {9, 10, 13})"

lemma enc_no_zero:
  assumes "text_char c"
  shows "0 \<notin> set (enc c)"
proof -
  have "scalar c" "0 < c" using assms by (auto simp: text_char_def)
  from this(1) show ?thesis
    by (cases c rule: scalar_cases) (use \<open>0 < c\<close> \<open>scalar c\<close> in \<open>simp_all add: enc_simps\<close>)
qed

lemma decode_behind_bom:
  assumes "utf8_decode bs = Some cs" "take 3 bs = [239, 187, 191]"
  shows "\<exists>ds. cs = 65279 # ds \<and> utf8_decode (drop 3 bs) = Some ds"
proof -
  have "bs = [239, 187, 191] @ drop 3 bs" using assms(2) append_take_drop_id [of 3 bs] by simp
  then obtain rest where r: "bs = 239 # 187 # 191 # rest" by simp
  with assms(1) show ?thesis by (auto simp: cont_def Let_def)
qed

text \<open>
  C39. A file is taken for a text exactly when it is a non-empty UTF-8 encoding of printable characters, tabs
  and line ends: the strict decoder refuses overlong forms, surrogates and truncated characters, and no other
  control character passes. A byte order mark changes nothing.
\<close>

theorem text_inspection_iff:
  "inspectText bs \<noteq> None \<longleftrightarrow>
     bs \<noteq> [] \<and> (\<exists>cs. list_all text_char cs \<and> map unat bs = concat (map enc cs))"
proof
  let ?ns = "map unat bs"
  assume "inspectText bs \<noteq> None"
  then obtain chs where ne: "bs \<noteq> []" and d: "decode_text bs = Some chs"
    and ok: "\<not> list_ex (\<lambda>c. c < 32 \<and> c \<noteq> 9 \<and> c \<noteq> 10 \<and> c \<noteq> 13) chs"
    by (auto simp: inspectText_def split: if_splits option.splits)
  have chars: "list_all text_char chs" if "utf8_decode xs = Some chs" for xs
    using ok decode_only_enc [OF that] by (auto simp: list_all_iff list_ex_iff text_char_def)
  have "\<exists>cs. list_all text_char cs \<and> ?ns = concat (map enc cs)"
  proof (cases "take 3 ?ns = [239, 187, 191]")
    case True
    then have u: "utf8_decode (drop 3 ?ns) = Some chs" using d by (simp add: decode_text_def Let_def)
    have "?ns = concat (map enc (65279 # chs))"
      using True decode_only_enc [OF u] append_take_drop_id [of 3 ?ns] by (simp add: enc_simps scalar_def)
    moreover have "list_all text_char (65279 # chs)" using chars [OF u] by (simp add: text_char_def scalar_def)
    ultimately show ?thesis by blast
  next
    case False
    then have "utf8_decode ?ns = Some chs" using d by (simp add: decode_text_def Let_def)
    from chars [OF this] decode_only_enc [OF this] show ?thesis by blast
  qed
  with ne show "bs \<noteq> [] \<and> (\<exists>cs. list_all text_char cs \<and> ?ns = concat (map enc cs))" by blast
next
  let ?ns = "map unat bs"
  assume "bs \<noteq> [] \<and> (\<exists>cs. list_all text_char cs \<and> ?ns = concat (map enc cs))"
  then obtain cs where ne: "bs \<noteq> []" and cs: "\<And>c. c \<in> set cs \<Longrightarrow> text_char c" "?ns = concat (map enc cs)"
    by (auto simp: list_all_iff)
  have "0 \<notin> set ?ns" using cs enc_no_zero by auto
  then have zero: "0 \<notin> set bs" by force
  have u: "utf8_decode ?ns = Some cs" using cs(1) unfolding cs(2) by (intro decode_concat_enc) (simp add: text_char_def)
  obtain chs where "decode_text bs = Some chs" "set chs \<subseteq> set cs"
    using u decode_behind_bom [OF u]
    by (cases "take 3 ?ns = [239, 187, 191]") (fastforce simp: decode_text_def Let_def)+
  moreover from this(2) cs(1) have "\<not> list_ex (\<lambda>c. c < 32 \<and> c \<noteq> 9 \<and> c \<noteq> 10 \<and> c \<noteq> 13) chs"
    unfolding list_ex_iff text_char_def by fastforce
  ultimately show "inspectText bs \<noteq> None" using ne zero by (simp add: inspectText_def Let_def)
qed

text \<open>
  The size of a well-formed JPEG is found whatever segments precede its frame header: behind the start
  of image, any marker segments that are not frame headers, and a frame header, the scan returns the
  header's width and height.
\<close>

lemma jpeg_dimensions_found:
  assumes "list_all skipped segs" "sof_marker m" "w < 65536" "h < 65536" "length rest' + 7 < 65536" "length rest \<ge> 10"
  shows "readJpegDimensions ([0xff, 0xd8] @ concat (map segment segs) @ segment (m, p # be16 h @ be16 w @ rest') @ rest)
    = (Some w, Some h)"
proof -
  let ?sof = "segment (m, p # be16 h @ be16 w @ rest')"
  have "length (?sof @ rest) \<ge> 9" using assms(6) by simp
  with assms(1) have "jpeg_scan ([0xff, 0xd8] @ concat (map segment segs) @ ?sof @ rest) (length [0xff, 0xd8 :: byte]) =
      jpeg_scan ([0xff, 0xd8] @ concat (map segment segs) @ ?sof @ rest) (length ([0xff, 0xd8] @ concat (map segment segs)))"
    by (intro jpeg_scan_segments) (simp_all add: list_all_iff)
  also have "\<dots> = Some (w, h)"
    using jpeg_scan_frame [OF assms(2-6), of "[0xff, 0xd8] @ concat (map segment segs)" p] by simp
  finally show ?thesis by (simp add: readJpegDimensions_def numeral_2_eq_2)
qed

lemma jpeg_dimensions_found_witness:
  "readJpegDimensions ([0xff, 0xd8] @ concat (map segment [(0xe0, [1, 2, 3])]) @ segment (0xc0, 8 # be16 480 @ be16 640 @ [3])
    @ replicate 10 0) = (Some 640, Some 480)"
  by (rule jpeg_dimensions_found) (simp_all add: skipped_def sof_marker_def)

text \<open>
  A finding: \<open>confirmUpload\<close> inspects only the first \<open>INSPECTION_RANGE_BYTES\<close> of the object, and the
  strict decoder refuses a prefix that ends inside a character. The whole of this file is accepted as a text;
  the bytes that are read of it are not, so a valid text is rejected for where its characters fall.
\<close>

lemma long_text_cut_in_a_character:
  "inspectAssetBytes (letters (INSPECTION_RANGE_BYTES - 1) @ [0xc3, 0xa9]) m = Some (document ''text/plain'') \<and>
   inspectAssetBytes (take INSPECTION_RANGE_BYTES (letters (INSPECTION_RANGE_BYTES - 1) @ [0xc3, 0xa9])) m = None"
proof -
  define n where "n = INSPECTION_RANGE_BYTES - 1"
  have n: "n \<ge> 16" "INSPECTION_RANGE_BYTES = Suc n" by (simp_all add: n_def INSPECTION_RANGE_BYTES_def)
  have cut: "take (Suc n) (letters n @ [0xc3, 0xa9]) = letters n @ [0xc3]" by (simp add: letters_def)
  have start: "take 3 (replicate n 97 @ bs) \<noteq> [239, 187, 191]" for bs :: "nat list"
    using n(1) by (simp add: numeral_3_eq_3 Suc_le_eq flip: replicate_Suc) (cases n; simp)
  let ?t = "replicate n 97 @ [233]"
  have d: "decode_text (letters n @ [0xc3, 0xa9]) = Some ?t"
    using start by (simp add: decode_text_def map_letters utf8_decode_letters cont_def Let_def)
  have "utrim ?t = ?t" unfolding utrim_def by (rule trim_by_all) (auto simp: js_white_def)
  then have lines: "filter (\<lambda>l. l \<noteq> []) (map utrim (split_lines [] ?t)) = [?t]" by (simp add: split_lines_one)
  have "inspectText (letters n @ [0xc3, 0xa9]) = Some (document ''text/plain'')"
    unfolding inspectText_def d option.case lines Let_def by (simp add: letters_def list_ex_iff)
  moreover have "decode_text (letters n @ [0xc3]) = None"
    using start by (simp add: decode_text_def map_letters utf8_decode_letters Let_def)
  then have "inspectText (letters n @ [0xc3]) = None" by (simp add: inspectText_def)
  ultimately show ?thesis unfolding n(2) diff_Suc_1 cut letters_inspected [OF n(1)] by blast
qed

end
