(* ===== verification/Assets.thy ===== *)
theory Assets
  imports Inspector Reports Environment
begin

text \<open>
  \<open>src/report-assets/report-assets.service.ts\<close> and \<open>report-asset-limits.service.ts\<close>: requesting,
  confirming, listing, downloading and deleting the files of a report. One request reads one clock value.
  \<open>env\<close> functions are what other processes commit between two awaited calls, numbered in the order of the
  code; S3 replies are part of \<open>upload_env\<close>.
\<close>

section \<open>Limits\<close>

fun bytesKey :: "asset_type \<Rightarrow> string" where
  "bytesKey IMAGE = ''IMAGE_MAX_BYTES''"
| "bytesKey AUDIO = ''AUDIO_MAX_BYTES''"
| "bytesKey DOCUMENT = ''DOCUMENT_MAX_BYTES''"

fun countKey :: "asset_type \<Rightarrow> string" where
  "countKey IMAGE = ''REPORT_MAX_IMAGES''"
| "countKey AUDIO = ''REPORT_MAX_AUDIO_FILES''"
| "countKey DOCUMENT = ''REPORT_MAX_DOCUMENTS''"

definition config_number :: "environment \<Rightarrow> string \<Rightarrow> int result" where
  "config_number config key =
     (case env_integer config key of
        None \<Rightarrow> Inl (PlainError (key @ '' is not configured''))
      | Some value \<Rightarrow> (if value \<le> 0 then Inl (PlainError (key @ '' is not configured'')) else Inr value))"

definition maximumBytes :: "environment \<Rightarrow> asset_type \<Rightarrow> int result" where
  "maximumBytes config t = config_number config (bytesKey t)"

definition maximumCount :: "environment \<Rightarrow> asset_type \<Rightarrow> int result" where
  "maximumCount config t = config_number config (countKey t)"

definition maximumReportBytes :: "environment \<Rightarrow> int result" where
  "maximumReportBytes config = config_number config ''REPORT_MAX_TOTAL_ASSET_BYTES''"

definition maximumImageWidth :: "environment \<Rightarrow> int result" where
  "maximumImageWidth config = config_number config ''IMAGE_MAX_WIDTH''"

definition maximumImageHeight :: "environment \<Rightarrow> int result" where
  "maximumImageHeight config = config_number config ''IMAGE_MAX_HEIGHT''"

definition maximumAudioDurationSeconds :: "environment \<Rightarrow> int result" where
  "maximumAudioDurationSeconds config = config_number config ''AUDIO_MAX_DURATION_SECONDS''"

definition pendingUploadTtlMinutes :: "environment \<Rightarrow> int result" where
  "pendingUploadTtlMinutes config = config_number config ''PENDING_UPLOAD_TTL_MINUTES''"

section \<open>Errors and helpers\<close>

definition assetError :: "string \<Rightarrow> string \<Rightarrow> exn" where
  "assetError code message = HttpError 400 code message []"

definition storageUnavailable :: exn where
  "storageUnavailable = HttpError 503 ''OBJECT_STORAGE_UNAVAILABLE'' ''Object storage is temporarily unavailable'' []"

definition asset_not_found :: exn where
  "asset_not_found = HttpError 404 [] ''Report asset not found'' []"

definition pendingCutoff :: "environment \<Rightarrow> int \<Rightarrow> int result" where
  "pendingCutoff config now = bindE (pendingUploadTtlMinutes config) (\<lambda>minutes. Inr (now - minutes * 60000))"

text \<open>\<open>slice(0, n)\<close> counts UTF-16 units: a character beyond U+FFFF that does not fit leaves its first half.\<close>

fun slice16 :: "nat \<Rightarrow> utext \<Rightarrow> utext" where
  "slice16 0 s = []"
| "slice16 (Suc n) [] = []"
| "slice16 (Suc n) (c # cs) =
     (if c < 65536 then c # slice16 n cs
      else case n of 0 \<Rightarrow> [55296 + (c - 65536) div 1024] | Suc m \<Rightarrow> c # slice16 m cs)"

definition last_segment :: "utext \<Rightarrow> utext" where
  "last_segment s = rev (takeWhile (\<lambda>c. c \<noteq> 92 \<and> c \<noteq> 47) (rev s))"

definition sanitizeFileName :: "utext \<Rightarrow> utext" where
  "sanitizeFileName fileName =
     (let displayName = utrim (last_segment (filter (\<lambda>c. c \<ge> 32 \<and> c \<noteq> 127) fileName)) in
      slice16 255 (if displayName = [] then codes ''upload'' else displayName))"

record upload_dto =
  ud_type :: asset_type
  ud_fileName :: utext
  ud_mimeType :: string
  ud_size :: int

definition validateDeclaredUpload :: "environment \<Rightarrow> upload_dto \<Rightarrow> unit result" where
  "validateDeclaredUpload config dto =
     bindE (guardE (ud_mimeType dto \<in> set (ALLOWED_MIME_TYPES (ud_type dto)))
       (assetError ''UNSUPPORTED_ASSET_TYPE'' ''The requested MIME type is not supported for this asset category'')) (\<lambda>_.
     bindE (maximumBytes config (ud_type dto)) (\<lambda>maximum.
     guardE (\<not> ud_size dto > maximum)
       (assetError ''ASSET_TOO_LARGE'' ''The declared file size exceeds the allowed maximum'')))"

record public_asset =
  pa_id :: string
  pa_reportId :: string
  pa_type :: asset_type
  pa_status :: asset_status
  pa_originalFileName :: utext
  pa_declaredMimeType :: string
  pa_verifiedMimeType :: "string option"
  pa_declaredSize :: int
  pa_verifiedSize :: "int option"
  pa_position :: int
  pa_width :: "int option"
  pa_height :: "int option"
  pa_durationSeconds :: "rat option"
  pa_rejectionReason :: "string option"
  pa_createdAt :: int

definition publicAsset :: "asset_row \<Rightarrow> public_asset" where
  "publicAsset a =
     \<lparr>pa_id = as_id a, pa_reportId = as_reportId a, pa_type = as_type a, pa_status = as_status a,
      pa_originalFileName = as_originalFileName a, pa_declaredMimeType = as_declaredMimeType a,
      pa_verifiedMimeType = as_verifiedMimeType a, pa_declaredSize = as_declaredSize a,
      pa_verifiedSize = as_verifiedSize a, pa_position = as_position a, pa_width = as_width a,
      pa_height = as_height a, pa_durationSeconds = as_durationSeconds a,
      pa_rejectionReason = as_rejectionReason a, pa_createdAt = as_createdAt a\<rparr>"

definition findOwnedAsset :: "string \<Rightarrow> string \<Rightarrow> string \<Rightarrow> db \<Rightarrow> asset_row result" where
  "findOwnedAsset userId reportId assetId d =
     fromOption asset_not_found
       (find_first (\<lambda>a. as_id a = assetId \<and> as_reportId a = reportId \<and>
          exists_where (\<lambda>r. rep_id r = as_reportId a \<and> rep_userId r = userId) (reports d)) (assets d))"

definition assertOwnedReport :: "string \<Rightarrow> string \<Rightarrow> db \<Rightarrow> unit result" where
  "assertOwnedReport userId reportId d = bindE (fromOption report_not_found (owned_report userId reportId d)) (\<lambda>_. Inr ())"

definition assertEditableReport :: "string \<Rightarrow> string \<Rightarrow> db \<Rightarrow> unit result" where
  "assertEditableReport userId reportId d =
     bindE (fromOption report_not_found (owned_report userId reportId d)) (\<lambda>report.
     assertReportEditable (rep_status report))"

section \<open>Requesting an upload\<close>

record upload_env =
  ue_config :: environment
  ue_now :: int
  ue_bucket :: string
  ue_deleteFault :: "string \<Rightarrow> s3_error option"
  ue_headFault :: "s3_error option"
  ue_readFault :: "s3_error option"

definition is_pending :: "string \<Rightarrow> asset_row \<Rightarrow> bool" where
  "is_pending assetId a \<longleftrightarrow> as_id a = assetId \<and> as_status a = AS_PENDING_UPLOAD"

definition mark_rejected :: "string \<Rightarrow> string \<Rightarrow> db \<Rightarrow> db" where
  "mark_rejected assetId code d =
     d\<lparr>assets := update_where (is_pending assetId)
         (\<lambda>a. a\<lparr>as_status := AS_REJECTED, as_rejectionReason := Some code\<rparr>) (assets d)\<rparr>"

text \<open>\<open>deleteMany\<close> on assets, with the rows the foreign keys cascade to.\<close>

definition delete_assets :: "(asset_row \<Rightarrow> bool) \<Rightarrow> db \<Rightarrow> db" where
  "delete_assets p d =
     (let gone = (\<lambda>i. \<exists>a \<in> set (assets d). as_id a = i \<and> p a)
      in d\<lparr>assets := delete_where p (assets d),
           transcriptions := delete_where (\<lambda>t. gone (tr_assetId t)) (transcriptions d),
           attempts := delete_where (\<lambda>t. case att_assetId t of None \<Rightarrow> False | Some i \<Rightarrow> gone i) (attempts d)\<rparr>)"

fun cleanup_each :: "upload_env \<Rightarrow> asset_row list \<Rightarrow> world \<Rightarrow> nat \<times> world" where
  "cleanup_each ue [] w = (0, w)"
| "cleanup_each ue (a # as) w =
     (case enqueueAndAttempt (ue_bucket ue) (ue_deleteFault ue) (ue_now ue) (as_storageKey a) EXPIRED_UPLOAD w of
        (Inl _, w1) \<Rightarrow> cleanup_each ue as w1
      | (Inr _, w1) \<Rightarrow>
          (let n = count_where (is_pending (as_id a)) (assets (wdb w1));
               (m, w2) = cleanup_each ue as (w1\<lparr>wdb := mark_rejected (as_id a) ''UPLOAD_EXPIRED'' (wdb w1)\<rparr>)
           in (n + m, w2)))"

definition cleanupExpiredPendingUploads :: "upload_env \<Rightarrow> string option \<Rightarrow> world \<Rightarrow> nat result \<times> world" where
  "cleanupExpiredPendingUploads ue reportId w =
     (case pendingCutoff (ue_config ue) (ue_now ue) of
        Inl e \<Rightarrow> (Inl e, w)
      | Inr cutoff \<Rightarrow>
          (let expired = filter (\<lambda>a. (case reportId of None \<Rightarrow> True | Some r \<Rightarrow> as_reportId a = r) \<and>
                 as_status a = AS_PENDING_UPLOAD \<and> as_createdAt a < cutoff) (assets (wdb w));
               (cleaned, w1) = cleanup_each ue expired w
           in (Inr cleaned, w1)))"

definition active_asset :: "string \<Rightarrow> int \<Rightarrow> asset_row \<Rightarrow> bool" where
  "active_asset reportId cutoff a \<longleftrightarrow> as_reportId a = reportId \<and>
     (as_status a = AS_READY \<or> (as_status a = AS_PENDING_UPLOAD \<and> as_createdAt a \<ge> cutoff))"

definition asset_bytes :: "asset_row \<Rightarrow> int" where
  "asset_bytes a = (case as_verifiedSize a of Some n \<Rightarrow> n | None \<Rightarrow> as_declaredSize a)"

definition pending_asset :: "string \<Rightarrow> string \<Rightarrow> string \<Rightarrow> upload_dto \<Rightarrow> int \<Rightarrow> int \<Rightarrow> asset_row" where
  "pending_asset reportId assetId storageKey dto position now =
     \<lparr>as_id = assetId, as_reportId = reportId, as_type = ud_type dto, as_status = AS_PENDING_UPLOAD,
      as_storageKey = storageKey, as_originalFileName = sanitizeFileName (ud_fileName dto),
      as_declaredMimeType = ud_mimeType dto, as_verifiedMimeType = None, as_declaredSize = ud_size dto,
      as_verifiedSize = None, as_position = position, as_width = None, as_height = None,
      as_durationSeconds = None, as_rejectionReason = None, as_createdAt = now\<rparr>"

definition create_asset :: "asset_row \<Rightarrow> db \<Rightarrow> exn + db" where
  "create_asset a d =
     (if exists_where (\<lambda>b. as_id b = as_id a \<or> as_storageKey b = as_storageKey a) (assets d)
      then Inl (PrismaError ''P2002'') else Inr (d\<lparr>assets := assets d @ [a]\<rparr>))"

fun type_lower :: "asset_type \<Rightarrow> string" where
  "type_lower IMAGE = ''image''" | "type_lower AUDIO = ''audio''" | "type_lower DOCUMENT = ''document''"

definition create_pending_body ::
  "environment \<Rightarrow> int \<Rightarrow> string \<Rightarrow> string \<Rightarrow> string \<Rightarrow> string \<Rightarrow> upload_dto \<Rightarrow> (db, unit) tx" where
  "create_pending_body config now userId reportId assetId storageKey dto d =
     bindE (fromOption report_not_found (owned_report userId reportId d)) (\<lambda>report.
     bindE (assertReportEditable (rep_status report)) (\<lambda>_.
     bindE (pendingCutoff config now) (\<lambda>cutoff.
     (let activeAssets = filter (active_asset reportId cutoff) (assets d);
          typeCount = int (length (filter (\<lambda>a. as_type a = ud_type dto) activeAssets));
          reservedBytes = foldl (\<lambda>total a. total + asset_bytes a) 0 activeAssets;
          position = foldl (\<lambda>m a. max m (as_position a)) (- 1) activeAssets + 1
      in bindE (maximumCount config (ud_type dto)) (\<lambda>maxCount.
         bindE (guardE (\<not> typeCount \<ge> maxCount) (assetError ''REPORT_ASSET_LIMIT_EXCEEDED''
           (''The report has reached its '' @ type_lower (ud_type dto) @ '' asset limit''))) (\<lambda>_.
         bindE (maximumReportBytes config) (\<lambda>maxBytes.
         bindE (guardE (\<not> reservedBytes + ud_size dto > maxBytes)
           (assetError ''REPORT_STORAGE_LIMIT_EXCEEDED'' ''The report storage limit would be exceeded'')) (\<lambda>_.
         bindE (create_asset (pending_asset reportId assetId storageKey dto position now) d) (\<lambda>d1.
         Inr ((), d1))))))))))"

definition SERIALIZABLE_TRANSACTION_ATTEMPTS :: nat where
  "SERIALIZABLE_TRANSACTION_ATTEMPTS = 3"

definition upload_slot_conflict :: exn where
  "upload_slot_conflict = conflict ''UPLOAD_SLOT_CONFLICT'' ''The upload slot could not be reserved; retry the request''"

text \<open>The loop; \<open>n\<close> is the number of attempts left.\<close>

fun slot_loop ::
  "(nat \<Rightarrow> exn option) \<Rightarrow> (nat \<Rightarrow> db \<Rightarrow> db) \<Rightarrow> (db, unit) tx \<Rightarrow> nat \<Rightarrow> nat \<Rightarrow> db \<Rightarrow> unit result \<times> db" where
  "slot_loop fault env body 0 attempt' d = (Inr (), d)"
| "slot_loop fault env body (Suc n) attempt' d =
     (let d1 = env attempt' d in
      case (case fault attempt' of Some e \<Rightarrow> Inl e | None \<Rightarrow> body d1) of
        Inr (u, d2) \<Rightarrow> (Inr (), d2)
      | Inl e \<Rightarrow>
         (if e \<noteq> PrismaError ''P2034'' then (Inl e, d1)
          else if attempt' = SERIALIZABLE_TRANSACTION_ATTEMPTS then (Inl upload_slot_conflict, d1)
          else slot_loop fault env body n (attempt' + 1) d1))"

definition createPendingAssetWithinLimits ::
  "environment \<Rightarrow> int \<Rightarrow> (nat \<Rightarrow> exn option) \<Rightarrow> (nat \<Rightarrow> db \<Rightarrow> db) \<Rightarrow> string \<Rightarrow> string \<Rightarrow> string \<Rightarrow> string \<Rightarrow> upload_dto \<Rightarrow>
     db \<Rightarrow> unit result \<times> db" where
  "createPendingAssetWithinLimits config now fault env userId reportId assetId storageKey dto d =
     slot_loop fault env (create_pending_body config now userId reportId assetId storageKey dto)
       SERIALIZABLE_TRANSACTION_ATTEMPTS 1 d"

text \<open>The contract the SDK makes (or \<open>None\<close>, when it fails) is a parameter.\<close>

definition requestUpload ::
  "upload_env \<Rightarrow> (nat \<Rightarrow> exn option) \<Rightarrow> (nat \<Rightarrow> db \<Rightarrow> db) \<Rightarrow> 'c option \<Rightarrow> string \<Rightarrow> string \<Rightarrow> string \<Rightarrow> string \<Rightarrow>
     upload_dto \<Rightarrow> world \<Rightarrow> (string \<times> 'c) result \<times> world" where
  "requestUpload ue fault env contract assetId uuid userId reportId dto w =
     (case bindE (fromOption report_not_found (owned_report userId reportId (wdb w))) (\<lambda>report.
           bindE (assertReportEditable (rep_status report)) (\<lambda>_.
           validateDeclaredUpload (ue_config ue) dto)) of
        Inl e \<Rightarrow> (Inl e, w)
      | Inr _ \<Rightarrow>
          (let w1 = snd (retryPending (ue_bucket ue) (ue_deleteFault ue) (ue_now ue) 20 w)
           in case cleanupExpiredPendingUploads ue (Some reportId) w1 of
                (Inl e, w2) \<Rightarrow> (Inl e, w2)
              | (Inr _, w2) \<Rightarrow>
                 (case createPendingAssetWithinLimits (ue_config ue) (ue_now ue) fault env userId reportId assetId
                         (asset_key userId reportId assetId uuid) dto (wdb w2) of
                    (Inl e, d) \<Rightarrow> (Inl e, w2\<lparr>wdb := d\<rparr>)
                  | (Inr _, d) \<Rightarrow>
                      (case contract of
                         Some c \<Rightarrow> (Inr (assetId, c), w2\<lparr>wdb := d\<rparr>)
                       | None \<Rightarrow> (Inl storageUnavailable, w2\<lparr>wdb := delete_assets (is_pending assetId) d\<rparr>)))))"

section \<open>Confirming an upload\<close>

definition rejectUpload :: "upload_env \<Rightarrow> asset_row \<Rightarrow> string \<Rightarrow> string \<Rightarrow> world \<Rightarrow> 'a result \<times> world" where
  "rejectUpload ue asset code message w =
     (case enqueueAndAttempt (ue_bucket ue) (ue_deleteFault ue) (ue_now ue) (as_storageKey asset) REJECTED_UPLOAD w of
        (Inl e, w1) \<Rightarrow> (Inl e, w1)
      | (Inr _, w1) \<Rightarrow> (Inl (assetError code message), w1\<lparr>wdb := mark_rejected (as_id asset) code (wdb w1)\<rparr>))"

text \<open>Why the stored size is refused, if it is.\<close>

definition size_rejection :: "environment \<Rightarrow> asset_row \<Rightarrow> int \<Rightarrow> (string \<times> string) option result" where
  "size_rejection config asset size' =
     bindE (maximumBytes config (as_type asset)) (\<lambda>maximum.
     Inr (if size' > maximum then Some (''ASSET_TOO_LARGE'', ''The uploaded object exceeds its size limit'')
          else if size' = 0 \<or> size' \<noteq> as_declaredSize asset
          then Some (''UPLOAD_CONTENT_MISMATCH'', ''The uploaded object size does not match the request'')
          else None))"

definition exceeds :: "nat option \<Rightarrow> int result \<Rightarrow> bool result" where
  "exceeds x limit = (case x of None \<Rightarrow> Inr False | Some n \<Rightarrow> bindE limit (\<lambda>m. Inr (int n > m)))"

text \<open>Why the content is refused, if it is; \<open>&&\<close> and \<open>||\<close> read a limit only when they get to it.\<close>

definition content_rejection :: "environment \<Rightarrow> asset_row \<Rightarrow> inspection option \<Rightarrow> (string \<times> string) option result" where
  "content_rejection config asset inspected =
     (case inspected of
        None \<Rightarrow> Inr (Some (''UPLOAD_CONTENT_MISMATCH'', ''The uploaded file content does not match the requested type''))
      | Some i \<Rightarrow>
         (if ins_type i \<noteq> as_type asset \<or> as_declaredMimeType asset \<noteq> ins_mimeType i
          then Inr (Some (''UPLOAD_CONTENT_MISMATCH'', ''The uploaded file content does not match the requested type''))
          else
            bindE (if ins_type i = IMAGE
                   then bindE (exceeds (ins_width i) (maximumImageWidth config)) (\<lambda>tooWide.
                        if tooWide then Inr True else exceeds (ins_height i) (maximumImageHeight config))
                   else Inr False) (\<lambda>tooBig.
            if tooBig then Inr (Some (''INVALID_IMAGE_DIMENSIONS'', ''The uploaded image dimensions exceed the allowed maximum''))
            else
            bindE (if ins_type i = AUDIO
                   then (case ins_durationSeconds i of None \<Rightarrow> Inr False
                         | Some t \<Rightarrow> bindE (maximumAudioDurationSeconds config) (\<lambda>m. Inr (t > of_int m)))
                   else Inr False) (\<lambda>tooLong.
            Inr (if tooLong then Some (''UPLOAD_CONTENT_MISMATCH'', ''The uploaded audio duration exceeds the allowed maximum'')
                 else None)))))"

definition mark_ready :: "inspection \<Rightarrow> int \<Rightarrow> asset_row \<Rightarrow> asset_row" where
  "mark_ready i size' a =
     a\<lparr>as_status := AS_READY, as_verifiedMimeType := Some (ins_mimeType i), as_verifiedSize := Some size',
       as_width := (case ins_width i of None \<Rightarrow> as_width a | Some n \<Rightarrow> Some (int n)),
       as_height := (case ins_height i of None \<Rightarrow> as_height a | Some n \<Rightarrow> Some (int n)),
       as_durationSeconds := (case ins_durationSeconds i of None \<Rightarrow> as_durationSeconds a | Some t \<Rightarrow> Some t),
       as_rejectionReason := None\<rparr>"

text \<open>The update, guarded by the status, and the read that follows it.\<close>

definition commit_upload ::
  "(world \<Rightarrow> world) \<Rightarrow> string \<Rightarrow> string \<Rightarrow> asset_row \<Rightarrow> inspection \<Rightarrow> int \<Rightarrow> world \<Rightarrow> public_asset result \<times> world" where
  "commit_upload env userId reportId asset i size' w =
     (let n = count_where (is_pending (as_id asset)) (assets (wdb w));
          w1 = env (w\<lparr>wdb := (wdb w)\<lparr>assets := update_where (is_pending (as_id asset)) (mark_ready i size') (assets (wdb w))\<rparr>\<rparr>)
      in if n = 0
         then (bindE (findOwnedAsset userId reportId (as_id asset) (wdb w1)) (\<lambda>concurrentResult.
               if as_status concurrentResult = AS_READY then Inr (publicAsset concurrentResult)
               else Inl (assetError ''ASSET_NOT_READY'' ''The upload is not ready'')), w1)
         else (bindE (fromOption (PrismaError ''P2025'') (find_first (\<lambda>a. as_id a = as_id asset) (assets (wdb w1))))
                 (\<lambda>readyAsset. Inr (publicAsset readyAsset)), w1))"

definition read_and_commit ::
  "upload_env \<Rightarrow> (nat \<Rightarrow> world \<Rightarrow> world) \<Rightarrow> string \<Rightarrow> string \<Rightarrow> asset_row \<Rightarrow> int \<Rightarrow> world \<Rightarrow> public_asset result \<times> world" where
  "read_and_commit ue env userId reportId asset size' w =
     (case readInspectionBytes (ue_bucket ue) (ue_readFault ue) (as_storageKey asset) (objects w) of
        Inl _ \<Rightarrow> (Inl storageUnavailable, w)
      | Inr inspectionBytes \<Rightarrow>
          (let inspected = inspectAssetBytes (map word_of_nat inspectionBytes) size'
           in case content_rejection (ue_config ue) asset inspected of
                Inl e \<Rightarrow> (Inl e, w)
              | Inr (Some (code, message)) \<Rightarrow> rejectUpload ue asset code message w
              | Inr None \<Rightarrow> commit_upload (env 5) userId reportId asset (the inspected) size' (env 4 w)))"

definition confirmUpload ::
  "upload_env \<Rightarrow> (nat \<Rightarrow> world \<Rightarrow> world) \<Rightarrow> string \<Rightarrow> string \<Rightarrow> string \<Rightarrow> world \<Rightarrow> public_asset result \<times> world" where
  "confirmUpload ue env userId reportId assetId w =
     (case findOwnedAsset userId reportId assetId (wdb w) of
        Inl e \<Rightarrow> (Inl e, w)
      | Inr asset \<Rightarrow>
         (if as_status asset = AS_READY then (Inr (publicAsset asset), w)
          else if as_status asset = AS_REJECTED
          then (Inl (assetError ''ASSET_NOT_READY'' ''The upload has been rejected''), w)
          else let w1 = env 1 w in
           (case bindE (assertEditableReport userId reportId (wdb w1)) (\<lambda>_. pendingCutoff (ue_config ue) (ue_now ue)) of
              Inl e \<Rightarrow> (Inl e, w1)
            | Inr cutoff \<Rightarrow>
               (if as_createdAt asset < cutoff
                then rejectUpload ue asset ''UPLOAD_EXPIRED'' ''The upload request has expired'' w1
                else let w2 = env 2 w1 in
                 (case headObject (ue_bucket ue) (ue_headFault ue) (as_storageKey asset) (objects w2) of
                    Inl _ \<Rightarrow> (Inl storageUnavailable, w2)
                  | Inr None \<Rightarrow> rejectUpload ue asset ''UPLOAD_NOT_FOUND'' ''The uploaded object was not found'' w2
                  | Inr (Some size') \<Rightarrow>
                     (case size_rejection (ue_config ue) asset size' of
                        Inl e \<Rightarrow> (Inl e, w2)
                      | Inr (Some (code, message)) \<Rightarrow> rejectUpload ue asset code message w2
                      | Inr None \<Rightarrow> read_and_commit ue env userId reportId asset size' (env 3 w2)))))))"

section \<open>Listing, downloading, deleting\<close>

definition list_assets :: "string \<Rightarrow> string \<Rightarrow> db \<Rightarrow> public_asset list result" where
  "list_assets userId reportId d =
     bindE (assertOwnedReport userId reportId d) (\<lambda>_.
     Inr (map publicAsset (sort_key (\<lambda>a. (as_position a, as_createdAt a))
       (filter (\<lambda>a. as_reportId a = reportId) (assets d)))))"

definition createDownloadUrl :: "(string \<Rightarrow> 'u option) \<Rightarrow> string \<Rightarrow> string \<Rightarrow> string \<Rightarrow> db \<Rightarrow> 'u result" where
  "createDownloadUrl presign userId reportId assetId d =
     bindE (findOwnedAsset userId reportId assetId d) (\<lambda>asset.
     bindE (guardE (as_status asset = AS_READY)
       (assetError ''ASSET_NOT_READY'' ''Only ready assets can be downloaded'')) (\<lambda>_.
     fromOption storageUnavailable (presign (as_storageKey asset))))"

text \<open>\<open>env\<close> is what is committed between the check of the report and the rest.\<close>

definition delete_asset ::
  "upload_env \<Rightarrow> (world \<Rightarrow> world) \<Rightarrow> string \<Rightarrow> string \<Rightarrow> string \<Rightarrow> world \<Rightarrow> unit result \<times> world" where
  "delete_asset ue env userId reportId assetId w =
     (case assertEditableReport userId reportId (wdb w) of
        Inl e \<Rightarrow> (Inl e, w)
      | Inr _ \<Rightarrow>
         (let w1 = env w; d = wdb w1 in
          case find_first (\<lambda>a. as_id a = assetId \<and> as_reportId a = reportId) (assets d) of
            None \<Rightarrow>
              (if exists_where (\<lambda>a. as_id a = assetId) (assets d) then (Inl asset_not_found, w1) else (Inr (), w1))
          | Some asset \<Rightarrow>
              (Inr (), snd (attemptMany (ue_bucket ue) (ue_deleteFault ue) (ue_now ue) [as_storageKey asset]
                 (w1\<lparr>wdb := delete_assets (\<lambda>a. as_id a = assetId \<and> as_reportId a = reportId)
                      (upsert_task (ue_now ue) (as_storageKey asset) ASSET_DELETE d)\<rparr>)))))"

section \<open>The outbox leaves the other tables alone\<close>

definition outbox_only :: "world \<Rightarrow> world \<Rightarrow> bool" where
  "outbox_only w w' \<longleftrightarrow> (\<exists>rows. wdb w' = (wdb w)\<lparr>cleanupTasks := rows\<rparr>)"

lemma outbox_onlyI: "wdb w' = (wdb w)\<lparr>cleanupTasks := rows\<rparr> \<Longrightarrow> outbox_only w w'"
  by (auto simp: outbox_only_def)

lemma outbox_onlyE:
  assumes "outbox_only w w'"
  obtains rows where "wdb w' = (wdb w)\<lparr>cleanupTasks := rows\<rparr>"
  using assms by (auto simp: outbox_only_def)

lemma outbox_only_assets: "outbox_only w w' \<Longrightarrow> assets (wdb w') = assets (wdb w)"
  by (auto simp: outbox_only_def)

lemma outbox_only_refl: "outbox_only w w"
  by (rule outbox_onlyI [where rows = "cleanupTasks (wdb w)"]) simp

lemma outbox_only_trans: "outbox_only w w1 \<Longrightarrow> outbox_only w1 w2 \<Longrightarrow> outbox_only w w2"
  by (auto simp: outbox_only_def)

lemma outbox_attempt: "outbox_only w (snd (attempt bn faults now k w))"
  by (auto simp: attempt_def outbox_only_refl split: prod.splits sum.splits
      intro: outbox_onlyI [where rows = "delete_where _ _"] outbox_onlyI [where rows = "update_where _ _ _"])

lemma outbox_upsert: "\<exists>rows. upsert_task now k r d = d\<lparr>cleanupTasks := rows\<rparr>"
  by (auto simp: upsert_task_def)

lemma outbox_enqueue: "outbox_only w (snd (enqueueAndAttempt bn faults now k r w))"
proof -
  obtain rows where "upsert_task now k r (wdb w) = (wdb w)\<lparr>cleanupTasks := rows\<rparr>" using outbox_upsert by blast
  then have "outbox_only w (w\<lparr>wdb := upsert_task now k r (wdb w)\<rparr>)" by (intro outbox_onlyI [where rows = rows]) simp
  then show ?thesis unfolding enqueueAndAttempt_def by (rule outbox_only_trans [OF _ outbox_attempt])
qed

lemma outbox_attempts: "outbox_only w (fold (\<lambda>k w. snd (attempt bn faults now k w)) ks w)"
  by (induction ks arbitrary: w) (auto intro: outbox_only_refl outbox_only_trans [OF outbox_attempt])

lemma outbox_in_order: "outbox_only w (snd (attempts_in_order bn faults now ks w))"
  unfolding attempts_in_order_world by (rule outbox_attempts)

lemma outbox_attemptMany: "outbox_only w (snd (attemptMany bn faults now ks w))"
  using outbox_in_order [of w bn faults now ks] by (auto simp: attemptMany_def split: prod.splits sum.splits)

lemma outbox_retryPending: "outbox_only w (snd (retryPending bn faults now limit w))"
  using outbox_in_order [of w bn faults now]
  by (auto simp: retryPending_def Let_def split: prod.splits sum.splits) (metis snd_conv)+

section \<open>What every operation keeps\<close>

text \<open>
  \<open>verified_as config asset size' i\<close>: the checks of \<open>confirmUpload\<close> on the stored object let the inspection
  \<open>i\<close> pass. The operations only change assets through four kinds of commits; a property of the database
  that these keep is kept by every operation when nothing interferes.
\<close>

definition verified_as :: "environment \<Rightarrow> asset_row \<Rightarrow> int \<Rightarrow> inspection \<Rightarrow> bool" where
  "verified_as config a size' i \<longleftrightarrow>
     size_rejection config a size' = Inr None \<and> content_rejection config a (Some i) = Inr None"

definition ready_db :: "asset_row \<Rightarrow> inspection \<Rightarrow> int \<Rightarrow> db \<Rightarrow> db" where
  "ready_db a i size' d = d\<lparr>assets := update_where (is_pending (as_id a)) (mark_ready i size') (assets d)\<rparr>"

locale upload_policy =
  fixes I :: "db \<Rightarrow> bool" and config :: environment and now :: int
  assumes outbox_kept: "I d \<Longrightarrow> I (d\<lparr>cleanupTasks := rows\<rparr>)"
    and reject_kept: "I d \<Longrightarrow> I (mark_rejected aid code d)"
    and delete_kept: "I d \<Longrightarrow> I (delete_assets p d)"
    and create_kept: "I d \<Longrightarrow> validateDeclaredUpload config dto = Inr () \<Longrightarrow> 1 \<le> ud_size dto \<Longrightarrow>
        create_pending_body config now u r aid key dto d = Inr ((), d') \<Longrightarrow> I d'"
    and ready_kept: "I d \<Longrightarrow> a \<in> set (assets d) \<Longrightarrow> as_status a = AS_PENDING_UPLOAD \<Longrightarrow>
        pendingCutoff config now = Inr cutoff \<Longrightarrow> cutoff \<le> as_createdAt a \<Longrightarrow> verified_as config a size' i \<Longrightarrow>
        I (ready_db a i size' d)"
begin

lemma outbox_only_kept: "I (wdb w) \<Longrightarrow> outbox_only w w' \<Longrightarrow> I (wdb w')"
  using outbox_kept by (auto simp: outbox_only_def)

lemma cleanup_each_kept: "I (wdb w) \<Longrightarrow> I (wdb (snd (cleanup_each ue as w)))"
proof (induction as arbitrary: w)
  case (Cons a as)
  let ?q = "enqueueAndAttempt (ue_bucket ue) (ue_deleteFault ue) (ue_now ue) (as_storageKey a) EXPIRED_UPLOAD w"
  have w1: "I (wdb (snd ?q))" using outbox_only_kept [OF Cons.prems outbox_enqueue] .
  show ?case
  proof (cases "fst ?q")
    case (Inl e)
    with Cons.IH [OF w1] show ?thesis by (simp add: case_prod_beta split: prod.splits)
  next
    case (Inr b)
    have "I (wdb ((snd ?q)\<lparr>wdb := mark_rejected (as_id a) ''UPLOAD_EXPIRED'' (wdb (snd ?q))\<rparr>))"
      using reject_kept [OF w1] by simp
    from Cons.IH [OF this] Inr show ?thesis by (simp add: case_prod_beta Let_def split: prod.splits)
  qed
qed simp

lemma cleanup_kept: "I (wdb w) \<Longrightarrow> I (wdb (snd (cleanupExpiredPendingUploads ue r w)))"
  using cleanup_each_kept by (auto simp: cleanupExpiredPendingUploads_def Let_def case_prod_beta split: sum.splits)

lemma slot_kept:
  "I d \<Longrightarrow> validateDeclaredUpload config dto = Inr () \<Longrightarrow> 1 \<le> ud_size dto \<Longrightarrow>
   I (snd (slot_loop fault (\<lambda>_ d. d) (create_pending_body config now u r aid key dto) n k d))"
proof (induction n arbitrary: k d)
  case (Suc n)
  then show ?case using create_kept [OF Suc.prems] by (auto simp: Let_def split: sum.splits option.splits)
qed simp

lemma request_kept:
  assumes "I (wdb w)" "ue_config ue = config" "ue_now ue = now" "1 \<le> ud_size dto"
  shows "I (wdb (snd (requestUpload ue fault (\<lambda>_ d. d) contract aid uuid u r dto w)))"
proof -
  let ?w1 = "snd (retryPending (ue_bucket ue) (ue_deleteFault ue) (ue_now ue) 20 w)"
  let ?w2 = "snd (cleanupExpiredPendingUploads ue (Some r) ?w1)"
  have "I (wdb ?w1)" using outbox_only_kept [OF assms(1) outbox_retryPending] .
  then have w2: "I (wdb ?w2)" by (rule cleanup_kept)
  let ?slot = "createPendingAssetWithinLimits (ue_config ue) (ue_now ue) fault (\<lambda>_ d. d) u r aid (asset_key u r aid uuid) dto (wdb ?w2)"
  have slot: "I (snd ?slot)" if "validateDeclaredUpload config dto = Inr ()"
    using slot_kept [OF w2 that assms(4)] assms(2,3) by (simp add: createPendingAssetWithinLimits_def)
  show ?thesis
    using assms(1,2) w2 slot delete_kept [OF slot]
    by (auto simp: requestUpload_def Let_def bindE_Inr_iff split: sum.splits prod.splits option.splits)
qed

lemma rejectUpload_kept: "I (wdb w) \<Longrightarrow> I (wdb (snd (rejectUpload ue a code m w)))"
  using outbox_only_kept [OF _ outbox_enqueue] reject_kept
  by (auto simp: rejectUpload_def split: prod.splits sum.splits) (metis snd_conv)+

lemma read_and_commit_kept:
  assumes "I (wdb w)" "ue_config ue = config" "a \<in> set (assets (wdb w))" "as_status a = AS_PENDING_UPLOAD"
    "pendingCutoff config now = Inr cutoff" "cutoff \<le> as_createdAt a" "size_rejection config a size' = Inr None"
  shows "I (wdb (snd (read_and_commit ue (\<lambda>_ w. w) u r a size' w)))"
proof (cases "readInspectionBytes (ue_bucket ue) (ue_readFault ue) (as_storageKey a) (objects w)")
  case (Inl e)
  with assms(1) show ?thesis by (simp add: read_and_commit_def)
next
  case (Inr b)
  let ?i = "inspectAssetBytes (map word_of_nat b) size'"
  note unf = read_and_commit_def Inr sum.case Let_def assms(2)
  show ?thesis
  proof (cases "content_rejection config a ?i")
    case (Inl e)
    with assms(1) show ?thesis unfolding unf by simp
  next
    case (Inr v)
    show ?thesis
    proof (cases v)
      case None
      with Inr obtain i where i: "?i = Some i" by (cases ?i) (simp_all add: content_rejection_def)
      have ok: "content_rejection config a (Some i) = Inr None" using Inr None i by simp
      with assms(7) have "verified_as config a size' i" by (simp add: verified_as_def)
      from ready_kept [OF assms(1,3,4,5,6) this] show ?thesis
        unfolding unf i ok by (simp add: commit_upload_def Let_def ready_db_def)
    next
      case (Some x)
      show ?thesis unfolding unf Inr Some option.case using rejectUpload_kept [OF assms(1)] by (cases x) simp
    qed
  qed
qed

lemma confirm_kept:
  assumes "I (wdb w)" "ue_config ue = config" "ue_now ue = now"
  shows "I (wdb (snd (confirmUpload ue (\<lambda>_ w. w) u r aid w)))"
proof (cases "findOwnedAsset u r aid (wdb w)")
  case (Inl e)
  with assms(1) show ?thesis by (simp add: confirmUpload_def)
next
  case (Inr a)
  have a: "a \<in> set (assets (wdb w))"
    using Inr find_first_Some by (fastforce simp: findOwnedAsset_def fromOption_Inr_iff)
  note rejected = rejectUpload_kept [OF assms(1)]
  show ?thesis
  proof (cases "as_status a")
    case AS_PENDING_UPLOAD
    show ?thesis
      unfolding confirmUpload_def Inr sum.case Let_def assms(2,3)
      using assms(1) rejected read_and_commit_kept [OF assms(1,2) a AS_PENDING_UPLOAD]
      by (auto simp: AS_PENDING_UPLOAD bindE_Inr_iff split: sum.split option.split prod.split)
  qed (use assms(1) in \<open>simp_all add: confirmUpload_def Inr\<close>)
qed

lemma delete_asset_kept: "I (wdb w) \<Longrightarrow> I (wdb (snd (delete_asset ue (\<lambda>w. w) u r aid w)))"
proof -
  assume i: "I (wdb w)"
  have "I (upsert_task now' k reason (wdb w))" for now' k reason
    using outbox_upsert [of now' k reason "wdb w"] outbox_kept [OF i] by auto
  from delete_kept [OF this] outbox_only_kept [OF _ outbox_attemptMany] i
  show ?thesis by (auto simp: delete_asset_def Let_def split: sum.splits option.splits)
qed

end

section \<open>Totals\<close>

definition total :: "(asset_row \<Rightarrow> int) \<Rightarrow> db \<Rightarrow> int" where
  "total m d = sum_list (map m (assets d))"

lemma sum_update_le:
  fixes m :: "'r \<Rightarrow> int"
  shows "(\<And>r. r \<in> set rows \<Longrightarrow> p r \<Longrightarrow> m (f r) \<le> m r) \<Longrightarrow> sum_list (map m (update_where p f rows)) \<le> sum_list (map m rows)"
  by (induction rows) (auto simp: update_where_Cons intro: add_mono)

lemma sum_delete_le:
  fixes m :: "'r \<Rightarrow> int"
  shows "(\<And>r. r \<in> set rows \<Longrightarrow> 0 \<le> m r) \<Longrightarrow> sum_list (map m (delete_where p rows)) \<le> sum_list (map m rows)"
proof (induction rows)
  case (Cons r rows)
  then have "0 \<le> m r" "sum_list (map m (delete_where p rows)) \<le> sum_list (map m rows)" by simp_all
  then show ?case by (cases "p r") (simp_all add: delete_where_def)
qed (simp add: delete_where_def)

lemma sum_filter:
  fixes m :: "'r \<Rightarrow> int"
  shows "foldl (\<lambda>t a. t + m a) 0 (filter p rows) = sum_list (map (\<lambda>a. if p a then m a else 0) rows)"
proof -
  have "foldl (\<lambda>t a. t + m a) x (filter p rows) = x + sum_list (map (\<lambda>a. if p a then m a else 0) rows)" for x
    by (induction rows arbitrary: x) auto
  then show ?thesis by simp
qed

lemma length_filter_sum: "int (length (filter q (filter p rows))) = sum_list (map (\<lambda>a. if p a \<and> q a then 1 else 0) rows)"
  by (induction rows) auto

text \<open>The slots and the bytes a report's active assets take.\<close>

definition slots :: "string \<Rightarrow> int \<Rightarrow> asset_type \<Rightarrow> asset_row \<Rightarrow> int" where
  "slots r cutoff t a = (if active_asset r cutoff a \<and> as_type a = t then 1 else 0)"

definition taken :: "string \<Rightarrow> int \<Rightarrow> asset_row \<Rightarrow> int" where
  "taken r cutoff a = (if active_asset r cutoff a then asset_bytes a else 0)"

definition within_limits :: "environment \<Rightarrow> int \<Rightarrow> db \<Rightarrow> bool" where
  "within_limits config now d \<longleftrightarrow> (\<forall>cutoff. pendingCutoff config now = Inr cutoff \<longrightarrow>
     (\<forall>r t m. maximumCount config t = Inr m \<longrightarrow> total (slots r cutoff t) d \<le> m) \<and>
     (\<forall>r m. maximumReportBytes config = Inr m \<longrightarrow> total (taken r cutoff) d \<le> m))"

definition asset_row_ok :: "asset_row \<Rightarrow> bool" where
  "asset_row_ok a \<longleftrightarrow> as_declaredMimeType a \<in> set (ALLOWED_MIME_TYPES (as_type a)) \<and> 1 \<le> as_declaredSize a \<and>
     (if as_status a = AS_READY
      then as_verifiedMimeType a = Some (as_declaredMimeType a) \<and> as_verifiedSize a = Some (as_declaredSize a)
      else as_verifiedSize a = None)"

definition uploads_ok :: "environment \<Rightarrow> int \<Rightarrow> db \<Rightarrow> bool" where
  "uploads_ok config now d \<longleftrightarrow> keyed as_id (assets d) \<and> (\<forall>a \<in> set (assets d). asset_row_ok a) \<and> within_limits config now d"

lemma asset_bytes_ok: "asset_row_ok a \<Longrightarrow> asset_bytes a = as_declaredSize a \<and> 1 \<le> asset_bytes a"
  by (auto simp: asset_row_ok_def asset_bytes_def split: if_splits)

lemma within_limits_le:
  assumes "within_limits config now d"
    "\<And>cutoff r t. pendingCutoff config now = Inr cutoff \<Longrightarrow> total (slots r cutoff t) d' \<le> total (slots r cutoff t) d"
    "\<And>cutoff r. pendingCutoff config now = Inr cutoff \<Longrightarrow> total (taken r cutoff) d' \<le> total (taken r cutoff) d"
  shows "within_limits config now d'"
  using assms unfolding within_limits_def by (meson order_trans)

text \<open>Time only frees slots.\<close>

lemma within_limits_later:
  assumes "within_limits config now d" "now \<le> now'" "\<forall>a \<in> set (assets d). asset_row_ok a"
  shows "within_limits config now' d"
proof -
  have mono: "total m' d \<le> total m d" if "\<And>a. a \<in> set (assets d) \<Longrightarrow> m' a \<le> m a" for m m'
    unfolding total_def using that by (intro sum_list_mono) auto
  have act: "active_asset r c a \<Longrightarrow> c' \<le> c \<Longrightarrow> active_asset r c' a" for r c c' a
    by (auto simp: active_asset_def)
  show ?thesis
    unfolding within_limits_def
  proof (intro allI impI)
    fix c assume c: "pendingCutoff config now' = Inr c"
    then obtain c0 where c0: "pendingCutoff config now = Inr c0" "c0 \<le> c"
      using assms(2) by (auto simp: pendingCutoff_def bindE_Inr_iff)
    have "slots r c t a \<le> slots r c0 t a" for r t a using act [OF _ c0(2)] by (auto simp: slots_def)
    moreover have "taken r c a \<le> taken r c0 a" if "a \<in> set (assets d)" for r a
      using act [OF _ c0(2)] asset_bytes_ok assms(3) that by (fastforce simp: taken_def)
    ultimately show "(\<forall>r t m. maximumCount config t = Inr m \<longrightarrow> total (slots r c t) d \<le> m) \<and>
        (\<forall>r m. maximumReportBytes config = Inr m \<longrightarrow> total (taken r c) d \<le> m)"
      using assms(1) c0(1) mono unfolding within_limits_def by (meson order_trans)
  qed
qed

section \<open>Uploads keep the limits and the verification\<close>

lemma active_pending_only:
  "slots r cutoff t (a\<lparr>as_status := AS_REJECTED, as_rejectionReason := x\<rparr>) = 0"
  "taken r cutoff (a\<lparr>as_status := AS_REJECTED, as_rejectionReason := x\<rparr>) = 0"
  by (simp_all add: slots_def taken_def active_asset_def)

lemma measures_nonneg: "asset_row_ok a \<Longrightarrow> 0 \<le> taken r cutoff a" "0 \<le> slots r cutoff t a"
  using asset_bytes_ok [of a] by (simp_all add: taken_def slots_def)

lemma uploads_reject:
  assumes ok: "uploads_ok config now d"
  shows "uploads_ok config now (mark_rejected aid code d)"
proof -
  let ?f = "\<lambda>a. a\<lparr>as_status := AS_REJECTED, as_rejectionReason := Some code\<rparr>"
  have rows: "asset_row_ok a" if "a \<in> set (assets d)" for a using ok that by (simp add: uploads_ok_def)
  have le: "total m (mark_rejected aid code d) \<le> total m d"
    if "\<And>a. a \<in> set (assets d) \<Longrightarrow> m (?f a) \<le> m a" for m
    unfolding total_def mark_rejected_def using that by (simp add: sum_update_le)
  have "within_limits config now (mark_rejected aid code d)"
  proof (rule within_limits_le)
    show "within_limits config now d" using ok by (simp add: uploads_ok_def)
  qed (rule le, simp add: active_pending_only measures_nonneg rows)+
  moreover have "asset_row_ok (?f a)" if "asset_row_ok a" "is_pending aid a" for a
    using that by (simp add: asset_row_ok_def is_pending_def)
  then have "\<forall>a \<in> set (assets (mark_rejected aid code d)). asset_row_ok a"
    using rows by (auto simp: mark_rejected_def in_update_where)
  moreover have "keyed as_id (assets (mark_rejected aid code d))"
    using ok by (simp add: uploads_ok_def mark_rejected_def)
  ultimately show ?thesis by (simp add: uploads_ok_def)
qed

lemma uploads_delete:
  assumes ok: "uploads_ok config now d"
  shows "uploads_ok config now (delete_assets p d)"
proof -
  have rows: "asset_row_ok a" if "a \<in> set (assets d)" for a using ok that by (simp add: uploads_ok_def)
  have le: "total m (delete_assets p d) \<le> total m d" if "\<And>a. a \<in> set (assets d) \<Longrightarrow> 0 \<le> m a" for m
    unfolding total_def delete_assets_def Let_def using that by (simp add: sum_delete_le)
  have "within_limits config now (delete_assets p d)"
  proof (rule within_limits_le)
    show "within_limits config now d" using ok by (simp add: uploads_ok_def)
  qed (rule le, simp add: measures_nonneg rows)+
  with ok show ?thesis by (simp add: uploads_ok_def delete_assets_def Let_def keyed_delete_where)
qed

lemma slots_total:
  "int (length (filter (\<lambda>a. as_type a = t) (filter (active_asset r c) (assets d)))) = total (slots r c t) d"
  unfolding length_filter_sum total_def slots_def [abs_def] by (rule refl)

lemma taken_total: "foldl (\<lambda>total a. total + asset_bytes a) 0 (filter (active_asset r c) (assets d)) = total (taken r c) d"
  unfolding sum_filter total_def taken_def [abs_def] by (rule refl)

lemma create_pending_cases:
  assumes "create_pending_body config now u r aid key dto d = Inr ((), d')"
  obtains cutoff a maxCount maxBytes where "pendingCutoff config now = Inr cutoff" "d' = d\<lparr>assets := assets d @ [a]\<rparr>"
    "a = pending_asset r aid key dto (foldl (\<lambda>m a. max m (as_position a)) (- 1) (filter (active_asset r cutoff) (assets d)) + 1) now"
    "maximumCount config (ud_type dto) = Inr maxCount" "total (slots r cutoff (ud_type dto)) d < maxCount"
    "maximumReportBytes config = Inr maxBytes" "total (taken r cutoff) d + ud_size dto \<le> maxBytes"
    "\<forall>b \<in> set (assets d). as_id b \<noteq> aid \<and> as_storageKey b \<noteq> key"
proof -
  let ?pos = "\<lambda>c. foldl (\<lambda>m a. max m (as_position a)) (- 1) (filter (active_asset r c) (assets d)) + 1"
  obtain report cutoff maxCount maxBytes d1 where c: "pendingCutoff config now = Inr cutoff"
    "maximumCount config (ud_type dto) = Inr maxCount" "\<not> total (slots r cutoff (ud_type dto)) d \<ge> maxCount"
    "maximumReportBytes config = Inr maxBytes" "\<not> total (taken r cutoff) d + ud_size dto > maxBytes"
    "create_asset (pending_asset r aid key dto (?pos cutoff) now) d = Inr d1" "d' = d1"
    using assms unfolding create_pending_body_def Let_def slots_total taken_total result_iffs
    by (elim exE conjE) (simp only: sum.inject prod.inject, blast)
  then show thesis
    by (intro that [of cutoff "pending_asset r aid key dto (?pos cutoff) now" maxCount maxBytes])
      (auto simp: create_asset_def pending_asset_def split: if_splits)
qed

lemma uploads_create:
  assumes ok: "uploads_ok config now d" and dto: "validateDeclaredUpload config dto = Inr ()" "1 \<le> ud_size dto"
    and body: "create_pending_body config now u r aid key dto d = Inr ((), d')"
  shows "uploads_ok config now d'"
proof -
  obtain cutoff a maxCount maxBytes where c: "pendingCutoff config now = Inr cutoff" "d' = d\<lparr>assets := assets d @ [a]\<rparr>"
    "a = pending_asset r aid key dto (foldl (\<lambda>m a. max m (as_position a)) (- 1) (filter (active_asset r cutoff) (assets d)) + 1) now"
    "maximumCount config (ud_type dto) = Inr maxCount" "total (slots r cutoff (ud_type dto)) d < maxCount"
    "maximumReportBytes config = Inr maxBytes" "total (taken r cutoff) d + ud_size dto \<le> maxBytes"
    "\<forall>b \<in> set (assets d). as_id b \<noteq> aid \<and> as_storageKey b \<noteq> key"
    using body by (rule create_pending_cases)
  have a: "as_id a = aid" "as_reportId a = r" "as_type a = ud_type dto" "asset_bytes a = ud_size dto" "as_status a = AS_PENDING_UPLOAD"
    by (simp_all add: c(3) pending_asset_def asset_bytes_def)
  have row: "asset_row_ok a"
    using dto by (simp add: c(3) pending_asset_def asset_row_ok_def validateDeclaredUpload_def result_iffs)
  have t: "total m d' = total m d + m a" for m by (simp add: total_def c(2))
  have sl: "slots r' cutoff t a = (if r' = r \<and> t = ud_type dto then slots r cutoff t a else 0)"
    "slots r' cutoff t a \<le> 1" "taken r' cutoff a = (if r' = r then taken r cutoff a else 0)" "taken r cutoff a \<le> ud_size dto" for r' t
    using dto(2) by (auto simp: slots_def taken_def active_asset_def a)
  have "within_limits config now d'"
    unfolding within_limits_def
  proof (intro allI impI conjI)
    fix c' r' t m assume c': "pendingCutoff config now = Inr c'" and m: "maximumCount config t = Inr m"
    have "total (slots r' cutoff t) d \<le> m" using ok m c(1) unfolding uploads_ok_def within_limits_def by blast
    moreover have "total (slots r' cutoff t) d + 1 \<le> m" if "r' = r" "t = ud_type dto" using that c(4,5) m by simp
    moreover have "c' = cutoff" using c' c(1) by simp
    ultimately show "total (slots r' c' t) d' \<le> m"
      using sl(1,2) [of r' t] t [of "slots r' cutoff t"] by (cases "r' = r \<and> t = ud_type dto") (simp_all, linarith?)
  next
    fix c' r' m assume c': "pendingCutoff config now = Inr c'" and m: "maximumReportBytes config = Inr m"
    have "total (taken r' cutoff) d \<le> m" using ok m c(1) unfolding uploads_ok_def within_limits_def by blast
    moreover have "total (taken r' cutoff) d + ud_size dto \<le> m" if "r' = r" using that c(6,7) m by simp
    moreover have "c' = cutoff" using c' c(1) by simp
    ultimately show "total (taken r' c') d' \<le> m"
      using sl(3) [of r'] sl(4) t [of "taken r' cutoff"] by (cases "r' = r") (simp_all, linarith?)
  qed
  moreover have "\<forall>b \<in> set (assets d). asset_row_ok b" "keyed as_id (assets d)" using ok by (simp_all add: uploads_ok_def)
  ultimately show ?thesis using row a(1) c(8) by (simp add: uploads_ok_def c(2) keyed_append1)
qed

lemma verified_as_declared:
  assumes "verified_as config a size' i"
  shows "size' = as_declaredSize a" "ins_mimeType i = as_declaredMimeType a" "ins_type i = as_type a" "size' \<noteq> 0"
    "\<exists>m. maximumBytes config (as_type a) = Inr m \<and> size' \<le> m"
  using assms by (auto simp: verified_as_def size_rejection_def content_rejection_def bindE_Inr_iff split: if_splits)

lemma uploads_ready:
  assumes ok: "uploads_ok config now d" and a: "a \<in> set (assets d)" "as_status a = AS_PENDING_UPLOAD"
    and cut: "pendingCutoff config now = Inr cutoff" "cutoff \<le> as_createdAt a" and v: "verified_as config a size' i"
  shows "uploads_ok config now (ready_db a i size' d)"
proof -
  note v = verified_as_declared [OF v]
  have key: "keyed as_id (assets d)" and rows: "\<And>b. b \<in> set (assets d) \<Longrightarrow> asset_row_ok b"
    using ok by (simp_all add: uploads_ok_def)
  have only: "b = a" if "b \<in> set (assets d)" "is_pending (as_id a) b" for b
    using keyed_eq [OF key that(1) a(1)] that(2) by (simp add: is_pending_def)
  have row: "asset_row_ok (mark_ready i size' a)"
    using rows [OF a(1)] a(2) v by (simp add: asset_row_ok_def mark_ready_def)
  have "asset_bytes (mark_ready i size' a) = asset_bytes a"
    using asset_bytes_ok [OF rows [OF a(1)]] v(1) by (simp add: asset_bytes_def mark_ready_def)
  then have m: "slots r cutoff t (mark_ready i size' a) \<le> slots r cutoff t a" "taken r cutoff (mark_ready i size' a) \<le> taken r cutoff a" for r t
    using a(2) cut(2) by (auto simp: slots_def taken_def active_asset_def mark_ready_def)
  have le: "total w (ready_db a i size' d) \<le> total w d" if "w (mark_ready i size' a) \<le> w a" for w
    unfolding total_def ready_db_def using that only by (auto intro!: sum_update_le)
  have "within_limits config now (ready_db a i size' d)"
  proof (rule within_limits_le)
    show "within_limits config now d" using ok by (simp add: uploads_ok_def)
    fix c r t assume "pendingCutoff config now = Inr c"
    with cut(1) have "c = cutoff" by simp
    then show "total (slots r c t) (ready_db a i size' d) \<le> total (slots r c t) d"
      "total (taken r c) (ready_db a i size' d) \<le> total (taken r c) d" using le m by blast+
  qed
  moreover have "keyed as_id (assets (ready_db a i size' d))" using key by (simp add: ready_db_def mark_ready_def)
  moreover have "asset_row_ok b" if "b \<in> set (assets (ready_db a i size' d))" for b
    using that rows row only by (auto simp: ready_db_def in_update_where split: if_splits)
  ultimately show ?thesis by (simp add: uploads_ok_def)
qed

interpretation uploads: upload_policy "uploads_ok config now" config now for config now
proof
  show "uploads_ok config now (d\<lparr>cleanupTasks := rows\<rparr>)" if "uploads_ok config now d" for d rows
    using that by (simp add: uploads_ok_def within_limits_def total_def)
qed (fact uploads_reject uploads_delete uploads_create uploads_ready)+

section \<open>Histories of uploads\<close>

text \<open>
  A history interleaves whole requests of any users with the passing of time and with whatever clients put
  into the bucket; the replies of S3 and the faults of the database are arbitrary.
\<close>

inductive upload_run :: "environment \<Rightarrow> int \<times> world \<Rightarrow> int \<times> world \<Rightarrow> bool" for config and s0 where
  begins: "upload_run config s0 s0"
| time_passes: "upload_run config s0 (t, w) \<Longrightarrow> t \<le> t' \<Longrightarrow> upload_run config s0 (t', w)"
| bucket_changes: "upload_run config s0 (t, w) \<Longrightarrow> upload_run config s0 (t, w\<lparr>objects := bkt\<rparr>)"
| requests: "upload_run config s0 (t, w) \<Longrightarrow> ue_config ue = config \<Longrightarrow> ue_now ue = t \<Longrightarrow> 1 \<le> ud_size dto \<Longrightarrow>
    upload_run config s0 (t, snd (requestUpload ue fault (\<lambda>_ d. d) (contract :: string option) assetId uuid userId reportId dto w))"
| confirms: "upload_run config s0 (t, w) \<Longrightarrow> ue_config ue = config \<Longrightarrow> ue_now ue = t \<Longrightarrow>
    upload_run config s0 (t, snd (confirmUpload ue (\<lambda>_ w. w) userId reportId assetId w))"
| deletes: "upload_run config s0 (t, w) \<Longrightarrow> upload_run config s0 (t, snd (delete_asset ue (\<lambda>w. w) userId reportId assetId w))"
| cleans: "upload_run config s0 (t, w) \<Longrightarrow> upload_run config s0 (t, snd (cleanupExpiredPendingUploads ue r w))"

lemma upload_run_keeps:
  "upload_run config s0 s \<Longrightarrow> uploads_ok config (fst s0) (wdb (snd s0)) \<Longrightarrow> uploads_ok config (fst s) (wdb (snd s))"
proof (induction rule: upload_run.induct)
  case (time_passes t w t')
  then show ?case using within_limits_later [of config t "wdb w" t'] by (simp add: uploads_ok_def)
next
  case (bucket_changes t w bkt)
  then show ?case by simp
qed (simp_all add: uploads.request_kept uploads.confirm_kept uploads.delete_asset_kept uploads.cleanup_kept)

section \<open>File names\<close>

lemma half_lt: "c < 1114112 \<Longrightarrow> (c - 65536) div 1024 < (1024 :: nat)"
  by (rule less_mult_imp_div_less) simp

lemma slice16_subset: "\<forall>c \<in> set (slice16 n s). c \<in> set s \<or> (55296 \<le> c \<and> c < 56320) \<or> (\<exists>d \<in> set s. d \<ge> 1114112)"
proof (induction n s rule: slice16.induct)
  case (3 n c cs)
  note half_lt [of c]
  with 3 show ?case by (cases n) (auto split: nat.splits)
qed auto

lemma slice16_length: "(\<forall>c \<in> set s. c < 1114112) \<Longrightarrow> utf16_length (slice16 n s) \<le> n"
proof (induction n s rule: slice16.induct)
  case (3 n c cs)
  note half_lt [of c]
  with 3 show ?case by (cases n) (auto simp: utf16_length_def)
qed (simp_all add: utf16_length_def)

lemma slice16_not_Nil: "s \<noteq> [] \<Longrightarrow> 0 < n \<Longrightarrow> slice16 n s \<noteq> []"
  by (cases n; cases s) (auto split: nat.splits)

lemma set_trim_by: "set (trim_by w s) \<subseteq> set s"
  unfolding trim_by_def using set_dropWhileD by (metis set_rev subsetI)

lemma set_last_segment: "set (last_segment s) \<subseteq> {c \<in> set s. c \<noteq> 92 \<and> c \<noteq> 47}"
  unfolding last_segment_def by (auto dest: set_takeWhileD)

section \<open>The fate of objects\<close>

definition accounted :: "string \<Rightarrow> world \<Rightarrow> bool" where
  "accounted k w \<longleftrightarrow> objects w k = None \<or> k \<in> pending_keys w"

lemma accounted_attempt: "honest_replies faults w \<Longrightarrow> accounted k w \<Longrightarrow> accounted k (snd (attempt bn faults now k' w))"
  using cleanup.try_ok [of faults w bn k' now] cleanup.try_fail [of faults w bn k' now]
  unfolding accounted_def by (cases "delete_fails bn faults k'") auto

lemma accounted_upsert: "accounted k (w\<lparr>wdb := upsert_task now k reason (wdb w)\<rparr>)"
  by (auto simp: accounted_def pending_keys_def upsert_task_def image_update_where)

lemma enqueue_accounts:
  assumes "honest_replies faults w"
  shows "accounted k (snd (enqueueAndAttempt bn faults now k reason w))"
    "accounted k' w \<Longrightarrow> accounted k' (snd (enqueueAndAttempt bn faults now k reason w))"
    "honest_replies faults (snd (enqueueAndAttempt bn faults now k reason w))"
proof -
  let ?w = "w\<lparr>wdb := upsert_task now k reason (wdb w)\<rparr>"
  have h: "honest_replies faults ?w" using assms by (simp add: honest_replies_def)
  show "accounted k (snd (enqueueAndAttempt bn faults now k reason w))"
    unfolding enqueueAndAttempt_def by (rule accounted_attempt [OF h accounted_upsert])
  have "accounted k' ?w" if "accounted k' w"
    using that by (auto simp: accounted_def pending_keys_def upsert_task_def image_update_where)
  then show "accounted k' w \<Longrightarrow> accounted k' (snd (enqueueAndAttempt bn faults now k reason w))"
    unfolding enqueueAndAttempt_def by (blast intro: accounted_attempt [OF h])
  show "honest_replies faults (snd (enqueueAndAttempt bn faults now k reason w))"
    unfolding enqueueAndAttempt_def by (rule cleanup.try_inv [OF h])
qed

lemma cleanup_each_accounts:
  "honest_replies (ue_deleteFault ue) w \<Longrightarrow>
    (\<forall>k. accounted k w \<or> k \<in> as_storageKey ` set as \<longrightarrow> accounted k (snd (cleanup_each ue as w)))"
proof (induction as arbitrary: w)
  case (Cons a as)
  let ?q = "enqueueAndAttempt (ue_bucket ue) (ue_deleteFault ue) (ue_now ue) (as_storageKey a) EXPIRED_UPLOAD w"
  let ?w = "(snd ?q)\<lparr>wdb := mark_rejected (as_id a) ''UPLOAD_EXPIRED'' (wdb (snd ?q))\<rparr>"
  note q = enqueue_accounts [OF Cons.prems, where k = "as_storageKey a" and bn = "ue_bucket ue" and now = "ue_now ue"
      and reason = EXPIRED_UPLOAD]
  have h: "honest_replies (ue_deleteFault ue) ?w" using q(3) by (simp add: honest_replies_def)
  have a: "accounted k ?w = accounted k (snd ?q)" for k by (simp add: accounted_def pending_keys_def mark_rejected_def)
  show ?case
    using Cons.IH [OF q(3)] Cons.IH [OF h] q(1,2) a
    by (cases "fst ?q") (auto simp: case_prod_beta Let_def split: prod.splits)
qed simp

section \<open>Requests that fail\<close>

lemma cleanup_each_world:
  "snd (cleanup_each ue (a # as) w) =
     (let q = enqueueAndAttempt (ue_bucket ue) (ue_deleteFault ue) (ue_now ue) (as_storageKey a) EXPIRED_UPLOAD w
      in snd (cleanup_each ue as (case fst q of Inl _ \<Rightarrow> snd q
           | Inr _ \<Rightarrow> (snd q)\<lparr>wdb := mark_rejected (as_id a) ''UPLOAD_EXPIRED'' (wdb (snd q))\<rparr>)))"
  by (simp add: Let_def case_prod_beta split: sum.split)

lemma cleanup_each_ids: "as_id ` set (assets (wdb (snd (cleanup_each ue as w)))) = as_id ` set (assets (wdb w))"
proof (induction as arbitrary: w)
  case (Cons a as)
  let ?q = "enqueueAndAttempt (ue_bucket ue) (ue_deleteFault ue) (ue_now ue) (as_storageKey a) EXPIRED_UPLOAD w"
  have q: "assets (wdb (snd ?q)) = assets (wdb w)" by (rule outbox_only_assets [OF outbox_enqueue])
  have "as_id ` set (assets (mark_rejected i code d)) = as_id ` set (assets d)" for i code d
    by (simp add: mark_rejected_def image_update_where)
  then show ?case unfolding cleanup_each_world Let_def Cons.IH by (simp add: q split: sum.split)
qed simp

lemma cleanup_keeps_ids:
  "(\<forall>a \<in> set (assets (wdb (snd (cleanupExpiredPendingUploads ue r w)))). as_id a \<noteq> i) \<longleftrightarrow> (\<forall>a \<in> set (assets (wdb w)). as_id a \<noteq> i)"
proof -
  have "(\<forall>a \<in> set xs. as_id a \<noteq> i) \<longleftrightarrow> i \<notin> as_id ` set xs" for xs by auto
  moreover have "\<exists>xs. snd (cleanupExpiredPendingUploads ue r w) = snd (cleanup_each ue xs w)"
  proof (cases "pendingCutoff (ue_config ue) (ue_now ue)")
    case (Inl e)
    then have "snd (cleanupExpiredPendingUploads ue r w) = snd (cleanup_each ue [] w)" by (simp add: cleanupExpiredPendingUploads_def)
    then show ?thesis by blast
  next
    case (Inr c)
    then show ?thesis unfolding cleanupExpiredPendingUploads_def Inr sum.case Let_def case_prod_beta snd_conv by blast
  qed
  ultimately show ?thesis using cleanup_each_ids by metis
qed

text \<open>Without interference a failed loop changes nothing, and a successful one is one run of the body.\<close>

lemma slot_loop_cases:
  "k + n = 4 \<Longrightarrow> 0 < n \<Longrightarrow>
   (\<exists>e. slot_loop fault (\<lambda>_ d. d) body n k d = (Inl e, d)) \<or>
   (\<exists>d'. body d = Inr ((), d') \<and> slot_loop fault (\<lambda>_ d. d) body n k d = (Inr (), d'))"
proof (induction n arbitrary: k)
  case (Suc n)
  show ?case
  proof (cases "case fault k of Some e \<Rightarrow> Inl e | None \<Rightarrow> body d")
    case (Inr x)
    then have "body d = Inr x" by (auto split: option.splits)
    with Inr show ?thesis by (cases x) simp
  next
    case (Inl e)
    show ?thesis
    proof (cases "e = PrismaError ''P2034'' \<and> k \<noteq> 3")
      case True
      with Suc.prems have "k + 1 + n = 4" "0 < n" by simp_all
      from Suc.IH [OF this] Inl True show ?thesis by (simp add: SERIALIZABLE_TRANSACTION_ATTEMPTS_def)
    next
      case False
      with Inl show ?thesis by (auto simp: SERIALIZABLE_TRANSACTION_ATTEMPTS_def)
    qed
  qed
qed simp

lemma create_pending_row:
  assumes "create_pending_body config now u r aid key dto d = Inr ((), d')"
  shows "\<exists>a. as_id a = aid \<and> as_status a = AS_PENDING_UPLOAD \<and> d' = d\<lparr>assets := assets d @ [a]\<rparr>"
  using assms
proof (rule create_pending_cases)
  fix cutoff :: int and a and maxCount maxBytes :: int
  assume "d' = d\<lparr>assets := assets d @ [a]\<rparr>"
    "a = pending_asset r aid key dto (foldl (\<lambda>m a. max m (as_position a)) (- 1) (filter (active_asset r cutoff) (assets d)) + 1) now"
  then show ?thesis by (intro exI [of _ a]) (simp add: pending_asset_def)
qed

section \<open>A small run\<close>

definition demo_config :: environment where
  "demo_config = (\<lambda>_. Some (ENumber 1000))"

definition demo_upload_env :: upload_env where
  "demo_upload_env = \<lparr>ue_config = demo_config, ue_now = 0, ue_bucket = ''b'', ue_deleteFault = (\<lambda>_. None),
     ue_headFault = None, ue_readFault = None\<rparr>"

definition demo_dto :: upload_dto where
  "demo_dto = \<lparr>ud_type = DOCUMENT, ud_fileName = [97], ud_mimeType = ''application/pdf'', ud_size = 6\<rparr>"

definition empty_report_world :: world where
  "empty_report_world = \<lparr>wdb = empty_db\<lparr>reports := [new_report ''r'' ''u'' [84] None 0]\<rparr>, objects = (\<lambda>_. None)\<rparr>"

definition demo_key :: string where
  "demo_key = asset_key ''u'' ''r'' ''a'' ''x''"

definition demo_asset :: asset_row where
  "demo_asset = pending_asset ''r'' ''a'' demo_key demo_dto 0 0"

definition pending_world :: world where
  "pending_world = empty_report_world\<lparr>wdb := (wdb empty_report_world)\<lparr>assets := [demo_asset]\<rparr>\<rparr>"

definition stored_world :: world where
  "stored_world = pending_world\<lparr>objects := [demo_key \<mapsto> [37, 80, 68, 70, 45, 49]]\<rparr>"

lemma demo_limits:
  "config_number demo_config k = Inr 1000" "pendingCutoff demo_config 0 = Inr (- 60000000)"
  by (simp_all add: config_number_def env_integer_def demo_config_def pendingCutoff_def pendingUploadTtlMinutes_def)

lemma demo_reservation:
  "createPendingAssetWithinLimits demo_config 0 (\<lambda>_. None) (\<lambda>_ d. d) ''u'' ''r'' ''a'' demo_key demo_dto
     (wdb empty_report_world) = (Inr (), wdb pending_world)"
  by (simp add: createPendingAssetWithinLimits_def SERIALIZABLE_TRANSACTION_ATTEMPTS_def numeral_3_eq_3 create_pending_body_def
      owned_report_def find_first_Cons empty_report_world_def new_report_def empty_db_def assertReportEditable_def
      EDITABLE_REPORT_STATUSES_def demo_limits maximumCount_def maximumReportBytes_def Let_def demo_dto_def create_asset_def
      pending_world_def demo_asset_def)

lemma demo_request:
  "requestUpload demo_upload_env (\<lambda>_. None) (\<lambda>_ d. d) (Some ''post'') ''a'' ''x'' ''u'' ''r'' demo_dto empty_report_world =
     (Inr (''a'', ''post''), pending_world)"
proof -
  have w: "empty_report_world\<lparr>wdb := wdb pending_world\<rparr> = pending_world"
    by (simp add: pending_world_def)
  have "retryPending ''b'' (\<lambda>_. None) 0 20 empty_report_world = (Inr 0, empty_report_world)"
    by (simp add: retryPending_def empty_report_world_def empty_db_def Let_def)
  moreover have "cleanupExpiredPendingUploads demo_upload_env (Some ''r'') empty_report_world = (Inr 0, empty_report_world)"
    by (simp add: cleanupExpiredPendingUploads_def demo_upload_env_def demo_limits empty_report_world_def empty_db_def Let_def)
  moreover have "bindE (fromOption report_not_found (owned_report ''u'' ''r'' (wdb empty_report_world)))
      (\<lambda>report. bindE (assertReportEditable (rep_status report)) (\<lambda>_. validateDeclaredUpload demo_config demo_dto)) = Inr ()"
    by (simp add: owned_report_def find_first_Cons empty_report_world_def new_report_def empty_db_def assertReportEditable_def
        EDITABLE_REPORT_STATUSES_def validateDeclaredUpload_def demo_dto_def maximumBytes_def demo_limits)
  ultimately show ?thesis
    using demo_reservation
    by (simp add: requestUpload_def demo_upload_env_def Let_def demo_key_def w)
qed

lemma demo_inspected: "inspectAssetBytes (map word_of_nat [37, 80, 68, 70, 45, 49]) 6 = Some (document ''application/pdf'')"
  by code_simp

section \<open>Properties\<close>

text \<open>
  After a validated start every limit of the asset service is a positive number, so no request fails with
  \<open>... is not configured\<close>.
\<close>

lemma limits_are_configured:
  assumes "validateEnvironment env = Inr config"
  shows "list_all (\<lambda>limit. case limit of Inr n \<Rightarrow> 0 < n | Inl _ \<Rightarrow> False)
    [maximumBytes config t, maximumCount config t, maximumReportBytes config, maximumImageWidth config,
     maximumImageHeight config, maximumAudioDurationSeconds config, pendingUploadTtlMinutes config]"
proof -
  obtain node role where "validate_settings node role (env(''FASTREP_PROCESS_ROLE'' \<mapsto> EString role)) = Inr config"
    using assms by (rule validate_cases)
  note d = validate_settings_cases(2) [OF this]
  have ok: "case config_number config k of Inr n \<Rightarrow> 0 < n | Inl _ \<Rightarrow> False" if "(k, x) \<in> set service_defaults" for k x
    using positive_settled [OF d, of k x] that by (auto simp: config_number_def)
  have limit: "k \<in> fst ` set service_defaults \<Longrightarrow> case config_number config k of Inr n \<Rightarrow> 0 < n | Inl _ \<Rightarrow> False" for k
    using ok by auto
  have "bytesKey t \<in> fst ` set service_defaults"
    unfolding service_defaults_def by (cases t) simp_all
  moreover have "countKey t \<in> fst ` set service_defaults"
    unfolding service_defaults_def by (cases t) simp_all
  moreover have "''REPORT_MAX_TOTAL_ASSET_BYTES'' \<in> fst ` set service_defaults" "''IMAGE_MAX_WIDTH'' \<in> fst ` set service_defaults"
    "''IMAGE_MAX_HEIGHT'' \<in> fst ` set service_defaults" "''AUDIO_MAX_DURATION_SECONDS'' \<in> fst ` set service_defaults"
    "''PENDING_UPLOAD_TTL_MINUTES'' \<in> fst ` set service_defaults"
    unfolding service_defaults_def by simp_all
  ultimately show ?thesis
    using limit by (simp add: maximumBytes_def maximumCount_def maximumReportBytes_def maximumImageWidth_def
        maximumImageHeight_def maximumAudioDurationSeconds_def pendingUploadTtlMinutes_def)
qed

lemma limits_are_configured_witness:
  "\<exists>config n. validateEnvironment (demo_env ''production'') = Inr config \<and> maximumBytes config IMAGE = Inr n \<and> 0 < n"
proof -
  obtain config where c: "validateEnvironment (demo_env ''production'') = Inr config" using demo_env_valid by blast
  from limits_are_configured [OF c, of IMAGE] c show ?thesis by (cases "maximumBytes config IMAGE") auto
qed



text \<open>
  A reserved slot: the transaction that creates a pending asset ran on a report its user may edit, and
  leaves the report within its slots and bytes, the new asset included and last in position.
\<close>

lemma reservation_fits:
  assumes "createPendingAssetWithinLimits config now fault env u r aid key dto d = (Inr (), d')"
  shows "\<exists>d1 report cutoff a maxCount maxBytes. d' = d1\<lparr>assets := assets d1 @ [a]\<rparr> \<and>
    owned_report u r d1 = Some report \<and> rep_status report \<in> {RS_DRAFT, RS_FAILED} \<and>
    pendingCutoff config now = Inr cutoff \<and> maximumCount config (ud_type dto) = Inr maxCount \<and>
    maximumReportBytes config = Inr maxBytes \<and> as_id a = aid \<and> as_status a = AS_PENDING_UPLOAD \<and>
    total (slots r cutoff (ud_type dto)) d1 + 1 \<le> maxCount \<and> total (taken r cutoff) d1 + ud_size dto \<le> maxBytes \<and>
    list_all (\<lambda>b. as_position b < as_position a) (filter (active_asset r cutoff) (assets d1))"
proof -
  let ?body = "create_pending_body config now u r aid key dto"
  have "\<exists>d1. ?body d1 = Inr ((), d')" if "slot_loop fault env ?body n k d = (Inr (), d')" "0 < n" "k + n = 4" for n k d
    using that
  proof (induction n arbitrary: k d)
    case (Suc n)
    then show ?case
      by (cases n) (auto simp: Let_def SERIALIZABLE_TRANSACTION_ATTEMPTS_def split: sum.splits option.splits if_splits)
  qed simp
  then obtain d1 where body: "?body d1 = Inr ((), d')"
    using assms unfolding createPendingAssetWithinLimits_def SERIALIZABLE_TRANSACTION_ATTEMPTS_def by force
  then obtain cutoff a maxCount maxBytes where c: "pendingCutoff config now = Inr cutoff" "d' = d1\<lparr>assets := assets d1 @ [a]\<rparr>"
    "a = pending_asset r aid key dto (foldl (\<lambda>m a. max m (as_position a)) (- 1) (filter (active_asset r cutoff) (assets d1)) + 1) now"
    "maximumCount config (ud_type dto) = Inr maxCount" "total (slots r cutoff (ud_type dto)) d1 < maxCount"
    "maximumReportBytes config = Inr maxBytes" "total (taken r cutoff) d1 + ud_size dto \<le> maxBytes"
    by (rule create_pending_cases)
  obtain report where rep: "owned_report u r d1 = Some report" "assertReportEditable (rep_status report) = Inr ()"
    using body by (auto simp: create_pending_body_def result_iffs)
  have "y \<le> foldl (\<lambda>m a. max m (as_position a)) y rows \<and>
      (\<forall>b \<in> set rows. as_position b \<le> foldl (\<lambda>m a. max m (as_position a)) y rows)" for rows and y :: int
  proof (induction rows arbitrary: y)
    case (Cons b rows)
    from Cons [of "max y (as_position b)"] show ?case by auto
  qed simp
  then have "as_position b \<le> foldl (\<lambda>m a. max m (as_position a)) (- 1) (filter (active_asset r cutoff) (assets d1))"
    if "b \<in> set (filter (active_asset r cutoff) (assets d1))" for b using that by blast
  then have "list_all (\<lambda>b. as_position b < as_position a) (filter (active_asset r cutoff) (assets d1))"
    unfolding list_all_iff by (simp add: c(3) pending_asset_def)
  moreover have "rep_status report \<in> {RS_DRAFT, RS_FAILED}"
    using rep(2) by (auto simp: assertReportEditable_def EDITABLE_REPORT_STATUSES_def split: if_splits)
  moreover have "as_id a = aid" "as_status a = AS_PENDING_UPLOAD" by (simp_all add: c(3) pending_asset_def)
  moreover have "total (slots r cutoff (ud_type dto)) d1 + 1 \<le> maxCount" using c(5) by simp
  ultimately show ?thesis using c(1,2,4,6,7) rep(1) by blast
qed

lemma reservation_fits_witness:
  "\<exists>d1 a. wdb pending_world = d1\<lparr>assets := assets d1 @ [a]\<rparr> \<and> as_id a = ''a'' \<and> as_status a = AS_PENDING_UPLOAD"
  using reservation_fits [OF demo_reservation] by (elim exE conjE) (intro exI conjI)

text \<open>
  C37. A confirmed upload has been checked: unless the asset was ready before, the report is still editable,
  the request has not expired, and the stored object has exactly the declared size, content of the declared
  type and category, and known dimensions and duration within the limits. Nothing but that row changes.
\<close>

theorem confirmed_upload_was_checked:
  assumes "confirmUpload ue (\<lambda>_ w. w) u r aid w = (Inr pa, w')"
  shows "\<exists>a. findOwnedAsset u r aid (wdb w) = Inr a \<and>
    (as_status a = AS_READY \<and> w' = w \<and> pa = publicAsset a \<or>
     (\<exists>cutoff b i maxBytes. as_status a = AS_PENDING_UPLOAD \<and> assertEditableReport u r (wdb w) = Inr () \<and>
        pendingCutoff (ue_config ue) (ue_now ue) = Inr cutoff \<and> cutoff \<le> as_createdAt a \<and>
        objects w (as_storageKey a) = Some b \<and> int (length b) = as_declaredSize a \<and> b \<noteq> [] \<and>
        maximumBytes (ue_config ue) (as_type a) = Inr maxBytes \<and> int (length b) \<le> maxBytes \<and>
        inspectAssetBytes (map word_of_nat (take INSPECTION_RANGE_BYTES b)) (int (length b)) = Some i \<and>
        ins_type i = as_type a \<and> ins_mimeType i = as_declaredMimeType a \<and>
        (ins_type i = IMAGE \<longrightarrow> exceeds (ins_width i) (maximumImageWidth (ue_config ue)) = Inr False \<and>
           exceeds (ins_height i) (maximumImageHeight (ue_config ue)) = Inr False) \<and>
        (\<forall>s m. ins_type i = AUDIO \<and> ins_durationSeconds i = Some s \<and>
           maximumAudioDurationSeconds (ue_config ue) = Inr m \<longrightarrow> s \<le> of_int m) \<and>
        w' = w\<lparr>wdb := ready_db a i (int (length b)) (wdb w)\<rparr>))"
proof -
  let ?c = "ue_config ue"
  obtain a where a: "findOwnedAsset u r aid (wdb w) = Inr a"
    using assms by (cases "findOwnedAsset u r aid (wdb w)") (simp_all add: confirmUpload_def)
  have fails: "rejectUpload ue a code m w \<noteq> (Inr pa, w')" for code m
    by (auto simp: rejectUpload_def split: prod.splits sum.splits)
  show ?thesis
  proof (cases "as_status a")
    case AS_READY
    then show ?thesis using assms a by (simp add: confirmUpload_def)
  next
    case AS_REJECTED
    then show ?thesis using assms a by (simp add: confirmUpload_def)
  next
    case AS_PENDING_UPLOAD
    obtain cutoff where cut: "assertEditableReport u r (wdb w) = Inr ()" "pendingCutoff ?c (ue_now ue) = Inr cutoff"
      using assms a AS_PENDING_UPLOAD
      by (auto simp: confirmUpload_def Let_def split: sum.splits) (auto simp: bindE_Inr_iff)
    have old: "\<not> as_createdAt a < cutoff"
      using assms a AS_PENDING_UPLOAD cut fails by (auto simp: confirmUpload_def Let_def split: if_splits)
    obtain size' where head: "headObject (ue_bucket ue) (ue_headFault ue) (as_storageKey a) (objects w) = Inr (Some size')"
      "size_rejection ?c a size' = Inr None" "read_and_commit ue (\<lambda>_ w. w) u r a size' w = (Inr pa, w')"
      using assms a AS_PENDING_UPLOAD cut old fails
      by (auto simp: confirmUpload_def Let_def split: sum.splits option.splits)
    obtain b where b: "objects w (as_storageKey a) = Some b" "size' = int (length b)"
      using head(1) by (auto simp: headObject_def split: sum.splits option.splits if_splits)
    obtain bs where bs: "readInspectionBytes (ue_bucket ue) (ue_readFault ue) (as_storageKey a) (objects w) = Inr bs"
      using head(3) by (auto simp: read_and_commit_def split: sum.splits)
    have take: "bs = take INSPECTION_RANGE_BYTES b"
      using bs b(1) by (auto simp: readInspectionBytes_def split: sum.splits option.splits)
    let ?i = "inspectAssetBytes (map word_of_nat bs) size'"
    have ok: "content_rejection ?c a ?i = Inr None"
      using head(3) bs fails by (auto simp: read_and_commit_def Let_def split: sum.splits option.splits)
    then obtain i where i: "?i = Some i" by (cases ?i) (simp_all add: content_rejection_def)
    have mem: "a \<in> set (assets (wdb w))"
      using a find_first_Some by (fastforce simp: findOwnedAsset_def fromOption_Inr_iff)
    then have "count_where (is_pending (as_id a)) (assets (wdb w)) \<noteq> 0"
      using AS_PENDING_UPLOAD by (auto simp: count_where_0_iff is_pending_def)
    then have w': "w' = w\<lparr>wdb := ready_db a i size' (wdb w)\<rparr>"
      using head(3) bs ok i by (auto simp: read_and_commit_def commit_upload_def Let_def ready_db_def)
    have v: "verified_as ?c a size' i" using head(2) ok i by (simp add: verified_as_def)
    have dims: "ins_type i = IMAGE \<longrightarrow> exceeds (ins_width i) (maximumImageWidth ?c) = Inr False \<and>
        exceeds (ins_height i) (maximumImageHeight ?c) = Inr False"
      using ok unfolding i by (auto simp: content_rejection_def bindE_Inr_iff split: if_splits)
    have time: "s \<le> of_int m" if "ins_type i = AUDIO" "ins_durationSeconds i = Some s" "maximumAudioDurationSeconds ?c = Inr m" for s m
      using ok that unfolding i by (auto simp: content_rejection_def bindE_Inr_iff split: if_splits)
    show ?thesis
      using a AS_PENDING_UPLOAD cut old b take i w' dims time verified_as_declared [OF v] by (force simp: not_less)
  qed
qed

lemma demo_confirm: "\<exists>pa w'. confirmUpload demo_upload_env (\<lambda>_ w. w) ''u'' ''r'' ''a'' stored_world = (Inr pa, w')"
proof -
  have f: "findOwnedAsset ''u'' ''r'' ''a'' (wdb stored_world) = Inr demo_asset"
    by (simp add: findOwnedAsset_def stored_world_def pending_world_def empty_report_world_def find_first_Cons demo_asset_def
        pending_asset_def new_report_def)
  have a: "as_status demo_asset = AS_PENDING_UPLOAD" "as_createdAt demo_asset = 0" "as_storageKey demo_asset = demo_key"
    "as_declaredSize demo_asset = 6" "as_type demo_asset = DOCUMENT" "as_declaredMimeType demo_asset = ''application/pdf''"
    "as_id demo_asset = ''a''"
    by (simp_all add: demo_asset_def pending_asset_def demo_dto_def)
  have e: "assertEditableReport ''u'' ''r'' (wdb stored_world) = Inr ()"
    by (simp add: assertEditableReport_def owned_report_def stored_world_def pending_world_def empty_report_world_def
        find_first_Cons new_report_def assertReportEditable_def EDITABLE_REPORT_STATUSES_def)
  have u: "ue_config demo_upload_env = demo_config" "ue_now demo_upload_env = 0" "ue_bucket demo_upload_env = ''b''"
    "ue_headFault demo_upload_env = None" "ue_readFault demo_upload_env = None"
    by (simp_all add: demo_upload_env_def)
  have h: "headObject ''b'' None demo_key (objects stored_world) = Inr (Some 6)"
    by (simp add: headObject_def ensureConfigured_def stored_world_def)
  have r: "readInspectionBytes ''b'' None demo_key (objects stored_world) = Inr [37, 80, 68, 70, 45, 49]"
    by (simp add: readInspectionBytes_def ensureConfigured_def stored_world_def INSPECTION_RANGE_BYTES_def)
  have s: "size_rejection demo_config demo_asset 6 = Inr None"
    by (simp add: size_rejection_def maximumBytes_def demo_limits a)
  have c: "content_rejection demo_config demo_asset (Some (document ''application/pdf'')) = Inr None"
    by (simp add: content_rejection_def document_def a)
  have "\<exists>pa w'. commit_upload (\<lambda>w. w) ''u'' ''r'' demo_asset (document ''application/pdf'') 6 stored_world = (Inr pa, w')"
    by (simp add: commit_upload_def Let_def stored_world_def pending_world_def count_where_Cons is_pending_def a
        update_where_Cons find_first_Cons mark_ready_def)
  then show ?thesis
    by (simp add: confirmUpload_def f a e u demo_limits h s read_and_commit_def r demo_inspected c del: list.map)
qed

theorem confirmed_upload_was_checked_witness:
  "\<exists>pa w' b. confirmUpload demo_upload_env (\<lambda>_ w. w) ''u'' ''r'' ''a'' stored_world = (Inr pa, w') \<and>
     objects stored_world demo_key = Some b \<and> length b = 6"
proof -
  obtain pa w' where c: "confirmUpload demo_upload_env (\<lambda>_ w. w) ''u'' ''r'' ''a'' stored_world = (Inr pa, w')"
    using demo_confirm by blast
  have f: "findOwnedAsset ''u'' ''r'' ''a'' (wdb stored_world) = Inr demo_asset"
    by (simp add: findOwnedAsset_def stored_world_def pending_world_def empty_report_world_def find_first_Cons demo_asset_def
        pending_asset_def new_report_def)
  from confirmed_upload_was_checked [OF c] f c show ?thesis
    by (auto simp: demo_asset_def pending_asset_def demo_dto_def)
qed

text \<open>
  C38. No object is lost sight of: when S3 says "not found" only of what is not there, an object whose upload
  is rejected, expires or is deleted is either gone or has a cleanup task that will be retried, whatever S3
  answers, and no operation drops the task of another object.
\<close>

theorem removed_objects_are_accounted:
  assumes "honest_replies (ue_deleteFault ue) w"
  shows "accounted (as_storageKey a) (snd (rejectUpload ue a code message w :: unit result \<times> world)) \<and>
    list_all (\<lambda>b. accounted (as_storageKey b) (snd (cleanup_each ue expired w))) expired \<and>
    (find_first (\<lambda>b. as_id b = aid \<and> as_reportId b = r) (assets (wdb w)) = Some a \<and>
       assertEditableReport u r (wdb w) = Inr () \<longrightarrow>
       fst (delete_asset ue (\<lambda>w. w) u r aid w) = Inr () \<and>
       accounted (as_storageKey a) (snd (delete_asset ue (\<lambda>w. w) u r aid w)) \<and>
       (\<forall>b \<in> set (assets (wdb (snd (delete_asset ue (\<lambda>w. w) u r aid w)))). as_id b = aid \<longrightarrow> as_reportId b \<noteq> r)) \<and>
    (accounted k w \<longrightarrow> accounted k (snd (rejectUpload ue a code message w :: unit result \<times> world)))"
proof (intro conjI impI)
  note q = enqueue_accounts [OF assms, where bn = "ue_bucket ue" and now = "ue_now ue"]
  let ?q = "enqueueAndAttempt (ue_bucket ue) (ue_deleteFault ue) (ue_now ue) (as_storageKey a) REJECTED_UPLOAD w"
  have rej: "accounted k (snd (rejectUpload ue a code message w :: unit result \<times> world)) = accounted k (snd ?q)" for k
    by (auto simp: rejectUpload_def accounted_def pending_keys_def mark_rejected_def split: prod.splits sum.splits)
  show "accounted (as_storageKey a) (snd (rejectUpload ue a code message w :: unit result \<times> world))" unfolding rej by (rule q(1))
  show "accounted k w \<Longrightarrow> accounted k (snd (rejectUpload ue a code message w :: unit result \<times> world))" unfolding rej by (rule q(2))
  show "list_all (\<lambda>b. accounted (as_storageKey b) (snd (cleanup_each ue expired w))) expired"
    using cleanup_each_accounts [OF assms, of expired] by (simp add: list_all_iff)
next
  assume p: "find_first (\<lambda>b. as_id b = aid \<and> as_reportId b = r) (assets (wdb w)) = Some a \<and> assertEditableReport u r (wdb w) = Inr ()"
  let ?d = "delete_assets (\<lambda>a. as_id a = aid \<and> as_reportId a = r) (upsert_task (ue_now ue) (as_storageKey a) ASSET_DELETE (wdb w))"
  have del: "delete_asset ue (\<lambda>w. w) u r aid w = (Inr (),
      snd (attemptMany (ue_bucket ue) (ue_deleteFault ue) (ue_now ue) [as_storageKey a] (w\<lparr>wdb := ?d\<rparr>)))"
    using p by (simp add: delete_asset_def Let_def)
  then show "fst (delete_asset ue (\<lambda>w. w) u r aid w) = Inr ()" by simp
  have h: "honest_replies (ue_deleteFault ue) (w\<lparr>wdb := ?d\<rparr>)" using assms by (simp add: honest_replies_def)
  have "accounted (as_storageKey a) (w\<lparr>wdb := ?d\<rparr>)"
    using accounted_upsert [where k = "as_storageKey a" and w = w and now = "ue_now ue" and reason = ASSET_DELETE]
    by (simp add: accounted_def pending_keys_def delete_assets_def Let_def)
  from accounted_attempt [OF h this]
  show "accounted (as_storageKey a) (snd (delete_asset ue (\<lambda>w. w) u r aid w))"
    by (simp add: del attemptMany_one)
  obtain rows where "upsert_task (ue_now ue) (as_storageKey a) ASSET_DELETE (wdb w) = (wdb w)\<lparr>cleanupTasks := rows\<rparr>"
    using outbox_upsert by blast
  then have "assets ?d = delete_where (\<lambda>a. as_id a = aid \<and> as_reportId a = r) (assets (wdb w))"
    by (simp add: delete_assets_def Let_def)
  then show "\<forall>b \<in> set (assets (wdb (snd (delete_asset ue (\<lambda>w. w) u r aid w)))). as_id b = aid \<longrightarrow> as_reportId b \<noteq> r"
    unfolding del snd_conv outbox_only_assets [OF outbox_attemptMany] by simp
qed

theorem removed_objects_are_accounted_witness:
  "accounted demo_key (snd (rejectUpload demo_upload_env demo_asset ''X'' ''Y'' stored_world :: unit result \<times> world))"
proof -
  have "honest_replies (ue_deleteFault demo_upload_env) stored_world" by (simp add: honest_replies_def demo_upload_env_def)
  from removed_objects_are_accounted [OF this, of demo_asset "''X''" "''Y''"]
  show ?thesis by (simp add: demo_asset_def pending_asset_def)
qed

text \<open>
  Whatever a client calls a file, the stored name has no control character and no path separator, is not
  empty and is at most 255 UTF-16 units long.
\<close>

lemma file_name_is_safe:
  assumes "list_all (\<lambda>c. c < 1114112) fileName"
  shows "sanitizeFileName fileName \<noteq> [] \<and> utf16_length (sanitizeFileName fileName) \<le> 255 \<and>
    list_all (\<lambda>c. 32 \<le> c \<and> c \<noteq> 127 \<and> c \<noteq> 47 \<and> c \<noteq> 92) (sanitizeFileName fileName)"
proof -
  define name where "name = utrim (last_segment (filter (\<lambda>c. c \<ge> 32 \<and> c \<noteq> 127) fileName))"
  define base where "base = (if name = [] then codes ''upload'' else name)"
  have s: "sanitizeFileName fileName = slice16 255 base" by (simp add: sanitizeFileName_def name_def base_def Let_def)
  have "c \<in> set name \<Longrightarrow> c < 1114112 \<and> 32 \<le> c \<and> c \<noteq> 127 \<and> c \<noteq> 47 \<and> c \<noteq> 92" for c
    using set_trim_by [of js_white] set_last_segment assms by (fastforce simp: name_def utrim_def list_all_iff)
  then have base: "c \<in> set base \<Longrightarrow> c < 1114112 \<and> 32 \<le> c \<and> c \<noteq> 127 \<and> c \<noteq> 47 \<and> c \<noteq> 92" for c
    by (auto simp: base_def codes_def split: if_splits)
  have "base \<noteq> []" by (simp add: base_def codes_def)
  then have "slice16 255 base \<noteq> []" by (rule slice16_not_Nil) simp
  moreover have "utf16_length (slice16 255 base) \<le> 255" using slice16_length base by blast
  moreover have "32 \<le> c \<and> c \<noteq> 127 \<and> c \<noteq> 47 \<and> c \<noteq> 92" if "c \<in> set (slice16 255 base)" for c
    using slice16_subset [of 255 base] that base by fastforce
  ultimately show ?thesis by (simp add: s list_all_iff)
qed

lemma file_name_is_safe_witness:
  "sanitizeFileName [46, 46, 47, 0] \<noteq> [] \<and> list_all (\<lambda>c. c \<noteq> 47) (sanitizeFileName [46, 46, 47, 0])"
  using file_name_is_safe [of "[46, 46, 47, 0]"] by (simp add: list_all_iff)

text \<open>
  A finding: the limit of 255 is taken in UTF-16 units, the validation of the request counts characters. A
  name of 128 emoji passes the request and is cut inside the last one: half a character stays, which has no
  UTF-8 encoding.
\<close>

lemma file_name_cut_in_a_character:
  "sanitizeFileName (replicate 128 128512) = replicate 127 128512 @ [55357] \<and> utf8_encode 55357 = None"
proof -
  have filt: "filter (\<lambda>c. c \<ge> 32 \<and> c \<noteq> 127) (replicate 128 128512) = (replicate 128 128512 :: utext)" by simp
  have seg: "last_segment (replicate 128 128512) = replicate 128 128512"
    by (simp add: last_segment_def takeWhile_eq_all_conv [THEN iffD2])
  have trim: "utrim (replicate 128 128512) = replicate 128 128512"
    unfolding utrim_def by (rule trim_by_all) (simp add: js_white_def)
  have cut: "slice16 (2 * n + 1) (replicate (Suc n) 128512) = replicate n 128512 @ [55357]" for n
    by (induction n) simp_all
  have "sanitizeFileName (replicate 128 128512) = slice16 255 (replicate 128 128512)"
    unfolding sanitizeFileName_def filt seg trim Let_def by simp
  also have "\<dots> = replicate 127 128512 @ [55357]" using cut [of 127] by (simp flip: replicate_Suc)
  finally show ?thesis by (simp add: utf8_encode_def)
qed

text \<open>
  A request for an upload that fails leaves no asset behind: neither a guard, a lost race for the slot nor
  a failing signature creates one.
\<close>

lemma failed_request_creates_nothing:
  assumes "requestUpload ue fault (\<lambda>_ d. d) contract aid uuid u r dto w = (Inl e, w')"
    "list_all (\<lambda>a. as_id a \<noteq> aid) (assets (wdb w))"
  shows "list_all (\<lambda>a. as_id a \<noteq> aid) (assets (wdb w'))"
proof -
  let ?w1 = "snd (retryPending (ue_bucket ue) (ue_deleteFault ue) (ue_now ue) 20 w)"
  let ?w2 = "snd (cleanupExpiredPendingUploads ue (Some r) ?w1)"
  let ?slot = "createPendingAssetWithinLimits (ue_config ue) (ue_now ue) fault (\<lambda>_ d. d) u r aid (asset_key u r aid uuid) dto (wdb ?w2)"
  let ?free = "\<lambda>d. list_all (\<lambda>a. as_id a \<noteq> aid) (assets d)"
  have "?free (wdb ?w1)" using assms(2) unfolding outbox_only_assets [OF outbox_retryPending] .
  then have w2: "?free (wdb ?w2)" by (simp add: list_all_iff cleanup_keeps_ids)
  have "(\<exists>e. ?slot = (Inl e, wdb ?w2)) \<or>
      (\<exists>d'. create_pending_body (ue_config ue) (ue_now ue) u r aid (asset_key u r aid uuid) dto (wdb ?w2) = Inr ((), d') \<and> ?slot = (Inr (), d'))"
    unfolding createPendingAssetWithinLimits_def SERIALIZABLE_TRANSACTION_ATTEMPTS_def by (rule slot_loop_cases) simp_all
  then have "(\<exists>e. ?slot = (Inl e, wdb ?w2)) \<or>
      (\<exists>a. as_id a = aid \<and> as_status a = AS_PENDING_UPLOAD \<and> ?slot = (Inr (), (wdb ?w2)\<lparr>assets := assets (wdb ?w2) @ [a]\<rparr>))"
    using create_pending_row by blast
  then have lost: "fst ?slot = Inl e1 \<Longrightarrow> ?free (snd ?slot)"
    and undone: "?free (delete_assets (is_pending aid) (snd ?slot))" for e1
    using w2 by (auto simp: delete_assets_def Let_def list_all_iff is_pending_def)
  show ?thesis
    using assms w2 lost undone
    by (auto simp: requestUpload_def Let_def split: sum.splits prod.splits option.splits)
qed

lemma failed_request_creates_nothing_witness:
  "\<exists>e w'. requestUpload demo_upload_env (\<lambda>_. None) (\<lambda>_ d. d) (None :: string option) ''a'' ''x'' ''u'' ''other'' demo_dto
     empty_report_world = (Inl e, w') \<and> list_all (\<lambda>a. as_id a \<noteq> ''a'') (assets (wdb w'))"
proof -
  have r: "requestUpload demo_upload_env (\<lambda>_. None) (\<lambda>_ d. d) (None :: string option) ''a'' ''x'' ''u'' ''other'' demo_dto
      empty_report_world = (Inl report_not_found, empty_report_world)"
    by (simp add: requestUpload_def owned_report_def empty_report_world_def find_first_Cons new_report_def)
  have "list_all (\<lambda>a. as_id a \<noteq> ''a'') (assets (wdb empty_report_world))" by (simp add: empty_report_world_def empty_db_def)
  from failed_request_creates_nothing [OF r this] r show ?thesis by blast
qed

end
