(* ===== verification/Accounts.thy ===== *)
theory Accounts
  imports Auth
begin

text \<open>
  Histories of account requests: what the handlers of \<open>Auth\<close> commit, one transaction at a time, and the
  requests themselves, interleaved in any way. Every handler is a sequence of commits when what happens
  between its awaited calls is one.
\<close>

section \<open>Commits\<close>

text \<open>
  \<open>allowed\<close> restricts the identifiers drawn for refresh tokens, so that a lemma may speak of one that is not
  drawn again. \<open>max_registration\<close> and \<open>max_reset\<close> are the configured numbers of attempts.
\<close>

definition max_registration :: "environment \<Rightarrow> int" where
  "max_registration config = po_maxAttempts (getRegistrationPolicy config)"

definition max_reset :: "environment \<Rightarrow> int" where
  "max_reset config = getPositiveInteger config ''PASSWORD_RESET_MAX_ATTEMPTS'' 5"

definition renew_pending :: "(pending_row \<Rightarrow> bool) \<Rightarrow> string \<Rightarrow> int \<Rightarrow> int \<Rightarrow> db \<Rightarrow> db" where
  "renew_pending p codeHash e now d =
     d\<lparr>pendingRegistrations := update_where p (\<lambda>p. p\<lparr>pr_codeHash := codeHash, pr_expiresAt := e,
         pr_attemptCount := 0, pr_lastSentAt := now\<rparr>) (pendingRegistrations d)\<rparr>"

inductive account_commit :: "environment \<Rightarrow> (string \<Rightarrow> bool) \<Rightarrow> db \<Rightarrow> db \<Rightarrow> bool" for config allowed where
  pendings_deleted: "account_commit config allowed d (delete_pending p d)"
| pending_started: "create_pending row d = Inr d' \<Longrightarrow> pr_attemptCount row = 0 \<Longrightarrow> account_commit config allowed d d'"
| registration_guessed: "n < max_registration config \<Longrightarrow>
    account_commit config allowed d (recordFailedRegistrationAttempt i h n (max_registration config) now d)"
| code_invalidated:
    "account_commit config allowed d (invalidatePendingRegistrationCode i h (max_registration config) now d)"
| code_resent: "account_commit config allowed d (renew_pending p h e now d)"
| user_registered: "claim_registration policy now dr row email pending d = Inr (u, d') \<Longrightarrow>
    allowed (rt_id row) \<Longrightarrow> account_commit config allowed d d'"
| session_opened: "create_refresh row d = Inr d' \<Longrightarrow> allowed (rt_id row) \<Longrightarrow> account_commit config allowed d d'"
| session_rotated: "rotate_token i u row d = Inr ((), d') \<Longrightarrow> allowed (rt_id row) \<Longrightarrow> account_commit config allowed d d'"
| sessions_closed: "account_commit config allowed d (delete_tokens p d)"
| reset_requested: "create_reset row (use_requests (\<lambda>r. pw_userId r = pw_userId row) now d) = Inr d' \<Longrightarrow>
    pw_attemptCount row = 0 \<Longrightarrow> account_commit config allowed d d'"
| requests_used: "account_commit config allowed d (use_requests p now d)"
| reset_guessed: "n < max_reset config \<Longrightarrow>
    account_commit config allowed d (recordFailedResetAttempt i n (max_reset config) now d)"
| password_reset: "claim_reset m now i u h d = Inr ((), d') \<Longrightarrow> account_commit config allowed d d'"
| profile_updated: "account_commit config allowed d (snd (update_profile i timezone d))"

abbreviation account_commits :: "environment \<Rightarrow> (string \<Rightarrow> bool) \<Rightarrow> db \<Rightarrow> db \<Rightarrow> bool" where
  "account_commits config allowed \<equiv> (account_commit config allowed)\<^sup>*\<^sup>*"

section \<open>Handlers are sequences of commits\<close>

text \<open>\<open>calm\<close>: what is committed between the awaited calls is itself a sequence of commits.\<close>

definition calm :: "environment \<Rightarrow> (string \<Rightarrow> bool) \<Rightarrow> (db \<Rightarrow> db) \<Rightarrow> bool" where
  "calm config allowed f \<longleftrightarrow> (\<forall>x. account_commits config allowed x (f x))"

lemma calmD: "calm config allowed f \<Longrightarrow> account_commits config allowed x (f x)"
  by (simp add: calm_def)

lemma calm_id [simp]: "calm config allowed (\<lambda>x. x)"
  by (simp add: calm_def)

text \<open>A sequence of commits goes on through an interference or one commit.\<close>

lemma commits_calm: "account_commits config allowed d0 d \<Longrightarrow> calm config allowed f \<Longrightarrow> account_commits config allowed d0 (f d)"
  by (metis calmD rtranclp_trans)

lemma commits_step:
  "account_commits config allowed d0 d \<Longrightarrow> account_commit config allowed d d' \<Longrightarrow> account_commits config allowed d0 d'"
  by (rule rtranclp.rtrancl_into_rtrancl)

lemma commits_run_tx:
  assumes "account_commits config allowed d0 d" "\<And>x d'. body d = Inr (x, d') \<Longrightarrow> account_commit config allowed d d'"
  shows "account_commits config allowed d0 (snd (run_tx body d))"
  using assms by (auto simp: run_tx_def commits_step split: sum.splits)

lemma start_pending_commits:
  assumes "account_commits config allowed d0 base" "account_commits config allowed d0 d"
  shows "account_commits config allowed d0 (snd (start_pending C policy now dr email dto base d))"
  using assms by (auto simp: start_pending_def Let_def pending_of_def
      intro: commits_step [OF _ pending_started] split: sum.splits)

lemma register_tx_commits:
  assumes "account_commits config allowed d0 d" "calm config allowed mid"
  shows "account_commits config allowed d0 (snd (register_tx C policy now dr mid email dto d))"
proof -
  have m: "account_commits config allowed d0 (mid d)" by (rule commits_calm [OF assms])
  then have del: "account_commits config allowed d0 (delete_pending p (mid d))" for p
    by (rule commits_step [OF _ pendings_deleted])
  show ?thesis
    using assms(1) del start_pending_commits [OF m m] start_pending_commits [OF m del]
    by (auto simp: register_tx_def Let_def split: option.splits)
qed

lemma register_failed_commits:
  assumes "account_commits config allowed d0 d" "\<And>k. calm config allowed (env k)"
  shows "account_commits config allowed d0 (snd (register_failed policy later env email e d))"
proof -
  have "account_commits config allowed d0 (env 3 d)" "account_commits config allowed d0 (env 4 (env 3 d))"
    using assms by (blast intro: commits_calm)+
  then show ?thesis using assms(1) by (auto simp: register_failed_def Let_def split: option.splits)
qed

lemma register_commits:
  assumes "account_commits (ar_config ar) allowed d0 d" "\<And>k. calm (ar_config ar) allowed (env k)"
  shows "account_commits (ar_config ar) allowed d0 (fst (snd (register C ar dr env fault dto d)))"
proof -
  define email where "email = normalizeEmail (rd_email dto)"
  define policy where "policy = getRegistrationPolicy (ar_config ar)"
  define q where "q = (case fault of Some e \<Rightarrow> (Inl e, env 1 d)
    | None \<Rightarrow> register_tx C policy (ar_now ar) dr (env 2) email dto (env 1 d))"
  have d1: "account_commits (ar_config ar) allowed d0 (env 1 d)" using assms by (blast intro: commits_calm)
  then have q: "account_commits (ar_config ar) allowed d0 (snd q)"
    unfolding q_def using register_tx_commits assms(2) by (auto split: option.splits)
  have inv: "account_commits (ar_config ar) allowed d0
      (invalidatePendingRegistrationCode i h (po_maxAttempts policy) t (env 5 (snd q)))" for i h t
    using commits_step [OF commits_calm [OF q assms(2)] code_invalidated]
    by (simp add: policy_def max_registration_def)
  have "fst (snd (register C ar dr env fault dto d)) = (if findByEmail email d \<noteq> None then d else
      case fst q of Inl e \<Rightarrow> snd (register_failed policy (ar_later ar) env email e (snd q))
      | Inr (DontSend t) \<Rightarrow> snd q
      | Inr (Send i code h l) \<Rightarrow> if ar_mailFails ar
          then invalidatePendingRegistrationCode i h (po_maxAttempts policy) (ar_later ar) (env 5 (snd q)) else snd q)"
    unfolding register_def Let_def email_def [symmetric] policy_def [symmetric] q_def [symmetric]
    by (simp split: prod.splits sum.splits registration_start.splits)
  then show ?thesis using assms(1) q inv register_failed_commits [OF q assms(2)]
    by (auto split: sum.splits registration_start.splits)
qed

lemma prepared_token:
  "prepareTokenPair C ar dr u = Inr (tokens, row) \<Longrightarrow> rt_id row = dr_tokenId dr \<and> rt_userId row = u"
  by (auto simp: prepareTokenPair_def result_iffs)

lemma verify_commits:
  assumes "account_commits (ar_config ar) allowed d0 d" "\<And>k. calm (ar_config ar) allowed (env k)" "allowed (dr_tokenId dr)"
  shows "account_commits (ar_config ar) allowed d0 (snd (verifyRegistration C ar dr env fault email code d))"
proof -
  note d1 = commits_calm [OF assms(1,2), of 1]
  note d2 = commits_calm [OF d1 assms(2), of 2]
  have del: "account_commits (ar_config ar) allowed d0 (delete_pending p (env 1 d))" for p
    by (rule commits_step [OF d1 pendings_deleted])
  have guess: "account_commits (ar_config ar) allowed d0 (recordFailedRegistrationAttempt i h n
      (po_maxAttempts (getRegistrationPolicy (ar_config ar))) now (env 1 d))"
    if "\<not> n \<ge> po_maxAttempts (getRegistrationPolicy (ar_config ar))" for i h n now
    using commits_step [OF d1 registration_guessed] that by (simp add: max_registration_def)
  have claim: "account_commits (ar_config ar) allowed d0 d'"
    if "prepareTokenPair C ar dr u = Inr (tokens, row)"
      "run_tx (claim_registration policy now dr row email pending) (env 2 (env 1 d)) = (r, d')"
    for policy now row email pending u tokens r d'
  proof -
    have "account_commits (ar_config ar) allowed d0
        (snd (run_tx (claim_registration policy now dr row email pending) (env 2 (env 1 d))))"
      by (rule commits_run_tx [OF d2]) (use user_registered prepared_token [OF that(1)] assms(3) in auto)
    with that(2) show ?thesis by simp
  qed
  show ?thesis
    using assms(1) d1 del guess claim
    by (auto simp: verifyRegistration_def Let_def simp del: One_nat_def split: option.splits sum.splits prod.splits)
qed

lemma resend_tx_commits:
  assumes "account_commits config allowed d0 d" "calm config allowed mid"
  shows "account_commits config allowed d0 (snd (resend_tx policy now h mid email d))"
proof -
  have m: "account_commits config allowed d0 (mid d)" by (rule commits_calm [OF assms])
  have del: "account_commits config allowed d0 (delete_pending p (mid d))" for p
    by (rule commits_step [OF m pendings_deleted])
  have renew: "account_commits config allowed d0 (renew_pending p h e now (mid d))" for p e
    by (rule commits_step [OF m code_resent])
  show ?thesis using assms(1) m del renew
    by (auto simp: resend_tx_def Let_def renew_pending_def [symmetric] split: option.splits sum.splits)
qed

lemma resend_commits:
  assumes "account_commits (ar_config ar) allowed d0 d" "\<And>k. calm (ar_config ar) allowed (env k)"
  shows "account_commits (ar_config ar) allowed d0 (fst (snd (resendRegistrationCode C ar dr env fault email d)))"
proof -
  define policy where "policy = getRegistrationPolicy (ar_config ar)"
  define h where "h = cr_hash C (dr_salt2 dr) (codes (generateSixDigitCode (dr_code dr)))"
  define q where "q = (case fault of Some e \<Rightarrow> (Inl e, env 1 d)
    | None \<Rightarrow> resend_tx policy (ar_now ar) h (env 2) (normalizeEmail email) (env 1 d))"
  have q: "account_commits (ar_config ar) allowed d0 (snd q)"
    unfolding q_def using commits_calm [OF assms(1,2)] resend_tx_commits assms(2) by (auto split: option.splits)
  have inv: "account_commits (ar_config ar) allowed d0
      (invalidatePendingRegistrationCode i h (po_maxAttempts policy) t (env 3 (snd q)))" for i t
    using commits_step [OF commits_calm [OF q assms(2)] code_invalidated] by (simp add: policy_def max_registration_def)
  show ?thesis
    unfolding resendRegistrationCode_def Let_def policy_def [symmetric] h_def [symmetric] q_def [symmetric]
    using assms(1) q inv by (auto split: prod.splits sum.splits resend_start.splits)
qed

lemma login_commits:
  assumes "account_commits config allowed d0 d" "\<And>k. calm config allowed (env k)" "allowed (dr_tokenId dr)"
  shows "account_commits config allowed d0 (snd (login C ar dr env email password d))"
proof -
  note d1 = commits_calm [OF assms(1,2), of 1]
  note d2 = commits_calm [OF d1 assms(2), of 2]
  have "account_commits config allowed d0 (snd (createTokenPair C ar dr u (env 2 (env 1 d))))" for u
    using d2 commits_step [OF d2 session_opened] prepared_token assms(3)
    by (fastforce simp: createTokenPair_def split: sum.splits prod.splits)
  then show ?thesis using assms(1) d1
    by (auto simp: login_def Let_def split: option.splits sum.splits prod.splits) (metis snd_conv)+
qed

lemma refresh_commits:
  assumes "account_commits config allowed d0 d" "\<And>k. calm config allowed (env k)" "allowed (dr_tokenId dr)"
  shows "account_commits config allowed d0 (snd (refresh C ar dr env fault token d))"
proof -
  note d1 = commits_calm [OF assms(1,2), of 1]
  have "account_commits config allowed d0 (snd (run_tx (rotate_token i u row) (env 1 d)))"
    if "prepareTokenPair C ar dr u = Inr (tokens, row)" for i u row tokens
    by (rule commits_run_tx [OF d1]) (use session_rotated prepared_token [OF that] assms(3) in auto)
  then show ?thesis using assms(1) d1
    by (auto simp: refresh_def Let_def split: option.splits sum.splits prod.splits) (metis snd_conv)+
qed

lemma logout_commits:
  assumes "account_commits config allowed d0 d" "\<And>k. calm config allowed (env k)"
  shows "account_commits config allowed d0 (snd (logout C ar env token d))"
  using assms(1) commits_step [OF commits_calm [OF assms] sessions_closed]
  by (auto simp: logout_def split: option.splits sum.splits prod.splits)

lemma forgot_commits:
  assumes "account_commits config allowed d0 d" "\<And>k. calm config allowed (env k)"
  shows "account_commits config allowed d0 (fst (snd (forgotPassword C ar dr env fault email d)))"
proof -
  note d1 = commits_calm [OF assms, of 1]
  note d2 = commits_calm [OF d1 assms(2), of 2]
  have tx: "account_commits config allowed d0 (snd (forgot_tx now ttl cooldown i h (env 2) u (env 1 d)))" for now ttl cooldown i h u
    unfolding forgot_tx_def Let_def using d1
    by (simp del: One_nat_def) (intro impI commits_run_tx [OF d2], auto simp: bindE_Inr_iff
        intro!: reset_requested [where now = now and row = "\<lparr>pw_id = i, pw_userId = u, pw_codeHash = h,
          pw_expiresAt = now + ttl * 60000, pw_attemptCount = 0, pw_usedAt = None, pw_createdAt = now\<rparr>"])
  define q where "q u now ttl cooldown h = (case fault of Some e \<Rightarrow> (Inl e, env 1 d)
    | None \<Rightarrow> forgot_tx now ttl cooldown (dr_rowId dr) h (env 2) u (env 1 d))" for u now ttl cooldown h
  have q: "account_commits config allowed d0 (snd (q u now ttl cooldown h))" for u now ttl cooldown h
    unfolding q_def using d1 tx by (auto split: option.splits)
  have use: "account_commits config allowed d0 (use_requests p t (env 3 (snd (q u now ttl cooldown h))))" for p t u now ttl cooldown h
    by (rule commits_step [OF commits_calm [OF q assms(2)] requests_used])
  show ?thesis
    unfolding forgotPassword_def Let_def q_def [symmetric]
    using assms(1) q use by (auto split: option.splits prod.splits sum.splits) (metis snd_conv)+
qed

lemma reset_commits:
  assumes "account_commits (ar_config ar) allowed d0 d" "\<And>k. calm (ar_config ar) allowed (env k)"
  shows "account_commits (ar_config ar) allowed d0 (snd (resetPassword C ar dr env fault email code password d))"
proof -
  note d1 = commits_calm [OF assms, of 1]
  note d2 = commits_calm [OF d1 assms(2), of 2]
  have guess: "account_commits (ar_config ar) allowed d0 (recordFailedResetAttempt i n
      (getPositiveInteger (ar_config ar) ''PASSWORD_RESET_MAX_ATTEMPTS'' 5) now (env 2 (env 1 d)))"
    if "\<not> n \<ge> getPositiveInteger (ar_config ar) ''PASSWORD_RESET_MAX_ATTEMPTS'' 5" for i n now
    using commits_step [OF d2 reset_guessed] that by (simp add: max_reset_def)
  have claim: "account_commits (ar_config ar) allowed d0 (snd (run_tx (claim_reset m now i u h) (env 2 (env 1 d))))" for m now i u h
    by (rule commits_run_tx [OF d2]) (simp add: password_reset)
  show ?thesis using assms(1) d1 d2 guess claim
    by (auto simp: resetPassword_def Let_def split: option.splits)
qed

section \<open>Histories of requests\<close>

text \<open>
  Requests of any users follow and overlap each other: what happens between two awaited calls of one is a
  history of others.
\<close>

inductive account_history :: "crypto \<Rightarrow> environment \<Rightarrow> (string \<Rightarrow> bool) \<Rightarrow> db \<Rightarrow> db \<Rightarrow> bool" for C config allowed where
  begins: "account_history C config allowed d d"
| registers: "account_history C config allowed d0 d \<Longrightarrow> (\<And>k x. account_history C config allowed x (env k x)) \<Longrightarrow>
    ar_config ar = config \<Longrightarrow> account_history C config allowed d0 (fst (snd (register C ar dr env fault dto d)))"
| verifies: "account_history C config allowed d0 d \<Longrightarrow> (\<And>k x. account_history C config allowed x (env k x)) \<Longrightarrow>
    ar_config ar = config \<Longrightarrow> allowed (dr_tokenId dr) \<Longrightarrow>
    account_history C config allowed d0 (snd (verifyRegistration C ar dr env fault email code d))"
| resends: "account_history C config allowed d0 d \<Longrightarrow> (\<And>k x. account_history C config allowed x (env k x)) \<Longrightarrow>
    ar_config ar = config \<Longrightarrow> account_history C config allowed d0 (fst (snd (resendRegistrationCode C ar dr env fault email d)))"
| logs_in: "account_history C config allowed d0 d \<Longrightarrow> (\<And>k x. account_history C config allowed x (env k x)) \<Longrightarrow>
    ar_config ar = config \<Longrightarrow> allowed (dr_tokenId dr) \<Longrightarrow>
    account_history C config allowed d0 (snd (login C ar dr env email password d))"
| refreshes: "account_history C config allowed d0 d \<Longrightarrow> (\<And>k x. account_history C config allowed x (env k x)) \<Longrightarrow>
    ar_config ar = config \<Longrightarrow> allowed (dr_tokenId dr) \<Longrightarrow>
    account_history C config allowed d0 (snd (refresh C ar dr env fault token d))"
| logs_out: "account_history C config allowed d0 d \<Longrightarrow> (\<And>k x. account_history C config allowed x (env k x)) \<Longrightarrow>
    ar_config ar = config \<Longrightarrow> account_history C config allowed d0 (snd (logout C ar env token d))"
| forgets: "account_history C config allowed d0 d \<Longrightarrow> (\<And>k x. account_history C config allowed x (env k x)) \<Longrightarrow>
    ar_config ar = config \<Longrightarrow> account_history C config allowed d0 (fst (snd (forgotPassword C ar dr env fault email d)))"
| resets: "account_history C config allowed d0 d \<Longrightarrow> (\<And>k x. account_history C config allowed x (env k x)) \<Longrightarrow>
    ar_config ar = config \<Longrightarrow> account_history C config allowed d0 (snd (resetPassword C ar dr env fault email code password d))"
| updates: "account_history C config allowed d0 d \<Longrightarrow> account_history C config allowed d0 (snd (updateMe u timezone d))"

lemma history_commits: "account_history C config allowed d0 d \<Longrightarrow> account_commits config allowed d0 d"
proof (induction rule: account_history.induct)
  case (begins d)
  show ?case by simp
next
  case (registers d0 d env ar dr fault dto)
  then show ?case using register_commits by (auto simp: calm_def)
next
  case (verifies d0 d env ar dr fault email code)
  then show ?case using verify_commits by (auto simp: calm_def)
next
  case (resends d0 d env ar dr fault email)
  then show ?case using resend_commits by (auto simp: calm_def)
next
  case (logs_in d0 d env ar dr email password)
  then show ?case using login_commits by (auto simp: calm_def)
next
  case (refreshes d0 d env ar dr fault token)
  then show ?case using refresh_commits by (auto simp: calm_def)
next
  case (logs_out d0 d env ar token)
  then show ?case using logout_commits by (auto simp: calm_def)
next
  case (forgets d0 d env ar dr fault email)
  then show ?case using forgot_commits by (auto simp: calm_def)
next
  case (resets d0 d env ar dr fault email code password)
  then show ?case using reset_commits by (auto simp: calm_def)
next
  case (updates d0 d u timezone)
  show ?case unfolding updateMe_def by (rule commits_step [OF updates.IH profile_updated])
qed

end
