(* ===== verification/AccountProperties.thy ===== *)
theory AccountProperties
  imports Accounts
begin

text \<open>
  What holds in every history of account requests, the abstract store of sessions that the token handlers
  implement, and what each handler achieves.
\<close>

section \<open>The invariant of the account tables\<close>

definition keys_ok :: "db \<Rightarrow> bool" where
  "keys_ok d \<longleftrightarrow> keyed usr_id (users d) \<and> keyed usr_email (users d) \<and> keyed rt_id (refreshTokens d) \<and>
     keyed pr_id (pendingRegistrations d) \<and> keyed pr_email (pendingRegistrations d) \<and> keyed pw_id (resetRequests d)"

definition links_ok :: "db \<Rightarrow> bool" where
  "links_ok d \<longleftrightarrow> (\<forall>t \<in> set (refreshTokens d). rt_userId t \<in> usr_id ` set (users d)) \<and>
     (\<forall>r \<in> set (resetRequests d). pw_userId r \<in> usr_id ` set (users d)) \<and>
     (\<forall>u \<in> set (users d). usr_emailVerifiedAt u \<noteq> None)"

definition one_open :: "reset_row list \<Rightarrow> bool" where
  "one_open rs \<longleftrightarrow> (\<forall>r \<in> set rs. \<forall>s \<in> set rs.
     pw_userId r = pw_userId s \<and> pw_usedAt r = None \<and> pw_usedAt s = None \<longrightarrow> pw_id r = pw_id s)"

definition pending_attempts_ok :: "int \<Rightarrow> pending_row list \<Rightarrow> bool" where
  "pending_attempts_ok m ps \<longleftrightarrow> (\<forall>p \<in> set ps. pr_attemptCount p \<le> m)"

definition reset_attempts_ok :: "int \<Rightarrow> reset_row list \<Rightarrow> bool" where
  "reset_attempts_ok m rs \<longleftrightarrow> (\<forall>r \<in> set rs. pw_attemptCount r \<le> m \<and> (pw_attemptCount r = m \<longrightarrow> pw_usedAt r \<noteq> None))"

definition accounts_ok :: "environment \<Rightarrow> db \<Rightarrow> bool" where
  "accounts_ok config d \<longleftrightarrow> keys_ok d \<and> links_ok d \<and> one_open (resetRequests d) \<and>
     pending_attempts_ok (max_registration config) (pendingRegistrations d) \<and>
     reset_attempts_ok (max_reset config) (resetRequests d)"

lemma getPositiveInteger_pos: "0 < fallback \<Longrightarrow> 0 < getPositiveInteger config key fallback"
  by (auto simp: getPositiveInteger_def split: env_value.splits option.splits)

lemma max_pos: "0 < max_registration config" "0 < max_reset config"
  by (simp_all add: max_registration_def max_reset_def getRegistrationPolicy_def getPositiveInteger_pos)

subsection \<open>What each commit writes\<close>

named_theorems footprints \<open>the tables an operation leaves alone\<close>

lemma delete_pending_footprint [footprints]:
  "users (delete_pending p d) = users d" "refreshTokens (delete_pending p d) = refreshTokens d"
  "resetRequests (delete_pending p d) = resetRequests d"
  "pendingRegistrations (delete_pending p d) = delete_where p (pendingRegistrations d)"
  by (simp_all add: delete_pending_def)

lemma delete_tokens_footprint [footprints]:
  "users (delete_tokens q d) = users d" "pendingRegistrations (delete_tokens q d) = pendingRegistrations d"
  "resetRequests (delete_tokens q d) = resetRequests d" "refreshTokens (delete_tokens q d) = delete_where q (refreshTokens d)"
  by (simp_all add: delete_tokens_def)

lemma use_requests_footprint [footprints]:
  "users (use_requests q now d) = users d" "refreshTokens (use_requests q now d) = refreshTokens d"
  "pendingRegistrations (use_requests q now d) = pendingRegistrations d"
  "resetRequests (use_requests q now d) =
     update_where (\<lambda>r. q r \<and> pw_usedAt r = None) (\<lambda>r. r\<lparr>pw_usedAt := Some now\<rparr>) (resetRequests d)"
  by (simp_all add: use_requests_def)

lemma pending_update_footprint [footprints]:
  "users (invalidatePendingRegistrationCode i h m now d) = users d"
  "refreshTokens (invalidatePendingRegistrationCode i h m now d) = refreshTokens d"
  "resetRequests (invalidatePendingRegistrationCode i h m now d) = resetRequests d"
  "users (renew_pending p h e now d) = users d" "refreshTokens (renew_pending p h e now d) = refreshTokens d"
  "resetRequests (renew_pending p h e now d) = resetRequests d"
  "users (recordFailedRegistrationAttempt i h n m now d) = users d"
  "refreshTokens (recordFailedRegistrationAttempt i h n m now d) = refreshTokens d"
  "resetRequests (recordFailedRegistrationAttempt i h n m now d) = resetRequests d"
  by (simp_all add: invalidatePendingRegistrationCode_def renew_pending_def recordFailedRegistrationAttempt_def Let_def)

lemma failed_reset_footprint [footprints]:
  "users (recordFailedResetAttempt i n m now d) = users d"
  "refreshTokens (recordFailedResetAttempt i n m now d) = refreshTokens d"
  "pendingRegistrations (recordFailedResetAttempt i n m now d) = pendingRegistrations d"
  by (simp_all add: recordFailedResetAttempt_def Let_def use_requests_def)

lemma create_pendingD:
  "create_pending row d = Inr d' \<Longrightarrow> d' = d\<lparr>pendingRegistrations := pendingRegistrations d @ [row]\<rparr> \<and>
     (\<forall>p \<in> set (pendingRegistrations d). pr_id p \<noteq> pr_id row \<and> pr_email p \<noteq> pr_email row)"
  by (auto simp: create_pending_def split: if_splits)

lemma create_refreshD:
  "create_refresh row d = Inr d' \<Longrightarrow> d' = d\<lparr>refreshTokens := refreshTokens d @ [row]\<rparr> \<and>
     (\<forall>t \<in> set (refreshTokens d). rt_id t \<noteq> rt_id row) \<and> rt_userId row \<in> usr_id ` set (users d)"
  by (auto simp: create_refresh_def intro: rev_image_eqI split: if_splits)

lemma create_resetD:
  "create_reset row d = Inr d' \<Longrightarrow> d' = d\<lparr>resetRequests := resetRequests d @ [row]\<rparr> \<and>
     (\<forall>r \<in> set (resetRequests d). pw_id r \<noteq> pw_id row \<and>
        (pw_userId r = pw_userId row \<longrightarrow> pw_usedAt r \<noteq> None \<or> pw_usedAt row \<noteq> None)) \<and>
     pw_userId row \<in> usr_id ` set (users d)"
  by (auto simp: create_reset_def intro: rev_image_eqI split: if_splits)

lemma update_userD:
  "update_user i f d = Inr d' \<Longrightarrow> d' = d\<lparr>users := update_where (\<lambda>u. usr_id u = i) f (users d)\<rparr> \<and> i \<in> usr_id ` set (users d)"
  by (auto simp: update_user_def intro: rev_image_eqI split: if_splits)

lemma claim_registrationD:
  "claim_registration policy now dr row email pending d = Inr (u, d') \<Longrightarrow>
     d' = (delete_pending (pending_claimable policy now email pending) d)
        \<lparr>users := users d @ [user_of dr now email pending], refreshTokens := refreshTokens d @ [row]\<rparr> \<and>
     u = publicUserSelect (user_of dr now email pending) \<and>
     (\<forall>v \<in> set (users d). usr_id v \<noteq> dr_userId dr \<and> usr_email v \<noteq> email) \<and>
     (\<forall>t \<in> set (refreshTokens d). rt_id t \<noteq> rt_id row) \<and>
     rt_userId row \<in> insert (dr_userId dr) (usr_id ` set (users d)) \<and>
     count_where (pending_claimable policy now email pending) (pendingRegistrations d) = 1"
  by (auto simp: claim_registration_def result_iffs create_user_def create_refresh_def footprints user_of_def
      intro: rev_image_eqI split: if_splits)

lemma rotate_tokenD:
  "rotate_token i u row d = Inr (x, d') \<Longrightarrow>
     d' = d\<lparr>refreshTokens := delete_where (token_owned i u) (refreshTokens d) @ [row]\<rparr> \<and>
     (\<forall>t \<in> set (refreshTokens d). \<not> token_owned i u t \<longrightarrow> rt_id t \<noteq> rt_id row) \<and>
     rt_userId row \<in> usr_id ` set (users d) \<and> count_where (token_owned i u) (refreshTokens d) = 1"
  by (auto simp: rotate_token_def result_iffs delete_tokens_def dest!: create_refreshD split: if_splits)

lemma claim_resetD:
  "claim_reset m now i u h d = Inr (x, d') \<Longrightarrow>
     d' = delete_tokens (\<lambda>t. rt_userId t = u) (use_requests (\<lambda>r. pw_userId r = u \<and> pw_id r \<noteq> i) now
       ((use_requests (resettable m now i u) now d)\<lparr>users := update_where (\<lambda>v. usr_id v = u) (\<lambda>v. v\<lparr>usr_passwordHash := h\<rparr>) (users d)\<rparr>)) \<and>
     u \<in> usr_id ` set (users d) \<and> count_where (resettable m now i u) (resetRequests d) = 1"
  by (auto simp: claim_reset_def result_iffs footprints dest!: update_userD split: if_splits)

lemmas commitD = create_pendingD create_refreshD create_resetD claim_registrationD rotate_tokenD claim_resetD

lemma update_profile_cases:
  "snd (update_profile i z d) = d \<or>
   (\<exists>f. snd (update_profile i z d) = d\<lparr>users := update_where (\<lambda>u. usr_id u = i) f (users d)\<rparr> \<and>
      (\<forall>u. usr_id (f u) = usr_id u \<and> usr_email (f u) = usr_email u \<and> usr_emailVerifiedAt (f u) = usr_emailVerifiedAt u))"
proof -
  let ?f = "\<lambda>u. case z of None \<Rightarrow> u | Some z \<Rightarrow> u\<lparr>usr_timezone := z\<rparr>"
  have "\<forall>u :: user_row. usr_id (?f u) = usr_id u \<and> usr_email (?f u) = usr_email u \<and> usr_emailVerifiedAt (?f u) = usr_emailVerifiedAt u"
    by (simp split: option.splits)
  then show ?thesis by (auto simp: update_profile_def update_user_def split: sum.splits)
qed

lemma pending_keys_kept [simp]:
  "keyed pr_id (pendingRegistrations (recordFailedRegistrationAttempt i h n m now d)) = keyed pr_id (pendingRegistrations d)"
  "keyed pr_email (pendingRegistrations (recordFailedRegistrationAttempt i h n m now d)) = keyed pr_email (pendingRegistrations d)"
  "keyed pr_id (pendingRegistrations (invalidatePendingRegistrationCode i h m now d)) = keyed pr_id (pendingRegistrations d)"
  "keyed pr_email (pendingRegistrations (invalidatePendingRegistrationCode i h m now d)) = keyed pr_email (pendingRegistrations d)"
  "keyed pr_id (pendingRegistrations (renew_pending p h e now d)) = keyed pr_id (pendingRegistrations d)"
  "keyed pr_email (pendingRegistrations (renew_pending p h e now d)) = keyed pr_email (pendingRegistrations d)"
  "keyed pw_id (resetRequests (recordFailedResetAttempt i n m now d)) = keyed pw_id (resetRequests d)"
  by (simp_all add: recordFailedRegistrationAttempt_def invalidatePendingRegistrationCode_def renew_pending_def
      recordFailedResetAttempt_def use_requests_def Let_def)

lemma keys_kept:
  assumes "account_commit config allowed d d'" "keys_ok d"
  shows "keys_ok d'"
  using assms
proof (induction rule: account_commit.induct)
  case (profile_updated d i z)
  then show ?case using update_profile_cases [of i z d] by (elim disjE exE conjE) (simp_all add: keys_ok_def)
qed (auto simp: keys_ok_def footprints keyed_append1 keyed_delete_where in_update_where user_of_def dest!: commitD)

lemma links_kept:
  assumes "account_commit config allowed d d'" "links_ok d"
  shows "links_ok d'"
  using assms
proof (induction rule: account_commit.induct)
  case (profile_updated d i z)
  then show ?case using update_profile_cases [of i z d]
    by (elim disjE exE conjE) (simp_all add: links_ok_def image_update_where ball_update_where)
next
  case (reset_guessed n d i now)
  then show ?case by (auto simp: links_ok_def footprints recordFailedResetAttempt_def Let_def in_update_where)
qed (auto simp: links_ok_def footprints image_update_where in_update_where user_of_def dest!: commitD)

lemma one_open_update:
  assumes "one_open rs" "\<And>r. pw_id (f r) = pw_id r \<and> pw_userId (f r) = pw_userId r"
    "\<And>r. p r \<Longrightarrow> pw_usedAt (f r) = None \<Longrightarrow> pw_usedAt r = None"
  shows "one_open (update_where p f rs)"
proof -
  have "\<exists>r \<in> set rs. pw_id x = pw_id r \<and> pw_userId x = pw_userId r \<and> (pw_usedAt x = None \<longrightarrow> pw_usedAt r = None)"
    if "x \<in> set (update_where p f rs)" for x
    using that assms(2,3) unfolding in_update_where by metis
  with assms(1) show ?thesis unfolding one_open_def by metis
qed

lemma one_open_use [simp]: "one_open rs \<Longrightarrow> one_open (update_where p (\<lambda>r. r\<lparr>pw_usedAt := Some now\<rparr>) rs)"
  by (rule one_open_update) simp_all

lemma one_open_append:
  assumes "one_open rs" "\<And>s. s \<in> set rs \<Longrightarrow> pw_userId s = pw_userId r \<Longrightarrow> pw_usedAt s \<noteq> None \<or> pw_usedAt r \<noteq> None"
  shows "one_open (rs @ [r])"
  unfolding one_open_def
proof (intro ballI impI)
  fix x y
  assume xy: "x \<in> set (rs @ [r])" "y \<in> set (rs @ [r])" "pw_userId x = pw_userId y \<and> pw_usedAt x = None \<and> pw_usedAt y = None"
  then consider "x \<in> set rs" "y \<in> set rs" | "x = r" "y = r" | "x \<in> set rs" "y = r" | "x = r" "y \<in> set rs" by auto
  then show "pw_id x = pw_id y"
  proof cases
    case 1
    then show ?thesis using assms(1) xy(3) unfolding one_open_def by blast
  next
    case 3
    then show ?thesis using assms(2) [of x] xy(3) by blast
  next
    case 4
    then show ?thesis using assms(2) [of y] xy(3) by metis
  qed simp
qed

lemma open_kept:
  assumes "account_commit config allowed d d'" "one_open (resetRequests d)"
  shows "one_open (resetRequests d')"
  using assms
proof (induction rule: account_commit.induct)
  case (profile_updated d i z)
  then show ?case using update_profile_cases [of i z d] by (elim disjE exE conjE) simp_all
next
  case (reset_requested row now d d')
  from create_resetD [OF this(1)] this(3) show ?case
    by (auto simp: footprints intro!: one_open_append one_open_update)
next
  case (reset_guessed n d i now)
  then show ?case by (auto simp: recordFailedResetAttempt_def Let_def footprints intro!: one_open_update)
qed (auto simp: footprints dest!: commitD)

lemma pending_attempts_update:
  assumes "pending_attempts_ok m ps" "\<And>p. p \<in> set ps \<Longrightarrow> q p \<Longrightarrow> pr_attemptCount p \<le> m \<Longrightarrow> pr_attemptCount (f p) \<le> m"
  shows "pending_attempts_ok m (update_where q f ps)"
  using assms unfolding pending_attempts_ok_def ball_update_where by simp

lemma pending_attempts_kept:
  assumes "account_commit config allowed d d'" "pending_attempts_ok (max_registration config) (pendingRegistrations d)"
  shows "pending_attempts_ok (max_registration config) (pendingRegistrations d')"
  using assms
proof (induction rule: account_commit.induct)
  case (profile_updated d i z)
  then show ?case using update_profile_cases [of i z d] by (elim disjE exE conjE) simp_all
next
  case (code_resent d p h e now)
  then show ?case using max_pos [of config] by (auto simp: renew_pending_def intro!: pending_attempts_update)
next
  case (registration_guessed n d i h now)
  then show ?case
    by (auto simp: recordFailedRegistrationAttempt_def Let_def intro!: pending_attempts_update)
next
  case (code_invalidated d i h now)
  then show ?case by (auto simp: invalidatePendingRegistrationCode_def intro!: pending_attempts_update)
next
  case (pending_started row d d')
  then show ?case using max_pos [of config] by (auto simp: pending_attempts_ok_def dest!: create_pendingD)
qed (auto simp: footprints pending_attempts_ok_def dest!: commitD)

lemma reset_attempts_use:
  "reset_attempts_ok m rs \<Longrightarrow> reset_attempts_ok m (update_where p (\<lambda>r. r\<lparr>pw_usedAt := Some now\<rparr>) rs)"
  by (auto simp: reset_attempts_ok_def ball_update_where)

lemma failed_reset_rows:
  "resetRequests (recordFailedResetAttempt i n m now d) =
     (let p = (\<lambda>r. pw_id r = i \<and> pw_usedAt r = None \<and> pw_expiresAt r > now \<and> pw_attemptCount r = n);
          rows = update_where p (\<lambda>r. r\<lparr>pw_attemptCount := pw_attemptCount r + 1\<rparr>) (resetRequests d)
      in if count_where p (resetRequests d) = 1 \<and> n + 1 \<ge> m
         then update_where (\<lambda>r. (pw_id r = i \<and> pw_attemptCount r \<ge> m) \<and> pw_usedAt r = None) (\<lambda>r. r\<lparr>pw_usedAt := Some now\<rparr>) rows
         else rows)"
  by (simp add: recordFailedResetAttempt_def Let_def use_requests_def)

lemma reset_attempts_kept:
  assumes "account_commit config allowed d d'" "reset_attempts_ok (max_reset config) (resetRequests d)" "keys_ok d"
  shows "reset_attempts_ok (max_reset config) (resetRequests d')"
  using assms
proof (induction rule: account_commit.induct)
  case (profile_updated d i z)
  then show ?case using update_profile_cases [of i z d] by (elim disjE exE conjE) simp_all
next
  case (reset_guessed n d i now)
  let ?p = "\<lambda>r. pw_id r = i \<and> pw_usedAt r = None \<and> pw_expiresAt r > now \<and> pw_attemptCount r = n"
  have one: "count_where ?p (resetRequests d) = 1" if "r \<in> set (resetRequests d)" "?p r" for r
    using count_where_eq_1 [of pw_id "resetRequests d" ?p r] reset_guessed.prems(2) that by (simp add: keys_ok_def)
  have one': "count_where ?p (resetRequests d) = 1 \<or> (\<forall>r \<in> set (resetRequests d). \<not> ?p r)" using one by blast
  have kept: "\<forall>r \<in> set (resetRequests d). pw_attemptCount r \<le> max_reset config \<and>
      (pw_attemptCount r = max_reset config \<longrightarrow> pw_usedAt r \<noteq> None)"
    using reset_guessed.prems(1) by (simp add: reset_attempts_ok_def)
  show ?case
  proof (cases "count_where ?p (resetRequests d) = 1 \<and> n + 1 \<ge> max_reset config")
    case True
    have "\<forall>r \<in> set (update_where ?p (\<lambda>r. r\<lparr>pw_attemptCount := pw_attemptCount r + 1\<rparr>) (resetRequests d)).
        pw_attemptCount r \<le> max_reset config \<and> (pw_attemptCount r = max_reset config \<longrightarrow> pw_usedAt r \<noteq> None \<or> pw_id r = i)"
      unfolding ball_update_where using kept reset_guessed.hyps by fastforce
    then show ?thesis
      unfolding failed_reset_rows Let_def if_P [OF True] reset_attempts_ok_def ball_update_where [where f = "pw_usedAt_update _"]
      by fastforce
  next
    case False
    then have no: "n + 1 < max_reset config \<or> (\<forall>r \<in> set (resetRequests d). \<not> ?p r)" using one' by linarith
    show ?thesis
      unfolding failed_reset_rows Let_def if_not_P [OF False] reset_attempts_ok_def ball_update_where
      using kept no by fastforce
  qed
next
  case (reset_requested row now d d')
  from create_resetD [OF this(1)] this(2,3) reset_attempts_use max_pos [of config] show ?case
    by (auto simp: footprints reset_attempts_ok_def ball_update_where)
qed (auto simp: footprints reset_attempts_use dest!: commitD)

lemma accounts_kept: "account_commits config allowed d d' \<Longrightarrow> accounts_ok config d \<Longrightarrow> accounts_ok config d'"
proof (induction rule: rtranclp_induct)
  case (step y z)
  then show ?case
    using keys_kept links_kept open_kept pending_attempts_kept reset_attempts_kept by (simp add: accounts_ok_def)
qed simp

section \<open>Refresh tokens are used once\<close>

text \<open>A token always verifies to the same claims, if it verifies at all: they are in the signed token.\<close>

definition stable_claims :: "crypto \<Rightarrow> bool" where
  "stable_claims C \<longleftrightarrow> (\<forall>opts now now' token c c'. cr_verifyToken C opts now token = Some c \<longrightarrow>
     cr_verifyToken C opts now' token = Some c' \<longrightarrow> c = c')"

lemma verifyRefreshToken_Inr:
  "verifyRefreshToken C config now token = Inr (u, i) \<longleftrightarrow>
     (\<exists>secret c. getOrThrow config ''JWT_REFRESH_SECRET'' = Inr secret \<and>
        cr_verifyToken C (token_options_for secret) now token = Some c \<and>
        jc_type c = Some ''refresh'' \<and> jc_sub c = Some u \<and> jc_jti c = Some i)"
  by (auto simp: verifyRefreshToken_def Let_def split: sum.splits option.splits if_splits)

lemma verifyRefreshToken_stable:
  assumes "stable_claims C" "verifyRefreshToken C config now token = Inr (u, i)" "verifyRefreshToken C config now' token = Inr (v, j)"
  shows "v = u" "j = i"
proof -
  obtain s c where c: "getOrThrow config ''JWT_REFRESH_SECRET'' = Inr s" "cr_verifyToken C (token_options_for s) now token = Some c"
    "jc_sub c = Some u" "jc_jti c = Some i" using assms(2) verifyRefreshToken_Inr by blast
  obtain s' c' where c': "getOrThrow config ''JWT_REFRESH_SECRET'' = Inr s'" "cr_verifyToken C (token_options_for s') now' token = Some c'"
    "jc_sub c' = Some v" "jc_jti c' = Some j" using assms(3) verifyRefreshToken_Inr by blast
  have "c = c'" using assms(1) c(1,2) c'(1,2) by (simp add: stable_claims_def)
  with c c' show "v = u" "j = i" by simp_all
qed

definition token_gone :: "string \<Rightarrow> string \<Rightarrow> db \<Rightarrow> bool" where
  "token_gone i u d \<longleftrightarrow> (\<forall>t \<in> set (refreshTokens d). \<not> token_owned i u t)"

lemma token_gone_step:
  assumes "account_commit config (\<lambda>j. j \<noteq> i) d d'" "token_gone i u d"
  shows "token_gone i u d'"
  using assms
proof (induction rule: account_commit.induct)
  case (profile_updated d j z)
  then show ?case using update_profile_cases [of j z d] by (auto simp: token_gone_def)
qed (auto simp: token_gone_def footprints token_owned_def dest!: commitD)

lemma token_gone_later: "account_commits config (\<lambda>j. j \<noteq> i) d d' \<Longrightarrow> token_gone i u d \<Longrightarrow> token_gone i u d'"
  by (induction rule: rtranclp_induct) (auto intro: token_gone_step)

lemma refresh_cases:
  assumes "refresh C ar dr env fault token d = (Inr tokens, d')"
  obtains sub jti t row where "verifyRefreshToken C (ar_config ar) (ar_now ar) token = Inr (sub, jti)"
    "find_token jti d = Some t" "rt_userId t = sub" "ar_now ar < rt_expiresAt t" "verifyHash C (rt_tokenHash t) (codes token)"
    "prepareTokenPair C ar dr sub = Inr (tokens, row)" "rotate_token jti sub row (env 1 d) = Inr ((), d')"
proof -
  obtain sub jti where v: "verifyRefreshToken C (ar_config ar) (ar_now ar) token = Inr (sub, jti)"
    using assms by (auto simp: refresh_def split: sum.splits)
  then obtain t where t: "find_token jti d = Some t" "rt_userId t = sub" "ar_now ar < rt_expiresAt t"
    "verifyHash C (rt_tokenHash t) (codes token)"
    using assms by (auto simp: refresh_def split: option.splits if_splits)
  then have i: "rt_id t = jti" by (auto simp: find_token_def dest: find_first_Some)
  obtain tk row where p: "prepareTokenPair C ar dr sub = Inr (tk, row)"
    using assms v t by (cases "prepareTokenPair C ar dr sub") (auto simp: refresh_def)
  then have "(case (case fault of Some e \<Rightarrow> (Inl e, env 1 d) | None \<Rightarrow> run_tx (rotate_token (rt_id t) sub row) (env 1 d)) of
      (Inl e, d2) \<Rightarrow> (Inl e, d2) | (Inr _, d2) \<Rightarrow> (Inr tk, d2)) = (Inr tokens, d')"
    using assms v t by (simp add: refresh_def Let_def del: One_nat_def)
  then have "tk = tokens \<and> rotate_token (rt_id t) sub row (env 1 d) = Inr ((), d')"
    by (auto simp: run_tx_def split: option.splits prod.splits sum.splits)
  then have "tk = tokens" "rotate_token jti sub row (env 1 d) = Inr ((), d')" by (simp_all add: i)
  with that v t p show ?thesis by simp
qed

section \<open>The abstract store of sessions\<close>

text \<open>
  What clients see of the token tables: which session identifiers are open, for whom and until when. The
  operations of the store are partial; \<open>None\<close> is one the store forbids.
\<close>

type_synonym session_store = "string \<Rightarrow> (string \<times> int) option"

datatype session_op = Open string string int | Rotate string string string int | Close string string | Revoke string | Keep

fun session_step :: "int \<Rightarrow> session_op \<Rightarrow> session_store \<Rightarrow> session_store option" where
  "session_step now (Open i u e) s = (if s i = None then Some (s(i \<mapsto> (u, e))) else None)"
| "session_step now (Rotate i j u e) s =
     (case s i of
        Some (v, e0) \<Rightarrow> (if v = u \<and> now < e0 \<and> (s j = None \<or> j = i) then Some ((s(i := None))(j \<mapsto> (u, e))) else None)
      | None \<Rightarrow> None)"
| "session_step now (Close i u) s =
     (case s i of None \<Rightarrow> Some s | Some (v, e) \<Rightarrow> (if v = u then Some (s(i := None)) else None))"
| "session_step now (Revoke u) s = Some (\<lambda>i. case s i of None \<Rightarrow> None | Some (v, e) \<Rightarrow> if v = u then None else Some (v, e))"
| "session_step now Keep s = Some s"

definition sessions :: "db \<Rightarrow> session_store" where
  "sessions d = (\<lambda>i. map_option (\<lambda>t. (rt_userId t, rt_expiresAt t)) (find_token i d))"

lemma sessions_cong: "refreshTokens d' = refreshTokens d \<Longrightarrow> sessions d' = sessions d"
  by (simp add: sessions_def find_token_def)

lemma find_token_None: "find_token i d = None \<longleftrightarrow> (\<forall>t \<in> set (refreshTokens d). rt_id t \<noteq> i)"
  by (simp add: find_token_def find_first_None_iff)

lemma sessions_None: "sessions d i = None \<longleftrightarrow> (\<forall>t \<in> set (refreshTokens d). rt_id t \<noteq> i)"
  by (simp add: sessions_def find_token_None)

lemma find_first_delete:
  "(\<And>r. r \<in> set rows \<Longrightarrow> p r \<Longrightarrow> \<not> q r) \<Longrightarrow> find_first p (delete_where q rows) = find_first p rows"
  by (induction rows) (auto simp: delete_where_def find_first_Cons)

lemma sessions_append:
  assumes "refreshTokens d' = rows @ [t]" "\<forall>s \<in> set rows. rt_id s \<noteq> rt_id t"
  shows "sessions d' = (sessions (d\<lparr>refreshTokens := rows\<rparr>))(rt_id t \<mapsto> (rt_userId t, rt_expiresAt t))"
proof
  fix i
  show "sessions d' i = ((sessions (d\<lparr>refreshTokens := rows\<rparr>))(rt_id t \<mapsto> (rt_userId t, rt_expiresAt t))) i"
  proof (cases "i = rt_id t")
    case True
    then have "find_first (\<lambda>s. rt_id s = i) rows = None" using assms(2) by (simp add: find_first_None_iff)
    with True show ?thesis by (simp add: sessions_def find_token_def assms(1) find_first_append find_first_Cons)
  next
    case False
    then show ?thesis
      unfolding sessions_def find_token_def assms(1) find_first_append find_first_Cons find_first_Nil
      by (simp split: option.split)
  qed
qed

lemma sessions_close:
  assumes "keyed rt_id (refreshTokens d)" "find_token i d = Some t" "rt_userId t = u"
  shows "sessions (d\<lparr>refreshTokens := delete_where (token_owned i u) (refreshTokens d)\<rparr>) = (sessions d)(i := None)"
proof
  fix j
  have t: "t \<in> set (refreshTokens d)" "rt_id t = i" using assms(2) by (auto simp: find_token_def dest: find_first_Some)
  have only: "token_owned i u s" if "s \<in> set (refreshTokens d)" "rt_id s = i" for s
    using keyed_eq [OF assms(1) that(1) t(1)] that t assms(3) by (simp add: token_owned_def)
  show "sessions (d\<lparr>refreshTokens := delete_where (token_owned i u) (refreshTokens d)\<rparr>) j = ((sessions d)(i := None)) j"
  proof (cases "j = i")
    case True
    then show ?thesis using only by (auto simp: sessions_None)
  next
    case False
    then have "find_first (\<lambda>s. rt_id s = j) (delete_where (token_owned i u) (refreshTokens d)) =
        find_first (\<lambda>s. rt_id s = j) (refreshTokens d)"
      by (intro find_first_delete) (auto simp: token_owned_def)
    with False show ?thesis by (simp add: sessions_def find_token_def)
  qed
qed

lemma sessions_revoke:
  assumes "keyed rt_id (refreshTokens d)" "refreshTokens d' = delete_where (\<lambda>t. rt_userId t = u) (refreshTokens d)"
  shows "Some (sessions d') = session_step now (Revoke u) (sessions d)"
proof -
  have "sessions d' i = (case sessions d i of None \<Rightarrow> None | Some (v, e) \<Rightarrow> if v = u then None else Some (v, e))" for i
  proof (cases "find_token i d")
    case None
    then have "find_token i d' = None" by (auto simp: find_token_None assms(2))
    with None show ?thesis by (simp add: sessions_def)
  next
    case (Some t)
    then have t: "t \<in> set (refreshTokens d)" "rt_id t = i" by (auto simp: find_token_def dest: find_first_Some)
    show ?thesis
    proof (cases "rt_userId t = u")
      case True
      have "s = t" if "s \<in> set (refreshTokens d)" "rt_id s = i" for s using keyed_eq [OF assms(1) that(1) t(1)] that t by simp
      with True have "find_token i d' = None" by (auto simp: find_token_None assms(2))
      with True Some show ?thesis by (simp add: sessions_def)
    next
      case False
      then have "find_token i d' = Some t" unfolding find_token_def
        using t keyed_delete_where [OF assms(1)] by (intro find_first_keyed [where k = rt_id]) (auto simp: assms(2))
      with False Some show ?thesis by (simp add: sessions_def)
    qed
  qed
  then show ?thesis by auto
qed

section \<open>Reset requests\<close>

lemma insort_key_map: "(\<And>x. k (f x) = k x) \<Longrightarrow> insort_key k (f x) (map f xs) = map f (insort_key k x xs)"
  by (induction xs) simp_all

lemma sort_key_map: "(\<And>x. k (f x) = k x) \<Longrightarrow> sort_key k (map f xs) = map f (sort_key k xs)"
  by (induction xs) (simp_all add: insort_key_map)

lemma filter_update_where:
  "(\<And>x. p (f x) = p x) \<Longrightarrow> filter p (update_where q f xs) = map (\<lambda>x. if q x then f x else x) (filter p xs)"
  by (induction xs) (simp_all add: update_where_Cons)

text \<open>An update that keeps the owner and the time of creation acts on the latest request as on any other.\<close>

lemma latest_update:
  assumes "\<And>r. pw_userId (f r) = pw_userId r" "\<And>r. pw_createdAt (f r) = pw_createdAt r"
  shows "latest_request u (d\<lparr>resetRequests := update_where q f rows\<rparr>) =
    map_option (\<lambda>r. if q r then f r else r) (latest_request u (d\<lparr>resetRequests := rows\<rparr>))"
proof -
  have "sort_key (\<lambda>r. - pw_createdAt r) (map (\<lambda>r. if q r then f r else r) xs) =
      map (\<lambda>r. if q r then f r else r) (sort_key (\<lambda>r. - pw_createdAt r) xs)" for xs
    by (rule sort_key_map) (simp add: assms(2))
  then show ?thesis
    by (simp add: latest_request_def filter_update_where assms(1) split: list.split)
qed

lemma latest_cong: "resetRequests d = resetRequests d' \<Longrightarrow> latest_request u d = latest_request u d'"
  by (simp add: latest_request_def)

lemma latest_in: "latest_request u d = Some r \<Longrightarrow> r \<in> set (resetRequests d) \<and> pw_userId r = u"
proof -
  assume "latest_request u d = Some r"
  then have "r \<in> set (sort_key (\<lambda>r. - pw_createdAt r) (filter (\<lambda>r. pw_userId r = u) (resetRequests d)))"
    unfolding latest_request_def by (metis (no_types, lifting) list.case_eq_if list.set_sel(1) option.distinct(1) option.inject)
  then show ?thesis by simp
qed

text \<open>What one wrong code does to the latest request.\<close>

definition guessed :: "int \<Rightarrow> int \<Rightarrow> int \<Rightarrow> reset_row \<Rightarrow> reset_row" where
  "guessed m now n r =
     (if pw_usedAt r = None \<and> pw_expiresAt r > now \<and> pw_attemptCount r = n
      then r\<lparr>pw_attemptCount := n + 1, pw_usedAt := if n + 1 \<ge> m then Some now else None\<rparr> else r)"

lemma latest_after_guess:
  assumes "latest_request u d = Some r" "keyed pw_id (resetRequests d)" "pw_attemptCount r < m" "n < m"
  shows "latest_request u (recordFailedResetAttempt (pw_id r) n m now d) = Some (guessed m now n r)"
proof -
  let ?p = "\<lambda>s. pw_id s = pw_id r \<and> pw_usedAt s = None \<and> pw_expiresAt s > now \<and> pw_attemptCount s = n"
  let ?rows = "update_where ?p (\<lambda>s. s\<lparr>pw_attemptCount := pw_attemptCount s + 1\<rparr>) (resetRequests d)"
  let ?q = "\<lambda>s. (pw_id s = pw_id r \<and> pw_attemptCount s \<ge> m) \<and> pw_usedAt s = None"
  let ?r1 = "if ?p r then r\<lparr>pw_attemptCount := pw_attemptCount r + 1\<rparr> else r"
  have r: "r \<in> set (resetRequests d)" using latest_in [OF assms(1)] by simp
  have one: "count_where ?p (resetRequests d) = 1 \<longleftrightarrow> ?p r"
  proof
    assume "count_where ?p (resetRequests d) = 1"
    then obtain s where "s \<in> set (resetRequests d)" "?p s" using count_where_pos [of ?p "resetRequests d" 0] by auto
    moreover from this have "s = r" using keyed_eq [OF assms(2) _ r] by blast
    ultimately show "?p r" by simp
  next
    assume "?p r"
    then show "count_where ?p (resetRequests d) = 1" by (intro count_where_eq_1 [OF assms(2) _ r]) simp_all
  qed
  have l0: "latest_request u (d\<lparr>resetRequests := resetRequests d\<rparr>) = Some r" using assms(1) by simp
  have l1: "latest_request u (d\<lparr>resetRequests := ?rows\<rparr>) = Some ?r1"
    by (simp add: latest_update l0 [simplified])
  have l2: "latest_request u (d\<lparr>resetRequests := update_where ?q (\<lambda>s. s\<lparr>pw_usedAt := Some now\<rparr>) ?rows\<rparr>) =
      Some (if ?q ?r1 then ?r1\<lparr>pw_usedAt := Some now\<rparr> else ?r1)"
    by (rule trans [OF latest_update]) (simp, simp, simp only: l1 option.map)
  have e: "latest_request u (recordFailedResetAttempt (pw_id r) n m now d) =
      latest_request u (d\<lparr>resetRequests := if ?p r \<and> n + 1 \<ge> m then update_where ?q (\<lambda>s. s\<lparr>pw_usedAt := Some now\<rparr>) ?rows else ?rows\<rparr>)"
    by (rule latest_cong) (simp add: failed_reset_rows Let_def one [unfolded One_nat_def])
  show ?thesis
  proof (cases "?p r \<and> n + 1 \<ge> m")
    case True
    then have "?r1 = r\<lparr>pw_attemptCount := n + 1\<rparr>" "?q (r\<lparr>pw_attemptCount := n + 1\<rparr>)" by simp_all
    then show ?thesis unfolding e if_P [OF True] l2 using True by (simp add: guessed_def)
  next
    case False
    show ?thesis unfolding e if_not_P [OF False] l1 using False by (cases r) (auto simp: guessed_def)
  qed
qed

end
