(* ===== verification/AccountOutcomes.thy ===== *)
theory AccountOutcomes
  imports AccountProperties
begin

text \<open>
  What the account handlers achieve: consistency of the tables in every history, refresh tokens that are used
  once, the refinement of the store of sessions, the budget of guesses for a code, the effect of a password
  reset and of a verified registration.
\<close>

section \<open>Demonstration values\<close>

text \<open>Cryptography to evaluate with: a hash is the salt and the text, a refresh token its identifier.\<close>

definition demo_crypto :: crypto where
  "demo_crypto = \<lparr>cr_hash = (\<lambda>salt v. salt @ map char_of v), cr_verify = (\<lambda>h v. Some (h = ''s'' @ map char_of v)),
     cr_sign = (\<lambda>_ _ _ c. Some (case jc_jti c of None \<Rightarrow> ''access'' | Some i \<Rightarrow> i)),
     cr_verifyToken = (\<lambda>_ _ t. Some \<lparr>jc_sub = Some ''u'', jc_jti = Some t, jc_type = Some ''refresh''\<rparr>)\<rparr>"

definition demo_auth_config :: environment where
  "demo_auth_config = [''JWT_ACCESS_SECRET'' \<mapsto> EString ''a'', ''JWT_REFRESH_SECRET'' \<mapsto> EString ''r'']"

definition demo_request_at :: "int \<Rightarrow> auth_request" where
  "demo_request_at t = \<lparr>ar_config = demo_auth_config, ar_now = t, ar_later = t, ar_mailFails = False\<rparr>"

definition demo_draws :: draws where
  "demo_draws = \<lparr>dr_userId = ''u'', dr_tokenId = ''t2'', dr_rowId = ''p'', dr_code = 42, dr_salt1 = ''s'', dr_salt2 = ''s''\<rparr>"

definition demo_account_db :: db where
  "demo_account_db = empty_db\<lparr>users := [demo_user],
     refreshTokens := [\<lparr>rt_id = ''t1'', rt_userId = ''u'', rt_tokenHash = ''st1'', rt_expiresAt = 1000\<rparr>],
     resetRequests := [\<lparr>pw_id = ''p'', pw_userId = ''u'', pw_codeHash = ''s000042'', pw_expiresAt = 1000,
       pw_attemptCount = 0, pw_usedAt = None, pw_createdAt = 0\<rparr>]\<rparr>"

lemma demo_attempt_limits: "max_reset demo_auth_config = 5" "max_registration demo_auth_config = 5"
  by (simp_all add: max_reset_def max_registration_def getRegistrationPolicy_def getPositiveInteger_def nullish_def demo_auth_config_def)

lemma demo_accounts_ok: "accounts_ok demo_auth_config demo_account_db"
  by (simp add: accounts_ok_def keys_ok_def keyed_def links_ok_def one_open_def pending_attempts_ok_def reset_attempts_ok_def
      demo_account_db_def empty_db_def demo_user_def demo_attempt_limits)

lemma demo_email_normal: "normalizeEmail ''a@b.c'' = ''a@b.c''"
  by (simp add: normalizeEmail_def strim_def trim_by_def js_white_def lower_char_def Let_def)

lemma demo_reads:
  "findByEmail ''a@b.c'' demo_account_db = Some demo_user"
  "latest_request ''u'' demo_account_db = Some \<lparr>pw_id = ''p'', pw_userId = ''u'', pw_codeHash = ''s000042'', pw_expiresAt = 1000,
       pw_attemptCount = 0, pw_usedAt = None, pw_createdAt = 0\<rparr>"
  "find_token ''t1'' demo_account_db = Some \<lparr>rt_id = ''t1'', rt_userId = ''u'', rt_tokenHash = ''st1'', rt_expiresAt = 1000\<rparr>"
  by (simp_all add: findByEmail_def latest_request_def find_token_def find_first_Cons demo_account_db_def demo_user_def)

lemma demo_codes:
  "\<not> verifyHash demo_crypto ''s000042'' (codes ''000001'')" "verifyHash demo_crypto ''s000042'' (codes ''000042'')"
  by (simp add: verifyHash_def demo_crypto_def codes_def, code_simp)+

section \<open>Histories\<close>

text \<open>
  C11. Whatever requests arrive, follow and overlap each other, whatever transactions fail: emails and
  identifiers stay unique, sessions and reset requests belong to users, every user has a verified address, a
  user has at most one open reset request, and no code has more attempts than the configured maximum.
\<close>

theorem accounts_stay_consistent:
  assumes "account_history C config allowed d0 d" "accounts_ok config d0"
  shows "accounts_ok config d"
  using accounts_kept [OF history_commits [OF assms(1)] assms(2)] .

theorem accounts_stay_consistent_witness:
  "accounts_ok demo_auth_config (snd (refresh demo_crypto (demo_request_at 5) demo_draws (\<lambda>_ d. d) None ''t1'' demo_account_db))"
proof (rule accounts_stay_consistent [OF _ demo_accounts_ok])
  show "account_history demo_crypto demo_auth_config (\<lambda>_. True) demo_account_db
      (snd (refresh demo_crypto (demo_request_at 5) demo_draws (\<lambda>_ d. d) None ''t1'' demo_account_db))"
    by (rule refreshes [OF begins begins]) (simp_all add: demo_request_at_def)
qed

text \<open>
  C12. A refresh token is used at most once: of two refreshes with the same token, however they overlap, with
  any other requests and any rotation, logout or reset between them, the one whose transaction comes second
  fails. The identifiers of new sessions are assumed not to repeat the token's.
\<close>

theorem refresh_is_single_use:
  assumes "refresh C ar dr env fault token d = (Inr tokens, d1)"
    and "verifyRefreshToken C config (ar_now ar) token = Inr (u, i)" "ar_config ar = config" "ar_config ar2 = config"
    and "stable_claims C" "dr_tokenId dr \<noteq> i" "account_history C config (\<lambda>j. j \<noteq> i) d1 (env2 1 d2)"
  shows "\<exists>e. fst (refresh C ar2 dr2 env2 fault2 token d2) = Inl e"
proof (rule ccontr)
  assume "\<not> (\<exists>e. fst (refresh C ar2 dr2 env2 fault2 token d2) = Inl e)"
  then obtain tokens2 d3 where "refresh C ar2 dr2 env2 fault2 token d2 = (Inr tokens2, d3)" by (metis prod.collapse sum.exhaust)
  then obtain v j row2 where v: "verifyRefreshToken C (ar_config ar2) (ar_now ar2) token = Inr (v, j)"
    and rot2: "rotate_token j v row2 (env2 1 d2) = Inr ((), d3)" by (rule refresh_cases) blast
  obtain u' i' row where u: "verifyRefreshToken C (ar_config ar) (ar_now ar) token = Inr (u', i')"
    and row: "prepareTokenPair C ar dr u' = Inr (tokens, row)" and rot: "rotate_token i' u' row (env 1 d) = Inr ((), d1)"
    using assms(1) by (rule refresh_cases) blast
  have same: "u' = u" "i' = i" "v = u" "j = i"
    using u v assms(2-4) verifyRefreshToken_stable [OF assms(5)] by auto
  have "rt_id row = dr_tokenId dr" using prepared_token [OF row] by simp
  then have "token_gone i u d1"
    using rotate_tokenD [OF rot] assms(6) by (auto simp: same token_gone_def token_owned_def)
  then have "token_gone i u (env2 1 d2)" by (rule token_gone_later [OF history_commits [OF assms(7)]])
  then have "count_where (token_owned i u) (refreshTokens (env2 1 d2)) = 0"
    unfolding token_gone_def count_where_0_iff .
  with rotate_tokenD [OF rot2] show False by (simp add: same)
qed

lemma demo_verify: "verifyRefreshToken demo_crypto demo_auth_config t tok = Inr (''u'', tok)"
  by (simp add: verifyRefreshToken_def Let_def getOrThrow_def demo_auth_config_def demo_crypto_def)

lemma demo_refresh:
  "refresh demo_crypto (demo_request_at 5) demo_draws (\<lambda>_ d. d) None ''t1'' demo_account_db =
     (Inr \<lparr>tp_accessToken = ''access'', tp_refreshToken = ''t2''\<rparr>,
      demo_account_db\<lparr>refreshTokens := [\<lparr>rt_id = ''t2'', rt_userId = ''u'', rt_tokenHash = ''st2'',
        rt_expiresAt = 5 + REFRESH_TOKEN_TTL_SECONDS * 1000\<rparr>]\<rparr>)"
proof -
  have p: "prepareTokenPair demo_crypto (demo_request_at 5) demo_draws ''u'' =
      Inr (\<lparr>tp_accessToken = ''access'', tp_refreshToken = ''t2''\<rparr>, \<lparr>rt_id = ''t2'', rt_userId = ''u'', rt_tokenHash = ''st2'',
        rt_expiresAt = 5 + REFRESH_TOKEN_TTL_SECONDS * 1000\<rparr>)"
    by (simp add: prepareTokenPair_def signTokenPair_def sign_token_def getOrThrow_def demo_request_at_def
        demo_auth_config_def demo_crypto_def demo_draws_def codes_def getRefreshExpiration_def)
  have h: "verifyHash demo_crypto ''st1'' (codes ''t1'')"
    by (simp add: verifyHash_def demo_crypto_def codes_def) code_simp
  have r: "rotate_token ''t1'' ''u'' row demo_account_db = Inr ((), demo_account_db\<lparr>refreshTokens := [row]\<rparr>)"
    if "rt_userId row = ''u''" for row
    by (simp add: rotate_token_def token_owned_def delete_tokens_def create_refresh_def delete_where_def count_where_def
        demo_account_db_def demo_user_def that)
  show ?thesis
    by (simp add: refresh_def demo_verify demo_reads demo_request_at_def h p [unfolded demo_request_at_def] r)
qed

theorem refresh_is_single_use_witness:
  "\<exists>e. fst (refresh demo_crypto (demo_request_at 6) (demo_draws\<lparr>dr_tokenId := ''t3''\<rparr>) (\<lambda>_ d. d) None ''t1''
     (snd (refresh demo_crypto (demo_request_at 5) demo_draws (\<lambda>_ d. d) None ''t1'' demo_account_db))) = Inl e"
proof (rule refresh_is_single_use [where config = demo_auth_config and u = "''u''" and i = "''t1''"])
  show "refresh demo_crypto (demo_request_at 5) demo_draws (\<lambda>_ d. d) None ''t1'' demo_account_db =
      (Inr \<lparr>tp_accessToken = ''access'', tp_refreshToken = ''t2''\<rparr>,
       snd (refresh demo_crypto (demo_request_at 5) demo_draws (\<lambda>_ d. d) None ''t1'' demo_account_db))"
    by (simp add: demo_refresh)
  show "stable_claims demo_crypto" by (simp add: stable_claims_def demo_crypto_def)
qed (simp_all add: demo_verify demo_request_at_def demo_draws_def begins)

section \<open>The store of sessions is implemented\<close>

text \<open>The operation of the store each answered request stands for.\<close>

definition opened :: "auth_request \<Rightarrow> draws \<Rightarrow> (public_user \<times> token_pair) result \<Rightarrow> session_op" where
  "opened ar dr r = (case r of Inr (u, _) \<Rightarrow> Open (dr_tokenId dr) (pu_id u) (getRefreshExpiration (ar_later ar)) | Inl _ \<Rightarrow> Keep)"

definition rotated :: "crypto \<Rightarrow> auth_request \<Rightarrow> draws \<Rightarrow> string \<Rightarrow> token_pair result \<Rightarrow> session_op" where
  "rotated C ar dr token r =
     (case (r, verifyRefreshToken C (ar_config ar) (ar_now ar) token) of
        (Inr _, Inr (u, i)) \<Rightarrow> Rotate i (dr_tokenId dr) u (getRefreshExpiration (ar_later ar))
      | _ \<Rightarrow> Keep)"

definition closed :: "crypto \<Rightarrow> auth_request \<Rightarrow> string \<Rightarrow> unit result \<Rightarrow> session_op" where
  "closed C ar token r =
     (case (r, verifyRefreshToken C (ar_config ar) (ar_now ar) token) of (Inr _, Inr (u, i)) \<Rightarrow> Close i u | _ \<Rightarrow> Keep)"

definition revoked :: "string \<Rightarrow> db \<Rightarrow> unit result \<Rightarrow> session_op" where
  "revoked email d r = (case (r, findByEmail (normalizeEmail email) d) of (Inr _, Some u) \<Rightarrow> Revoke (usr_id u) | _ \<Rightarrow> Keep)"

lemma prepared_expiry:
  "prepareTokenPair C ar dr u = Inr (tokens, row) \<Longrightarrow> rt_expiresAt row = getRefreshExpiration (ar_later ar)"
  by (auto simp: prepareTokenPair_def result_iffs)

lemma open_step:
  assumes "refreshTokens d' = refreshTokens d @ [row]" "\<forall>t \<in> set (refreshTokens d). rt_id t \<noteq> rt_id row"
  shows "session_step now (Open (rt_id row) (rt_userId row) (rt_expiresAt row)) (sessions d) = Some (sessions d')"
  using sessions_append [OF assms, of d] assms(2) by (simp add: sessions_None)

lemma login_opens:
  "session_step now (opened ar dr (fst (login C ar dr (\<lambda>_ d. d) email password d))) (sessions d) =
     Some (sessions (snd (login C ar dr (\<lambda>_ d. d) email password d)))"
proof (cases "fst (login C ar dr (\<lambda>_ d. d) email password d)")
  case (Inl e)
  then have "snd (login C ar dr (\<lambda>_ d. d) email password d) = d"
    by (auto simp: login_def createTokenPair_def split: option.splits sum.splits prod.splits)
  with Inl show ?thesis by (simp add: opened_def)
next
  case (Inr r)
  obtain pu tp where r: "r = (pu, tp)" by (cases r)
  let ?u = "the (findByEmail (normalizeEmail email) d)"
  obtain user where u: "findByEmail (normalizeEmail email) d = Some user"
    and g: "getUser (usr_id user) d = Inr pu" and c: "createTokenPair C ar dr (usr_id user) d = (Inr tp, snd (login C ar dr (\<lambda>_ d. d) email password d))"
    using Inr r by (auto simp: login_def split: option.splits sum.splits prod.splits if_splits)
  have id: "pu_id pu = usr_id user"
    using g by (auto simp: getUser_def fromOption_Inr_iff findById_def publicUserSelect_def dest: find_first_Some)
  obtain row where p: "prepareTokenPair C ar dr (usr_id user) = Inr (tp, row)"
    and cr: "create_refresh row d = Inr (snd (login C ar dr (\<lambda>_ d. d) email password d))"
    using c by (auto simp: createTokenPair_def split: sum.splits)
  have "refreshTokens (snd (login C ar dr (\<lambda>_ d. d) email password d)) = refreshTokens d @ [row]"
    "\<forall>t \<in> set (refreshTokens d). rt_id t \<noteq> rt_id row" using create_refreshD [OF cr] by (metis db.select_convs(2) db.surjective db.update_convs(2), blast)
  from open_step [OF this, of now] show ?thesis
    using prepared_token [OF p] prepared_expiry [OF p] id by (simp add: Inr r opened_def)
qed

lemma verify_cases:
  assumes "verifyRegistration C ar dr env fault email code d = (Inr (pu, tokens), d')"
  obtains pending row where "find_pending (normalizeEmail email) d = Some pending" "ar_now ar < pr_pendingExpiresAt pending"
    "ar_now ar < pr_expiresAt pending" "pr_attemptCount pending < max_registration (ar_config ar)"
    "verifyHash C (pr_codeHash pending) (codes code)" "prepareTokenPair C ar dr (dr_userId dr) = Inr (tokens, row)"
    "claim_registration (getRegistrationPolicy (ar_config ar)) (ar_now ar) dr row (normalizeEmail email) pending
       (env 2 (env 1 d)) = Inr (pu, d')"
proof -
  let ?policy = "getRegistrationPolicy (ar_config ar)"
  obtain pending where p: "find_pending (normalizeEmail email) d = Some pending"
    using assms by (auto simp: verifyRegistration_def Let_def split: option.splits)
  have c: "\<not> pr_pendingExpiresAt pending \<le> ar_now ar" "\<not> pr_expiresAt pending \<le> ar_now ar"
    "\<not> pr_attemptCount pending \<ge> po_maxAttempts ?policy" "verifyHash C (pr_codeHash pending) (codes code)"
    using assms p by (auto simp: verifyRegistration_def Let_def split: if_splits)
  obtain tk row where r: "prepareTokenPair C ar dr (dr_userId dr) = Inr (tk, row)"
    using assms p c by (cases "prepareTokenPair C ar dr (dr_userId dr)") (auto simp: verifyRegistration_def Let_def)
  have f: "fault = None" "findByEmail (normalizeEmail email) (env 1 d) = None"
    using assms p c r by (auto simp: verifyRegistration_def Let_def split: option.splits if_splits)
  have "(case run_tx (claim_registration ?policy (ar_now ar) dr row (normalizeEmail email) pending) (env 2 (env 1 d)) of
      (Inl e, d2) \<Rightarrow> (Inl (verify_failed e), d2) | (Inr user, d2) \<Rightarrow> (Inr (user, tk), d2)) = (Inr (pu, tokens), d')"
    using assms p c r f by (simp add: verifyRegistration_def Let_def del: One_nat_def)
  then have "tk = tokens \<and> claim_registration ?policy (ar_now ar) dr row (normalizeEmail email) pending (env 2 (env 1 d)) = Inr (pu, d')"
    by (auto simp: run_tx_def split: prod.splits sum.splits)
  with that p c r show ?thesis by (simp add: max_registration_def)
qed

lemma verify_error_keeps:
  "(case verifyRegistration C ar dr (\<lambda>_ d. d) fault email code d of
      (Inl e, d') \<Rightarrow> refreshTokens d' = refreshTokens d \<and> users d' = users d | (Inr _, d') \<Rightarrow> True)"
  unfolding verifyRegistration_def Let_def
  by (simp add: footprints run_tx_def split: option.split sum.split prod.split)

lemma verify_opens:
  "session_step now (opened ar dr (fst (verifyRegistration C ar dr (\<lambda>_ d. d) fault email code d))) (sessions d) =
     Some (sessions (snd (verifyRegistration C ar dr (\<lambda>_ d. d) fault email code d)))"
proof (cases "fst (verifyRegistration C ar dr (\<lambda>_ d. d) fault email code d)")
  case (Inl e)
  then have "refreshTokens (snd (verifyRegistration C ar dr (\<lambda>_ d. d) fault email code d)) = refreshTokens d"
    using verify_error_keeps [where C = C and ar = ar and dr = dr and fault = fault and email = email and code = code and d = d]
    by (simp add: case_prod_beta)
  from sessions_cong [OF this] Inl show ?thesis by (simp add: opened_def)
next
  case (Inr r)
  obtain pu tp where r: "r = (pu, tp)" by (cases r)
  let ?d = "snd (verifyRegistration C ar dr (\<lambda>_ d. d) fault email code d)"
  have "verifyRegistration C ar dr (\<lambda>_ d. d) fault email code d = (Inr (pu, tp), ?d)" using Inr r by (metis prod.collapse)
  then obtain pending row where p: "prepareTokenPair C ar dr (dr_userId dr) = Inr (tp, row)"
    and c: "claim_registration (getRegistrationPolicy (ar_config ar)) (ar_now ar) dr row (normalizeEmail email) pending d = Inr (pu, ?d)"
    by (rule verify_cases)
  note cd = claim_registrationD [OF c]
  have "refreshTokens ?d = refreshTokens d @ [row]" "\<forall>t \<in> set (refreshTokens d). rt_id t \<noteq> rt_id row"
    using conjunct1 [OF cd, THEN arg_cong [where f = refreshTokens]] cd by simp_all
  from open_step [OF this, of now] show ?thesis
    using cd prepared_token [OF p] prepared_expiry [OF p]
    by (simp add: Inr r opened_def publicUserSelect_def user_of_def)
qed

lemma refresh_rotates:
  assumes "keyed rt_id (refreshTokens d)"
  shows "session_step (ar_now ar) (rotated C ar dr token (fst (refresh C ar dr (\<lambda>_ d. d) fault token d))) (sessions d) =
     Some (sessions (snd (refresh C ar dr (\<lambda>_ d. d) fault token d)))"
proof (cases "fst (refresh C ar dr (\<lambda>_ d. d) fault token d)")
  case (Inl e)
  then have "snd (refresh C ar dr (\<lambda>_ d. d) fault token d) = d"
    by (auto simp: refresh_def Let_def run_tx_def split: option.splits sum.splits prod.splits if_splits)
  with Inl show ?thesis by (simp add: rotated_def)
next
  case (Inr tokens)
  let ?d = "snd (refresh C ar dr (\<lambda>_ d. d) fault token d)"
  have "refresh C ar dr (\<lambda>_ d. d) fault token d = (Inr tokens, ?d)" using Inr by (metis prod.collapse)
  then obtain u i t row where v: "verifyRefreshToken C (ar_config ar) (ar_now ar) token = Inr (u, i)"
    and t: "find_token i d = Some t" "rt_userId t = u" "ar_now ar < rt_expiresAt t"
    and p: "prepareTokenPair C ar dr u = Inr (tokens, row)" and rot: "rotate_token i u row d = Inr ((), ?d)"
    by (rule refresh_cases)
  note rd = rotate_tokenD [OF rot] and row = prepared_token [OF p] prepared_expiry [OF p]
  let ?rest = "delete_where (token_owned i u) (refreshTokens d)"
  have app: "refreshTokens ?d = ?rest @ [row]" "\<forall>s \<in> set ?rest. rt_id s \<noteq> rt_id row"
    using rd by (metis db.select_convs(2) db.surjective db.update_convs(2), auto)
  have s: "sessions ?d = ((sessions d)(i := None))(rt_id row \<mapsto> (rt_userId row, rt_expiresAt row))"
    using sessions_append [OF app, of d] sessions_close [OF assms t(1,2)] by simp
  have "sessions d (rt_id row) = None \<or> rt_id row = i"
    using rd by (auto simp: sessions_None token_owned_def)
  moreover have "sessions d i = Some (u, rt_expiresAt t)" using t by (simp add: sessions_def)
  ultimately show ?thesis using t(3) row s by (auto simp: rotated_def Inr v)
qed

lemma logout_closes:
  assumes "keyed rt_id (refreshTokens d)"
  shows "session_step now (closed C ar token (fst (logout C ar (\<lambda>_ d. d) token d))) (sessions d) =
     Some (sessions (snd (logout C ar (\<lambda>_ d. d) token d)))"
proof (cases "verifyRefreshToken C (ar_config ar) (ar_now ar) token")
  case (Inl e)
  then show ?thesis by (simp add: logout_def closed_def)
next
  case (Inr p)
  obtain u i where p: "p = (u, i)" by (cases p)
  show ?thesis
  proof (cases "find_token i d")
    case None
    then have "sessions d i = None" by (simp add: sessions_def)
    with None show ?thesis by (simp add: logout_def closed_def Inr p)
  next
    case (Some t)
    then have i: "rt_id t = i" by (auto simp: find_token_def dest: find_first_Some)
    show ?thesis
    proof (cases "rt_userId t = u \<and> verifyHash C (rt_tokenHash t) (codes token)")
      case True
      then have "sessions (delete_tokens (token_owned i u) d) = (sessions d)(i := None)" "sessions d i = Some (u, rt_expiresAt t)"
        using sessions_close [OF assms Some] Some by (simp_all add: delete_tokens_def sessions_def)
      with True show ?thesis by (simp add: logout_def closed_def Inr p Some i)
    next
      case False
      then show ?thesis by (auto simp: logout_def closed_def Inr p Some)
    qed
  qed
qed

text \<open>A reset without interference.\<close>

definition live :: "int \<Rightarrow> int \<Rightarrow> reset_row \<Rightarrow> bool" where
  "live m now r \<longleftrightarrow> pw_usedAt r = None \<and> pw_expiresAt r > now \<and> pw_attemptCount r < m"

lemma reset_unknown:
  "findByEmail (normalizeEmail email) d = None \<or>
   (\<exists>user. findByEmail (normalizeEmail email) d = Some user \<and> (case latest_request (usr_id user) d of
      None \<Rightarrow> True | Some r \<Rightarrow> \<not> live (max_reset (ar_config ar)) (ar_now ar) r)) \<Longrightarrow>
   resetPassword C ar dr (\<lambda>_ d. d) fault email code password d = (Inl invalid_reset_code, d)"
  by (auto simp: resetPassword_def Let_def live_def max_reset_def split: option.splits)

lemma reset_wrong:
  assumes "findByEmail (normalizeEmail email) d = Some user" "latest_request (usr_id user) d = Some r"
    "live (max_reset (ar_config ar)) (ar_now ar) r" "\<not> verifyHash C (pw_codeHash r) (codes code)" "env 1 d = d"
  shows "resetPassword C ar dr env fault email code password d = (Inl invalid_reset_code,
    recordFailedResetAttempt (pw_id r) (pw_attemptCount r) (max_reset (ar_config ar)) (ar_now ar) (env 2 d))"
  using assms by (simp add: resetPassword_def Let_def live_def max_reset_def del: One_nat_def)

lemma reset_right:
  assumes "findByEmail (normalizeEmail email) d = Some user" "latest_request (usr_id user) d = Some r"
    "live (max_reset (ar_config ar)) (ar_now ar) r" "verifyHash C (pw_codeHash r) (codes code)"
  shows "resetPassword C ar dr (\<lambda>_ d. d) None email code password d =
    run_tx (claim_reset (max_reset (ar_config ar)) (ar_now ar) (pw_id r) (usr_id user) (cr_hash C (dr_salt1 dr) password)) d"
  using assms by (simp add: resetPassword_def Let_def live_def max_reset_def)

lemma user_by_email: "findByEmail e d = Some u \<Longrightarrow> u \<in> set (users d) \<and> usr_email u = e"
  by (auto simp: findByEmail_def dest: find_first_Some)

lemma claim_reset_live:
  assumes "keyed pw_id (resetRequests d)" "latest_request u d = Some r" "live m now r" "u \<in> usr_id ` set (users d)"
  shows "\<exists>d'. claim_reset m now (pw_id r) u h d = Inr ((), d')"
proof -
  have r: "r \<in> set (resetRequests d)" "pw_userId r = u" using latest_in [OF assms(2)] by simp_all
  then have "count_where (resettable m now (pw_id r) u) (resetRequests d) = 1"
    using assms(3) by (intro count_where_eq_1 [OF assms(1)]) (simp_all add: resettable_def live_def)
  moreover have "\<exists>v \<in> set (users d). usr_id v = u" using assms(4) by auto
  ultimately show ?thesis by (auto simp: claim_reset_def update_user_def footprints)
qed

lemma reset_cases:
  assumes "keyed pw_id (resetRequests d)"
  obtains (refused) "resetPassword C ar dr (\<lambda>_ d. d) None email code password d = (Inl invalid_reset_code, d)"
      "\<And>user r. findByEmail (normalizeEmail email) d = Some user \<Longrightarrow> latest_request (usr_id user) d = Some r \<Longrightarrow>
         \<not> live (max_reset (ar_config ar)) (ar_now ar) r"
  | (wrong) user r where "findByEmail (normalizeEmail email) d = Some user" "latest_request (usr_id user) d = Some r"
      "live (max_reset (ar_config ar)) (ar_now ar) r" "\<not> verifyHash C (pw_codeHash r) (codes code)"
      "resetPassword C ar dr (\<lambda>_ d. d) None email code password d = (Inl invalid_reset_code,
         recordFailedResetAttempt (pw_id r) (pw_attemptCount r) (max_reset (ar_config ar)) (ar_now ar) d)"
  | (reset) user r d' where "findByEmail (normalizeEmail email) d = Some user" "latest_request (usr_id user) d = Some r"
      "live (max_reset (ar_config ar)) (ar_now ar) r" "verifyHash C (pw_codeHash r) (codes code)"
      "resetPassword C ar dr (\<lambda>_ d. d) None email code password d = (Inr (), d')"
      "claim_reset (max_reset (ar_config ar)) (ar_now ar) (pw_id r) (usr_id user) (cr_hash C (dr_salt1 dr) password) d = Inr ((), d')"
proof (cases "\<exists>user r. findByEmail (normalizeEmail email) d = Some user \<and> latest_request (usr_id user) d = Some r \<and>
    live (max_reset (ar_config ar)) (ar_now ar) r")
  case False
  then have "resetPassword C ar dr (\<lambda>_ d. d) None email code password d = (Inl invalid_reset_code, d)"
    by (intro reset_unknown) (cases "findByEmail (normalizeEmail email) d", auto split: option.split)
  with False show ?thesis by (intro refused) blast+
next
  case True
  then obtain user r where u: "findByEmail (normalizeEmail email) d = Some user" and r: "latest_request (usr_id user) d = Some r"
    and l: "live (max_reset (ar_config ar)) (ar_now ar) r" by blast
  show ?thesis
  proof (cases "verifyHash C (pw_codeHash r) (codes code)")
    case True
    obtain d' where c: "claim_reset (max_reset (ar_config ar)) (ar_now ar) (pw_id r) (usr_id user) (cr_hash C (dr_salt1 dr) password) d = Inr ((), d')"
      using claim_reset_live [OF assms r l] user_by_email [OF u] by auto
    then have "resetPassword C ar dr (\<lambda>_ d. d) None email code password d = (Inr (), d')"
      using reset_right [OF u r l True] by simp
    with u r l True c show ?thesis by (intro reset)
  next
    case False
    from reset_wrong [OF u r l this, where env = "\<lambda>_ d. d"] u r l False show ?thesis by (intro wrong) simp_all
  qed
qed

lemma reset_revokes:
  assumes "keyed rt_id (refreshTokens d)" "keyed pw_id (resetRequests d)"
  shows "session_step now (revoked email d (fst (resetPassword C ar dr (\<lambda>_ d. d) None email code password d))) (sessions d) =
     Some (sessions (snd (resetPassword C ar dr (\<lambda>_ d. d) None email code password d)))"
  using assms(2)
proof (cases rule: reset_cases [where C = C and ar = ar and dr = dr and email = email and code = code and password = password])
  case refused
  then show ?thesis by (simp add: revoked_def)
next
  case (wrong user r)
  then have "sessions (snd (resetPassword C ar dr (\<lambda>_ d. d) None email code password d)) = sessions d"
    by (intro sessions_cong) (simp add: footprints)
  with wrong show ?thesis by (simp add: revoked_def)
next
  case (reset user r d')
  have "refreshTokens d' = delete_where (\<lambda>t. rt_userId t = usr_id user) (refreshTokens d)"
    using claim_resetD [OF reset(6)] by (simp add: footprints)
  from sessions_revoke [OF assms(1) this, of now] reset show ?thesis by (simp add: revoked_def)
qed

lemma start_pending_sessions:
  "refreshTokens base = refreshTokens d \<Longrightarrow> refreshTokens (snd (start_pending C policy now dr email dto base d)) = refreshTokens d"
  by (auto simp: start_pending_def Let_def dest!: create_pendingD split: sum.splits)

lemma other_requests_keep_sessions:
  "refreshTokens (fst (snd (register C ar dr (\<lambda>_ d. d) fault dto d))) = refreshTokens d"
  "refreshTokens (fst (snd (resendRegistrationCode C ar dr (\<lambda>_ d. d) fault email d))) = refreshTokens d"
  "refreshTokens (fst (snd (forgotPassword C ar dr (\<lambda>_ d. d) fault email d))) = refreshTokens d"
  "refreshTokens (snd (updateMe u timezone d)) = refreshTokens d"
proof -
  have tx: "refreshTokens (snd (register_tx C policy now dr (\<lambda>d. d) e dto d)) = refreshTokens d" for policy now e
    by (simp add: register_tx_def Let_def start_pending_sessions footprints split: option.split)
  have failed: "refreshTokens (snd (register_failed policy later (\<lambda>_ d. d) e x d)) = refreshTokens d" for policy later e x d
    by (simp add: register_failed_def Let_def split: option.split)
  define q where "q = (case fault of Some e \<Rightarrow> (Inl e, d)
    | None \<Rightarrow> register_tx C (getRegistrationPolicy (ar_config ar)) (ar_now ar) dr (\<lambda>d. d) (normalizeEmail (rd_email dto)) dto d)"
  have q: "refreshTokens (snd q) = refreshTokens d" using tx by (simp add: q_def split: option.split)
  show "refreshTokens (fst (snd (register C ar dr (\<lambda>_ d. d) fault dto d))) = refreshTokens d"
    unfolding register_def Let_def q_def [symmetric] case_prod_beta using q
    by (simp add: footprints failed case_prod_beta split: sum.split registration_start.split)
  have rtx: "refreshTokens (snd (resend_tx policy now h (\<lambda>d. d) e d)) = refreshTokens d" for policy now h e
    by (simp add: resend_tx_def Let_def footprints split: option.split sum.split)
  show "refreshTokens (fst (snd (resendRegistrationCode C ar dr (\<lambda>_ d. d) fault email d))) = refreshTokens d"
    unfolding resendRegistrationCode_def Let_def case_prod_beta
    by (simp add: footprints rtx split: sum.split resend_start.split option.split)
  have ftx: "refreshTokens (snd (forgot_tx now ttl c i h (\<lambda>d. d) u d)) = refreshTokens d" for now ttl c i h u
    by (auto simp: forgot_tx_def Let_def run_tx_def result_iffs footprints dest!: create_resetD split: sum.splits prod.splits)
  show "refreshTokens (fst (snd (forgotPassword C ar dr (\<lambda>_ d. d) fault email d))) = refreshTokens d"
    unfolding forgotPassword_def Let_def case_prod_beta
    by (simp add: footprints ftx split: sum.split option.split)
  show "refreshTokens (snd (updateMe u timezone d)) = refreshTokens d"
    unfolding updateMe_def using update_profile_cases [of u timezone d] by auto
qed

text \<open>
  C10. The handlers implement the store of sessions: seen as a map from session identifiers to their user and
  expiry, the token table changes exactly by the store's operation that the answer stands for, and only when
  the store permits it. A login or a verified registration opens a session under a new identifier, a refresh
  replaces an unexpired session of the same user by a new one, a logout closes the token's session, a reset
  closes every session of its user, and everything else, every error included, keeps the store.
\<close>

theorem handlers_implement_session_store:
  assumes "accounts_ok config d"
  shows "session_step (ar_now ar) (opened ar dr (fst (login C ar dr (\<lambda>_ d. d) email password d))) (sessions d) =
      Some (sessions (snd (login C ar dr (\<lambda>_ d. d) email password d))) \<and>
    session_step (ar_now ar) (opened ar dr (fst (verifyRegistration C ar dr (\<lambda>_ d. d) fault email code d))) (sessions d) =
      Some (sessions (snd (verifyRegistration C ar dr (\<lambda>_ d. d) fault email code d))) \<and>
    session_step (ar_now ar) (rotated C ar dr token (fst (refresh C ar dr (\<lambda>_ d. d) fault token d))) (sessions d) =
      Some (sessions (snd (refresh C ar dr (\<lambda>_ d. d) fault token d))) \<and>
    session_step (ar_now ar) (closed C ar token (fst (logout C ar (\<lambda>_ d. d) token d))) (sessions d) =
      Some (sessions (snd (logout C ar (\<lambda>_ d. d) token d))) \<and>
    session_step (ar_now ar) (revoked email d (fst (resetPassword C ar dr (\<lambda>_ d. d) None email code password d))) (sessions d) =
      Some (sessions (snd (resetPassword C ar dr (\<lambda>_ d. d) None email code password d))) \<and>
    sessions (fst (snd (register C ar dr (\<lambda>_ d. d) fault dto d))) = sessions d \<and>
    sessions (fst (snd (resendRegistrationCode C ar dr (\<lambda>_ d. d) fault email d))) = sessions d \<and>
    sessions (fst (snd (forgotPassword C ar dr (\<lambda>_ d. d) fault email d))) = sessions d \<and>
    sessions (snd (updateMe u timezone d)) = sessions d"
proof -
  have k: "keyed rt_id (refreshTokens d)" "keyed pw_id (resetRequests d)" using assms by (simp_all add: accounts_ok_def keys_ok_def)
  show ?thesis
    using login_opens verify_opens refresh_rotates [OF k(1)] logout_closes [OF k(1)] reset_revokes [OF k]
      other_requests_keep_sessions [THEN sessions_cong] by (intro conjI)
qed

theorem handlers_implement_session_store_witness:
  "sessions demo_account_db ''t1'' = Some (''u'', 1000) \<and>
   session_step 5 (rotated demo_crypto (demo_request_at 5) demo_draws ''t1''
       (fst (refresh demo_crypto (demo_request_at 5) demo_draws (\<lambda>_ d. d) None ''t1'' demo_account_db))) (sessions demo_account_db) =
     Some (sessions (snd (refresh demo_crypto (demo_request_at 5) demo_draws (\<lambda>_ d. d) None ''t1'' demo_account_db)))"
proof -
  have "ar_now (demo_request_at 5) = 5" by (simp add: demo_request_at_def)
  with handlers_implement_session_store [OF demo_accounts_ok, where ar = "demo_request_at 5" and C = demo_crypto and dr = demo_draws
      and token = "''t1''" and fault = None] demo_reads(3)
  show ?thesis by (simp add: sessions_def)
qed

section \<open>Guessing a reset code\<close>

text \<open>A guess: the request, its draws, the code and the new password. Guesses made one after the other.\<close>

type_synonym guess = "auth_request \<times> draws \<times> string \<times> utext"

fun try_codes :: "crypto \<Rightarrow> string \<Rightarrow> guess list \<Rightarrow> db \<Rightarrow> db" where
  "try_codes C email [] d = d"
| "try_codes C email ((ar, dr, code, password) # gs) d =
     try_codes C email gs (snd (resetPassword C ar dr (\<lambda>_ d. d) None email code password d))"

text \<open>Guesses in flight together: all are verified before the first is recorded.\<close>

fun overlapping_codes :: "crypto \<Rightarrow> string \<Rightarrow> guess list \<Rightarrow> db \<Rightarrow> db" where
  "overlapping_codes C email [] d = d"
| "overlapping_codes C email ((ar, dr, code, password) # gs) d =
     snd (resetPassword C ar dr (\<lambda>k x. if k = 2 then overlapping_codes C email gs x else x) None email code password d)"

definition wrong_guess :: "crypto \<Rightarrow> environment \<Rightarrow> string \<Rightarrow> guess \<Rightarrow> bool" where
  "wrong_guess C config codeHash g =
     (case g of (ar, dr, code, password) \<Rightarrow> ar_config ar = config \<and> \<not> verifyHash C codeHash (codes code))"

definition guess_time :: "guess \<Rightarrow> int" where
  "guess_time g = ar_now (fst g)"

text \<open>The request can take \<open>n\<close> more wrong codes at most, now or later.\<close>

definition budget :: "int \<Rightarrow> int \<Rightarrow> int \<Rightarrow> reset_row \<Rightarrow> bool" where
  "budget m now n r \<longleftrightarrow> pw_usedAt r \<noteq> None \<or> pw_expiresAt r \<le> now \<or> m \<le> pw_attemptCount r + n"

lemma guess_step:
  assumes "findByEmail (normalizeEmail email) d = Some user" "latest_request (usr_id user) d = Some r"
    and "keyed pw_id (resetRequests d)" "\<not> verifyHash C (pw_codeHash r) (codes code)" "ar_now ar \<le> t" "1 \<le> n"
    and d'_def: "d' = snd (resetPassword C ar dr (\<lambda>_ d. d) None email code password d)"
  shows "findByEmail (normalizeEmail email) d' = Some user \<and> keyed pw_id (resetRequests d') \<and>
    (\<exists>r'. latest_request (usr_id user) d' = Some r' \<and> pw_codeHash r' = pw_codeHash r \<and>
      (budget (max_reset (ar_config ar)) (ar_now ar) n r \<longrightarrow> budget (max_reset (ar_config ar)) t (n - 1) r'))"
  using assms(3)
proof (cases rule: reset_cases [where C = C and ar = ar and dr = dr and email = email and code = code and password = password])
  case refused
  then have "d' = d" "\<not> live (max_reset (ar_config ar)) (ar_now ar) r" using assms(1,2) by (auto simp: d'_def)
  moreover from this(2) have "budget (max_reset (ar_config ar)) t (n - 1) r" using assms(5,6) by (auto simp: live_def budget_def)
  ultimately show ?thesis using assms(1-3) by blast
next
  case (wrong user' r')
  then have same: "user' = user" "r' = r" using assms(1,2) by auto
  let ?m = "max_reset (ar_config ar)"
  have d': "d' = recordFailedResetAttempt (pw_id r) (pw_attemptCount r) ?m (ar_now ar) d" using wrong same by (simp add: d'_def)
  have l: "live ?m (ar_now ar) r" using wrong same by simp
  then have "latest_request (usr_id user) d' = Some (guessed ?m (ar_now ar) (pw_attemptCount r) r)"
    unfolding d' by (intro latest_after_guess assms(2,3)) (simp_all add: live_def)
  moreover have "budget ?m t (n - 1) (guessed ?m (ar_now ar) (pw_attemptCount r) r)" if "budget ?m (ar_now ar) n r"
    using that l by (auto simp: budget_def guessed_def live_def)
  moreover have "findByEmail (normalizeEmail email) d' = Some user" using assms(1) by (simp add: d' findByEmail_def footprints)
  moreover have "keyed pw_id (resetRequests d')" using assms(3) by (simp add: d')
  ultimately show ?thesis by (auto simp: guessed_def)
next
  case (reset user' r' d2)
  then show ?thesis using assms(1,2,4) by auto
qed

lemma try_codes_budget:
  assumes "findByEmail (normalizeEmail email) d = Some user" "latest_request (usr_id user) d = Some r"
    and "keyed pw_id (resetRequests d)" "list_all (wrong_guess C config (pw_codeHash r)) gs"
    and "sorted (t0 # map guess_time gs @ [t])" "budget (max_reset config) t0 (int (length gs)) r"
  shows "findByEmail (normalizeEmail email) (try_codes C email gs d) = Some user \<and>
    (\<exists>r'. latest_request (usr_id user) (try_codes C email gs d) = Some r' \<and> budget (max_reset config) t 0 r')"
  using assms
proof (induction gs arbitrary: d r t0)
  case Nil
  then show ?case by (auto simp: budget_def)
next
  case (Cons g gs)
  obtain ar dr code password where g: "g = (ar, dr, code, password)" by (cases g)
  define d' where "d' = snd (resetPassword C ar dr (\<lambda>_ d. d) None email code password d)"
  define t1 where "t1 = guess_time g"
  have w: "\<not> verifyHash C (pw_codeHash r) (codes code)" "ar_config ar = config" "ar_now ar = t1"
    using Cons.prems(4) by (simp_all add: g wrong_guess_def t1_def guess_time_def)
  have "budget (max_reset config) t1 (int (length gs) + 1) r"
    using Cons.prems(5,6) by (auto simp: budget_def t1_def add.commute)
  then obtain r' where r': "findByEmail (normalizeEmail email) d' = Some user" "keyed pw_id (resetRequests d')"
    "latest_request (usr_id user) d' = Some r'" "pw_codeHash r' = pw_codeHash r" "budget (max_reset config) t1 (int (length gs)) r'"
    using guess_step [OF Cons.prems(1-3) w(1) _ _ d'_def, of t1 "int (length gs) + 1"] w(2,3) by auto
  have "list_all (wrong_guess C config (pw_codeHash r')) gs" "sorted (t1 # map guess_time gs @ [t])"
    using Cons.prems(4,5) r'(4) by (simp_all add: t1_def)
  from Cons.IH [OF r'(1,3,2) this r'(5)] show ?case by (simp add: g d'_def)
qed

text \<open>
  C35. A reset code survives fewer wrong guesses than the configured maximum: once that many wrong codes have
  been tried one after the other, the code is dead and even the right one is refused, from then on and
  whatever the new password, until the user asks for another.
\<close>

theorem reset_code_budget:
  assumes "accounts_ok config d" "findByEmail (normalizeEmail email) d = Some user" "latest_request (usr_id user) d = Some r"
    and "list_all (wrong_guess C config (pw_codeHash r)) gs" "sorted (map guess_time gs @ [ar_now ar])" "ar_config ar = config"
    and "max_reset config \<le> pw_attemptCount r + int (length gs)"
  shows "resetPassword C ar dr (\<lambda>_ d. d) fault email code password (try_codes C email gs d) =
    (Inl invalid_reset_code, try_codes C email gs d)"
proof -
  define t0 where "t0 = (case gs of [] \<Rightarrow> ar_now ar | g # _ \<Rightarrow> guess_time g)"
  have "sorted (t0 # map guess_time gs @ [ar_now ar])" using assms(5) by (auto simp: t0_def sorted_append split: list.splits)
  moreover have "budget (max_reset config) t0 (int (length gs)) r" using assms(7) by (simp add: budget_def)
  moreover have "keyed pw_id (resetRequests d)" using assms(1) by (simp add: accounts_ok_def keys_ok_def)
  ultimately obtain r' where "findByEmail (normalizeEmail email) (try_codes C email gs d) = Some user"
    "latest_request (usr_id user) (try_codes C email gs d) = Some r'" "budget (max_reset config) (ar_now ar) 0 r'"
    using try_codes_budget [OF assms(2,3) _ assms(4)] by blast
  then show ?thesis using assms(6) by (intro reset_unknown) (auto simp: live_def budget_def)
qed

definition demo_guesses :: "guess list" where
  "demo_guesses = replicate 5 (demo_request_at 5, demo_draws, ''000001'', [])"

theorem reset_code_budget_witness:
  "fst (resetPassword demo_crypto (demo_request_at 6) demo_draws (\<lambda>_ d. d) None ''a@b.c'' ''000042'' []
     (try_codes demo_crypto ''a@b.c'' demo_guesses demo_account_db)) = Inl invalid_reset_code"
proof -
  note w = demo_codes(1)
  have u: "usr_id demo_user = ''u''" by (simp add: demo_user_def)
  have f: "findByEmail (normalizeEmail ''a@b.c'') demo_account_db = Some demo_user" by (simp add: demo_email_normal demo_reads)
  from reset_code_budget [OF demo_accounts_ok f demo_reads(2) [folded u], of demo_crypto demo_guesses "demo_request_at 6"]
  show ?thesis using w by (simp add: demo_guesses_def wrong_guess_def guess_time_def demo_request_at_def demo_attempt_limits numeral_eq_Suc)
qed

lemma overlapping_latest:
  assumes "findByEmail (normalizeEmail email) d = Some user" "latest_request (usr_id user) d = Some r" "keyed pw_id (resetRequests d)"
    and "pw_usedAt r = None" "pw_attemptCount r + 1 < max_reset config"
    and "list_all (\<lambda>g. wrong_guess C config (pw_codeHash r) g \<and> guess_time g < pw_expiresAt r) gs"
  shows "keyed pw_id (resetRequests (overlapping_codes C email gs d)) \<and>
    latest_request (usr_id user) (overlapping_codes C email gs d) =
      Some (if gs = [] then r else r\<lparr>pw_attemptCount := pw_attemptCount r + 1\<rparr>)"
  using assms(6)
proof (induction gs)
  case Nil
  then show ?case using assms(2,3) by simp
next
  case (Cons g gs)
  obtain ar dr code password where g: "g = (ar, dr, code, password)" by (cases g)
  let ?m = "max_reset config" and ?n = "pw_attemptCount r" and ?d = "overlapping_codes C email gs d"
  have w: "\<not> verifyHash C (pw_codeHash r) (codes code)" "ar_config ar = config" "ar_now ar < pw_expiresAt r"
    using Cons.prems by (simp_all add: g wrong_guess_def guess_time_def)
  have "live (max_reset (ar_config ar)) (ar_now ar) r" using assms(4,5) w by (simp add: live_def)
  from reset_wrong [OF assms(1,2) this w(1), where env = "\<lambda>k x. if k = 2 then overlapping_codes C email gs x else x"]
  have d': "overlapping_codes C email (g # gs) d = recordFailedResetAttempt (pw_id r) ?n ?m (ar_now ar) ?d" by (simp add: g w(2))
  let ?r = "if gs = [] then r else r\<lparr>pw_attemptCount := ?n + 1\<rparr>"
  have IH: "keyed pw_id (resetRequests ?d)" "latest_request (usr_id user) ?d = Some ?r" using Cons by simp_all
  have "latest_request (usr_id user) (recordFailedResetAttempt (pw_id ?r) ?n ?m (ar_now ar) ?d) = Some (guessed ?m (ar_now ar) ?n ?r)"
    by (rule latest_after_guess [OF IH(2,1)]) (use assms(5) in auto)
  moreover have "pw_id ?r = pw_id r" "guessed ?m (ar_now ar) ?n ?r = r\<lparr>pw_attemptCount := ?n + 1\<rparr>"
    using assms(4,5) w(3) by (auto simp: guessed_def)
  ultimately show ?case using IH(1) by (simp add: d')
qed

text \<open>
  C36. A finding: the budget of guesses only binds guesses made one after the other. However many wrong codes
  are in flight together, all verified against the same stored attempt count, they are counted as one, since
  each increment asks for the count it has read.
\<close>

theorem overlapping_guesses_count_once:
  assumes "accounts_ok config d" "findByEmail (normalizeEmail email) d = Some user" "latest_request (usr_id user) d = Some r"
    and "pw_usedAt r = None" "pw_attemptCount r + 1 < max_reset config" "gs \<noteq> []"
    and "list_all (\<lambda>g. wrong_guess C config (pw_codeHash r) g \<and> guess_time g < pw_expiresAt r) gs"
  shows "latest_request (usr_id user) (overlapping_codes C email gs d) = Some (r\<lparr>pw_attemptCount := pw_attemptCount r + 1\<rparr>)"
  using overlapping_latest [OF assms(2,3) _ assms(4,5,7)] assms(1,6) by (simp add: accounts_ok_def keys_ok_def)

theorem overlapping_guesses_count_once_witness:
  "map_option pw_attemptCount (latest_request ''u'' (overlapping_codes demo_crypto ''a@b.c'' demo_guesses demo_account_db)) = Some 1"
proof -
  note w = demo_codes(1)
  have u: "usr_id demo_user = ''u''" by (simp add: demo_user_def)
  have f: "findByEmail (normalizeEmail ''a@b.c'') demo_account_db = Some demo_user" by (simp add: demo_email_normal demo_reads)
  from overlapping_guesses_count_once [OF demo_accounts_ok f demo_reads(2) [folded u], of demo_guesses demo_crypto]
  show ?thesis using w by (simp add: demo_guesses_def wrong_guess_def guess_time_def demo_request_at_def demo_attempt_limits numeral_eq_Suc u)
qed

section \<open>Password reset and registration\<close>

text \<open>
  C33. A password reset, without interference, succeeds exactly when the address belongs to a user whose latest
  request is unused, unexpired and within its attempts, and the code is its code. Then the user and no other
  has the new password's hash, every request of the user is used and every session of the user is gone;
  otherwise one error is answered and no user and no session changes.
\<close>

theorem password_reset_outcome:
  assumes "accounts_ok config d" "ar_config ar = config"
    and "resetPassword C ar dr (\<lambda>_ d. d) None email code password d = (res, d')"
  shows "(res = Inr () \<longleftrightarrow> (\<exists>user r. findByEmail (normalizeEmail email) d = Some user \<and>
      latest_request (usr_id user) d = Some r \<and> live (max_reset config) (ar_now ar) r \<and> verifyHash C (pw_codeHash r) (codes code))) \<and>
    (res = Inr () \<longrightarrow> (\<exists>user. findByEmail (normalizeEmail email) d = Some user \<and>
      users d' = update_where (\<lambda>v. usr_id v = usr_id user) (\<lambda>v. v\<lparr>usr_passwordHash := cr_hash C (dr_salt1 dr) password\<rparr>) (users d) \<and>
      (\<forall>r \<in> set (resetRequests d'). pw_userId r = usr_id user \<longrightarrow> pw_usedAt r \<noteq> None) \<and>
      refreshTokens d' = delete_where (\<lambda>t. rt_userId t = usr_id user) (refreshTokens d))) \<and>
    (res \<noteq> Inr () \<longrightarrow> res = Inl invalid_reset_code \<and> users d' = users d \<and> refreshTokens d' = refreshTokens d)"
proof -
  have k: "keyed pw_id (resetRequests d)" using assms(1) by (simp add: accounts_ok_def keys_ok_def)
  then show ?thesis
  proof (cases rule: reset_cases [where C = C and ar = ar and dr = dr and email = email and code = code and password = password])
    case refused
    then show ?thesis using assms(2,3) by auto
  next
    case (wrong user r)
    then show ?thesis using assms(2,3) by (auto simp: footprints)
  next
    case (reset user r d2)
    let ?m = "max_reset (ar_config ar)" and ?i = "pw_id r" and ?u = "usr_id user"
    note cd = claim_resetD [OF reset(6)]
    have r: "r \<in> set (resetRequests d)" using latest_in [OF reset(2)] by simp
    have rows: "resetRequests d2 = update_where (\<lambda>s. (pw_userId s = ?u \<and> pw_id s \<noteq> ?i) \<and> pw_usedAt s = None) (\<lambda>s. s\<lparr>pw_usedAt := Some (ar_now ar)\<rparr>)
        (update_where (\<lambda>s. resettable ?m (ar_now ar) ?i ?u s \<and> pw_usedAt s = None) (\<lambda>s. s\<lparr>pw_usedAt := Some (ar_now ar)\<rparr>) (resetRequests d))"
      using cd by (simp add: footprints)
    have "resettable ?m (ar_now ar) ?i ?u s" if "s \<in> set (resetRequests d)" "pw_id s = ?i" for s
      using keyed_eq [OF k that(1) r that(2)] reset(3) latest_in [OF reset(2)] by (simp add: resettable_def live_def)
    then have used: "\<forall>s \<in> set (resetRequests d2). pw_userId s = ?u \<longrightarrow> pw_usedAt s \<noteq> None"
      unfolding rows ball_update_where by fastforce
    have res: "res = Inr ()" "d' = d2" using assms(3) reset(5) by simp_all
    show ?thesis
      unfolding res using reset(1-4) used cd assms(2) by (auto simp: footprints)
  qed
qed

theorem password_reset_outcome_witness:
  "\<exists>d'. resetPassword demo_crypto (demo_request_at 6) demo_draws (\<lambda>_ d. d) None ''a@b.c'' ''000042'' [] demo_account_db = (Inr (), d') \<and>
     refreshTokens d' = []"
proof -
  let ?r = "resetPassword demo_crypto (demo_request_at 6) demo_draws (\<lambda>_ d. d) None ''a@b.c'' ''000042'' [] demo_account_db"
  have u: "usr_id demo_user = ''u''" by (simp add: demo_user_def)
  have f: "findByEmail (normalizeEmail ''a@b.c'') demo_account_db = Some demo_user" by (simp add: demo_email_normal demo_reads)
  have c: "ar_config (demo_request_at 6) = demo_auth_config" by (simp add: demo_request_at_def)
  have p: "?r = (fst ?r, snd ?r)" by simp
  note out = password_reset_outcome [OF demo_accounts_ok c p]
  have ok: "fst ?r = Inr ()"
    using out f demo_reads(2) demo_codes(2) by (simp add: u live_def demo_attempt_limits demo_request_at_def)
  then have "refreshTokens (snd ?r) = delete_where (\<lambda>t. rt_userId t = ''u'') (refreshTokens demo_account_db)"
    using out f by (simp add: u)
  then have "refreshTokens (snd ?r) = []" by (simp add: demo_account_db_def delete_where_def)
  with ok p show ?thesis by metis
qed

text \<open>
  C34. A registration is verified only by the mailed code, in time, within its attempts, and whatever happens
  meanwhile it creates exactly one user: with the name, language and password hash of the registration, a
  verified address and one session. The registration is gone, so that verifying it again fails.
\<close>

theorem verified_registration_outcome:
  assumes "verifyRegistration C ar dr env fault email code d = (Inr (u, tokens), d')"
    and "accounts_ok config (env 2 (env 1 d))" "ar_config ar = config"
  shows "\<exists>pending row. find_pending (normalizeEmail email) d = Some pending \<and> verifyHash C (pr_codeHash pending) (codes code) \<and>
    ar_now ar < pr_expiresAt pending \<and> ar_now ar < pr_pendingExpiresAt pending \<and>
    pr_attemptCount pending < max_registration config \<and>
    users d' = users (env 2 (env 1 d)) @ [user_of dr (ar_now ar) (normalizeEmail email) pending] \<and>
    u = publicUserSelect (user_of dr (ar_now ar) (normalizeEmail email) pending) \<and>
    refreshTokens d' = refreshTokens (env 2 (env 1 d)) @ [row] \<and> rt_userId row = dr_userId dr \<and>
    find_pending (normalizeEmail email) d' = None \<and>
    verifyRegistration C ar2 dr2 env2 fault2 email code2 d' = (Inl invalid_registration_code, d')"
proof -
  let ?e = "normalizeEmail email" and ?d = "env 2 (env 1 d)"
  obtain pending row where p: "find_pending ?e d = Some pending" "ar_now ar < pr_pendingExpiresAt pending"
    "ar_now ar < pr_expiresAt pending" "pr_attemptCount pending < max_registration (ar_config ar)"
    "verifyHash C (pr_codeHash pending) (codes code)" "prepareTokenPair C ar dr (dr_userId dr) = Inr (tokens, row)"
    and c: "claim_registration (getRegistrationPolicy (ar_config ar)) (ar_now ar) dr row ?e pending ?d = Inr (u, d')"
    using assms(1) by (rule verify_cases)
  note cd = claim_registrationD [OF c]
  let ?p = "pending_claimable (getRegistrationPolicy (ar_config ar)) (ar_now ar) ?e pending"
  have keyed: "keyed pr_email (pendingRegistrations ?d)" using assms(2) by (simp add: accounts_ok_def keys_ok_def)
  have "count_where ?p (pendingRegistrations ?d) = Suc 0" using cd by simp
  then obtain q where q: "q \<in> set (pendingRegistrations ?d)" "?p q" using count_where_pos by blast
  have "?p s" if "s \<in> set (pendingRegistrations ?d)" "pr_email s = ?e" for s
    using keyed_eq [OF keyed that(1) q(1)] q(2) that(2) by (simp add: pending_claimable_def)
  moreover have "pendingRegistrations d' = delete_where ?p (pendingRegistrations ?d)" using cd by (simp add: footprints)
  ultimately have none: "find_pending ?e d' = None" by (auto simp: find_pending_def find_first_None_iff)
  then have again: "verifyRegistration C ar2 dr2 env2 fault2 email code2 d' = (Inl invalid_registration_code, d')"
    by (simp add: verifyRegistration_def)
  have "users d' = users ?d @ [user_of dr (ar_now ar) ?e pending]" "refreshTokens d' = refreshTokens ?d @ [row]"
    "u = publicUserSelect (user_of dr (ar_now ar) ?e pending)"
    using cd by simp_all
  with p none again prepared_token [OF p(6)] assms(3) show ?thesis by blast
qed

definition demo_pending :: pending_row where
  "demo_pending = \<lparr>pr_id = ''p'', pr_email = ''a@b.c'', pr_passwordHash = ''h'', pr_fullName = [77], pr_language = ''en'',
     pr_codeHash = ''s000042'', pr_expiresAt = 1000, pr_attemptCount = 0, pr_lastSentAt = 0, pr_pendingExpiresAt = 2000\<rparr>"

lemma demo_verified:
  "\<exists>u tokens d'. verifyRegistration demo_crypto (demo_request_at 5) demo_draws (\<lambda>_ d. d) None ''a@b.c'' ''000042''
     (empty_db\<lparr>pendingRegistrations := [demo_pending]\<rparr>) = (Inr (u, tokens), d')"
proof -
  let ?d = "empty_db\<lparr>pendingRegistrations := [demo_pending]\<rparr>" and ?policy = "getRegistrationPolicy demo_auth_config"
  have m: "po_maxAttempts ?policy = 5" using demo_attempt_limits(2) by (simp add: max_registration_def)
  have reads: "find_pending ''a@b.c'' ?d = Some demo_pending" "findByEmail ''a@b.c'' ?d = None"
    by (simp_all add: find_pending_def findByEmail_def find_first_Cons demo_pending_def empty_db_def)
  obtain tk row where p: "prepareTokenPair demo_crypto (demo_request_at 5) demo_draws ''u'' = Inr (tk, row)"
    by (simp add: prepareTokenPair_def signTokenPair_def sign_token_def getOrThrow_def demo_request_at_def
        demo_auth_config_def demo_crypto_def)
  have row: "rt_userId row = ''u''" using prepared_token [OF p] by simp
  have one: "count_where (pending_claimable ?policy 5 ''a@b.c'' demo_pending) (pendingRegistrations ?d) = 1"
    by (simp add: pending_claimable_def count_where_Cons demo_pending_def m)
  have "\<exists>u d'. claim_registration ?policy 5 demo_draws row ''a@b.c'' demo_pending ?d = Inr (u, d')"
    using one row by (simp add: claim_registration_def create_user_def create_refresh_def user_of_def demo_draws_def
        delete_pending_def empty_db_def)
  then obtain u d' where "claim_registration ?policy 5 demo_draws row ''a@b.c'' demo_pending ?d = Inr (u, d')" by blast
  then have "verifyRegistration demo_crypto (demo_request_at 5) demo_draws (\<lambda>_ d. d) None ''a@b.c'' ''000042'' ?d = (Inr (u, tk), d')"
    using reads p demo_codes(2) m
    by (simp add: verifyRegistration_def Let_def demo_email_normal demo_request_at_def demo_draws_def demo_pending_def)
  then show ?thesis by blast
qed

theorem verified_registration_outcome_witness:
  "\<exists>d'. length (users d') = 1 \<and> verifyRegistration demo_crypto (demo_request_at 5) demo_draws (\<lambda>_ d. d) None ''a@b.c'' ''000042'' d' =
     (Inl invalid_registration_code, d')"
proof -
  let ?d = "empty_db\<lparr>pendingRegistrations := [demo_pending]\<rparr>"
  obtain u tokens d' where v: "verifyRegistration demo_crypto (demo_request_at 5) demo_draws (\<lambda>_ d. d) None ''a@b.c'' ''000042'' ?d =
      (Inr (u, tokens), d')" using demo_verified by blast
  have ok: "accounts_ok demo_auth_config ?d"
    by (simp add: accounts_ok_def keys_ok_def keyed_def links_ok_def one_open_def pending_attempts_ok_def reset_attempts_ok_def
        demo_pending_def empty_db_def demo_attempt_limits)
  have c: "ar_config (demo_request_at 5) = demo_auth_config" by (simp add: demo_request_at_def)
  from verified_registration_outcome [OF v ok c, where ?ar2.0 = "demo_request_at 5" and ?dr2.0 = demo_draws and ?env2.0 = "\<lambda>_ d. d"
      and ?fault2.0 = None and ?code2.0 = "''000042''"]
  obtain pending where "users d' = users ?d @ [user_of demo_draws (ar_now (demo_request_at 5)) (normalizeEmail ''a@b.c'') pending]"
    "verifyRegistration demo_crypto (demo_request_at 5) demo_draws (\<lambda>_ d. d) None ''a@b.c'' ''000042'' d' = (Inl invalid_registration_code, d')"
    by blast
  then show ?thesis by (intro exI [of _ d']) (simp add: empty_db_def)
qed

end
