(* ===== verification/Spec2Isabelle.thy ===== *)
theory Spec2Isabelle
  imports Worker Outputs Mail Credits Entitlements Storage Attempts Transcriptions Reports GenerationProperties GenerationOutcomes Inspector Environment Assets AccountOutcomes
begin

text \<open>
  A verification development for the FastRep API: a NestJS service in which a user collects notes, photographs,
  documents and recordings in a report, and a worker turns them into a PDF with a language model. Every theory
  opens with a text of its own; this one says how the parts fit together.

  \<^bold>\<open>The program and its model.\<close> The API processes and the workers share a PostgreSQL database, an S3
  bucket, a Redis queue and the OpenAI API. The database is the record \<open>db\<close> of \<open>Schema\<close>, one list of rows
  for each table of \<open>prisma/schema.prisma\<close>; the bucket a map from keys to bytes; both together are \<open>world\<close>
  of \<open>Storage\<close>. A service method is a function of its arguments, the clock, the answers of the outside and
  the state, with its result in \<open>exn + 'a\<close>. A transaction is a function from the state to an error or a value and
  a new state, and \<open>run_tx\<close> keeps the old state on an error. The components, in the order of their imports:

  \<^item> \<open>Prelude\<close>: errors (\<open>src/common/errors\<close>), transactions, tables and their operations \<open>count\<close>,
    \<open>updateMany\<close> and so on, JavaScript's strings. \<open>Schema\<close>: the rows and the unique indexes.
  \<^item> \<open>Credits\<close> and \<open>Entitlements\<close> (\<open>src/entitlements\<close>, \<open>src/cli\<close>): the ledger of generation
    credits with its grants, reservations, consumptions and releases, the view the API shows, the
    administrative grant.
  \<^item> \<open>Storage\<close> (\<open>src/storage\<close>): S3 and the outbox of clean-up tasks.
  \<^item> \<open>Generations\<close> (\<open>report-generations.service.ts\<close>): start, retry, cancel, compensation.
    \<open>Attempts\<close>, \<open>Transcriptions\<close> (\<open>provider-attempts\<close> and \<open>asset-transcriptions.service.ts\<close>): the
    budget of provider calls and the transcriptions.
  \<^item> \<open>Processor\<close> (the transactions and pure steps of \<open>report-generation-processor.service.ts\<close>),
    \<open>Provider\<close> (\<open>src/ai\<close>) and \<open>Pipeline\<close>, which composes them into the worker's job \<open>process\<close>.
  \<^item> \<open>Pdf\<close> (\<open>pdf-report.service.ts\<close>): the layout of the PDF as a list of what is drawn where, and the limits
    of its output; lengths are exact rationals. \<open>Worker\<close> (\<open>report-generation-worker.service.ts\<close>) runs the job for
    the queue, and \<open>Outputs\<close> (\<open>report-outputs.service.ts\<close>, the presigned URLs of \<open>src/storage\<close>) hands the
    PDF to the user.
  \<^item> \<open>Reports\<close> (\<open>src/reports\<close>), \<open>Assets\<close> and \<open>Inspector\<close> (\<open>src/report-assets\<close>): the report and
    its uploads, with the recognition of their formats byte by byte.
  \<^item> \<open>Auth\<close> and \<open>Accounts\<close> (\<open>src/auth\<close>, \<open>src/users\<close>): registration, sessions, password reset.
    \<open>Mail\<close> (\<open>src/mail\<close>): what they send.
  \<^item> \<open>Environment\<close> (\<open>src/config/environment.ts\<close>): the validation of the settings.

  \<^bold>\<open>Interleaving.\<close> What other processes commit between two accesses of a handler is an argument: \<open>env i\<close> is
  applied before its \<open>i\<close>th access, and \<open>sv_others k i\<close> in step \<open>k\<close> of a job. A theorem either allows any such
  interference or names what it relies on. For the generations the committed transactions of every process are the
  labelled step relation of \<open>GenerationSystem\<close>, and for the accounts the histories of \<open>Accounts\<close>.

  \<^bold>\<open>What is proved.\<close>
  \<^item> Invariants: \<open>Lifecycle\<close> and \<open>GenerationSystem\<close> show that all steps keep \<open>sys_ok\<close>, which ties report
    status, generation, output and credit together; \<open>GenerationProperties\<close> and \<open>GenerationOutcomes\<close> draw
    the consequences and show that each transaction can be committed when it is due.
  \<^item> The contract of a worker's writes is the locale \<open>fenced_writer\<close>, interpreted on each of them: without the
    token of the lease they change nothing.
  \<^item> \<open>PipelineProperties\<close> and \<open>PipelineOutcomes\<close>: the job as the code writes it, with its loops, providers,
    catch blocks and retries, refines the step relation; no end of it leaves a generation stuck, and its PDF is
    committed or accounted for.
  \<^item> \<open>PdfLayout\<close>: galleries keep to the page and to the proportions of their images, each image of the report is
    drawn once, no identifier of an asset is printed, an image PDFKit cannot read fails the report. \<open>Worker\<close>
    composes the job with this PDF: an output key never holds anything but a PDF within the limits, shown also on a
    complete run from claim to commit. \<open>Outputs\<close>: every ready report can be downloaded.
  \<^item> \<open>AccountProperties\<close>, \<open>AccountOutcomes\<close>: the tables of the accounts stay consistent under every
    interleaving; the token handlers refine an abstract store of sessions; codes and refresh tokens are used once.
  \<^item> \<open>Assets\<close>, \<open>Inspector\<close>, \<open>Provider\<close>, \<open>Environment\<close>: limits of uploads, the outcome of each
    confirmation, formats, the validity of generated reports, moderation, the ranges of settings.

  \<^bold>\<open>Bounds.\<close> Loops are structural recursions; the retry loops of the code run on its own constants,
  \<open>SERIALIZABLE_RETRY_LIMIT\<close> for a start and \<open>SERIALIZABLE_TRANSACTION_ATTEMPTS\<close> (3) for an upload, and the
  models return their last error when these are used up, as the code does. Numbers of the database are \<open>int\<close>:
  all values the code stores are bounded by validation far below \<open>2\<close> to the \<open>53\<close>.

  \<^bold>\<open>Parameters.\<close> Code that is not in the repository is an argument: S3 replies and signed URLs, the OpenAI
  client, zod (with \<open>zod_contract\<close>), Argon2, HMAC and JWT (the record \<open>crypto\<close>), Unicode normalisation, the
  text layout, image decoder and stream of PDFKit (the record \<open>pdfkit\<close>), \<open>Intl\<close> and the classes of Unicode,
  random ids and the clock.

  \<^bold>\<open>Not modelled.\<close> Controllers, guards' wiring, DTO decorators, Swagger and Nest modules, which hold no logic of
  their own; logging; the construction of clients; the loss of the database connection, except where a handler
  takes it as a fault; timers and abort signals, which reach the model as errors of the call they abort.
\<close>

end
